(* ===== verification/Prelude.thy ===== *)
theory Prelude
  imports Complex_Main "HOL-Library.Word" "HOL-Library.Multiset" "HOL-Library.List_Lexorder"
begin

text \<open>
  The parts every component shares. Names of the model's basic types (documents as lists of
  code points, byte strings, UUIDs, instants), the exceptions of the program as values of a sum
  type, Python's slices, sorting, splitting and replacing on lists, and the generic lemmas on
  them. Collections: \<open>py_simps\<close> rewrites the Python helpers, \<open>res_simps\<close> the result monad.
\<close>

named_theorems py_simps \<open>rewriting of the Python list and string helpers\<close>
named_theorems res_simps \<open>rewriting of results and their bind\<close>
named_theorems inv_intros \<open>every operation keeps the invariant of its component\<close>

section \<open>Basic types\<close>

text \<open>
  A document (\<open>str\<close>) is its list of code points. Identifiers that the program itself writes
  (rule names, roles, states, hex digests, versions) are HOL strings. A UUID is its 128-bit
  value; an instant (an aware \<open>datetime\<close> in UTC) is the number of microseconds since 1970.
\<close>

type_synonym doc = "nat list"
type_synonym bytes = "nat list"
type_synonym uuid = "128 word"
type_synonym instant = int

abbreviation lit :: "string \<Rightarrow> doc" where
  "lit s \<equiv> map of_char s"

text \<open>
  An \<open>HTTPException\<close> is kept with its status code; every other exception with the name of its
  class. A call either raises (\<open>Inl\<close>) or returns (\<open>Inr\<close>).
\<close>

datatype exn = HTTPException nat | PyExc string

type_synonym 'a result = "exn + 'a"

fun rbind :: "'a result \<Rightarrow> ('a \<Rightarrow> 'b result) \<Rightarrow> 'b result" where
  "rbind (Inl e) f = Inl e"
| "rbind (Inr x) f = f x"

definition raise_if :: "bool \<Rightarrow> exn \<Rightarrow> unit result" where
  "raise_if b e = (if b then Inl e else Inr ())"

fun is_ok :: "'a result \<Rightarrow> bool" where
  "is_ok (Inl e) = False"
| "is_ok (Inr x) = True"

lemma rbind_Inr_iff [res_simps]:
  "rbind r f = Inr y \<longleftrightarrow> (\<exists>x. r = Inr x \<and> f x = Inr y)"
  by (cases r) auto

lemma rbind_Inl_iff [res_simps]:
  "rbind r f = Inl e \<longleftrightarrow> r = Inl e \<or> (\<exists>x. r = Inr x \<and> f x = Inl e)"
  by (cases r) auto

lemma raise_if_Inr_iff [res_simps]: "raise_if b e = Inr u \<longleftrightarrow> \<not> b"
  by (simp add: raise_if_def)

lemma raise_if_Inl_iff [res_simps]: "raise_if b e = Inl e' \<longleftrightarrow> b \<and> e' = e"
  by (auto simp add: raise_if_def)

lemma is_ok_iff [res_simps]: "is_ok r \<longleftrightarrow> (\<exists>x. r = Inr x)"
  by (cases r) auto

section \<open>Python lists\<close>

text \<open>\<open>xs[i:j]\<close>, \<open>xs[i:j] = m\<close> (which inserts at \<open>i\<close> when \<open>j < i\<close>) for non-negative indices.\<close>

definition py_slice :: "'a list \<Rightarrow> nat \<Rightarrow> nat \<Rightarrow> 'a list" where
  "py_slice xs i j = take (j - i) (drop i xs)"

definition slice_assign :: "'a list \<Rightarrow> nat \<Rightarrow> nat \<Rightarrow> 'a list \<Rightarrow> 'a list" where
  "slice_assign xs i j m = take i xs @ m @ drop (max i j) xs"

text \<open>\<open>sorted(xs, key=k)\<close> is stable, and so is \<open>sorted(xs, key=k, reverse=True)\<close>.\<close>

definition sorted_by :: "('a \<Rightarrow> 'k::linorder) \<Rightarrow> 'a list \<Rightarrow> 'a list" where
  "sorted_by k xs = sort_key k xs"

definition sorted_by_desc :: "('a \<Rightarrow> 'k::linorder) \<Rightarrow> 'a list \<Rightarrow> 'a list" where
  "sorted_by_desc k xs = rev (sort_key k (rev xs))"

lemma set_sorted_by [simp, py_simps]: "set (sorted_by k xs) = set xs"
  by (simp add: sorted_by_def)

lemma set_sorted_by_desc [simp, py_simps]: "set (sorted_by_desc k xs) = set xs"
  by (simp add: sorted_by_desc_def)

lemma mset_sorted_by [simp, py_simps]: "mset (sorted_by k xs) = mset xs"
  by (simp add: sorted_by_def)

lemma sorted_sorted_by [simp]: "sorted (map k (sorted_by k xs))"
  by (simp add: sorted_by_def)

lemma length_sorted_by [simp]: "length (sorted_by k xs) = length xs"
  by (simp add: sorted_by_def)

lemma sorted_by_Nil [simp]: "sorted_by k [] = []"
  by (simp add: sorted_by_def)

lemma sorted_by_ident: "sorted (map k xs) \<Longrightarrow> sorted_by k xs = xs"
  by (simp add: sorted_by_def sort_key_id_if_sorted)

lemma sorted_by_desc_sorted: "sorted_wrt (\<lambda>x y. k y \<le> k x) (sorted_by_desc k xs)"
proof -
  have "sorted (map k (sort_key k (rev xs)))" by simp
  then have "sorted_wrt (\<lambda>x y. k x \<le> k y) (sort_key k (rev xs))"
    by (simp only: sorted_map)
  then show ?thesis by (simp add: sorted_by_desc_def sorted_wrt_rev)
qed

text \<open>\<open>ORDER BY k DESC LIMIT 1\<close>: the first row of the largest key, if there is a row.\<close>

definition first_row :: "'a list \<Rightarrow> 'a option" where
  "first_row xs = (case xs of [] \<Rightarrow> None | x # _ \<Rightarrow> Some x)"

definition latest_by :: "('a \<Rightarrow> 'k::linorder) \<Rightarrow> 'a list \<Rightarrow> 'a option" where
  "latest_by k xs = first_row (sorted_by_desc k xs)"

lemma first_row_None [simp]: "first_row xs = None \<longleftrightarrow> xs = []"
  by (cases xs) (auto simp: first_row_def)

lemma first_row_SomeD: "first_row xs = Some x \<Longrightarrow> x \<in> set xs"
  by (cases xs) (auto simp: first_row_def)

lemma first_row_simps [simp]: "first_row [] = None" "first_row (x # xs) = Some x"
  by (simp_all add: first_row_def)

lemma latest_by_None [simp]: "latest_by k xs = None \<longleftrightarrow> xs = []"
  using set_sorted_by_desc [of k xs] by (auto simp: latest_by_def simp del: set_sorted_by_desc)

lemma latest_by_SomeD:
  assumes "latest_by k xs = Some x"
  shows "x \<in> set xs" and "\<forall>y \<in> set xs. k y \<le> k x"
proof -
  from assms obtain zs where zs: "sorted_by_desc k xs = x # zs"
    by (auto simp: latest_by_def first_row_def split: list.splits)
  then show "x \<in> set xs" by (metis set_sorted_by_desc list.set_intros(1))
  from sorted_by_desc_sorted [of k xs] zs have "\<forall>y \<in> set (x # zs). k y \<le> k x" by simp
  then show "\<forall>y \<in> set xs. k y \<le> k x" using zs by (metis set_sorted_by_desc)
qed

lemma latest_by_unique:
  assumes "x \<in> set xs" and "\<forall>y \<in> set xs. y \<noteq> x \<longrightarrow> k y < k x"
  shows "latest_by k xs = Some x"
proof (cases "latest_by k xs")
  case None
  with assms(1) show ?thesis by simp
next
  case (Some z)
  then show ?thesis using latest_by_SomeD [OF Some] assms by (metis leD)
qed

text \<open>\<open>scalar_one_or_none()\<close>: more than one row raises.\<close>

definition scalar_one_or_none :: "'a list \<Rightarrow> 'a option result" where
  "scalar_one_or_none rows = (case rows of
     [] \<Rightarrow> Inr None | [r] \<Rightarrow> Inr (Some r) | _ \<Rightarrow> Inl (PyExc ''MultipleResultsFound''))"

lemma scalar_one_or_none_Some: "scalar_one_or_none rows = Inr (Some r) \<longleftrightarrow> rows = [r]"
  by (auto simp: scalar_one_or_none_def split: list.splits)

lemma scalar_one_or_none_None: "scalar_one_or_none rows = Inr None \<longleftrightarrow> rows = []"
  by (auto simp: scalar_one_or_none_def split: list.splits)

text \<open>\<open>dict.get(k, d)\<close> on a literal dictionary.\<close>

definition dict_get :: "('k \<times> 'v) list \<Rightarrow> 'k \<Rightarrow> 'v \<Rightarrow> 'v" where
  "dict_get d k x = (case map_of d k of Some v \<Rightarrow> v | None \<Rightarrow> x)"

lemma dict_get_simps [simp, py_simps]:
  "dict_get [] k x = x"
  "dict_get ((a, v) # d) k x = (if k = a then v else dict_get d k x)"
  by (simp_all add: dict_get_def)

section \<open>Python strings\<close>

text \<open>\<open>s.replace(old, new)\<close> for a non-empty \<open>old\<close>; \<open>s.split(c, n)\<close>; \<open>s.split()\<close>; \<open>c.join\<close>.\<close>

function py_replace :: "'a list \<Rightarrow> 'a list \<Rightarrow> 'a list \<Rightarrow> 'a list" where
  "py_replace old new [] = []"
| "py_replace old new (c # s) =
     (if old \<noteq> [] \<and> take (length old) (c # s) = old
      then new @ py_replace old new (drop (length old) (c # s))
      else c # py_replace old new s)"
  by pat_completeness auto
termination
  by (relation "measure (\<lambda>(old, new, s). length s)") auto

fun py_split_max :: "'a \<Rightarrow> nat \<Rightarrow> 'a list \<Rightarrow> 'a list list" where
  "py_split_max c 0 s = [s]"
| "py_split_max c (Suc n) s =
     (if c \<in> set s
      then takeWhile (\<lambda>x. x \<noteq> c) s # py_split_max c n (tl (dropWhile (\<lambda>x. x \<noteq> c) s))
      else [s])"

fun split_ws_aux :: "('a \<Rightarrow> bool) \<Rightarrow> 'a list \<Rightarrow> 'a list \<Rightarrow> 'a list list" where
  "split_ws_aux ws w [] = (if w = [] then [] else [rev w])"
| "split_ws_aux ws w (c # s) =
     (if ws c then (if w = [] then split_ws_aux ws [] s else rev w # split_ws_aux ws [] s)
      else split_ws_aux ws (c # w) s)"

definition split_ws :: "('a \<Rightarrow> bool) \<Rightarrow> 'a list \<Rightarrow> 'a list list" where
  "split_ws ws s = split_ws_aux ws [] s"

definition strip_by :: "('a \<Rightarrow> bool) \<Rightarrow> 'a list \<Rightarrow> 'a list" where
  "strip_by p s = rev (dropWhile p (rev (dropWhile p s)))"

fun py_join :: "'a list \<Rightarrow> 'a list list \<Rightarrow> 'a list" where
  "py_join sep [] = []"
| "py_join sep [s] = s"
| "py_join sep (s # t # ts) = s @ sep @ py_join sep (t # ts)"

definition starts_with :: "'a list \<Rightarrow> 'a list \<Rightarrow> bool" where
  "starts_with p s \<longleftrightarrow> take (length p) s = p"

fun is_infix :: "'a list \<Rightarrow> 'a list \<Rightarrow> bool" where
  "is_infix p [] \<longleftrightarrow> p = []"
| "is_infix p (c # s) \<longleftrightarrow> starts_with p (c # s) \<or> is_infix p s"

lemma starts_with_append [simp]: "starts_with p (p @ s)"
  by (simp add: starts_with_def)

lemma starts_with_iff: "starts_with p s \<longleftrightarrow> (\<exists>t. s = p @ t)"
  by (metis append_eq_conv_conj append_take_drop_id starts_with_def)

lemma is_infix_iff: "is_infix p s \<longleftrightarrow> (\<exists>u v. s = u @ p @ v)"
proof (induction s)
  case Nil
  show ?case by simp
next
  case (Cons c s)
  have "(\<exists>u v. c # s = u @ p @ v) \<longleftrightarrow> (\<exists>v. c # s = p @ v) \<or> (\<exists>u v. s = u @ p @ v)"
    by (metis append_Cons append_Nil list.exhaust list.inject)
  with Cons.IH show ?case by (simp add: starts_with_iff)
qed

text \<open>\<open>str.isspace()\<close> on one code point, \<open>str.lower()\<close> on ASCII letters.\<close>

definition is_space :: "nat \<Rightarrow> bool" where
  "is_space c \<longleftrightarrow> 9 \<le> c \<and> c \<le> 13 \<or> 28 \<le> c \<and> c \<le> 32 \<or> c = 133 \<or> c = 160 \<or> c = 5760
     \<or> 8192 \<le> c \<and> c \<le> 8202 \<or> c = 8232 \<or> c = 8233 \<or> c = 8239 \<or> c = 8287 \<or> c = 12288"

definition ascii_lower :: "nat \<Rightarrow> nat" where
  "ascii_lower c = (if 65 \<le> c \<and> c \<le> 90 then c + 32 else c)"

section \<open>Sums over tables\<close>

lemma filter_map_inside: "filter P (map f xs) = map f (filter (P \<circ> f) xs)"
  by (induction xs) auto

lemma distinct_map_filterI: "distinct (map f xs) \<Longrightarrow> distinct (map f (filter P xs))"
  by (induction xs) auto

lemma filter_key_unique:
  "distinct (map f xs) \<Longrightarrow> x \<in> set xs \<Longrightarrow> filter (\<lambda>y. f y = f x) xs = [x]"
proof (induction xs)
  case Nil
  then show ?case by simp
next
  case (Cons a xs)
  show ?case
  proof (cases "a = x")
    case True
    with Cons.prems have "filter (\<lambda>y. f y = f x) xs = []"
      by (auto simp: filter_empty_conv image_iff)
    with True show ?thesis by simp
  next
    case False
    with Cons.prems have "x \<in> set xs" and "f a \<noteq> f x" by auto
    with Cons show ?thesis by simp
  qed
qed

lemma filter_key_le_one:
  assumes "distinct (map f xs)"
  shows "filter (\<lambda>y. f y = k) xs = [] \<or> (\<exists>x. filter (\<lambda>y. f y = k) xs = [x])"
proof (cases "\<exists>x \<in> set xs. f x = k")
  case True
  then obtain x where "x \<in> set xs" and "f x = k" by blast
  with filter_key_unique [OF assms this(1)] show ?thesis by simp
next
  case False
  then show ?thesis by (simp add: filter_empty_conv)
qed

lemma scalar_unique:
  assumes "distinct (map f xs)"
  shows "scalar_one_or_none (filter (\<lambda>y. f y = k) xs) = Inr (find (\<lambda>y. f y = k) xs)"
proof -
  have "find (\<lambda>y. f y = k) xs = first_row (filter (\<lambda>y. f y = k) xs)"
    by (induction xs) auto
  with filter_key_le_one [OF assms, of k] show ?thesis
    by (auto simp: scalar_one_or_none_def)
qed

lemma sum_list_nat_mono:
  "(\<And>x. x \<in> set xs \<Longrightarrow> f x \<le> (g x :: nat)) \<Longrightarrow> sum_list (map f xs) \<le> sum_list (map g xs)"
  by (induction xs) (auto intro: add_mono)

end
