(* ===== verification/Py_Text.thy ===== *)
theory Py_Text
  imports Prelude
begin

text \<open>
  What the program uses of Python's text library: UTF-8 encoding, hexadecimal and decimal
  numerals, the canonical text of a UUID and its parser, \<open>datetime.isoformat()\<close>, and
  \<open>json.dumps\<close>. The lemmas show that the encodings lose nothing: two UUIDs or two JSON
  string literals with the same text are equal.
\<close>

section \<open>UTF-8\<close>

text \<open>\<open>str.encode()\<close>: a surrogate code point raises \<open>UnicodeEncodeError\<close>.\<close>

definition is_surrogate :: "nat \<Rightarrow> bool" where
  "is_surrogate c \<longleftrightarrow> 55296 \<le> c \<and> c \<le> 57343"

definition utf8_char :: "nat \<Rightarrow> bytes" where
  "utf8_char c =
     (if c < 128 then [c]
      else if c < 2048 then [192 + c div 64, 128 + c mod 64]
      else if c < 65536 then [224 + c div 4096, 128 + c div 64 mod 64, 128 + c mod 64]
      else [240 + c div 262144, 128 + c div 4096 mod 64, 128 + c div 64 mod 64, 128 + c mod 64])"

definition utf8_encode :: "doc \<Rightarrow> bytes result" where
  "utf8_encode s =
     (if \<exists>c \<in> set s. is_surrogate c then Inl (PyExc ''UnicodeEncodeError'')
      else Inr (concat (map utf8_char s)))"

definition is_ascii :: "doc \<Rightarrow> bool" where
  "is_ascii s \<longleftrightarrow> (\<forall>c \<in> set s. c < 128)"

lemma utf8_encode_ascii: "is_ascii s \<Longrightarrow> utf8_encode s = Inr s"
proof -
  assume a: "is_ascii s"
  have "\<forall>c \<in> set s. \<not> is_surrogate c"
    using a by (auto simp: is_ascii_def is_surrogate_def)
  moreover have "concat (map utf8_char s) = s"
    using a by (induction s) (auto simp: is_ascii_def utf8_char_def)
  ultimately show ?thesis by (simp add: utf8_encode_def)
qed

lemma utf8_length: "utf8_encode s = Inr bs \<Longrightarrow> length s \<le> length bs"
proof -
  have "length s \<le> length (concat (map utf8_char s))"
    by (induction s) (auto simp: utf8_char_def)
  then show "utf8_encode s = Inr bs \<Longrightarrow> length s \<le> length bs"
    by (auto simp: utf8_encode_def split: if_splits)
qed

lemma is_ascii_append [simp]: "is_ascii (s @ t) \<longleftrightarrow> is_ascii s \<and> is_ascii t"
  by (auto simp: is_ascii_def)

section \<open>Numerals\<close>

definition hexd :: "int \<Rightarrow> char" where
  "hexd d = (if d < 10 then char_of (48 + d) else char_of (87 + d))"

definition hexval :: "char \<Rightarrow> int option" where
  "hexval ch = (let c = of_char ch :: int in
     if 48 \<le> c \<and> c \<le> 57 then Some (c - 48)
     else if 97 \<le> c \<and> c \<le> 102 then Some (c - 87)
     else if 65 \<le> c \<and> c \<le> 70 then Some (c - 55) else None)"

fun hex_fixed :: "nat \<Rightarrow> int \<Rightarrow> string" where
  "hex_fixed 0 n = []"
| "hex_fixed (Suc k) n = hex_fixed k (n div 16) @ [hexd (n mod 16)]"

fun dec_fixed :: "nat \<Rightarrow> int \<Rightarrow> string" where
  "dec_fixed 0 n = []"
| "dec_fixed (Suc k) n = dec_fixed k (n div 10) @ [char_of (48 + n mod 10)]"

text \<open>Decimal numerals: \<open>nat_str\<close> of a non-negative number.\<close>

function nat_str :: "int \<Rightarrow> string" where
  "nat_str n = (if n < 10 then [char_of (48 + n)] else nat_str (n div 10) @ [char_of (48 + n mod 10)])"
  by pat_completeness auto
termination
  by (relation "measure nat") auto

declare nat_str.simps [simp del]

definition int_str :: "int \<Rightarrow> string" where
  "int_str i = (if i < 0 then CHR ''-'' # nat_str (- i) else nat_str i)"

lemma of_char_hexd: "0 \<le> d \<Longrightarrow> d < 16 \<Longrightarrow> (of_char (hexd d) :: int) = (if d < 10 then 48 + d else 87 + d)"
  by (simp add: hexd_def)

lemma hexval_hexd [simp]: "0 \<le> d \<Longrightarrow> d < 16 \<Longrightarrow> hexval (hexd d) = Some d"
  by (auto simp: hexval_def of_char_hexd Let_def)

lemma hexd_inj: "0 \<le> d \<Longrightarrow> d < 16 \<Longrightarrow> 0 \<le> e \<Longrightarrow> e < 16 \<Longrightarrow> hexd d = hexd e \<Longrightarrow> d = e"
  by (metis hexval_hexd option.inject)

lemma length_hex_fixed [simp]: "length (hex_fixed k n) = k"
  by (induction k arbitrary: n) auto

lemma set_hex_fixed: "set (hex_fixed k n) \<subseteq> hexd ` {0..<16}"
proof (induction k arbitrary: n)
  case 0
  show ?case by simp
next
  case (Suc k)
  from Suc.IH [of "n div 16"] show ?case by simp
qed

lemma hex_fixed_inj: "hex_fixed k m = hex_fixed k n \<Longrightarrow> m mod 16 ^ k = n mod 16 ^ k"
proof (induction k arbitrary: m n)
  case 0
  then show ?case by simp
next
  case (Suc k)
  from Suc.prems have h: "hex_fixed k (m div 16) = hex_fixed k (n div 16)"
    and g: "hexd (m mod 16) = hexd (n mod 16)" by simp_all
  from h have a: "m div 16 mod 16 ^ k = n div 16 mod 16 ^ k" by (rule Suc.IH)
  from g have b: "m mod 16 = n mod 16" by (rule hexd_inj [rotated 4]) simp_all
  have "x mod 16 ^ Suc k = 16 * (x div 16 mod 16 ^ k) + x mod 16" for x :: int
    using zmod_zmult2_eq [of "16 ^ k" x 16] by simp
  with a b show ?case by presburger
qed

section \<open>UUIDs\<close>

text \<open>\<open>str(u)\<close>: thirty-two hexadecimal digits in five groups.\<close>

definition uuid_groups :: "string \<Rightarrow> string" where
  "uuid_groups h = py_join ''-'' [py_slice h 0 8, py_slice h 8 12, py_slice h 12 16,
     py_slice h 16 20, py_slice h 20 32]"

definition uuid_str :: "uuid \<Rightarrow> string" where
  "uuid_str u = uuid_groups (hex_fixed 32 (uint u))"

text \<open>
  \<open>uuid.UUID(s)\<close>: remove \<open>urn:\<close>, \<open>uuid:\<close>, the braces and the hyphens; the rest must be 32
  characters that \<open>int(\<dots>, 16)\<close> accepts (which allows surrounding blanks, a sign, a \<open>0x\<close>
  prefix and single underscores between digits) and a value of 128 bits.
\<close>

fun digits_us :: "int \<Rightarrow> bool \<Rightarrow> string \<Rightarrow> int option" where
  "digits_us acc dig [] = (if dig then Some acc else None)"
| "digits_us acc dig (c # s) =
     (case hexval c of
        Some d \<Rightarrow> digits_us (acc * 16 + d) True s
      | None \<Rightarrow> if c = CHR ''_'' \<and> dig then digits_us acc False s else None)"

definition blank :: "char \<Rightarrow> bool" where
  "blank c \<longleftrightarrow> is_space (of_char c)"

definition py_int16 :: "string \<Rightarrow> int option" where
  "py_int16 s =
     (let t = strip_by blank s;
          neg = starts_with ''-'' t;
          t1 = (if neg \<or> starts_with ''+'' t then tl t else t);
          px = starts_with ''0x'' t1 \<or> starts_with ''0X'' t1;
          t2 = (if px then drop 2 t1 else t1)
      in case digits_us 0 px t2 of
           Some n \<Rightarrow> if t2 = [] then None else Some (if neg then - n else n)
         | None \<Rightarrow> None)"

definition uuid_of_str :: "string \<Rightarrow> uuid result" where
  "uuid_of_str s =
     (let h = filter (\<lambda>c. c \<noteq> CHR ''-'')
                (strip_by (\<lambda>c. c = CHR ''{'' \<or> c = CHR ''}'')
                   (py_replace ''uuid:'' [] (py_replace ''urn:'' [] s)))
      in if length h \<noteq> 32 then Inl (PyExc ''ValueError'')
         else case py_int16 h of
                Some i \<Rightarrow> if 0 \<le> i \<and> i < 2 ^ 128 then Inr (word_of_int i) else Inl (PyExc ''ValueError'')
              | None \<Rightarrow> Inl (PyExc ''ValueError''))"

lemma py_join_groups_inj:
  assumes "length a = 32" and "length b = 32" and "uuid_groups a = uuid_groups b"
  shows "a = b"
proof -
  have split: "h = py_slice h 0 8 @ py_slice h 8 12 @ py_slice h 12 16 @ py_slice h 16 20 @ py_slice h 20 32"
    if "length h = 32" for h :: string
  proof -
    have "take 4 (drop 16 h) @ take 12 (drop 20 h) = drop 16 h"
      using that append_take_drop_id [of 4 "drop 16 h"] by simp
    moreover have "take 4 (drop 12 h) @ drop 16 h = drop 12 h"
      using append_take_drop_id [of 4 "drop 12 h"] by simp
    moreover have "take 4 (drop 8 h) @ drop 12 h = drop 8 h"
      using append_take_drop_id [of 4 "drop 8 h"] by simp
    ultimately show ?thesis by (simp add: py_slice_def)
  qed
  from assms have "py_slice a 0 8 = py_slice b 0 8 \<and> py_slice a 8 12 = py_slice b 8 12 \<and>
    py_slice a 12 16 = py_slice b 12 16 \<and> py_slice a 16 20 = py_slice b 16 20 \<and>
    py_slice a 20 32 = py_slice b 20 32"
    by (simp add: uuid_groups_def py_slice_def)
  with split [OF assms(1)] split [OF assms(2)] show ?thesis by metis
qed

lemma uuid_str_inj: "uuid_str u = uuid_str v \<Longrightarrow> u = v"
proof -
  assume "uuid_str u = uuid_str v"
  then have "hex_fixed 32 (uint u) = hex_fixed 32 (uint v)"
    unfolding uuid_str_def by (rule py_join_groups_inj [rotated 2]) (rule length_hex_fixed)+
  then have e: "uint u mod 16 ^ 32 = uint v mod 16 ^ 32" by (rule hex_fixed_inj)
  have w: "uint w mod 16 ^ 32 = uint w" for w :: uuid
    using unsigned_less [of w, where ?'a = int] by (intro mod_pos_pos_trivial) simp_all
  from e have "uint u = uint v" by (simp only: w)
  then show "u = v" by (rule word_uint_eq_iff [THEN iffD2])
qed

lemma uuid_str_eq_iff [simp]: "uuid_str u = uuid_str v \<longleftrightarrow> u = v"
  using uuid_str_inj by blast

lemma length_uuid_str [simp]: "length (uuid_str u) = 36"
  by (simp add: uuid_str_def uuid_groups_def py_slice_def)

lemma uuid_of_None: "uuid_of_str ''None'' = Inl (PyExc ''ValueError'')"
  by (simp add: uuid_of_str_def strip_by_def)

lemma uuid_of_empty: "uuid_of_str [] = Inl (PyExc ''ValueError'')"
  by (simp add: uuid_of_str_def strip_by_def)

section \<open>Instants\<close>

text \<open>
  The proleptic Gregorian date of a day count, and \<open>isoformat()\<close> of an aware UTC instant:
  the microseconds are printed only when they are not zero.
\<close>

definition civil_from_days :: "int \<Rightarrow> int \<times> int \<times> int" where
  "civil_from_days z0 =
     (let z = z0 + 719468; era = z div 146097; doe = z mod 146097;
          yoe = (doe - doe div 1460 + doe div 36524 - doe div 146096) div 365;
          doy = doe - (365 * yoe + yoe div 4 - yoe div 100);
          mp = (5 * doy + 2) div 153;
          d = doy - (153 * mp + 2) div 5 + 1;
          m = (if mp < 10 then mp + 3 else mp - 9);
          y = yoe + era * 400 + (if m \<le> 2 then 1 else 0)
      in (y, m, d))"

definition usec_per_day :: int where
  "usec_per_day = 86400000000"

definition date_str :: "instant \<Rightarrow> string" where
  "date_str t = (case civil_from_days (t div usec_per_day) of (y, m, d) \<Rightarrow>
     dec_fixed 4 y @ ''-'' @ dec_fixed 2 m @ ''-'' @ dec_fixed 2 d)"

definition isoformat :: "instant \<Rightarrow> string" where
  "isoformat t =
     (let r = t mod usec_per_day; us = r mod 1000000; s = r div 1000000
      in date_str t @ ''T'' @ dec_fixed 2 (s div 3600) @ '':'' @ dec_fixed 2 (s div 60 mod 60)
         @ '':'' @ dec_fixed 2 (s mod 60)
         @ (if us = 0 then [] else ''.'' @ dec_fixed 6 us) @ ''+00:00'')"

section \<open>JSON\<close>

text \<open>
  \<open>json.dumps\<close> with the default \<open>ensure_ascii=True\<close>: every code point outside the printable
  ASCII range is escaped, beyond the basic plane as a surrogate pair. Floats are printed by
  a parameter \<open>fl\<close> (Python's shortest \<open>repr\<close>). \<open>ks\<close> is \<open>sort_keys\<close>; \<open>isep\<close>, \<open>ksep\<close> are the separators.
\<close>

definition hex4 :: "nat \<Rightarrow> doc" where
  "hex4 n = lit (hex_fixed 4 (int n))"

definition json_short :: "(nat \<times> nat) list" where
  "json_short = [(34, 34), (92, 92), (10, 110), (13, 114), (9, 116), (12, 102), (8, 98)]"

definition json_esc :: "nat \<Rightarrow> doc" where
  "json_esc c =
     (case map_of json_short c of
        Some e \<Rightarrow> [92, e]
      | None \<Rightarrow>
          if 32 \<le> c \<and> c \<le> 126 then [c]
          else if c < 65536 then [92, 117] @ hex4 c
          else [92, 117] @ hex4 (55296 + (c - 65536) div 1024)
               @ [92, 117] @ hex4 (56320 + (c - 65536) mod 1024))"

definition json_quote :: "doc \<Rightarrow> doc" where
  "json_quote s = [34] @ concat (map json_esc s) @ [34]"

datatype json = JNull | JBool bool | JInt int | JFloat rat | JStr doc
  | JArr "json list" | JObj "(doc \<times> json) list"

fun json_dumps :: "(rat \<Rightarrow> string) \<Rightarrow> bool \<Rightarrow> doc \<Rightarrow> doc \<Rightarrow> json \<Rightarrow> doc" where
  "json_dumps fl ks isep ksep JNull = lit ''null''"
| "json_dumps fl ks isep ksep (JBool b) = (if b then lit ''true'' else lit ''false'')"
| "json_dumps fl ks isep ksep (JInt i) = lit (int_str i)"
| "json_dumps fl ks isep ksep (JFloat q) = lit (fl q)"
| "json_dumps fl ks isep ksep (JStr s) = json_quote s"
| "json_dumps fl ks isep ksep (JArr js) =
     [91] @ py_join isep (map (json_dumps fl ks isep ksep) js) @ [93]"
| "json_dumps fl ks isep ksep (JObj kvs) =
     (let items = map (\<lambda>(k, v). (k, json_dumps fl ks isep ksep v)) kvs;
          ordered = (if ks then sorted_by fst items else items)
      in [123] @ py_join isep (map (\<lambda>(k, v). json_quote k @ ksep @ v) ordered) @ [125])"

text \<open>\<open>json.dumps(d, sort_keys=True)\<close> of a dictionary of strings.\<close>

definition dumps_sorted :: "(rat \<Rightarrow> string) \<Rightarrow> json \<Rightarrow> doc" where
  "dumps_sorted fl j = json_dumps fl True (lit '', '') (lit '': '') j"

definition jstr :: "string \<Rightarrow> json" where
  "jstr s = JStr (lit s)"

lemma hex4_ascii: "is_ascii (hex4 n)"
proof -
  have "c < 128" if "c \<in> of_char ` hexd ` {0..<16}" for c :: nat
  proof -
    from that obtain d where d: "0 \<le> d" "d < 16" and c: "c = of_char (hexd d)" by auto
    from of_char_hexd [OF d] d have "int (of_char (hexd d)) < 128" by (simp add: of_nat_of_char)
    with c show ?thesis by simp
  qed
  moreover have "set (hex4 n) \<subseteq> of_char ` hexd ` {0..<16}"
    using set_hex_fixed [of 4 "int n"] by (auto simp: hex4_def)
  ultimately show ?thesis by (fastforce simp: is_ascii_def)
qed

lemma hex4_inj: "m < 65536 \<Longrightarrow> n < 65536 \<Longrightarrow> hex4 m = hex4 n \<Longrightarrow> m = n"
proof -
  assume b: "m < 65536" "n < 65536" and e: "hex4 m = hex4 n"
  have "inj (of_char :: char \<Rightarrow> nat)" by (simp add: inj_of_char)
  with e have "hex_fixed 4 (int m) = hex_fixed 4 (int n)" by (simp add: hex4_def inj_map_eq_map)
  from hex_fixed_inj [OF this] b show "m = n" by (simp add: mod_pos_pos_trivial)
qed

lemma length_hex4 [simp]: "length (hex4 n) = 4"
  by (simp add: hex4_def)

lemma json_short_SomeD: "map_of json_short c = Some e \<Longrightarrow> e < 117"
  by (auto simp: json_short_def split: if_splits)

lemma json_short_inj: "map_of json_short c = Some e \<Longrightarrow> map_of json_short d = Some e \<Longrightarrow> c = d"
  by (auto simp: json_short_def split: if_splits)

lemma json_short_NoneD: "map_of json_short c = None \<Longrightarrow> c \<noteq> 34 \<and> c \<noteq> 92"
  by (auto simp: json_short_def split: if_splits)

lemma json_esc_ascii: "is_ascii (json_esc c)"
  using hex4_ascii json_short_SomeD [of c]
  by (fastforce simp: json_esc_def is_ascii_def split: option.splits)

lemma json_quote_ascii: "is_ascii (json_quote s)"
  using json_esc_ascii by (auto simp: json_quote_def is_ascii_def)

text \<open>The escapes of code points below the surrogates form a prefix code without the quote.\<close>

lemma json_esc_cases:
  assumes "c < 55296"
  obtains (short) e where "map_of json_short c = Some e" "json_esc c = [92, e]" "e < 117"
  | (plain) "json_esc c = [c]" "c \<noteq> 92" "c \<noteq> 34"
  | (hex) "json_esc c = 92 # 117 # hex4 c"
proof (cases "map_of json_short c")
  case None
  then show ?thesis using assms plain hex json_short_NoneD [OF None]
    by (cases "32 \<le> c \<and> c \<le> 126") (auto simp: json_esc_def)
next
  case (Some e)
  then show ?thesis using short json_short_SomeD [OF Some] by (simp add: json_esc_def)
qed

lemma json_esc_head: "c < 55296 \<Longrightarrow> \<exists>x xs. json_esc c = x # xs \<and> x \<noteq> 34"
  by (erule json_esc_cases) auto

lemma json_esc_prefix:
  assumes c: "c < 55296" and d: "d < 55296" and e: "json_esc c @ s = json_esc d @ t"
  shows "c = d \<and> s = t"
proof -
  have h: "hex4 c @ s = hex4 d @ t \<Longrightarrow> c = d \<and> s = t"
    using c d hex4_inj [of c d] by (simp add: append_eq_append_conv)
  show ?thesis
    by (rule json_esc_cases [OF c]; rule json_esc_cases [OF d])
      (use e h json_short_inj [of c _ d] in auto)
qed

lemma json_body_prefix:
  assumes "\<forall>c \<in> set a. c < 55296" and "\<forall>c \<in> set b. c < 55296"
    and "concat (map json_esc a) @ 34 # s = concat (map json_esc b) @ 34 # t"
  shows "a = b \<and> s = t"
  using assms
proof (induction a arbitrary: b)
  case Nil
  show ?case
  proof (cases b)
    case Nil
    with Nil.prems show ?thesis by simp
  next
    case (Cons d b')
    with Nil.prems json_esc_head [of d] show ?thesis by fastforce
  qed
next
  case (Cons c a)
  show ?case
  proof (cases b)
    case Nil
    with Cons.prems json_esc_head [of c] show ?thesis by fastforce
  next
    case (Cons d b')
    with Cons.prems json_esc_prefix [of c d] have "c = d \<and>
      concat (map json_esc a) @ 34 # s = concat (map json_esc b') @ 34 # t" by simp
    with Cons Cons.prems Cons.IH [of b'] show ?thesis by simp
  qed
qed

lemma json_quote_prefix:
  assumes "json_quote a @ s = json_quote b @ t"
    and "\<forall>c \<in> set a. c < 55296" and "\<forall>c \<in> set b. c < 55296"
  shows "a = b \<and> s = t"
  using assms json_body_prefix [of a b s t] by (simp add: json_quote_def)

lemma lit_inj: "lit s = lit t \<longleftrightarrow> s = t"
  by (simp add: inj_map_eq_map [OF inj_of_char])

lemma of_char_bound [simp]: "of_char (c :: char) < (55296 :: nat)"
proof -
  have "of_char c mod 256 = (of_char c :: nat)" by (rule of_char_mod_256)
  moreover have "of_char c mod 256 < (256 :: nat)" by (rule mod_less_divisor) simp
  ultimately have "of_char c < (256 :: nat)" by (simp only:)
  then show ?thesis by linarith
qed

lemma json_lit_prefix:
  "json_quote (lit a) @ s = json_quote (lit b) @ t \<Longrightarrow> a = b \<and> s = t"
  using json_quote_prefix [of "lit a" s "lit b" t] by (auto simp: lit_inj)

end
