(* ===== verification/Data_Model.thy ===== *)
theory Data_Model
  imports Py_Text
begin

text \<open>
  The relational model shared by the API and the workers (\<open>db/enums.py\<close>, \<open>db/models/\<close>): one
  record per table row, the database as its tables (lists in row order), and the inserts,
  updates and deletes the program issues, with the constraints PostgreSQL enforces on them
  (primary keys, foreign keys with \<open>ON DELETE CASCADE\<close>, the unique span of a finding, the
  \<open>CHECK\<close> clauses). A violated constraint raises \<open>IntegrityError\<close>. The invariant \<open>wf_db\<close> says that
  the constraints hold; every operation here keeps it. The constraints are those that the models declare; theory
  \<open>Migrations\<close> compares them with the schema that the migrations leave. Where the two differ in what a
  \<open>DELETE\<close> takes with it, the foreign keys of the tables are an argument (\<open>child_keys\<close>).
\<close>

section \<open>Enumerations (db/enums.py)\<close>

datatype operation_status = PENDING | COMPLETED | ESCALATED | APPROVED | REJECTED

fun status_str :: "operation_status \<Rightarrow> string" where
  "status_str PENDING = ''pending''"
| "status_str COMPLETED = ''completed''"
| "status_str ESCALATED = ''escalated''"
| "status_str APPROVED = ''approved''"
| "status_str REJECTED = ''rejected''"

datatype actor_type = HUMAN | MCP_AGENT | PIPELINE

fun actor_type_str :: "actor_type \<Rightarrow> string" where
  "actor_type_str HUMAN = ''human''"
| "actor_type_str MCP_AGENT = ''mcp_agent''"
| "actor_type_str PIPELINE = ''pipeline''"

datatype waiver_status = WACTIVE | WEXPIRED | WREVOKED

datatype tenant_plan = FREE | STARTER | ENTERPRISE

definition severities :: "string list" where
  "severities = [''low'', ''medium'', ''high'', ''critical'']"

definition redaction_types :: "string list" where
  "redaction_types = [''mask'', ''remove'', ''replace'']"

definition artifact_types :: "string list" where
  "artifact_types = [''original'', ''sanitized'', ''audit_export'']"

lemma status_str_inj: "status_str a = status_str b \<Longrightarrow> a = b"
  by (cases a; cases b) auto

section \<open>Rows (db/models)\<close>

record operation =
  op_id :: uuid
  op_tenant_id :: uuid
  op_trace_id :: uuid
  op_actor_id :: uuid
  op_actor_type :: actor_type
  op_document_id :: uuid
  op_artifact_digest :: string
  op_policy_version :: string
  op_status :: operation_status
  op_sanitized_text :: "doc option"
  op_created_at :: instant
  op_completed_at :: "instant option"
  op_chain_hash :: "string option"
  op_event_signature :: "doc option"
  op_event_signed_at :: "instant option"
  op_signing_key_version :: "int option"

text \<open>
  What a detector reports (the dataclass \<open>Finding\<close> of \<open>workers/core/detector.py\<close>), and the row
  that stores it.
\<close>

record finding_data =
  detector :: string
  rule_id :: string
  span_start :: nat
  span_end :: nat
  confidence :: rat
  severity :: string
  explanation :: "(string \<times> json) list"

record finding = finding_data +
  fd_id :: uuid
  fd_operation_id :: uuid

record redaction =
  rd_id :: uuid
  rd_finding_id :: uuid
  rd_operation_id :: uuid
  rd_type :: string
  rd_policy_version :: string
  rd_applied_at :: instant
  rd_approved_by :: "uuid option"
  rd_approval_trace_id :: "uuid option"
  rd_approved_by_agent_id :: "uuid option"

record artifact =
  ar_id :: uuid
  ar_operation_id :: uuid
  ar_type :: string
  ar_minio_key :: string
  ar_digest :: string
  ar_worm_locked :: bool
  ar_created_at :: instant

record outbox =
  ob_id :: uuid
  ob_event_type :: string
  ob_payload :: "(string \<times> json) list"
  ob_processed :: bool
  ob_created_at :: instant

record waiver =
  wv_id :: uuid
  wv_tenant_id :: uuid
  wv_rule_id :: string
  wv_entity_pattern :: doc
  wv_justification :: doc
  wv_approved_by :: uuid
  wv_status :: waiver_status
  wv_expires_at :: "instant option"
  wv_created_at :: instant
  wv_metadata :: json

record tenant =
  tn_id :: uuid
  tn_name :: doc
  tn_slug :: string
  tn_plan :: tenant_plan
  tn_is_active :: bool
  tn_max_scans_per_day :: "int option"
  tn_max_document_size :: "int option"
  tn_max_storage_mb :: "int option"
  tn_rate_limit_rpm :: "int option"
  tn_contact_email :: "string option"
  tn_policy_config :: "json option"
  tn_siem_config :: "json option"
  tn_retention_days :: "int option"
  tn_created_at :: instant
  tn_updated_at :: instant

record chain_anchor =
  an_id :: uuid
  an_tenant_id :: uuid
  an_chain_head_hash :: string
  an_operations_count :: nat
  an_signature :: doc
  an_signing_key_version :: "int option"
  an_signing_public_key_pem :: "doc option"
  an_tsa_token :: "doc option"
  an_created_by :: "uuid option"
  an_created_at :: instant

record signing_key =
  sk_key_version :: int
  sk_public_key_pem :: doc
  sk_algorithm :: "doc option"

record db =
  operations :: "operation list"
  findings :: "finding list"
  redactions :: "redaction list"
  artifacts :: "artifact list"
  outbox_rows :: "outbox list"
  waivers :: "waiver list"
  tenants :: "tenant list"
  anchors :: "chain_anchor list"
  signing_keys :: "signing_key list"

definition empty_db :: db where
  "empty_db = \<lparr>operations = [], findings = [], redactions = [], artifacts = [], outbox_rows = [],
     waivers = [], tenants = [], anchors = [], signing_keys = []\<rparr>"

section \<open>Constraints\<close>

definition op_ids :: "db \<Rightarrow> uuid set" where
  "op_ids d = op_id ` set (operations d)"

definition fd_ids :: "db \<Rightarrow> uuid set" where
  "fd_ids d = fd_id ` set (findings d)"

text \<open>The key of \<open>uq_finding_operation_rule_span\<close>.\<close>

definition span_key :: "finding \<Rightarrow> uuid \<times> string \<times> nat \<times> nat" where
  "span_key f = (fd_operation_id f, rule_id f, span_start f, span_end f)"

definition finding_ok :: "db \<Rightarrow> finding \<Rightarrow> bool" where
  "finding_ok d f \<longleftrightarrow> fd_operation_id f \<in> op_ids d \<and> severity f \<in> set severities
     \<and> 0 \<le> confidence f \<and> confidence f \<le> 1"

definition redaction_ok :: "db \<Rightarrow> redaction \<Rightarrow> bool" where
  "redaction_ok d r \<longleftrightarrow> rd_finding_id r \<in> fd_ids d \<and> rd_operation_id r \<in> op_ids d
     \<and> rd_type r \<in> set redaction_types"

definition artifact_ok :: "db \<Rightarrow> artifact \<Rightarrow> bool" where
  "artifact_ok d a \<longleftrightarrow> ar_operation_id a \<in> op_ids d \<and> ar_type a \<in> set artifact_types"

definition wf_db :: "db \<Rightarrow> bool" where
  "wf_db d \<longleftrightarrow>
     distinct (map op_id (operations d))
   \<and> distinct (map fd_id (findings d)) \<and> distinct (map span_key (findings d))
   \<and> (\<forall>f \<in> set (findings d). finding_ok d f)
   \<and> distinct (map rd_id (redactions d)) \<and> (\<forall>r \<in> set (redactions d). redaction_ok d r)
   \<and> distinct (map ar_id (artifacts d)) \<and> (\<forall>a \<in> set (artifacts d). artifact_ok d a)
   \<and> distinct (map ob_id (outbox_rows d))
   \<and> distinct (map wv_id (waivers d))
   \<and> distinct (map tn_id (tenants d)) \<and> distinct (map tn_slug (tenants d))
   \<and> distinct (map sk_key_version (signing_keys d))"

lemma wf_empty_db: "wf_db empty_db"
  by (simp add: wf_db_def empty_db_def)

section \<open>Inserts\<close>

definition integrity_error :: exn where
  "integrity_error = PyExc ''IntegrityError''"

text \<open>A new operation must have a fresh key and an existing tenant.\<close>

definition insert_operation :: "operation \<Rightarrow> db \<Rightarrow> db result" where
  "insert_operation r d =
     (if op_id r \<in> op_ids d \<or> op_tenant_id r \<notin> tn_id ` set (tenants d) then Inl integrity_error
      else Inr (d\<lparr>operations := operations d @ [r]\<rparr>))"

definition insert_finding :: "finding \<Rightarrow> db \<Rightarrow> db result" where
  "insert_finding r d =
     (if fd_id r \<in> fd_ids d \<or> span_key r \<in> span_key ` set (findings d) \<or> \<not> finding_ok d r
      then Inl integrity_error
      else Inr (d\<lparr>findings := findings d @ [r]\<rparr>))"

definition insert_redaction :: "redaction \<Rightarrow> db \<Rightarrow> db result" where
  "insert_redaction r d =
     (if rd_id r \<in> rd_id ` set (redactions d) \<or> \<not> redaction_ok d r then Inl integrity_error
      else Inr (d\<lparr>redactions := redactions d @ [r]\<rparr>))"

definition insert_artifact :: "artifact \<Rightarrow> db \<Rightarrow> db result" where
  "insert_artifact r d =
     (if ar_id r \<in> ar_id ` set (artifacts d) \<or> \<not> artifact_ok d r then Inl integrity_error
      else Inr (d\<lparr>artifacts := artifacts d @ [r]\<rparr>))"

definition insert_outbox :: "outbox \<Rightarrow> db \<Rightarrow> db result" where
  "insert_outbox r d =
     (if ob_id r \<in> ob_id ` set (outbox_rows d) then Inl integrity_error
      else Inr (d\<lparr>outbox_rows := outbox_rows d @ [r]\<rparr>))"

fun insert_all :: "('r \<Rightarrow> db \<Rightarrow> db result) \<Rightarrow> 'r list \<Rightarrow> db \<Rightarrow> db result" where
  "insert_all ins [] d = Inr d"
| "insert_all ins (r # rs) d = rbind (ins r d) (insert_all ins rs)"

section \<open>Updates and deletes\<close>

definition update_operation :: "uuid \<Rightarrow> (operation \<Rightarrow> operation) \<Rightarrow> db \<Rightarrow> db" where
  "update_operation i f d =
     d\<lparr>operations := map (\<lambda>r. if op_id r = i then f r else r) (operations d)\<rparr>"

definition mark_processed :: "uuid \<Rightarrow> db \<Rightarrow> db" where
  "mark_processed i d =
     d\<lparr>outbox_rows := map (\<lambda>r. if ob_id r = i then r\<lparr>ob_processed := True\<rparr> else r) (outbox_rows d)\<rparr>"

text \<open>
  The foreign keys with \<open>ON DELETE CASCADE\<close> that the tables have: from findings, redactions and
  artifacts to their operation, and from redactions to their finding. The models declare all of them.
\<close>

record child_keys =
  ck_findings :: bool
  ck_redactions :: bool
  ck_artifacts :: bool
  ck_redaction_finding :: bool

definition model_keys :: child_keys where
  "model_keys = \<lparr>ck_findings = True, ck_redactions = True, ck_artifacts = True, ck_redaction_finding = True\<rparr>"

text \<open>\<open>DELETE FROM operations WHERE p\<close>: the keys that are there cascade to the child tables.\<close>

definition delete_operations_where :: "child_keys \<Rightarrow> (operation \<Rightarrow> bool) \<Rightarrow> db \<Rightarrow> db" where
  "delete_operations_where k p d =
     (let dead = op_id ` set (filter p (operations d));
          lost = fd_id ` set (filter (\<lambda>f. ck_findings k \<and> fd_operation_id f \<in> dead) (findings d))
      in d\<lparr>operations := filter (\<lambda>r. \<not> p r) (operations d),
           findings := filter (\<lambda>f. \<not> (ck_findings k \<and> fd_operation_id f \<in> dead)) (findings d),
           redactions := filter (\<lambda>r. \<not> (ck_redactions k \<and> rd_operation_id r \<in> dead)
             \<and> \<not> (ck_redaction_finding k \<and> rd_finding_id r \<in> lost)) (redactions d),
           artifacts := filter (\<lambda>a. \<not> (ck_artifacts k \<and> ar_operation_id a \<in> dead)) (artifacts d)\<rparr>)"

section \<open>Selects\<close>

definition select_operation :: "uuid \<Rightarrow> db \<Rightarrow> operation option" where
  "select_operation i d = find (\<lambda>r. op_id r = i) (operations d)"

definition findings_of :: "uuid \<Rightarrow> db \<Rightarrow> finding list" where
  "findings_of i d = filter (\<lambda>f. fd_operation_id f = i) (findings d)"

definition redactions_of :: "uuid \<Rightarrow> db \<Rightarrow> redaction list" where
  "redactions_of i d = filter (\<lambda>r. rd_operation_id r = i) (redactions d)"

definition artifacts_of :: "uuid \<Rightarrow> db \<Rightarrow> artifact list" where
  "artifacts_of i d = filter (\<lambda>a. ar_operation_id a = i) (artifacts d)"

text \<open>
  \<open>payload.get(k, d)\<close> where the caller needs a string (another JSON value raises);
  \<open>Outbox.payload["operation_id"].as_string() == i\<close>.
\<close>

definition payload_str :: "string \<Rightarrow> (string \<times> json) list \<Rightarrow> string \<Rightarrow> doc \<Rightarrow> doc result" where
  "payload_str exc p k x = (case map_of p k of
     None \<Rightarrow> Inr x | Some (JStr s) \<Rightarrow> Inr s | Some _ \<Rightarrow> Inl (PyExc exc))"

definition payload_is_for :: "string \<Rightarrow> outbox \<Rightarrow> bool" where
  "payload_is_for i r \<longleftrightarrow> map_of (ob_payload r) ''operation_id'' = Some (JStr (lit i))"

definition outbox_for :: "string \<Rightarrow> db \<Rightarrow> outbox list" where
  "outbox_for i d = filter (payload_is_for i) (outbox_rows d)"

section \<open>Every operation keeps the invariant\<close>

lemma insert_operation_wf [inv_intros]:
  "insert_operation r d = Inr d' \<Longrightarrow> wf_db d \<Longrightarrow> wf_db d'"
  by (auto simp: insert_operation_def wf_db_def op_ids_def fd_ids_def finding_ok_def
      redaction_ok_def artifact_ok_def split: if_splits)

lemma insert_finding_wf [inv_intros]:
  "insert_finding r d = Inr d' \<Longrightarrow> wf_db d \<Longrightarrow> wf_db d'"
  by (auto simp: insert_finding_def wf_db_def op_ids_def fd_ids_def finding_ok_def
      redaction_ok_def artifact_ok_def split: if_splits)

lemma insert_redaction_wf [inv_intros]:
  "insert_redaction r d = Inr d' \<Longrightarrow> wf_db d \<Longrightarrow> wf_db d'"
  by (auto simp: insert_redaction_def wf_db_def op_ids_def fd_ids_def finding_ok_def
      redaction_ok_def artifact_ok_def split: if_splits)

lemma insert_artifact_wf [inv_intros]:
  "insert_artifact r d = Inr d' \<Longrightarrow> wf_db d \<Longrightarrow> wf_db d'"
  by (auto simp: insert_artifact_def wf_db_def op_ids_def fd_ids_def finding_ok_def
      redaction_ok_def artifact_ok_def split: if_splits)

lemma insert_outbox_wf [inv_intros]:
  "insert_outbox r d = Inr d' \<Longrightarrow> wf_db d \<Longrightarrow> wf_db d'"
  by (auto simp: insert_outbox_def wf_db_def op_ids_def fd_ids_def finding_ok_def
      redaction_ok_def artifact_ok_def split: if_splits)

lemma insert_all_wf:
  assumes "\<And>r d d'. ins r d = Inr d' \<Longrightarrow> wf_db d \<Longrightarrow> wf_db d'"
  shows "insert_all ins rs d = Inr d' \<Longrightarrow> wf_db d \<Longrightarrow> wf_db d'"
  by (induction rs arbitrary: d) (use assms in \<open>auto simp: res_simps\<close>)

lemma insert_findings_wf [inv_intros]:
  "insert_all insert_finding rs d = Inr d' \<Longrightarrow> wf_db d \<Longrightarrow> wf_db d'"
  by (rule insert_all_wf [OF insert_finding_wf])

lemma insert_redactions_wf [inv_intros]:
  "insert_all insert_redaction rs d = Inr d' \<Longrightarrow> wf_db d \<Longrightarrow> wf_db d'"
  by (rule insert_all_wf [OF insert_redaction_wf])

lemma op_ids_update_operation:
  assumes "\<And>r. op_id (f r) = op_id r"
  shows "op_ids (update_operation i f d) = op_ids d"
proof -
  have "map op_id (operations (update_operation i f d)) = map op_id (operations d)"
    using assms by (simp add: update_operation_def)
  then have "set (map op_id (operations (update_operation i f d))) = set (map op_id (operations d))"
    by (rule arg_cong)
  then show ?thesis by (simp add: op_ids_def)
qed

lemma update_operation_tables [simp]:
  "findings (update_operation i f d) = findings d"
  "redactions (update_operation i f d) = redactions d"
  "artifacts (update_operation i f d) = artifacts d"
  "outbox_rows (update_operation i f d) = outbox_rows d"
  "waivers (update_operation i f d) = waivers d"
  "tenants (update_operation i f d) = tenants d"
  "anchors (update_operation i f d) = anchors d"
  "signing_keys (update_operation i f d) = signing_keys d"
  by (simp_all add: update_operation_def)

lemma update_operation_wf [inv_intros]:
  assumes "\<And>r. op_id (f r) = op_id r" and "wf_db d"
  shows "wf_db (update_operation i f d)"
proof -
  have ids: "op_ids (update_operation i f d) = op_ids d"
    using assms(1) by (rule op_ids_update_operation)
  have "map op_id (operations (update_operation i f d)) = map op_id (operations d)"
    using assms(1) by (simp add: update_operation_def)
  with assms(2) ids show ?thesis
    by (simp add: wf_db_def finding_ok_def redaction_ok_def artifact_ok_def fd_ids_def del: map_map)
qed

lemma mark_processed_tables [simp]:
  "operations (mark_processed i d) = operations d"
  "findings (mark_processed i d) = findings d"
  "redactions (mark_processed i d) = redactions d"
  "artifacts (mark_processed i d) = artifacts d"
  "tenants (mark_processed i d) = tenants d"
  by (simp_all add: mark_processed_def)

lemma mark_processed_wf [inv_intros]:
  assumes "wf_db d" shows "wf_db (mark_processed i d)"
proof -
  have "map ob_id (outbox_rows (mark_processed i d)) = map ob_id (outbox_rows d)"
    by (simp add: mark_processed_def)
  with assms show ?thesis
    by (simp add: wf_db_def mark_processed_def finding_ok_def redaction_ok_def artifact_ok_def
        op_ids_def fd_ids_def del: map_map)
qed

lemma op_ids_delete:
  assumes "wf_db d"
  shows "op_ids (delete_operations_where k p d) = op_ids d - op_id ` set (filter p (operations d))"
proof -
  have "r = s" if "r \<in> set (operations d)" "s \<in> set (operations d)" "op_id r = op_id s" for r s
    using that assms by (auto simp: wf_db_def distinct_map dest: inj_onD)
  then show ?thesis by (auto simp: op_ids_def delete_operations_where_def Let_def)
qed

lemma delete_operations_where_tables [simp]:
  "operations (delete_operations_where k p d) = filter (\<lambda>r. \<not> p r) (operations d)"
  "outbox_rows (delete_operations_where k p d) = outbox_rows d"
  "waivers (delete_operations_where k p d) = waivers d"
  "tenants (delete_operations_where k p d) = tenants d"
  "anchors (delete_operations_where k p d) = anchors d"
  "signing_keys (delete_operations_where k p d) = signing_keys d"
  by (simp_all add: delete_operations_where_def Let_def)

lemma delete_operations_where_children:
  "findings (delete_operations_where k p d) =
     filter (\<lambda>f. \<not> (ck_findings k \<and> fd_operation_id f \<in> op_id ` set (filter p (operations d)))) (findings d)"
  "artifacts (delete_operations_where k p d) =
     filter (\<lambda>a. \<not> (ck_artifacts k \<and> ar_operation_id a \<in> op_id ` set (filter p (operations d)))) (artifacts d)"
  by (simp_all add: delete_operations_where_def Let_def)

lemma partition_keys:
  assumes "distinct (map k xs)" and "y \<in> k ` set xs"
  shows "y \<notin> k ` set (filter p xs) \<longleftrightarrow> y \<in> k ` set (filter (\<lambda>x. \<not> p x) xs)"
proof -
  from assms(2) obtain x where x: "x \<in> set xs" "y = k x" by auto
  have inj: "inj_on k (set xs)" using assms(1) by (simp add: distinct_map)
  have "y \<in> k ` set (filter q xs) \<longleftrightarrow> q x" for q
    using inj_on_image_mem_iff [OF inj x(1), of "set (filter q xs)"] x by simp
  from this [of p] this [of "\<lambda>x. \<not> p x"] show ?thesis by simp
qed

text \<open>With the keys of the models a redaction stays when its operation and its finding stay.\<close>

lemma delete_model_redactions:
  assumes "wf_db d" and "r \<in> set (redactions (delete_operations_where model_keys p d))"
  shows "r \<in> set (redactions d) \<and> rd_operation_id r \<notin> op_id ` set (filter p (operations d))
    \<and> rd_finding_id r \<in> fd_ids (delete_operations_where model_keys p d)"
proof -
  let ?q = "\<lambda>f. fd_operation_id f \<in> op_id ` set (filter p (operations d))"
  from assms(2) have r: "r \<in> set (redactions d)" "rd_operation_id r \<notin> op_id ` set (filter p (operations d))"
    "rd_finding_id r \<notin> fd_id ` set (filter ?q (findings d))"
    by (auto simp: delete_operations_where_def Let_def model_keys_def)
  have k: "distinct (map fd_id (findings d))" and f: "rd_finding_id r \<in> fd_id ` set (findings d)"
    using assms(1) r(1) by (auto simp: wf_db_def redaction_ok_def fd_ids_def)
  from r(3) have "rd_finding_id r \<in> fd_id ` set (filter (\<lambda>f. \<not> ?q f) (findings d))"
    unfolding partition_keys [OF k f] .
  then have "rd_finding_id r \<in> fd_ids (delete_operations_where model_keys p d)"
    by (simp only: fd_ids_def delete_operations_where_children model_keys_def child_keys.simps simp_thms)
  with r show ?thesis by blast
qed

lemma delete_operations_where_wf [inv_intros]:
  assumes "wf_db d" shows "wf_db (delete_operations_where model_keys p d)"
proof -
  let ?d' = "delete_operations_where model_keys p d"
  have ids: "op_ids ?d' = op_ids d - op_id ` set (filter p (operations d))" using assms by (rule op_ids_delete)
  have fs: "\<forall>f \<in> set (findings ?d'). finding_ok ?d' f"
    using assms ids by (auto simp: wf_db_def finding_ok_def delete_operations_where_def Let_def model_keys_def)
  have rs: "\<forall>r \<in> set (redactions ?d'). redaction_ok ?d' r"
    using assms delete_model_redactions [OF assms] ids by (auto simp: wf_db_def redaction_ok_def)
  have as: "\<forall>a \<in> set (artifacts ?d'). artifact_ok ?d' a"
    using assms ids by (auto simp: wf_db_def artifact_ok_def delete_operations_where_def Let_def model_keys_def)
  have "distinct (map fd_id (findings ?d'))" "distinct (map span_key (findings ?d'))"
    "distinct (map rd_id (redactions ?d'))" "distinct (map ar_id (artifacts ?d'))"
    using assms by (simp_all add: wf_db_def delete_operations_where_def Let_def distinct_map_filterI)
  with assms fs rs as show ?thesis by (simp add: wf_db_def distinct_map_filterI)
qed

lemma select_operation_SomeD:
  "select_operation i d = Some r \<Longrightarrow> r \<in> set (operations d) \<and> op_id r = i"
  by (auto simp: select_operation_def find_Some_iff)

lemma select_operation_in:
  assumes "wf_db d" and "r \<in> set (operations d)"
  shows "select_operation (op_id r) d = Some r"
proof -
  have "distinct (map op_id (operations d))" using assms(1) by (simp add: wf_db_def)
  then have "scalar_one_or_none [r] = Inr (find (\<lambda>y. op_id y = op_id r) (operations d))"
    using scalar_unique [of op_id "operations d" "op_id r"] filter_key_unique [OF _ assms(2), of op_id]
    by simp
  then show ?thesis by (simp add: select_operation_def scalar_one_or_none_def)
qed

lemma select_operation_None: "select_operation i d = None \<longleftrightarrow> i \<notin> op_ids d"
  by (auto simp: select_operation_def op_ids_def find_None_iff)

lemma select_update_same:
  assumes "\<And>r. op_id (f r) = op_id r"
  shows "select_operation i (update_operation i f d) = map_option f (select_operation i d)"
proof -
  have "find (\<lambda>r. op_id r = i) (map (\<lambda>r. if op_id r = i then f r else r) xs)
      = map_option f (find (\<lambda>r. op_id r = i) xs)" for xs
    using assms by (induction xs) auto
  then show ?thesis by (simp add: select_operation_def update_operation_def)
qed

lemma select_update_other:
  assumes "\<And>r. op_id (f r) = op_id r" and "i \<noteq> j"
  shows "select_operation j (update_operation i f d) = select_operation j d"
proof -
  have "find (\<lambda>r. op_id r = j) (map (\<lambda>r. if op_id r = i then f r else r) xs)
      = find (\<lambda>r. op_id r = j) xs" for xs
    using assms by (induction xs) auto
  then show ?thesis by (simp add: select_operation_def update_operation_def)
qed

end
