(* ===== verification/Regex_Detector.thy ===== *)
theory Regex_Detector
  imports Data_Model
begin

text \<open>
  The deterministic detector (\<open>workers/ml/regex_detector.py\<close>) and the contract of every detector
  (\<open>workers/core/detector.py\<close>, the locale \<open>detector_interface\<close>). Python's backtracking matcher is
  the function \<open>ends\<close>: the end positions of a match at a position, in the order backtracking
  finds them. It is shown equivalent to the declarative relation \<open>rx_match\<close>; the detector is
  shown to report exactly non-overlapping leftmost matches per rule and to miss no place where
  a rule matches. The Unicode tables behind \<open>\b\<close> and \<open>\d\<close> are the parameter \<open>ucd\<close>.
\<close>

section \<open>The contract of a detector\<close>

definition span_wf :: "nat \<Rightarrow> finding_data \<Rightarrow> bool" where
  "span_wf n f \<longleftrightarrow> span_start f < span_end f \<and> span_end f \<le> n"

definition report_wf :: "doc \<Rightarrow> finding_data \<Rightarrow> bool" where
  "report_wf t f \<longleftrightarrow> span_wf (length t) f \<and> severity f \<in> set severities
     \<and> 0 \<le> confidence f \<and> confidence f \<le> 1"

text \<open>\<open>DetectorInterface.detect\<close>: an ordered list of findings about the text.\<close>

locale detector_interface =
  fixes detect :: "doc \<Rightarrow> finding_data list"
  assumes detect_wf: "f \<in> set (detect t) \<Longrightarrow> report_wf t f"
    and detect_sorted: "sorted (map span_start (detect t))"
begin

lemma detect_slice_nonempty:
  "f \<in> set (detect t) \<Longrightarrow> py_slice t (span_start f) (span_end f) \<noteq> []"
  using detect_wf [of f t] by (auto simp: py_slice_def report_wf_def span_wf_def)

lemma detect_empty: "detect [] = []"
proof (cases "detect []")
  case (Cons f fs)
  then have "report_wf [] f" using detect_wf [of f "[]"] by simp
  then have False by (auto simp: report_wf_def span_wf_def)
  then show ?thesis ..
qed simp

end

section \<open>The regular expressions of \<open>re\<close>\<close>

text \<open>The Unicode tables: \<open>\w\<close>, \<open>\d\<close> and \<open>str.lower()\<close>.\<close>

record ucd =
  is_word_char :: "nat \<Rightarrow> bool"
  is_decimal :: "nat \<Rightarrow> bool"
  py_lower :: "doc \<Rightarrow> doc"

text \<open>
  \<open>Rep p lo hi\<close> is a greedy repetition of one class (\<open>{lo,}\<close> when \<open>hi\<close> is \<open>None\<close>); \<open>WordB\<close> is \<open>\b\<close>.
\<close>

datatype rx = Eps | Cls "nat \<Rightarrow> bool" | Rep "nat \<Rightarrow> bool" nat "nat option"
  | Seq rx rx | Alt rx rx | WordB

definition run_length :: "(nat \<Rightarrow> bool) \<Rightarrow> nat option \<Rightarrow> doc \<Rightarrow> nat \<Rightarrow> nat" where
  "run_length p hi s i =
     length (takeWhile p (case hi of None \<Rightarrow> drop i s | Some h \<Rightarrow> take h (drop i s)))"

definition word_at :: "ucd \<Rightarrow> doc \<Rightarrow> nat \<Rightarrow> bool" where
  "word_at u s i \<longleftrightarrow> i < length s \<and> is_word_char u (s ! i)"

definition word_boundary :: "ucd \<Rightarrow> doc \<Rightarrow> nat \<Rightarrow> bool" where
  "word_boundary u s i \<longleftrightarrow> (0 < i \<and> word_at u s (i - 1)) \<noteq> word_at u s i"

fun ends :: "ucd \<Rightarrow> rx \<Rightarrow> doc \<Rightarrow> nat \<Rightarrow> nat list" where
  "ends u Eps s i = [i]"
| "ends u (Cls p) s i = (if i < length s \<and> p (s ! i) then [Suc i] else [])"
| "ends u (Rep p lo hi) s i =
     (let n = run_length p hi s i in rev (map (\<lambda>k. i + k) [lo..<Suc n]))"
| "ends u (Seq a b) s i = concat (map (ends u b s) (ends u a s i))"
| "ends u (Alt a b) s i = ends u a s i @ ends u b s i"
| "ends u WordB s i = (if word_boundary u s i then [i] else [])"

definition match_at :: "ucd \<Rightarrow> rx \<Rightarrow> doc \<Rightarrow> nat \<Rightarrow> nat option" where
  "match_at u r s i = first_row (ends u r s i)"

text \<open>
  \<open>pattern.finditer(s)\<close>: the next search starts at the end of a match, and one further after
  an empty one (no rule below matches the empty text).
\<close>

function finditer :: "(nat \<Rightarrow> nat option) \<Rightarrow> nat \<Rightarrow> nat \<Rightarrow> (nat \<times> nat) list" where
  "finditer m n i =
     (if n < i then []
      else case m i of
             Some e \<Rightarrow> (i, e) # finditer m n (max e (Suc i))
           | None \<Rightarrow> finditer m n (Suc i))"
  by pat_completeness auto
termination
  by (relation "measure (\<lambda>(m, n, i). Suc n - i)") auto

declare finditer.simps [simp del]

subsection \<open>A declarative semantics\<close>

inductive rx_match :: "ucd \<Rightarrow> doc \<Rightarrow> rx \<Rightarrow> nat \<Rightarrow> nat \<Rightarrow> bool" for u s where
  rx_eps: "rx_match u s Eps i i"
| rx_cls: "i < length s \<Longrightarrow> p (s ! i) \<Longrightarrow> rx_match u s (Cls p) i (Suc i)"
| rx_rep: "lo \<le> k \<Longrightarrow> (\<forall>h. hi = Some h \<longrightarrow> k \<le> h) \<Longrightarrow> i + k \<le> length s \<Longrightarrow>
     (\<forall>j < k. p (s ! (i + j))) \<Longrightarrow> i \<le> length s \<Longrightarrow> rx_match u s (Rep p lo hi) i (i + k)"
| rx_seq: "rx_match u s a i j \<Longrightarrow> rx_match u s b j k \<Longrightarrow> rx_match u s (Seq a b) i k"
| rx_altl: "rx_match u s a i j \<Longrightarrow> rx_match u s (Alt a b) i j"
| rx_altr: "rx_match u s b i j \<Longrightarrow> rx_match u s (Alt a b) i j"
| rx_wordb: "word_boundary u s i \<Longrightarrow> rx_match u s WordB i i"

inductive_cases rx_epsE [elim!]: "rx_match u s Eps i j"
inductive_cases rx_clsE [elim!]: "rx_match u s (Cls p) i j"
inductive_cases rx_repE [elim!]: "rx_match u s (Rep p lo hi) i j"
inductive_cases rx_seqE [elim!]: "rx_match u s (Seq a b) i j"
inductive_cases rx_altE [elim!]: "rx_match u s (Alt a b) i j"
inductive_cases rx_wordbE [elim!]: "rx_match u s WordB i j"

lemma run_length_iff:
  assumes "i \<le> length s"
  shows "k \<le> run_length p hi s i \<longleftrightarrow>
    (\<forall>h. hi = Some h \<longrightarrow> k \<le> h) \<and> i + k \<le> length s \<and> (\<forall>j < k. p (s ! (i + j)))"
proof -
  have tw: "k \<le> length (takeWhile p xs) \<longleftrightarrow> k \<le> length xs \<and> (\<forall>j < k. p (xs ! j))" for xs k
  proof
    assume k: "k \<le> length (takeWhile p xs)"
    have "p (xs ! j)" if "j < k" for j
      using that k nth_mem [of j "takeWhile p xs"] set_takeWhileD [of "takeWhile p xs ! j" p xs]
      by (simp add: takeWhile_nth)
    with k show "k \<le> length xs \<and> (\<forall>j < k. p (xs ! j))"
      using length_takeWhile_le [of p xs] by auto
  next
    assume "k \<le> length xs \<and> (\<forall>j < k. p (xs ! j))"
    then show "k \<le> length (takeWhile p xs)"
      by (metis length_takeWhile_le linorder_not_le nat_less_le nth_length_takeWhile)
  qed
  show ?thesis using assms by (cases hi) (auto simp: run_length_def tw)
qed

lemma ends_match: "i \<le> length s \<Longrightarrow> e \<in> set (ends u r s i) \<longleftrightarrow> rx_match u s r i e"
proof (induction r arbitrary: i e)
  case (Seq a b)
  have le: "j \<le> length s" if "rx_match u s a i j" for j
    using that Seq.prems by (induction) auto
  with Seq.IH(1) [OF Seq.prems] Seq.IH(2) show ?case
    by (auto intro: rx_seq)
next
  case (Rep p lo hi)
  have "e \<in> set (ends u (Rep p lo hi) s i) \<longleftrightarrow> (\<exists>k. e = i + k \<and> lo \<le> k \<and> k \<le> run_length p hi s i)"
    by (auto simp: Let_def less_Suc_eq_le)
  then show ?case unfolding run_length_iff [OF Rep] using Rep by (auto intro: rx_rep)
qed (auto intro: rx_match.intros)

lemma rx_match_bounds: "rx_match u s r i e \<Longrightarrow> i \<le> length s \<Longrightarrow> i \<le> e \<and> e \<le> length s"
  by (induction rule: rx_match.induct) auto

section \<open>\<open>finditer\<close>\<close>

lemma finditer_stop: "n < i \<Longrightarrow> finditer m n i = []"
  by (simp add: finditer.simps)

lemma finditer_step:
  "i \<le> n \<Longrightarrow> finditer m n i =
     (case m i of Some e \<Rightarrow> (i, e) # finditer m n (max e (Suc i)) | None \<Rightarrow> finditer m n (Suc i))"
  by (subst finditer.simps) simp

lemma finditer_mem: "(a, b) \<in> set (finditer m n i) \<Longrightarrow> i \<le> a \<and> a \<le> n \<and> m a = Some b"
proof (induction m n i rule: finditer.induct)
  case (1 m n i)
  show ?case
  proof (cases "n < i")
    case True
    with 1(3) show ?thesis by (simp add: finditer_stop)
  next
    case False
    with 1 show ?thesis
      by (cases "m i") (auto simp: finditer_step)
  qed
qed

lemma finditer_disjoint: "sorted_wrt (\<lambda>p q. snd p \<le> fst q \<and> fst p < fst q) (finditer m n i)"
proof (induction m n i rule: finditer.induct)
  case (1 m n i)
  show ?case
  proof (cases "n < i")
    case True
    then show ?thesis by (simp add: finditer_stop)
  next
    case False
    with 1 show ?thesis
      by (cases "m i") (auto simp: finditer_step dest!: finditer_mem)
  qed
qed

lemma finditer_covers:
  assumes "i \<le> p" and "p \<le> n" and "m p \<noteq> None" and "\<And>j e. m j = Some e \<Longrightarrow> j < e"
  shows "\<exists>(a, b) \<in> set (finditer m n i). a \<le> p \<and> p < b"
  using assms
proof (induction m n i rule: finditer.induct)
  case (1 m n i)
  have n: "\<not> n < i" using "1.prems" by simp
  show ?case
  proof (cases "m i")
    case None
    with "1.prems" have "Suc i \<le> p" by (metis le_antisym not_less_eq_eq)
    with 1(1) [OF n None] "1.prems" None n show ?thesis by (simp add: finditer_step)
  next
    case (Some e)
    have e: "i < e" using "1.prems"(4) Some .
    show ?thesis
    proof (cases "p < e")
      case True
      with "1.prems" Some n show ?thesis by (simp add: finditer_step)
    next
      case False
      with e have "max e (Suc i) \<le> p" by simp
      with 1(2) [OF n Some] "1.prems" Some n show ?thesis by (fastforce simp: finditer_step)
    qed
  qed
qed

section \<open>The rules\<close>

definition exactly :: "char \<Rightarrow> nat \<Rightarrow> bool" where
  "exactly ch c \<longleftrightarrow> c = of_char ch"

text \<open>
  Under \<open>IGNORECASE\<close> a letter also matches the letters that fold to it: the dotted and dotless
  \<open>i\<close>, the Kelvin sign and the long \<open>s\<close>.
\<close>

definition icase :: "char \<Rightarrow> nat \<Rightarrow> bool" where
  "icase ch c \<longleftrightarrow> ascii_lower c = ascii_lower (of_char ch)
     \<or> (ch \<in> {CHR ''i'', CHR ''I''} \<and> (c = 304 \<or> c = 305))
     \<or> (ch \<in> {CHR ''k'', CHR ''K''} \<and> c = 8490)
     \<or> (ch \<in> {CHR ''s'', CHR ''S''} \<and> c = 383)"

fun rx_word :: "(char \<Rightarrow> nat \<Rightarrow> bool) \<Rightarrow> string \<Rightarrow> rx" where
  "rx_word f [] = Eps"
| "rx_word f (c # s) = Seq (Cls (f c)) (rx_word f s)"

fun rx_alts :: "rx list \<Rightarrow> rx" where
  "rx_alts [] = Alt Eps Eps"
| "rx_alts [r] = r"
| "rx_alts (r # rs) = Alt r (rx_alts rs)"

fun rx_seqs :: "rx list \<Rightarrow> rx" where
  "rx_seqs [] = Eps"
| "rx_seqs [r] = r"
| "rx_seqs (r # rs) = Seq r (rx_seqs rs)"

definition in_range_c :: "nat \<Rightarrow> nat \<Rightarrow> nat \<Rightarrow> bool" where
  "in_range_c a b c \<longleftrightarrow> a \<le> c \<and> c \<le> b"

text \<open>\<open>[A-Za-z0-9_-]\<close>, \<open>[0-9a-f]\<close> ignoring case, \<open>[.\- ]\<close>, \<open>[^\s"']\<close>, \<open>\S\<close>.\<close>

definition base64url_char :: "nat \<Rightarrow> bool" where
  "base64url_char c \<longleftrightarrow> in_range_c 65 90 c \<or> in_range_c 97 122 c \<or> in_range_c 48 57 c \<or> c = 95 \<or> c = 45"

definition hex_ichar :: "nat \<Rightarrow> bool" where
  "hex_ichar c \<longleftrightarrow> in_range_c 48 57 c \<or> in_range_c 97 102 c \<or> in_range_c 65 70 c"

definition sep_char :: "nat \<Rightarrow> bool" where
  "sep_char c \<longleftrightarrow> c = 46 \<or> c = 45 \<or> c = 32"

definition uri_char :: "nat \<Rightarrow> bool" where
  "uri_char c \<longleftrightarrow> \<not> is_space c \<and> c \<noteq> 34 \<and> c \<noteq> 39"

definition non_space :: "nat \<Rightarrow> bool" where
  "non_space c \<longleftrightarrow> \<not> is_space c"

definition rx_connection_string :: rx where
  "rx_connection_string = rx_seqs
     [rx_alts (map (rx_word icase)
        [''postgresql'', ''mysql'', ''mongodb'', ''redis'', ''amqp'', ''mssql'']),
      rx_word icase ''://'', Rep uri_char 1 None]"

definition rx_jwt_token :: rx where
  "rx_jwt_token = rx_seqs
     [rx_word exactly ''eyJ'', Rep base64url_char 10 None, rx_word exactly ''.'',
      Rep base64url_char 10 None, rx_word exactly ''.'', Rep base64url_char 10 None]"

definition rx_pem_private_key :: rx where
  "rx_pem_private_key = rx_seqs
     [rx_word exactly ''-----BEGIN '',
      Alt (rx_alts (map (rx_word exactly) [''RSA '', ''EC '', ''OPENSSH ''])) Eps,
      rx_word exactly ''PRIVATE KEY-----'']"

definition rx_env_secret_assignment :: rx where
  "rx_env_secret_assignment = rx_seqs
     [rx_alts (map (rx_word icase)
        [''SECRET_KEY'', ''PRIVATE_KEY'', ''DATABASE_URL'', ''API_SECRET'', ''AUTH_TOKEN'']),
      Rep is_space 0 None, rx_word icase ''='', Rep is_space 0 None, Rep non_space 1 None]"

definition hexes :: "nat \<Rightarrow> rx" where
  "hexes n = Rep hex_ichar n (Some n)"

definition rx_uuid_secret_assignment :: rx where
  "rx_uuid_secret_assignment = rx_seqs
     [rx_alts (map (rx_word icase) [''secret'', ''api_key'', ''token'', ''password'']),
      Rep is_space 0 None, rx_word icase ''='', Rep is_space 0 None,
      hexes 8, rx_word icase ''-'', hexes 4, rx_word icase ''-'', hexes 4, rx_word icase ''-'',
      hexes 4, rx_word icase ''-'', hexes 12]"

definition rx_credit_card :: "ucd \<Rightarrow> rx" where
  "rx_credit_card u =
     (let d4 = Rep (is_decimal u) 4 (Some 4)
      in rx_seqs [WordB, d4, Cls sep_char, d4, Cls sep_char, d4, Cls sep_char, d4, WordB])"

record rule =
  r_rule_id :: string
  r_pattern :: rx
  r_severity :: string
  r_confidence :: rat

definition regex_rules :: "ucd \<Rightarrow> rule list" where
  "regex_rules u =
     [\<lparr>r_rule_id = ''regex_connection_string'', r_pattern = rx_connection_string,
       r_severity = ''critical'', r_confidence = 1\<rparr>,
      \<lparr>r_rule_id = ''regex_jwt_token'', r_pattern = rx_jwt_token,
       r_severity = ''high'', r_confidence = 1\<rparr>,
      \<lparr>r_rule_id = ''regex_pem_private_key'', r_pattern = rx_pem_private_key,
       r_severity = ''critical'', r_confidence = 1\<rparr>,
      \<lparr>r_rule_id = ''regex_env_secret_assignment'', r_pattern = rx_env_secret_assignment,
       r_severity = ''high'', r_confidence = 95 / 100\<rparr>,
      \<lparr>r_rule_id = ''regex_uuid_secret_assignment'', r_pattern = rx_uuid_secret_assignment,
       r_severity = ''high'', r_confidence = 9 / 10\<rparr>,
      \<lparr>r_rule_id = ''regex_credit_card_nonstandard'', r_pattern = rx_credit_card u,
       r_severity = ''high'', r_confidence = 85 / 100\<rparr>]"

section \<open>The detector\<close>

definition ascii_upper_char :: "char \<Rightarrow> char" where
  "ascii_upper_char ch = (let c = of_char ch :: nat in if 97 \<le> c \<and> c \<le> 122 then char_of (c - 32) else ch)"

definition preview :: "doc \<Rightarrow> doc" where
  "preview m = (if length m > 30 then py_slice m 0 30 @ lit ''...'' else m)"

definition rule_finding :: "doc \<Rightarrow> rule \<Rightarrow> nat \<times> nat \<Rightarrow> finding_data" where
  "rule_finding t r se =
     \<lparr>detector = ''regex.'' @ map ascii_upper_char (r_rule_id r), rule_id = r_rule_id r,
      span_start = fst se, span_end = snd se, confidence = r_confidence r, severity = r_severity r,
      explanation = [(''pattern'', jstr (r_rule_id r)),
                     (''matched_preview'', JStr (preview (py_slice t (fst se) (snd se))))]\<rparr>"

definition rule_findings :: "ucd \<Rightarrow> doc \<Rightarrow> rule \<Rightarrow> finding_data list" where
  "rule_findings u t r =
     map (rule_finding t r) (finditer (match_at u (r_pattern r) t) (length t) 0)"

definition regex_detect :: "ucd \<Rightarrow> doc \<Rightarrow> finding_data list" where
  "regex_detect u t = sorted_by span_start (concat (map (rule_findings u t) (regex_rules u)))"

section \<open>Every rule consumes text\<close>

fun rx_min :: "rx \<Rightarrow> nat" where
  "rx_min Eps = 0"
| "rx_min (Cls p) = 1"
| "rx_min (Rep p lo hi) = lo"
| "rx_min (Seq a b) = rx_min a + rx_min b"
| "rx_min (Alt a b) = min (rx_min a) (rx_min b)"
| "rx_min WordB = 0"

lemma rx_match_min: "rx_match u s r i e \<Longrightarrow> i + rx_min r \<le> e"
  by (induction rule: rx_match.induct) auto

lemma rx_min_word [simp]: "rx_min (rx_word f w) = length w"
  by (induction w) auto

lemma rules_consume: "r \<in> set (regex_rules u) \<Longrightarrow> 0 < rx_min (r_pattern r)"
  by (auto simp: regex_rules_def rx_connection_string_def rx_jwt_token_def rx_pem_private_key_def
      rx_env_secret_assignment_def rx_uuid_secret_assignment_def rx_credit_card_def hexes_def Let_def)

lemma match_at_SomeD:
  "match_at u r s i = Some e \<Longrightarrow> i \<le> length s \<Longrightarrow> rx_match u s r i e"
  using ends_match [of i s e u r] by (auto simp: match_at_def dest: first_row_SomeD)

lemma match_at_None: "i \<le> length s \<Longrightarrow> match_at u r s i = None \<longleftrightarrow> (\<forall>e. \<not> rx_match u s r i e)"
  using ends_match [of i s _ u r] by (metis match_at_def first_row_None list.set_intros(1) list.set_cases empty_iff list.set(1) neq_Nil_conv)

lemma match_at_beyond:
  "r \<in> set (regex_rules u) \<Longrightarrow> rx_match u s (r_pattern r) i e \<Longrightarrow> i \<le> length s \<Longrightarrow> i < e \<and> e \<le> length s"
  using rx_match_min rules_consume rx_match_bounds by fastforce

section \<open>What the detector reports\<close>

lemma regex_detect_memD:
  assumes "f \<in> set (regex_detect u t)"
  obtains r a b where "r \<in> set (regex_rules u)" and "f = rule_finding t r (a, b)"
    and "rx_match u t (r_pattern r) a b" and "a < b" and "b \<le> length t"
proof -
  from assms obtain r a b where r: "r \<in> set (regex_rules u)"
    and ab: "(a, b) \<in> set (finditer (match_at u (r_pattern r) t) (length t) 0)"
    and f: "f = rule_finding t r (a, b)"
    by (auto simp: regex_detect_def rule_findings_def)
  from finditer_mem [OF ab] have a: "a \<le> length t" and m: "match_at u (r_pattern r) t a = Some b" by auto
  from match_at_SomeD [OF m a] have x: "rx_match u t (r_pattern r) a b" .
  from match_at_beyond [OF r x a] that [OF r f x] show ?thesis by blast
qed

lemma regex_rules_ids:
  "map r_rule_id (regex_rules u) = [''regex_connection_string'', ''regex_jwt_token'',
     ''regex_pem_private_key'', ''regex_env_secret_assignment'', ''regex_uuid_secret_assignment'',
     ''regex_credit_card_nonstandard'']"
  by (simp add: regex_rules_def)

lemma regex_rules_distinct: "distinct (map r_rule_id (regex_rules u))"
  unfolding regex_rules_ids by simp

lemma regex_rules_grades:
  "r \<in> set (regex_rules u) \<Longrightarrow> r_severity r \<in> {''critical'', ''high''} \<and> 0 < r_confidence r \<and> r_confidence r \<le> 1"
  by (auto simp: regex_rules_def)

lemma regex_report_wf: "f \<in> set (regex_detect u t) \<Longrightarrow> report_wf t f"
  by (erule regex_detect_memD)
    (use regex_rules_grades in \<open>fastforce simp: report_wf_def span_wf_def rule_finding_def severities_def\<close>)

interpretation regex: detector_interface "regex_detect u"
proof unfold_locales
  show "f \<in> set (regex_detect u t) \<Longrightarrow> report_wf t f" for f t by (rule regex_report_wf)
  show "sorted (map span_start (regex_detect u t))" for t by (simp add: regex_detect_def)
qed

lemma rule_findings_apart:
  "sorted_wrt (\<lambda>f g. span_end f \<le> span_start g) (rule_findings u t r)"
proof -
  have "sorted_wrt (\<lambda>p q. snd p \<le> fst q) (finditer (match_at u (r_pattern r) t) (length t) 0)"
    by (rule sorted_wrt_mono_rel [OF _ finditer_disjoint]) simp
  then show ?thesis by (simp add: rule_findings_def sorted_wrt_map rule_finding_def)
qed

lemma rule_findings_rule_id: "f \<in> set (rule_findings u t r) \<Longrightarrow> rule_id f = r_rule_id r"
  by (auto simp: rule_findings_def rule_finding_def)

lemma sorted_wrt_irrefl_distinct: "sorted_wrt P xs \<Longrightarrow> (\<And>x. \<not> P x x) \<Longrightarrow> distinct xs"
  by (induction xs) auto

lemma sorted_wrt_apart:
  "sorted_wrt P xs \<Longrightarrow> x \<in> set xs \<Longrightarrow> y \<in> set xs \<Longrightarrow> x \<noteq> y \<Longrightarrow> P x y \<or> P y x"
  by (induction xs) auto

lemma rule_findings_distinct: "distinct (map (\<lambda>f. (rule_id f, span_start f, span_end f)) (rule_findings u t r))"
proof -
  have "distinct (finditer m n i)" for m n i
    using finditer_disjoint [of m n i] by (rule sorted_wrt_irrefl_distinct) simp
  then show ?thesis
    by (simp add: rule_findings_def rule_finding_def o_def distinct_map inj_on_def)
qed

definition finding_key :: "finding_data \<Rightarrow> string \<times> nat \<times> nat" where
  "finding_key f = (rule_id f, span_start f, span_end f)"

lemma concat_keys_distinct:
  assumes "distinct (map r_rule_id rs)"
  shows "distinct (map finding_key (concat (map (rule_findings u t) rs)))"
  using assms
proof (induction rs)
  case Nil
  then show ?case by simp
next
  case (Cons r rs)
  have "finding_key f \<noteq> finding_key g"
    if "f \<in> set (rule_findings u t r)" "g \<in> set (rule_findings u t r')" "r' \<in> set rs" for f g r'
    using that Cons.prems rule_findings_rule_id [OF that(1)] rule_findings_rule_id [OF that(2)]
    by (auto simp: finding_key_def image_iff)
  then have "finding_key ` set (rule_findings u t r) \<inter>
      finding_key ` set (concat (map (rule_findings u t) rs)) = {}"
    by (simp add: disjoint_iff image_iff) metis
  with Cons rule_findings_distinct [of u t r] show ?case
    by (simp add: finding_key_def [abs_def])
qed

lemma regex_keys_distinct: "distinct (map finding_key (regex_detect u t))"
proof -
  have d: "distinct (map finding_key (concat (map (rule_findings u t) (regex_rules u))))"
    using regex_rules_distinct by (rule concat_keys_distinct)
  have "mset (map finding_key (regex_detect u t))
      = mset (map finding_key (concat (map (rule_findings u t) (regex_rules u))))"
    by (simp only: regex_detect_def mset_map mset_sorted_by)
  with d show ?thesis by (metis mset_eq_imp_distinct_iff)
qed

section \<open>A run\<close>

text \<open>The two tables restricted to ASCII, and a document that two rules match.\<close>

definition ascii_ucd :: ucd where
  "ascii_ucd = \<lparr>is_word_char = (\<lambda>c. in_range_c 48 57 c \<or> in_range_c 65 90 c \<or> in_range_c 97 122 c \<or> c = 95),
     is_decimal = in_range_c 48 57, py_lower = map ascii_lower\<rparr>"

definition leaky_doc :: doc where
  "leaky_doc = lit ''AUTH_TOKEN=redis://a'' @ [34] @ lit ''hunter2''"

lemmas regex_eval = regex_detect_def rule_findings_def regex_rules_def rx_connection_string_def
  rx_jwt_token_def rx_pem_private_key_def rx_env_secret_assignment_def
  rx_uuid_secret_assignment_def rx_credit_card_def hexes_def match_at_def finditer_step finditer_stop
  rule_finding_def preview_def word_boundary_def word_at_def run_length_def exactly_def icase_def
  in_range_c_def base64url_char_def hex_ichar_def sep_char_def uri_char_def non_space_def is_space_def
  ascii_lower_def ascii_upper_char_def ascii_ucd_def sorted_by_def py_slice_def first_row_def Let_def

lemma leaky_doc_run:
  "map finding_key (regex_detect ascii_ucd leaky_doc) =
     [(''regex_env_secret_assignment'', 0, 28), (''regex_connection_string'', 11, 20)]"
  by (simp add: regex_eval finding_key_def leaky_doc_def)

lemma leaky_doc_findings:
  obtains f g where "regex_detect ascii_ucd leaky_doc = [f, g]"
    and "finding_key f = (''regex_env_secret_assignment'', 0, 28)"
    and "finding_key g = (''regex_connection_string'', 11, 20)"
  using leaky_doc_run by (auto simp: map_eq_Cons_conv)

section \<open>Properties\<close>

text \<open>
  soundness of the regex detector. Every finding it reports is a real match, in the
  declarative semantics of the pattern, of one of the six rules: it carries that rule's name,
  severity and confidence, and its span is a non-empty part of the document.
\<close>
theorem regex_detect_sound:
  assumes "f \<in> set (regex_detect u t)"
  shows "\<exists>r \<in> set (regex_rules u). rx_match u t (r_pattern r) (span_start f) (span_end f)
    \<and> rule_id f = r_rule_id r \<and> severity f = r_severity r \<and> confidence f = r_confidence r
    \<and> span_start f < span_end f \<and> span_end f \<le> length t"
  using assms by (rule regex_detect_memD) (auto simp: rule_finding_def)

lemma regex_detect_sound_witness:
  "\<exists>f \<in> set (regex_detect ascii_ucd leaky_doc). \<exists>r \<in> set (regex_rules ascii_ucd).
     rx_match ascii_ucd leaky_doc (r_pattern r) 11 20 \<and> rule_id f = r_rule_id r \<and> span_start f = 11"
proof (rule leaky_doc_findings)
  fix f g
  assume l: "regex_detect ascii_ucd leaky_doc = [f, g]"
    and g: "finding_key g = (''regex_connection_string'', 11, 20)"
  then have "g \<in> set (regex_detect ascii_ucd leaky_doc)" by simp
  from regex_detect_sound [OF this] g this show ?thesis
    by (auto simp: finding_key_def intro!: bexI [of _ g])
qed

lemma regex_rule_covers:
  assumes "r \<in> set (regex_rules u)" and "i \<le> length t" and "rx_match u t (r_pattern r) i e"
  shows "\<exists>a b. rule_finding t r (a, b) \<in> set (regex_detect u t) \<and> a \<le> i \<and> i < b"
proof -
  let ?m = "match_at u (r_pattern r) t"
  define m where "m j = (if j \<le> length t then ?m j else None)" for j
  have same: "finditer ?m (length t) j = finditer m (length t) j" for j
    by (induction ?m "length t" j rule: finditer.induct)
      (subst (1 2) finditer.simps, auto simp: m_def split: option.splits)
  have "m i \<noteq> None" using assms match_at_None [of i t u "r_pattern r"] by (auto simp: m_def)
  moreover have "m j = Some e \<Longrightarrow> j < e" for j e
    using match_at_SomeD [of u "r_pattern r" t j e] match_at_beyond [OF assms(1), of t j e]
    by (auto simp: m_def split: if_splits)
  ultimately obtain a b where ab: "(a, b) \<in> set (finditer ?m (length t) 0)" "a \<le> i" "i < b"
    using finditer_covers [of 0 i "length t" m] assms(2) same by auto
  have "rule_finding t r (a, b) \<in> set (regex_detect u t)"
    using ab assms(1) by (auto simp: regex_detect_def rule_findings_def)
  with ab show ?thesis by blast
qed

text \<open>
  C10: completeness of the regex detector. Wherever a rule's pattern matches, the start of that
  match lies inside a finding of the same rule: \<open>finditer\<close> skips a match only when an earlier
  match of the same rule has already covered its first character.
\<close>
theorem regex_detect_complete:
  assumes "r \<in> set (regex_rules u)" and "i \<le> length t" and "rx_match u t (r_pattern r) i e"
  shows "\<exists>f \<in> set (regex_detect u t). rule_id f = r_rule_id r \<and> span_start f \<le> i \<and> i < span_end f"
proof -
  obtain a b where "rule_finding t r (a, b) \<in> set (regex_detect u t)" and "a \<le> i" and "i < b"
    using regex_rule_covers [OF assms] by blast
  then show ?thesis by (intro bexI [of _ "rule_finding t r (a, b)"]) (simp_all add: rule_finding_def)
qed

lemma regex_detect_complete_witness:
  "\<exists>r f. r \<in> set (regex_rules ascii_ucd) \<and> f \<in> set (regex_detect ascii_ucd (lit ''amqp://a''))
     \<and> rule_id f = r_rule_id r \<and> span_start f \<le> 0 \<and> 0 < span_end f"
proof -
  let ?r = "regex_rules ascii_ucd ! 0"
  have "8 \<in> set (ends ascii_ucd (r_pattern ?r) (lit ''amqp://a'') 0)" by (simp add: regex_eval)
  then have "rx_match ascii_ucd (lit ''amqp://a'') (r_pattern ?r) 0 8"
    by (subst ends_match [symmetric]) simp_all
  moreover have "?r \<in> set (regex_rules ascii_ucd)" by (simp add: regex_rules_def)
  ultimately show ?thesis
    using regex_detect_complete [of ?r ascii_ucd 0 "lit ''amqp://a''" 8] by auto
qed

text \<open>
  two different findings of one rule never overlap, so the detector never violates the
  unique span constraint of the \<open>findings\<close> table by itself.
\<close>
theorem regex_detect_disjoint:
  assumes "f \<in> set (regex_detect u t)" and "g \<in> set (regex_detect u t)"
    and "rule_id f = rule_id g" and "f \<noteq> g"
  shows "span_end f \<le> span_start g \<or> span_end g \<le> span_start f"
proof -
  from assms(1) obtain r where r: "r \<in> set (regex_rules u)" "f \<in> set (rule_findings u t r)"
    by (auto simp: regex_detect_def)
  from assms(2) obtain r' where r': "r' \<in> set (regex_rules u)" "g \<in> set (rule_findings u t r')"
    by (auto simp: regex_detect_def)
  have "r = r'"
    using r r' assms(3) rule_findings_rule_id regex_rules_distinct [of u]
    by (metis distinct_map inj_onD)
  then show ?thesis
    using rule_findings_apart [of u t r] r r' assms(4)
    by (metis sorted_wrt_apart)
qed

lemma regex_detect_disjoint_witness:
  "\<exists>f g. f \<in> set (regex_detect ascii_ucd (lit ''amqp://a amqp://b'')) \<and>
         g \<in> set (regex_detect ascii_ucd (lit ''amqp://a amqp://b'')) \<and> f \<noteq> g \<and>
         (span_end f \<le> span_start g \<or> span_end g \<le> span_start f)"
proof -
  have "map finding_key (regex_detect ascii_ucd (lit ''amqp://a amqp://b'')) =
      [(''regex_connection_string'', 0, 8), (''regex_connection_string'', 9, 17)]"
    by (simp add: regex_eval finding_key_def)
  then obtain f g where l: "regex_detect ascii_ucd (lit ''amqp://a amqp://b'') = [f, g]"
    and k: "finding_key f = (''regex_connection_string'', 0, 8)"
      "finding_key g = (''regex_connection_string'', 9, 17)"
    by (auto simp: map_eq_Cons_conv)
  from k have "f \<noteq> g" and "rule_id f = rule_id g" by (auto simp: finding_key_def)
  with l regex_detect_disjoint [of f ascii_ucd "lit ''amqp://a amqp://b''" g] show ?thesis by auto
qed

end
