(* ===== verification/Merge_Redact.thy ===== *)
theory Merge_Redact
  imports Regex_Detector "HOL-Library.Product_Lexorder"
begin

text \<open>
  Merging of findings and redaction of text: \<open>_merge_findings\<close> of the detector agent,
  \<open>_apply_redactions\<close> and \<open>_severity_to_redaction_type\<close> of the sanitizer agent, and the span
  merging and redaction of the MCP tool \<open>safecontext.sanitize\<close> (\<open>mcp/router.py\<close>). The
  specification is \<open>redact_from\<close>, a left-to-right pass that copies the gaps between disjoint
  spans and writes a marker for each span: both implementations refine it on disjoint spans,
  the MCP one on all spans.
\<close>

section \<open>The specification: one pass from left to right\<close>

fun redact_from :: "'a list \<Rightarrow> nat \<Rightarrow> (nat \<times> nat \<times> 'a list) list \<Rightarrow> 'a list" where
  "redact_from t i [] = drop i t"
| "redact_from t i ((s, e, m) # r) = py_slice t i s @ m @ redact_from t e r"

definition apart :: "nat \<times> nat \<times> 'a list \<Rightarrow> nat \<times> nat \<times> 'a list \<Rightarrow> bool" where
  "apart p q \<longleftrightarrow> fst (snd p) \<le> fst q"

definition span_in :: "nat \<Rightarrow> nat \<times> nat \<times> 'a list \<Rightarrow> bool" where
  "span_in n p \<longleftrightarrow> fst p \<le> fst (snd p) \<and> fst (snd p) \<le> n"

text \<open>Replacing spans one by one from the right.\<close>

definition replace_spans :: "'a list \<Rightarrow> (nat \<times> nat \<times> 'a list) list \<Rightarrow> 'a list" where
  "replace_spans t spans = foldr (\<lambda>(s, e, m) xs. slice_assign xs s e m) spans t"

lemma redact_from_shift:
  "i \<le> j \<Longrightarrow> \<forall>p \<in> set spans. j \<le> fst p \<Longrightarrow> j \<le> length t \<Longrightarrow>
     take i t @ redact_from t i spans = take j t @ redact_from t j spans"
proof (cases spans)
  case Nil
  then show ?thesis by simp
next
  case (Cons p r)
  assume a: "i \<le> j" "\<forall>p \<in> set spans. j \<le> fst p"
  obtain s e m where p: "p = (s, e, m)" by (cases p)
  have "take k t @ py_slice t k s = take s t" if "k \<le> s" for k
    using that by (simp add: py_slice_def take_add [symmetric])
  with a Cons p show ?thesis by simp
qed

lemma replace_spans_from:
  assumes "sorted_wrt apart spans" and "\<forall>p \<in> set spans. span_in (length t) p"
  shows "replace_spans t spans = redact_from t 0 spans"
proof -
  have "replace_spans t spans = take 0 t @ redact_from t 0 spans"
    using assms
  proof (induction spans)
    case Nil
    then show ?case by (simp add: replace_spans_def)
  next
    case (Cons p r)
    obtain s e m where p: "p = (s, e, m)" by (cases p)
    from Cons.prems p have se: "s \<le> e" "e \<le> length t" by (auto simp: span_in_def)
    have "replace_spans t r = take 0 t @ redact_from t 0 r" using Cons by simp
    also have "\<dots> = take e t @ redact_from t e r"
      using Cons.prems p se by (intro redact_from_shift) (auto simp: apart_def)
    finally have r: "replace_spans t r = take e t @ redact_from t e r" .
    have "replace_spans t (p # r) = slice_assign (replace_spans t r) s e m"
      by (simp add: replace_spans_def p)
    also have "\<dots> = take s t @ m @ redact_from t e r"
      using se by (simp add: r slice_assign_def max_def)
    finally show ?case by (simp add: p py_slice_def)
  qed
  then show ?thesis by simp
qed

section \<open>Merging the detectors' findings\<close>

definition overlaps :: "finding_data \<Rightarrow> finding_data \<Rightarrow> bool" where
  "overlaps rf pf \<longleftrightarrow> max (span_start rf) (span_start pf) < min (span_end rf) (span_end pf)"

fun merge_loop :: "finding_data list \<Rightarrow> finding_data list \<Rightarrow> finding_data list \<Rightarrow> finding_data list" where
  "merge_loop regex [] merged = merged"
| "merge_loop regex (pf # presidio) merged =
     (if \<not> (\<exists>rf \<in> set regex. overlaps rf pf) then merge_loop regex presidio (merged @ [pf])
      else merge_loop regex presidio merged)"

definition merge_findings :: "finding_data list \<Rightarrow> finding_data list \<Rightarrow> finding_data list" where
  "merge_findings regex presidio = sorted_by span_start (merge_loop regex presidio regex)"

lemma merge_loop_eq:
  "merge_loop regex presidio merged =
     merged @ filter (\<lambda>pf. \<not> (\<exists>rf \<in> set regex. overlaps rf pf)) presidio"
  by (induction presidio arbitrary: merged) auto

lemma set_merge_findings:
  "set (merge_findings regex presidio) =
     set regex \<union> {pf \<in> set presidio. \<forall>rf \<in> set regex. \<not> overlaps rf pf}"
  by (auto simp: merge_findings_def merge_loop_eq)

lemma merge_findings_report_wf:
  "\<forall>f \<in> set regex \<union> set presidio. report_wf t f \<Longrightarrow> f \<in> set (merge_findings regex presidio) \<Longrightarrow> report_wf t f"
  by (auto simp: set_merge_findings)

lemma overlaps_sym: "overlaps f g = overlaps g f"
  by (simp add: overlaps_def max.commute min.commute)

lemma not_overlaps_iff:
  "span_start f < span_end f \<Longrightarrow> span_start g < span_end g \<Longrightarrow>
     \<not> overlaps f g \<longleftrightarrow> span_end f \<le> span_start g \<or> span_end g \<le> span_start f"
  by (auto simp: overlaps_def)

section \<open>The sanitizer's redactions\<close>

definition severity_to_redaction_type :: "string \<Rightarrow> string" where
  "severity_to_redaction_type s = dict_get
     [(''critical'', ''mask''), (''high'', ''mask''), (''medium'', ''mask''), (''low'', ''replace'')]
     s ''mask''"

definition redacted :: doc where
  "redacted = lit ''[REDACTED]''"

definition redaction_markers :: "(string \<times> doc) list" where
  "redaction_markers = [(''mask'', redacted), (''remove'', []), (''replace'', redacted)]"

definition marker_of :: "(uuid \<Rightarrow> string option) \<Rightarrow> finding \<Rightarrow> doc" where
  "marker_of rmap f =
     dict_get redaction_markers (case rmap (fd_id f) of Some r \<Rightarrow> r | None \<Rightarrow> ''mask'') redacted"

fun redact_loop :: "(uuid \<Rightarrow> string option) \<Rightarrow> finding list \<Rightarrow> doc \<Rightarrow> doc" where
  "redact_loop rmap [] chars = chars"
| "redact_loop rmap (f # fs) chars =
     redact_loop rmap fs (slice_assign chars (span_start f) (span_end f) (marker_of rmap f))"

definition apply_redactions :: "doc \<Rightarrow> finding list \<Rightarrow> (uuid \<Rightarrow> string option) \<Rightarrow> doc" where
  "apply_redactions text fs rmap = redact_loop rmap (sorted_by_desc span_start fs) text"

definition finding_span :: "(uuid \<Rightarrow> string option) \<Rightarrow> finding \<Rightarrow> nat \<times> nat \<times> doc" where
  "finding_span rmap f = (span_start f, span_end f, marker_of rmap f)"

lemma redact_loop_append: "redact_loop rmap (fs @ gs) t = redact_loop rmap gs (redact_loop rmap fs t)"
  by (induction fs arbitrary: t) auto

lemma redact_loop_rev: "redact_loop rmap (rev fs) t = replace_spans t (map (finding_span rmap) fs)"
  by (induction fs) (auto simp: replace_spans_def finding_span_def redact_loop_append)

lemma apply_redactions_replace:
  "apply_redactions t fs rmap = replace_spans t (map (finding_span rmap) (sort_key span_start (rev fs)))"
  by (simp add: apply_redactions_def sorted_by_desc_def redact_loop_rev)

lemma sort_key_unique:
  assumes "distinct (map k xs)" and "mset xs = mset ys"
  shows "sort_key k xs = sort_key k ys"
proof (rule properties_for_sort_key [symmetric])
  show "mset (sort_key k xs) = mset ys" using assms(2) by simp
  have d: "distinct (map k (sort_key k xs))" and e: "distinct (map k ys)"
    using assms mset_eq_imp_distinct_iff by (metis mset_map mset_sort)+
  fix x assume x: "x \<in> set (sort_key k xs)"
  then have "x \<in> set ys" using assms(2) by (metis set_mset_mset set_sort)
  with filter_key_unique [OF d x] filter_key_unique [OF e this]
  show "filter (\<lambda>y. k x = k y) (sort_key k xs) = filter (\<lambda>y. k x = k y) ys"
    by (simp add: eq_commute [of "k x"])
qed simp

text \<open>Pairwise disjoint findings, sorted by their start, are apart.\<close>

definition disjoint_findings :: "('a finding_data_scheme) list \<Rightarrow> bool" where
  "disjoint_findings fs \<longleftrightarrow> distinct fs \<and>
     (\<forall>f \<in> set fs. \<forall>g \<in> set fs. f \<noteq> g \<longrightarrow> span_end f \<le> span_start g \<or> span_end g \<le> span_start f)"

lemma disjoint_starts:
  assumes "disjoint_findings fs" and "\<forall>f \<in> set fs. span_start f < span_end f"
  shows "distinct (map span_start fs)"
proof -
  have "inj_on span_start (set fs)"
    using assms by (intro inj_onI) (metis disjoint_findings_def leD)
  then show ?thesis using assms(1) by (simp add: distinct_map disjoint_findings_def)
qed

lemma sorted_disjoint_apart:
  assumes "disjoint_findings fs" and "\<forall>f \<in> set fs. span_start f < span_end f"
    and "sorted (map span_start fs)"
  shows "sorted_wrt (\<lambda>f g. span_end f \<le> span_start g) fs"
proof -
  have "sorted_wrt (\<lambda>f g. span_start f \<le> span_start g) fs" using assms(3) by (simp add: sorted_map)
  moreover have "distinct fs" using assms(1) by (simp add: disjoint_findings_def)
  ultimately have "sorted_wrt (\<lambda>f g. span_start f \<le> span_start g \<and> f \<noteq> g) fs"
    by (induction fs) auto
  moreover have "span_end f \<le> span_start g"
    if f: "f \<in> set fs" and g: "g \<in> set fs" and fg: "span_start f \<le> span_start g \<and> f \<noteq> g" for f g
  proof -
    have "span_end f \<le> span_start g \<or> span_end g \<le> span_start f"
      using assms(1) f g fg unfolding disjoint_findings_def by blast
    moreover have "span_start g < span_end g" using assms(2) g by blast
    ultimately show ?thesis using fg by linarith
  qed
  ultimately show ?thesis by (rule sorted_wrt_mono_rel [rotated])
qed

lemma disjoint_findings_mset:
  "mset fs = mset gs \<Longrightarrow> disjoint_findings fs \<Longrightarrow> disjoint_findings gs"
  unfolding disjoint_findings_def by (metis mset_eq_imp_distinct_iff set_mset_mset)

lemma apply_redactions_disjoint:
  assumes "disjoint_findings fs"
    and "\<forall>f \<in> set fs. span_start f < span_end f \<and> span_end f \<le> length t"
  shows "apply_redactions t fs rmap = redact_from t 0 (map (finding_span rmap) (sorted_by span_start fs))"
proof -
  let ?gs = "sort_key span_start fs"
  have ne: "\<forall>f \<in> set fs. span_start f < span_end f" using assms(2) by blast
  have "sort_key span_start (rev fs) = ?gs"
    using disjoint_starts [OF assms(1) ne] sort_key_unique [of span_start fs "rev fs"] by simp
  then have "apply_redactions t fs rmap = replace_spans t (map (finding_span rmap) ?gs)"
    by (simp add: apply_redactions_replace)
  also have "\<dots> = redact_from t 0 (map (finding_span rmap) ?gs)"
  proof (rule replace_spans_from)
    have "disjoint_findings ?gs" using assms(1) by (rule disjoint_findings_mset [rotated]) simp
    then have "sorted_wrt (\<lambda>f g. span_end f \<le> span_start g) ?gs"
      using ne by (intro sorted_disjoint_apart) simp_all
    then show "sorted_wrt apart (map (finding_span rmap) ?gs)"
      by (simp add: sorted_wrt_map apart_def finding_span_def)
    show "\<forall>p \<in> set (map (finding_span rmap) ?gs). span_in (length t) p"
      using assms(2) by (auto simp: span_in_def finding_span_def)
  qed
  finally show ?thesis by (simp add: sorted_by_def)
qed

section \<open>What a redacted text still shows\<close>

definition covered :: "(nat \<times> nat \<times> 'a list) list \<Rightarrow> nat \<Rightarrow> bool" where
  "covered spans p \<longleftrightarrow> (\<exists>q \<in> set spans. fst q \<le> p \<and> p < fst (snd q))"

definition unmark :: "(nat \<times> nat \<times> 'a list) list \<Rightarrow> (nat \<times> nat \<times> 'a list) list" where
  "unmark spans = map (\<lambda>(s, e, m). (s, e, [])) spans"

lemma py_slice_nth: "i \<le> s \<Longrightarrow> s \<le> length t \<Longrightarrow> py_slice t i s = map ((!) t) [i..<s]"
  by (rule nth_equalityI) (auto simp: py_slice_def)

text \<open>With the markers taken out, exactly the characters outside every span remain, in order.\<close>

lemma redact_from_keeps:
  assumes "sorted_wrt apart spans" and "\<forall>p \<in> set spans. span_in (length t) p \<and> i \<le> fst p"
    and "i \<le> length t"
  shows "redact_from t i (unmark spans) = map ((!) t) (filter (\<lambda>p. \<not> covered spans p) [i..<length t])"
  using assms
proof (induction spans arbitrary: i)
  case Nil
  have "map ((!) t) [i..<length t] = drop i t" by (rule nth_equalityI) auto
  then show ?case by (simp add: covered_def unmark_def)
next
  case (Cons q r)
  obtain s e m where q: "q = (s, e, m)" by (cases q)
  from Cons.prems q have b: "i \<le> s" "s \<le> e" "e \<le> length t" by (auto simp: span_in_def)
  have after: "\<forall>p \<in> set r. e \<le> fst p" using Cons.prems q by (auto simp: apart_def)
  have "[i..<length t] = [i..<s] @ [s..<e] @ [e..<length t]"
    using b by (metis le_trans upt_add_eq_append le_add_diff_inverse)
  moreover have "filter (\<lambda>p. \<not> covered (q # r) p) [i..<s] = [i..<s]"
    using after b q by (fastforce simp: covered_def filter_id_conv)
  moreover have "filter (\<lambda>p. \<not> covered (q # r) p) [s..<e] = []"
    using q by (auto simp: covered_def filter_empty_conv)
  moreover have "filter (\<lambda>p. \<not> covered (q # r) p) [e..<length t] = filter (\<lambda>p. \<not> covered r p) [e..<length t]"
    using q by (auto simp: covered_def intro!: filter_cong)
  moreover have "redact_from t e (unmark r) = map ((!) t) (filter (\<lambda>p. \<not> covered r p) [e..<length t])"
    using Cons.prems after b by (intro Cons.IH) auto
  ultimately show ?case
    using b q by (simp add: unmark_def py_slice_nth)
qed

section \<open>The MCP tool \<open>safecontext.sanitize\<close>\<close>

type_synonym group = "nat \<times> nat \<times> finding list"

definition mcp_merge_step :: "group list \<Rightarrow> finding \<Rightarrow> group list" where
  "mcp_merge_step merged f =
     (if merged \<noteq> [] \<and> span_start f < fst (snd (last merged))
      then (case last merged of (prev_start, prev_end, prev_fs) \<Rightarrow>
              butlast merged @ [(prev_start, max prev_end (span_end f), prev_fs @ [f])])
      else merged @ [(span_start f, span_end f, [f])])"

definition mcp_merge :: "finding list \<Rightarrow> group list" where
  "mcp_merge fs = foldl mcp_merge_step [] (sorted_by (\<lambda>f. (span_start f, span_end f)) fs)"

definition mcp_replacement :: "string \<Rightarrow> doc option \<Rightarrow> doc" where
  "mcp_replacement rtype token =
     (if rtype = ''mask'' then redacted
      else if rtype = ''remove'' then []
      else case token of Some t \<Rightarrow> if t = [] then redacted else t | None \<Rightarrow> redacted)"

definition mcp_redact :: "doc \<Rightarrow> finding list \<Rightarrow> doc \<Rightarrow> doc" where
  "mcp_redact document fs replacement =
     fold (\<lambda>(s, e, g) sanitized. take s sanitized @ replacement @ drop e sanitized)
       (rev (mcp_merge fs)) document"

text \<open>The redaction map of the answer: finding, span, type and policy version.\<close>

type_synonym map_entry = "uuid \<times> nat \<times> nat \<times> string \<times> string"

definition mcp_redaction_map :: "finding list \<Rightarrow> string \<Rightarrow> string \<Rightarrow> map_entry list" where
  "mcp_redaction_map fs rtype ver =
     rev (concat (map (\<lambda>(s, e, g). map (\<lambda>f. (fd_id f, span_start f, span_end f, rtype, ver)) g)
       (rev (mcp_merge fs))))"

definition group_span :: "doc \<Rightarrow> group \<Rightarrow> nat \<times> nat \<times> doc" where
  "group_span m g = (fst g, fst (snd g), m)"

subsection \<open>The merged groups\<close>

definition groups_ok :: "nat \<Rightarrow> group list \<Rightarrow> finding list \<Rightarrow> bool" where
  "groups_ok n gs fs \<longleftrightarrow>
     sorted_wrt (\<lambda>g h. fst (snd g) \<le> fst h) gs
   \<and> (\<forall>g \<in> set gs. fst g < fst (snd g) \<and> fst (snd g) \<le> n)
   \<and> (\<forall>p. (\<exists>g \<in> set gs. fst g \<le> p \<and> p < fst (snd g)) \<longleftrightarrow> (\<exists>f \<in> set fs. span_start f \<le> p \<and> p < span_end f))
   \<and> concat (map (\<lambda>g. snd (snd g)) gs) = fs
   \<and> (\<forall>g \<in> set gs. fst g \<in> span_start ` set fs)
   \<and> (\<forall>g \<in> set gs. \<forall>f \<in> set (snd (snd g)). fst g \<le> span_start f \<and> span_end f \<le> fst (snd g))
   \<and> (\<forall>g \<in> set gs. \<forall>i. fst g < i \<and> i < fst (snd g) \<longrightarrow> (\<exists>f \<in> set fs. span_start f < i \<and> i < span_end f))"

lemma groups_ok_step:
  assumes ok: "groups_ok n gs fs" and f: "span_start f < span_end f" "span_end f \<le> n"
    and le: "\<forall>g \<in> set fs. span_start g \<le> span_start f"
  shows "groups_ok n (mcp_merge_step gs f) (fs @ [f])"
proof (cases "gs \<noteq> [] \<and> span_start f < fst (snd (last gs))")
  case True
  then obtain hs a b g where gs: "gs = hs @ [(a, b, g)]" and s: "span_start f < b"
    by (metis append_butlast_last_id fst_conv snd_conv prod_cases3)
  have a: "a \<le> span_start f" using ok le gs by (auto simp: groups_ok_def)
  have step: "mcp_merge_step gs f = hs @ [(a, max b (span_end f), g @ [f])]"
    using s by (simp add: mcp_merge_step_def gs)
  have cov: "(a \<le> p \<and> p < max b (span_end f)) \<longleftrightarrow> (a \<le> p \<and> p < b) \<or> (span_start f \<le> p \<and> p < span_end f)" for p
    using a s by auto
  have old: "(\<exists>f' \<in> set fs. span_start f' \<le> p \<and> p < span_end f') \<longleftrightarrow>
      (\<exists>g \<in> set hs. fst g \<le> p \<and> p < fst (snd g)) \<or> (a \<le> p \<and> p < b)" for p
    using ok unfolding groups_ok_def gs by auto
  have new: "(\<exists>g \<in> set (hs @ [(a, max b (span_end f), g @ [f])]). fst g \<le> p \<and> p < fst (snd g)) \<longleftrightarrow>
      (\<exists>f' \<in> set (fs @ [f]). span_start f' \<le> p \<and> p < span_end f')" for p
    using cov [of p] old [of p] by auto
  have conn: "\<exists>f' \<in> set (fs @ [f]). span_start f' < i \<and> i < span_end f'" if i: "a < i" "i < max b (span_end f)" for i
  proof (cases "i < b")
    case True
    with ok i(1) show ?thesis by (auto simp: groups_ok_def gs)
  next
    case False
    with i s show ?thesis by auto
  qed
  have members: "\<forall>f' \<in> set (g @ [f]). a \<le> span_start f' \<and> span_end f' \<le> max b (span_end f)"
    using ok a by (auto simp: groups_ok_def gs le_max_iff_disj)
  have hs: "\<forall>g \<in> set hs. \<forall>i. fst g < i \<and> i < fst (snd g) \<longrightarrow> (\<exists>f' \<in> set (fs @ [f]). span_start f' < i \<and> i < span_end f')"
    using ok by (auto simp: groups_ok_def gs)
  have base: "sorted_wrt (\<lambda>g h. fst (snd g) \<le> fst h) (hs @ [(a, max b (span_end f), g @ [f])])"
    "\<forall>x \<in> set (hs @ [(a, max b (span_end f), g @ [f])]). fst x < fst (snd x) \<and> fst (snd x) \<le> n"
    "concat (map (\<lambda>g. snd (snd g)) (hs @ [(a, max b (span_end f), g @ [f])])) = fs @ [f]"
    "\<forall>x \<in> set (hs @ [(a, max b (span_end f), g @ [f])]). fst x \<in> span_start ` set (fs @ [f])"
    "\<forall>x \<in> set hs. \<forall>f' \<in> set (snd (snd x)). fst x \<le> span_start f' \<and> span_end f' \<le> fst (snd x)"
    using ok f s a by (auto simp: groups_ok_def gs sorted_wrt_append max_def)
  show ?thesis unfolding step groups_ok_def using base new conn members hs by auto
next
  case False
  then have step: "mcp_merge_step gs f = gs @ [(span_start f, span_end f, [f])]"
    by (auto simp: mcp_merge_step_def)
  have before: "fst (snd g) \<le> span_start f" if "g \<in> set gs" for g
  proof -
    from that obtain hs l where gs: "gs = hs @ [l]" by (metis append_butlast_last_id empty_iff list.set(1))
    with False have l: "fst (snd l) \<le> span_start f" by simp
    from ok gs that have "g = l \<or> fst (snd g) \<le> fst l" by (auto simp: groups_ok_def sorted_wrt_append)
    moreover have "fst l < fst (snd l)" using ok gs by (simp add: groups_ok_def)
    ultimately show ?thesis using l by auto
  qed
  from ok have cov: "(\<exists>f' \<in> set fs. span_start f' \<le> p \<and> p < span_end f') \<longleftrightarrow>
      (\<exists>g \<in> set gs. fst g \<le> p \<and> p < fst (snd g))" for p
    by (simp add: groups_ok_def)
  have new: "(\<exists>g \<in> set (gs @ [(span_start f, span_end f, [f])]). fst g \<le> p \<and> p < fst (snd g)) \<longleftrightarrow>
      (\<exists>f' \<in> set (fs @ [f]). span_start f' \<le> p \<and> p < span_end f')" for p
    using cov [of p] by auto
  from ok f before new show ?thesis
    unfolding step groups_ok_def by (auto simp: sorted_wrt_append)
qed

lemma mcp_merge_groups:
  assumes "\<forall>f \<in> set fs. span_start f < span_end f \<and> span_end f \<le> n"
  shows "groups_ok n (mcp_merge fs) (sorted_by (\<lambda>f. (span_start f, span_end f)) fs)"
proof -
  have "groups_ok n (foldl mcp_merge_step [] gs) gs"
    if "sorted (map span_start gs)" and "\<forall>f \<in> set gs. span_start f < span_end f \<and> span_end f \<le> n" for gs
    using that
  proof (induction gs rule: rev_induct)
    case Nil
    then show ?case by (simp add: groups_ok_def)
  next
    case (snoc f gs)
    then show ?case by (simp add: groups_ok_step sorted_append)
  qed
  moreover have "sorted (map span_start (sorted_by (\<lambda>f. (span_start f, span_end f)) fs))"
  proof -
    have "sorted (map (\<lambda>f. (span_start f, span_end f)) (sorted_by (\<lambda>f. (span_start f, span_end f)) fs))"
      by simp
    then show ?thesis
      unfolding sorted_map by (rule sorted_wrt_mono_rel [rotated]) (auto simp: less_eq_prod_def)
  qed
  ultimately show ?thesis using assms by (simp add: mcp_merge_def)
qed

lemma mcp_redact_replace:
  assumes "\<forall>g \<in> set (mcp_merge fs). fst g \<le> fst (snd g)"
  shows "mcp_redact t fs m = replace_spans t (map (group_span m) (mcp_merge fs))"
proof -
  have "fold (\<lambda>(s, e, g) x. take s x @ m @ drop e x) (rev gs) t = replace_spans t (map (group_span m) gs)"
    if "\<forall>g \<in> set gs. fst g \<le> fst (snd g)" for gs
    using that
    by (induction gs) (auto simp: replace_spans_def group_span_def slice_assign_def max_def)
  then show ?thesis using assms by (simp add: mcp_redact_def)
qed

section \<open>Rows and redaction types of a run\<close>

text \<open>The row \<open>FindingModel(operation_id=\<dots>, detector=f.detector, \<dots>)\<close> with its generated key.\<close>

definition finding_row :: "uuid \<Rightarrow> uuid \<Rightarrow> finding_data \<Rightarrow> finding" where
  "finding_row i oid f = finding_data.extend f \<lparr>fd_id = i, fd_operation_id = oid\<rparr>"

text \<open>\<open>redaction_map[f.id] = _severity_to_redaction_type(f.severity)\<close> for every finding.\<close>

definition redaction_map_of :: "finding list \<Rightarrow> uuid \<Rightarrow> string option" where
  "redaction_map_of fs = map_of (rev (map (\<lambda>f. (fd_id f, severity_to_redaction_type (severity f))) fs))"

lemma finding_row_simps [simp]:
  "fd_id (finding_row i oid f) = i" "fd_operation_id (finding_row i oid f) = oid"
  "span_start (finding_row i oid f) = span_start f" "span_end (finding_row i oid f) = span_end f"
  "rule_id (finding_row i oid f) = rule_id f" "severity (finding_row i oid f) = severity f"
  "confidence (finding_row i oid f) = confidence f"
  by (simp_all add: finding_row_def finding_data.defs)

text \<open>The sanitizer never removes a span without leaving a marker.\<close>

lemma redaction_map_of_marker: "marker_of (redaction_map_of fs) f = redacted"
proof -
  have "v \<in> {''mask'', ''replace''}" if "redaction_map_of fs i = Some v" for i v
    using that
    by (auto simp: redaction_map_of_def severity_to_redaction_type_def dest!: map_of_SomeD)
  then show ?thesis
    by (cases "redaction_map_of fs (fd_id f)") (auto simp: marker_of_def redaction_markers_def)
qed

section \<open>Properties\<close>

text \<open>
  merging keeps every regex finding and exactly those Presidio findings that overlap no
  regex finding, each as often as the detector reported it, ordered by the start of the span.
\<close>
theorem merge_findings_spec:
  "mset (merge_findings regex presidio) =
     mset regex + filter_mset (\<lambda>pf. \<forall>rf \<in> set regex. \<not> overlaps rf pf) (mset presidio)
   \<and> sorted (map span_start (merge_findings regex presidio))"
  by (simp add: merge_findings_def merge_loop_eq)

lemma disjoint_findings_append:
  assumes "disjoint_findings xs" and "disjoint_findings ys" and "set xs \<inter> set ys = {}"
    and "\<And>f g. f \<in> set xs \<Longrightarrow> g \<in> set ys \<Longrightarrow> span_end f \<le> span_start g \<or> span_end g \<le> span_start f"
  shows "disjoint_findings (xs @ ys)"
proof -
  have "span_end f \<le> span_start g \<or> span_end g \<le> span_start f"
    if "f \<in> set xs \<union> set ys" "g \<in> set xs \<union> set ys" "f \<noteq> g" for f g
    using that assms unfolding disjoint_findings_def by (metis UnE)
  then show ?thesis using assms(1-3) by (simp add: disjoint_findings_def)
qed

text \<open>
  when each detector's findings are pairwise disjoint, so are the merged ones: the promise
  of the docstring ("no overlapping entries") holds under this hypothesis only.
\<close>
theorem merge_findings_disjoint:
  assumes "disjoint_findings regex" and "disjoint_findings presidio"
    and "\<forall>f \<in> set regex \<union> set presidio. span_start f < span_end f"
  shows "disjoint_findings (merge_findings regex presidio)"
proof -
  let ?p = "filter (\<lambda>pf. \<not> (\<exists>rf \<in> set regex. overlaps rf pf)) presidio"
  have cross: "span_end f \<le> span_start g \<or> span_end g \<le> span_start f"
    if "f \<in> set regex" "g \<in> set ?p" for f g
    using that assms(3) not_overlaps_iff [of f g] by auto
  have "set regex \<inter> set ?p = {}"
    using assms(3) by (fastforce simp: overlaps_def)
  moreover have "disjoint_findings ?p" using assms(2) by (auto simp: disjoint_findings_def)
  ultimately have "disjoint_findings (regex @ ?p)"
    using assms(1) cross by (intro disjoint_findings_append)
  then show ?thesis
    by (rule disjoint_findings_mset [rotated]) (simp add: merge_findings_def merge_loop_eq)
qed

text \<open>
  C3: on pairwise disjoint findings, in whatever order the rows come, the sanitizer's in-place
  replacement from the end refines the left-to-right specification: every span becomes the
  marker and every other character stays.
\<close>
theorem apply_redactions_refines:
  assumes "disjoint_findings fs"
    and "\<forall>f \<in> set fs. span_start f < span_end f \<and> span_end f \<le> length t"
  shows "apply_redactions t fs (redaction_map_of fs) =
     redact_from t 0 (map (\<lambda>f. (span_start f, span_end f, redacted)) (sorted_by span_start fs))"
  using apply_redactions_disjoint [OF assms, of "redaction_map_of fs"]
  by (simp add: finding_span_def [abs_def] redaction_map_of_marker)

text \<open>
  C23: the sanitizer leaks when a short finding is nested in a longer one: replacing the inner
  span by the ten-character marker moves the text, and the stale end of the outer span then
  leaves the last \<open>10 - (length of the inner span)\<close> characters of the secret in the output.
\<close>
theorem nested_findings_leak:
  assumes "span_start f < span_start g" and "span_start g < span_end g"
    and "span_end g + (10 - (span_end g - span_start g)) \<le> span_end f"
    and "span_end f \<le> length t" and "span_end g - span_start g < 10"
  shows "apply_redactions t [f, g] (redaction_map_of [f, g]) =
     take (span_start f) t @ redacted @ drop (span_end f - (10 - (span_end g - span_start g))) t"
proof -
  let ?k = "10 - (span_end g - span_start g)"
  have len: "length redacted = 10" by (simp add: redacted_def)
  have order: "sorted_by_desc span_start [f, g] = [g, f]"
    using assms by (simp add: sorted_by_desc_def)
  have first: "slice_assign t (span_start g) (span_end g) redacted =
      take (span_start g) t @ redacted @ drop (span_end g) t"
    using assms by (simp add: slice_assign_def max_def)
  have "take (span_start f) (take (span_start g) t @ redacted @ drop (span_end g) t) = take (span_start f) t"
    using assms by simp
  moreover have "drop (span_end f) (take (span_start g) t @ redacted @ drop (span_end g) t) = drop (span_end f - ?k) t"
    using assms len by (simp add: drop_append add.commute)
  ultimately show ?thesis
    using assms by (simp add: apply_redactions_def order redaction_map_of_marker first)
      (simp add: slice_assign_def max_def)
qed

text \<open>
  C4: the MCP tool redacts the connected unions of its findings. On any findings with spans in the
  document, overlapping, nested or not, its answer is the left-to-right specification on spans that are
  disjoint and in order, cover exactly the characters that some finding covers, hold every finding
  whole, and join neighbouring characters only where one finding covers both.
\<close>
theorem mcp_redact_refines:
  assumes "\<forall>f \<in> set fs. span_start f < span_end f \<and> span_end f \<le> length t"
  shows "\<exists>spans. mcp_redact t fs m = redact_from t 0 (map (\<lambda>p. (fst p, snd p, m)) spans)
    \<and> sorted_wrt (\<lambda>p q. snd p \<le> fst q) spans
    \<and> (\<forall>p \<in> set spans. fst p < snd p \<and> snd p \<le> length t)
    \<and> (\<forall>i. (\<exists>p \<in> set spans. fst p \<le> i \<and> i < snd p) \<longleftrightarrow> (\<exists>f \<in> set fs. span_start f \<le> i \<and> i < span_end f))
    \<and> (\<forall>f \<in> set fs. \<exists>p \<in> set spans. fst p \<le> span_start f \<and> span_end f \<le> snd p)
    \<and> (\<forall>p \<in> set spans. \<forall>i. fst p < i \<and> i < snd p \<longrightarrow> (\<exists>f \<in> set fs. span_start f < i \<and> i < span_end f))"
proof -
  let ?spans = "map (\<lambda>g. (fst g, fst (snd g))) (mcp_merge fs)"
  note ok = mcp_merge_groups [OF assms]
  have "mcp_redact t fs m = replace_spans t (map (group_span m) (mcp_merge fs))"
    using ok by (intro mcp_redact_replace) (auto simp: groups_ok_def)
  also have "\<dots> = redact_from t 0 (map (group_span m) (mcp_merge fs))"
    using ok by (intro replace_spans_from)
      (auto simp: groups_ok_def sorted_wrt_map apart_def span_in_def group_span_def)
  also have "map (group_span m) (mcp_merge fs) = map (\<lambda>p. (fst p, snd p, m)) ?spans"
    by (simp add: group_span_def)
  finally have spec: "mcp_redact t fs m = redact_from t 0 (map (\<lambda>p. (fst p, snd p, m)) ?spans)" .
  have "set fs = set (concat (map (\<lambda>g. snd (snd g)) (mcp_merge fs)))" using ok by (simp add: groups_ok_def)
  then have mem: "\<exists>g \<in> set (mcp_merge fs). f \<in> set (snd (snd g))" if "f \<in> set fs" for f using that by auto
  have whole: "\<forall>g \<in> set (mcp_merge fs). \<forall>f \<in> set (snd (snd g)). fst g \<le> span_start f \<and> span_end f \<le> fst (snd g)"
    using ok unfolding groups_ok_def by blast
  have "\<forall>f \<in> set fs. \<exists>p \<in> set ?spans. fst p \<le> span_start f \<and> span_end f \<le> snd p"
  proof
    fix f assume "f \<in> set fs"
    from mem [OF this] obtain g where "g \<in> set (mcp_merge fs)" "f \<in> set (snd (snd g))" by blast
    with whole show "\<exists>p \<in> set ?spans. fst p \<le> span_start f \<and> span_end f \<le> snd p"
      by (intro bexI [of _ "(fst g, fst (snd g))"]) simp_all
  qed
  moreover have "sorted_wrt (\<lambda>p q. snd p \<le> fst q) ?spans" "\<forall>p \<in> set ?spans. fst p < snd p \<and> snd p \<le> length t"
    using ok by (simp_all add: groups_ok_def sorted_wrt_map)
  moreover have "\<forall>i. (\<exists>p \<in> set ?spans. fst p \<le> i \<and> i < snd p) \<longleftrightarrow> (\<exists>f \<in> set fs. span_start f \<le> i \<and> i < span_end f)"
    using ok unfolding groups_ok_def by simp
  moreover have "\<forall>p \<in> set ?spans. \<forall>i. fst p < i \<and> i < snd p \<longrightarrow> (\<exists>f \<in> set fs. span_start f < i \<and> i < span_end f)"
    using ok unfolding groups_ok_def by simp
  ultimately show ?thesis using spec by (intro exI [of _ ?spans] conjI)
qed

text \<open>
  in the mode \<open>remove\<close> the output of the MCP tool is the document without the flagged
  characters: a character remains if and only if no finding covers it.
\<close>
theorem mcp_redact_keeps:
  assumes "\<forall>f \<in> set fs. span_start f < span_end f \<and> span_end f \<le> length t"
  shows "mcp_redact t fs (mcp_replacement ''remove'' tok) =
     map ((!) t) (filter (\<lambda>p. \<not> (\<exists>f \<in> set fs. span_start f \<le> p \<and> p < span_end f)) [0..<length t])"
proof -
  note ok = mcp_merge_groups [OF assms]
  let ?s = "map (group_span []) (mcp_merge fs)"
  have "mcp_redact t fs [] = replace_spans t ?s"
    using ok by (intro mcp_redact_replace) (auto simp: groups_ok_def)
  also have "\<dots> = redact_from t 0 ?s"
    using ok by (intro replace_spans_from)
      (auto simp: groups_ok_def sorted_wrt_map apart_def span_in_def group_span_def)
  also have "\<dots> = map ((!) t) (filter (\<lambda>p. \<not> covered ?s p) [0..<length t])"
  proof -
    have "redact_from t 0 (unmark ?s) = map ((!) t) (filter (\<lambda>p. \<not> covered ?s p) [0..<length t])"
      using ok by (intro redact_from_keeps)
        (auto simp: groups_ok_def sorted_wrt_map apart_def span_in_def group_span_def)
    moreover have "unmark ?s = ?s" by (simp add: unmark_def group_span_def)
    ultimately show ?thesis by (simp only:)
  qed
  also have "covered ?s = (\<lambda>p. \<exists>f \<in> set fs. span_start f \<le> p \<and> p < span_end f)"
    using ok by (auto simp: groups_ok_def covered_def group_span_def fun_eq_iff)
  finally show ?thesis by (simp add: mcp_replacement_def)
qed

text \<open>
  the redaction map of the MCP answer lists every finding of the operation exactly once,
  with its own span.
\<close>
theorem mcp_redaction_map_complete:
  assumes "\<forall>f \<in> set fs. span_start f < span_end f \<and> span_end f \<le> length t"
  shows "mset (mcp_redaction_map fs rtype ver) =
     mset (map (\<lambda>f. (fd_id f, span_start f, span_end f, rtype, ver)) fs)"
proof -
  let ?e = "\<lambda>f. (fd_id f, span_start f, span_end f, rtype, ver)"
  have c: "mset (concat (map (\<lambda>(s, e, g). map ?e g) (rev gs))) =
      mset (map ?e (concat (map (\<lambda>g. snd (snd g)) gs)))" for gs
    by (induction gs) auto
  have g: "concat (map (\<lambda>g. snd (snd g)) (mcp_merge fs)) = sorted_by (\<lambda>f. (span_start f, span_end f)) fs"
    using mcp_merge_groups [OF assms] by (simp add: groups_ok_def)
  show ?thesis by (simp add: mcp_redaction_map_def c g)
qed

section \<open>Witnesses\<close>

definition sample_data :: "nat \<Rightarrow> nat \<Rightarrow> finding_data" where
  "sample_data s e = \<lparr>detector = ''regex.X'', rule_id = ''x'', span_start = s, span_end = e,
     confidence = 1, severity = ''high'', explanation = []\<rparr>"

definition sample_finding :: "uuid \<Rightarrow> nat \<Rightarrow> nat \<Rightarrow> finding" where
  "sample_finding i s e = finding_row i 1 \<lparr>detector = ''regex.X'', rule_id = ''x'', span_start = s,
     span_end = e, confidence = 1, severity = ''high'', explanation = []\<rparr>"

lemma sample_finding_simps [simp]:
  "fd_id (sample_finding i s e) = i" "span_start (sample_finding i s e) = s"
  "span_end (sample_finding i s e) = e"
  by (simp_all add: sample_finding_def)

lemma sample_finding_eq_iff [simp]:
  "sample_finding i s e = sample_finding j s' e' \<longleftrightarrow> i = j \<and> s = s' \<and> e = e'"
  by (metis sample_finding_simps)

lemma merge_findings_spec_witness:
  "sorted (map span_start (merge_findings [sample_data 3 5, sample_data 0 2] [sample_data 1 4, sample_data 5 6]))
   \<and> mset (merge_findings [sample_data 3 5, sample_data 0 2] [sample_data 1 4, sample_data 5 6]) =
      {#sample_data 3 5, sample_data 0 2, sample_data 5 6#}"
  using merge_findings_spec [of "[sample_data 3 5, sample_data 0 2]" "[sample_data 1 4, sample_data 5 6]"]
  by (simp add: overlaps_def sample_data_def add_mset_commute)

lemma merge_findings_disjoint_witness:
  "disjoint_findings (merge_findings (regex_detect ascii_ucd (lit ''amqp://a''))
     [\<lparr>detector = ''presidio.PERSON'', rule_id = ''presidio_person'', span_start = 2, span_end = 4,
       confidence = 1, severity = ''medium'', explanation = []\<rparr>])"
proof -
  have "map finding_key (regex_detect ascii_ucd (lit ''amqp://a'')) = [(''regex_connection_string'', 0, 8)]"
    by (simp add: regex_eval finding_key_def)
  then obtain f where "regex_detect ascii_ucd (lit ''amqp://a'') = [f]" and "finding_key f = (''regex_connection_string'', 0, 8)"
    by (auto simp: map_eq_Cons_conv)
  then show ?thesis
    by (intro merge_findings_disjoint) (auto simp: disjoint_findings_def finding_key_def)
qed

lemma apply_redactions_refines_witness:
  "apply_redactions (lit ''abcdef'') [sample_finding 1 3 5, sample_finding 2 0 2]
     (redaction_map_of [sample_finding 1 3 5, sample_finding 2 0 2]) =
   redacted @ lit ''c'' @ redacted @ lit ''f''"
  using apply_redactions_refines [of "[sample_finding 1 3 5, sample_finding 2 0 2]" "lit ''abcdef''"]
  by (simp add: disjoint_findings_def sorted_by_def py_slice_def)

text \<open>
  The two findings of the regex detector on \<open>AUTH_TOKEN=redis://a"hunter2\<close>: the sanitized text
  is \<open>[REDACTED]2\<close>.
\<close>

lemma nested_findings_leak_witness:
  "\<exists>f g. regex_detect ascii_ucd leaky_doc = [f, g] \<and>
     (let r = [finding_row 1 9 f, finding_row 2 9 g]
      in apply_redactions leaky_doc r (redaction_map_of r) = redacted @ lit ''2'')"
proof (rule leaky_doc_findings)
  fix f g
  assume l: "regex_detect ascii_ucd leaky_doc = [f, g]"
    and k: "finding_key f = (''regex_env_secret_assignment'', 0, 28)"
      "finding_key g = (''regex_connection_string'', 11, 20)"
  then have s: "span_start f = 0" "span_end f = 28" "span_start g = 11" "span_end g = 20"
    by (simp_all add: finding_key_def)
  have "length leaky_doc = 28" "drop 27 leaky_doc = lit ''2''" by (simp_all add: leaky_doc_def)
  with l s nested_findings_leak [of "finding_row 1 9 f" "finding_row 2 9 g" leaky_doc] show ?thesis
    by (auto simp: Let_def)
qed

lemma mcp_redact_refines_witness:
  "\<exists>spans. mcp_redact (lit ''abcdef'') [sample_finding 1 1 5, sample_finding 2 2 3] redacted =
       redact_from (lit ''abcdef'') 0 (map (\<lambda>p. (fst p, snd p, redacted)) spans)
     \<and> (\<forall>i. (\<exists>p \<in> set spans. fst p \<le> i \<and> i < snd p) \<longleftrightarrow> 1 \<le> i \<and> i < 5)"
proof -
  have cov: "(\<exists>f \<in> set [sample_finding 1 1 5, sample_finding 2 2 3]. span_start f \<le> i \<and> i < span_end f) \<longleftrightarrow> 1 \<le> i \<and> i < 5" for i
    by auto
  have "\<forall>f \<in> set [sample_finding 1 1 5, sample_finding 2 2 3]. span_start f < span_end f \<and> span_end f \<le> length (lit ''abcdef'')"
    by simp
  from mcp_redact_refines [OF this, of redacted] show ?thesis unfolding cov by blast
qed

lemma mcp_redact_keeps_witness:
  "mcp_redact (lit ''abcdef'') [sample_finding 1 1 5, sample_finding 2 2 3] (mcp_replacement ''remove'' None) =
     lit ''af''"
  using mcp_redact_keeps [of "[sample_finding 1 1 5, sample_finding 2 2 3]" "lit ''abcdef''" None]
  by (simp add: upt_rec_numeral)

lemma mcp_redaction_map_complete_witness:
  "mset (mcp_redaction_map [sample_finding 1 1 5, sample_finding 2 2 3] ''mask'' ''v'') =
     mset [(1, 1, 5, ''mask'', ''v''), (2, 2, 3, ''mask'', ''v'')]"
  using mcp_redaction_map_complete [of "[sample_finding 1 1 5, sample_finding 2 2 3]" "lit ''abcdef''" "''mask''" "''v''"]
  by simp

end
