(* ===== verification/Opa_Client.thy ===== *)
theory Opa_Client
  imports Data_Model
begin

text \<open>
  The policy client (\<open>workers/core/opa_client.py\<close>): the policy cache with its defaults, the live
  evaluation of a rule, and the polling step. OPA itself is a parameter: the outcome of each
  HTTP request, an exception or a response with a status and a decoded body. The lemmas say that
  reading a policy never fails and that a failed poll keeps the last policy.
\<close>

section \<open>Python on decoded JSON\<close>

text \<open>\<open>d.get(k, x)\<close>: only a dictionary has the method.\<close>

fun json_get :: "json \<Rightarrow> string \<Rightarrow> json \<Rightarrow> json result" where
  "json_get (JObj kvs) k x = Inr (dict_get kvs (lit k) x)"
| "json_get _ k x = Inl (PyExc ''AttributeError'')"

text \<open>\<open>bool(v)\<close>.\<close>

fun json_truthy :: "json \<Rightarrow> bool" where
  "json_truthy JNull \<longleftrightarrow> False"
| "json_truthy (JBool b) \<longleftrightarrow> b"
| "json_truthy (JInt i) \<longleftrightarrow> i \<noteq> 0"
| "json_truthy (JFloat q) \<longleftrightarrow> q \<noteq> 0"
| "json_truthy (JStr s) \<longleftrightarrow> s \<noteq> []"
| "json_truthy (JArr js) \<longleftrightarrow> js \<noteq> []"
| "json_truthy (JObj kvs) \<longleftrightarrow> kvs \<noteq> []"

section \<open>The client\<close>

text \<open>A response: its status and its body, \<open>None\<close> when \<open>resp.json()\<close> raises.\<close>

record http_resp =
  h_status :: nat
  h_body :: "json option"

definition resp_json :: "http_resp \<Rightarrow> json result" where
  "resp_json r = (case h_body r of Some j \<Rightarrow> Inr j | None \<Rightarrow> Inl (PyExc ''JSONDecodeError''))"

definition raise_for_status :: "http_resp \<Rightarrow> unit result" where
  "raise_for_status r =
     raise_if (\<not> (200 \<le> h_status r \<and> h_status r \<le> 299)) (PyExc ''HTTPStatusError'')"

record opa_client =
  policy_cache :: "string \<Rightarrow> json option"
  policy_version :: doc
  oc_running :: bool

definition opa_init :: opa_client where
  "opa_init = \<lparr>policy_cache = Map.empty, policy_version = lit ''unknown'', oc_running = False\<rparr>"

definition default_policy :: "rat \<Rightarrow> json" where
  "default_policy threshold = JObj
     [(lit ''entities'', JArr (map jstr [''EMAIL_ADDRESS'', ''PHONE_NUMBER'', ''PERSON'', ''API_KEY'', ''PASSWORD''])),
      (lit ''confidence_threshold'', JFloat threshold)]"

definition get_policy :: "rat \<Rightarrow> opa_client \<Rightarrow> string \<Rightarrow> json" where
  "get_policy threshold c name =
     (case policy_cache c name of Some p \<Rightarrow> p | None \<Rightarrow> default_policy threshold)"

definition get_policy_version :: "opa_client \<Rightarrow> doc" where
  "get_policy_version c = policy_version c"

text \<open>
  \<open>evaluate(path, input)\<close>; \<open>post\<close> is the HTTP request with the path and the body. Whatever goes
  wrong inside becomes \<open>OPAUnavailableError\<close>.
\<close>

definition opa_unavailable :: exn where
  "opa_unavailable = PyExc ''OPAUnavailableError''"

definition opa_evaluate :: "(string \<Rightarrow> json \<Rightarrow> http_resp result) \<Rightarrow> string \<Rightarrow> json \<Rightarrow> json result" where
  "opa_evaluate post path input_data =
     (case rbind (post (''/v1/data/'' @ path) (JObj [(lit ''input'', input_data)])) (\<lambda>resp.
           rbind (raise_for_status resp) (\<lambda>_.
           rbind (resp_json resp) (\<lambda>j. json_get j ''result'' (JObj []))))
      of Inr v \<Rightarrow> Inr v | Inl e \<Rightarrow> Inl opa_unavailable)"

text \<open>
  \<open>_refresh()\<close>: both requests are made first; \<open>py_str\<close> is \<open>str()\<close> of a decoded value that is neither a
  string nor an integer. The step returns the new state and the exception it ends with, if any: the version is
  already updated when the policy body cannot be read.
\<close>

definition str_of_json :: "(json \<Rightarrow> doc) \<Rightarrow> json \<Rightarrow> doc" where
  "str_of_json py_str j = (case j of JStr s \<Rightarrow> s | JInt i \<Rightarrow> lit (int_str i) | _ \<Rightarrow> py_str j)"

definition opa_refresh ::
  "(json \<Rightarrow> doc) \<Rightarrow> http_resp result \<Rightarrow> http_resp result \<Rightarrow> opa_client \<Rightarrow> opa_client \<times> unit result" where
  "opa_refresh py_str meta policy c =
     (case (meta, policy) of
        (Inl e, _) \<Rightarrow> (c, Inl e)
      | (_, Inl e) \<Rightarrow> (c, Inl e)
      | (Inr m, Inr p) \<Rightarrow>
          (case (if h_status m = 200
                 then rbind (resp_json m) (\<lambda>j. rbind (json_get j ''result'' (JStr (policy_version c)))
                        (\<lambda>v. Inr (c\<lparr>policy_version := str_of_json py_str v\<rparr>)))
                 else Inr c)
           of Inl e \<Rightarrow> (c, Inl e)
            | Inr c1 \<Rightarrow>
                (if h_status p = 200
                 then case rbind (resp_json p) (\<lambda>j. json_get j ''result'' (JObj [])) of
                        Inl e \<Rightarrow> (c1, Inl e)
                      | Inr v \<Rightarrow> (c1\<lparr>policy_cache := (policy_cache c1)(''base'' \<mapsto> v)\<rparr>, Inr ())
                 else (c1, Inr ()))))"

text \<open>One turn of \<open>start_polling\<close>: errors are logged and swallowed; a stopped client does nothing.\<close>

definition poll_step ::
  "(json \<Rightarrow> doc) \<Rightarrow> opa_client \<Rightarrow> http_resp result \<times> http_resp result \<Rightarrow> opa_client" where
  "poll_step py_str c io = (if oc_running c then fst (opa_refresh py_str (fst io) (snd io) c) else c)"

definition start_polling ::
  "(json \<Rightarrow> doc) \<Rightarrow> (http_resp result \<times> http_resp result) list \<Rightarrow> opa_client \<Rightarrow> opa_client" where
  "start_polling py_str ios c = foldl (poll_step py_str) (c\<lparr>oc_running := True\<rparr>) ios"

definition opa_stop :: "opa_client \<Rightarrow> opa_client" where
  "opa_stop c = c\<lparr>oc_running := False\<rparr>"

section \<open>Properties\<close>

lemma opa_evaluate_error: "opa_evaluate post path inp = Inl e \<Longrightarrow> e = opa_unavailable"
  by (auto simp: opa_evaluate_def split: sum.splits)

definition policy_response :: "http_resp result \<times> http_resp result \<Rightarrow> json option" where
  "policy_response io =
     (case io of
        (Inr m, Inr p) \<Rightarrow>
          if (h_status m = 200 \<longrightarrow> (\<exists>kvs. h_body m = Some (JObj kvs))) \<and> h_status p = 200
          then (case h_body p of Some (JObj kvs) \<Rightarrow> Some (dict_get kvs (lit ''result'') (JObj [])) | _ \<Rightarrow> None)
          else None
      | _ \<Rightarrow> None)"

lemma json_get_Inr_iff: "json_get j k x = Inr v \<longleftrightarrow> (\<exists>kvs. j = JObj kvs \<and> v = dict_get kvs (lit k) x)"
  by (cases j) auto

lemma json_get_Inl_iff: "json_get j k x = Inl e \<longleftrightarrow> (\<nexists>kvs. j = JObj kvs) \<and> e = PyExc ''AttributeError''"
  by (cases j) auto

lemma opa_refresh_base:
  "policy_cache (fst (opa_refresh py_str (fst io) (snd io) c)) =
     (case policy_response io of Some v \<Rightarrow> (policy_cache c)(''base'' \<mapsto> v) | None \<Rightarrow> policy_cache c)"
proof (cases io)
  case (Pair m p)
  have obj: "(\<exists>kvs. j = JObj kvs) \<or> (\<forall>k x. json_get j k x = Inl (PyExc ''AttributeError'')
      \<and> (\<nexists>kvs. j = JObj kvs))" for j
    by (cases j) auto
  show ?thesis
  proof (cases m; cases p)
    fix m' p' assume m: "m = Inr m'" and p: "p = Inr p'"
    show ?thesis
      using obj [of "the (h_body m')"] obj [of "the (h_body p')"]
      unfolding Pair m p opa_refresh_def policy_response_def resp_json_def
      by (cases "h_body m'"; cases "h_body p'") (auto split: json.splits)
  qed (auto simp: Pair opa_refresh_def policy_response_def)
qed

lemma opa_refresh_running [simp]: "oc_running (fst (opa_refresh py_str a b c)) = oc_running c"
  by (auto simp: opa_refresh_def res_simps split: sum.splits)

lemma start_polling_running: "oc_running (start_polling py_str ios c)"
  by (induction ios rule: rev_induct) (simp_all add: start_polling_def poll_step_def)

lemma start_polling_snoc:
  "start_polling py_str (ios @ [io]) c = fst (opa_refresh py_str (fst io) (snd io) (start_polling py_str ios c))"
  using start_polling_running [of py_str ios c] by (simp add: start_polling_def poll_step_def)

text \<open>
  hot reload. After any number of polls, in which OPA may fail in any way, the policy the
  workers read is the last one OPA delivered successfully; the built-in defaults are used only
  while there has been none. Reading it never fails.
\<close>
theorem polling_keeps_last_policy:
  "get_policy threshold (start_polling py_str ios opa_init) ''base'' =
     (let good = List.map_filter policy_response ios
      in if good = [] then default_policy threshold else last good)"
proof -
  have "policy_cache (start_polling py_str ios opa_init) ''base'' =
     (let good = List.map_filter policy_response ios in if good = [] then None else Some (last good))"
  proof (induction ios rule: rev_induct)
    case Nil
    show ?case by (simp add: start_polling_def opa_init_def)
  next
    case (snoc io ios)
    then show ?case
      unfolding start_polling_snoc opa_refresh_base
      by (cases "policy_response io") (simp_all add: List.map_filter_def Let_def)
  qed
  then show ?thesis by (simp add: get_policy_def Let_def)
qed

end
