(* ===== verification/Presidio_Detector.thy ===== *)
theory Presidio_Detector
  imports Opa_Client Regex_Detector
begin

text \<open>
  The Presidio detector (\<open>workers/ml/presidio_detector.py\<close>): the filtering and grading of what the
  analyzer recognises. The analyzer is third-party code and a parameter. The lemmas say exactly
  which results become findings, that an analyzer failure reports nothing, and that the
  configured threshold of the default policy never reaches the analyzer.
\<close>

section \<open>Tables\<close>

definition person_denylist :: "doc list" where
  "person_denylist = map lit
     [''contacto'', ''contact'', ''correo'', ''email'', ''password'', ''usuario'', ''user'', ''nombre'',
      ''name'', ''address'', ''phone'', ''clave'', ''llave'', ''key'', ''token'', ''dato'', ''datos'',
      ''api'', ''url'', ''http'', ''https'', ''localhost'', ''server'', ''database'', ''admin'', ''root'',
      ''system'', ''service'', ''client'', ''host'', ''mi'', ''tu'', ''su'', ''el'', ''la'', ''los'', ''las'']
   @ [lit ''contrase'' @ [241] @ lit ''a'', lit ''direcci'' @ [243] @ lit ''n'',
      lit ''tel'' @ [233] @ lit ''fono'']"

definition exempt_email_domains :: "doc list" where
  "exempt_email_domains = map lit
     [''test.com'', ''test.local'', ''test.org'', ''test.net'', ''example.com'', ''example.org'',
      ''example.net'', ''localhost'', ''local'', ''invalid'', ''testmail.com'', ''mailtest.com'']"

definition severity_table :: "(string \<times> string) list" where
  "severity_table =
     [(''EMAIL_ADDRESS'', ''medium''), (''PHONE_NUMBER'', ''medium''), (''PERSON'', ''medium''),
      (''API_KEY'', ''critical''), (''PASSWORD'', ''critical''), (''CREDIT_CARD'', ''high''),
      (''SSN'', ''critical''), (''IBAN_CODE'', ''high''), (''IP_ADDRESS'', ''low''),
      (''MEDICAL_RECORD'', ''critical'')]"

definition default_entities :: json where
  "default_entities = JArr (map jstr
     [''EMAIL_ADDRESS'', ''PHONE_NUMBER'', ''PERSON'', ''CREDIT_CARD'', ''IBAN_CODE'', ''IP_ADDRESS'',
      ''SSN'', ''API_KEY''])"

section \<open>The analyzer\<close>

text \<open>One \<open>RecognizerResult\<close>; \<open>rr_explanation\<close> is \<open>str(analysis_explanation)\<close> when there is one.\<close>

record rec_result =
  entity_type :: string
  rr_start :: nat
  rr_end :: nat
  rr_score :: rat
  rr_metadata :: json
  rr_explanation :: "doc option"

text \<open>
  What the detector runs on: the analyzer (text, entities, threshold), \<open>float()\<close> of a string, the
  Unicode tables, and whether the module's logger is enabled for \<open>DEBUG\<close>.
\<close>

record presidio_env =
  analyze :: "doc \<Rightarrow> json \<Rightarrow> rat \<Rightarrow> rec_result list result"
  float_of_str :: "doc \<Rightarrow> rat result"
  pe_ucd :: ucd
  debug_enabled :: bool

fun py_float :: "presidio_env \<Rightarrow> json \<Rightarrow> rat result" where
  "py_float pe (JInt i) = Inr (of_int i)"
| "py_float pe (JFloat q) = Inr q"
| "py_float pe (JBool b) = Inr (if b then 1 else 0)"
| "py_float pe (JStr s) = float_of_str pe s"
| "py_float pe _ = Inl (PyExc ''TypeError'')"

text \<open>\<open>round(x, 4)\<close>: half to even.\<close>

definition round4 :: "rat \<Rightarrow> rat" where
  "round4 x = (let y = x * 10000; n = \<lfloor>y\<rfloor>; r = y - of_int n
     in of_int (if r < 1 / 2 then n else if r > 1 / 2 then n + 1 else if even n then n else n + 1) / 10000)"

section \<open>Filters\<close>

definition already_redacted :: "doc \<Rightarrow> bool" where
  "already_redacted m \<longleftrightarrow> is_infix (lit ''[REDACTED]'') m"

definition denied_person :: "ucd \<Rightarrow> string \<Rightarrow> doc \<Rightarrow> bool" where
  "denied_person u et m \<longleftrightarrow> et = ''PERSON'' \<and> py_lower u (strip_by is_space m) \<in> set person_denylist"

text \<open>\<open>m.split("@")[-1]\<close>: what follows the last at sign.\<close>

definition after_last_at :: "doc \<Rightarrow> doc" where
  "after_last_at m = rev (takeWhile (\<lambda>c. c \<noteq> 64) (rev m))"

definition exempt_email :: "ucd \<Rightarrow> string \<Rightarrow> doc \<Rightarrow> bool" where
  "exempt_email u et m \<longleftrightarrow> et = ''EMAIL_ADDRESS'' \<and> 64 \<in> set m
     \<and> py_lower u (strip_by is_space (after_last_at m)) \<in> set exempt_email_domains"

definition ascii_lower_char :: "char \<Rightarrow> char" where
  "ascii_lower_char ch = (let c = of_char ch :: nat in if 65 \<le> c \<and> c \<le> 90 then char_of (c + 32) else ch)"

definition presidio_finding :: "rec_result \<Rightarrow> finding_data" where
  "presidio_finding r =
     \<lparr>detector = ''presidio.'' @ entity_type r,
      rule_id = ''presidio_'' @ map ascii_lower_char (entity_type r),
      span_start = rr_start r, span_end = rr_end r, confidence = round4 (rr_score r),
      severity = dict_get severity_table (entity_type r) ''medium'',
      explanation = [(''entity_type'', jstr (entity_type r)),
        (''recognition_metadata'', if json_truthy (rr_metadata r) then rr_metadata r else JObj []),
        (''analysis_explanation'', case rr_explanation r of Some s \<Rightarrow> JStr s | None \<Rightarrow> JNull)]\<rparr>"

text \<open>
  The loop over the results. The two \<open>debug\<close> calls of the exemptions pass keyword arguments to a
  logger of the standard library, which raises \<open>TypeError\<close> when the level is enabled.
\<close>

fun presidio_loop :: "presidio_env \<Rightarrow> doc \<Rightarrow> rec_result list \<Rightarrow> finding_data list \<Rightarrow> finding_data list result" where
  "presidio_loop pe t [] fs = Inr fs"
| "presidio_loop pe t (r # rs) fs =
     (let m = py_slice t (rr_start r) (rr_end r) in
      if already_redacted m then presidio_loop pe t rs fs
      else if denied_person (pe_ucd pe) (entity_type r) m
      then (if debug_enabled pe then Inl (PyExc ''TypeError'') else presidio_loop pe t rs fs)
      else if exempt_email (pe_ucd pe) (entity_type r) m
      then (if debug_enabled pe then Inl (PyExc ''TypeError'') else presidio_loop pe t rs fs)
      else presidio_loop pe t rs (fs @ [presidio_finding r]))"

definition presidio_detect :: "presidio_env \<Rightarrow> doc \<Rightarrow> json \<Rightarrow> finding_data list result" where
  "presidio_detect pe t policy =
     rbind (json_get policy ''entities'' default_entities) (\<lambda>entities.
     rbind (json_get policy ''score_threshold'' (JFloat (1 / 2))) (\<lambda>th.
     rbind (py_float pe th) (\<lambda>threshold.
       case analyze pe t entities threshold of
         Inl e \<Rightarrow> Inr []
       | Inr rs \<Rightarrow> presidio_loop pe t rs [])))"

section \<open>Properties\<close>

definition exempt :: "presidio_env \<Rightarrow> doc \<Rightarrow> rec_result \<Rightarrow> bool" where
  "exempt pe t r \<longleftrightarrow> (let m = py_slice t (rr_start r) (rr_end r)
     in already_redacted m \<or> denied_person (pe_ucd pe) (entity_type r) m
        \<or> exempt_email (pe_ucd pe) (entity_type r) m)"

definition logged_exemption :: "presidio_env \<Rightarrow> doc \<Rightarrow> rec_result \<Rightarrow> bool" where
  "logged_exemption pe t r \<longleftrightarrow> exempt pe t r \<and> \<not> already_redacted (py_slice t (rr_start r) (rr_end r))"

lemma presidio_loop_ok:
  "\<not> debug_enabled pe \<Longrightarrow>
     presidio_loop pe t rs fs = Inr (fs @ map presidio_finding (filter (\<lambda>r. \<not> exempt pe t r) rs))"
  by (induction rs arbitrary: fs) (simp_all add: exempt_def Let_def)

lemma presidio_loop_debug:
  "debug_enabled pe \<Longrightarrow>
     presidio_loop pe t rs fs =
       (if \<exists>r \<in> set rs. logged_exemption pe t r then Inl (PyExc ''TypeError'')
        else Inr (fs @ map presidio_finding (filter (\<lambda>r. \<not> exempt pe t r) rs)))"
  by (induction rs arbitrary: fs) (auto simp: exempt_def logged_exemption_def Let_def)

lemma severity_table_grades: "dict_get severity_table et ''medium'' \<in> set severities"
  by (simp add: severity_table_def severities_def)

text \<open>
  what the Presidio detector reports. With a policy dictionary whose threshold is a number
  and logging above \<open>DEBUG\<close>, the findings are, in the analyzer's order, the recognised results
  that no filter exempts; an exception of the analyzer is reported as no findings at all.
\<close>
theorem presidio_detect_spec:
  assumes "policy = JObj kvs" and "py_float pe (dict_get kvs (lit ''score_threshold'') (JFloat (1 / 2))) = Inr th"
    and "\<not> debug_enabled pe"
  shows "presidio_detect pe t policy = Inr
    (case analyze pe t (dict_get kvs (lit ''entities'') default_entities) th of
       Inl e \<Rightarrow> []
     | Inr rs \<Rightarrow> map presidio_finding (filter (\<lambda>r. \<not> exempt pe t r) rs))"
  using assms by (auto simp: presidio_detect_def presidio_loop_ok split: sum.splits)

definition sample_rec :: "nat \<Rightarrow> nat \<Rightarrow> rec_result" where
  "sample_rec s e = \<lparr>entity_type = ''PERSON'', rr_start = s, rr_end = e, rr_score = 17 / 20,
     rr_metadata = JNull, rr_explanation = None\<rparr>"

definition sample_pe :: "bool \<Rightarrow> presidio_env" where
  "sample_pe dbg = \<lparr>analyze = (\<lambda>t ents th. Inr [sample_rec 0 4, sample_rec 5 8]),
     float_of_str = (\<lambda>s. Inl (PyExc ''ValueError'')), pe_ucd = ascii_ucd, debug_enabled = dbg\<rparr>"

lemma sample_exempt:
  "\<not> exempt (sample_pe d) (lit ''Anna Key'') (sample_rec 0 4)"
  "logged_exemption (sample_pe d) (lit ''Anna Key'') (sample_rec 5 8)"
  by (simp_all add: exempt_def logged_exemption_def sample_pe_def sample_rec_def py_slice_def already_redacted_def
      denied_person_def exempt_email_def person_denylist_def ascii_ucd_def strip_by_def is_space_def
      ascii_lower_def starts_with_def Let_def)

lemma presidio_detect_spec_witness:
  "presidio_detect (sample_pe False) (lit ''Anna Key'') (JObj []) = Inr [presidio_finding (sample_rec 0 4)]"
proof -
  have "exempt (sample_pe False) (lit ''Anna Key'') (sample_rec 5 8)"
    using sample_exempt(2) by (simp add: logged_exemption_def)
  moreover have "presidio_detect (sample_pe False) (lit ''Anna Key'') (JObj []) = Inr
      (case analyze (sample_pe False) (lit ''Anna Key'') default_entities (1 / 2) of
         Inl e \<Rightarrow> []
       | Inr rs \<Rightarrow> map presidio_finding (filter (\<lambda>r. \<not> exempt (sample_pe False) (lit ''Anna Key'') r) rs))"
    using presidio_detect_spec [of "JObj []" "[]" "sample_pe False" "1 / 2" "lit ''Anna Key''"]
    by (simp add: sample_pe_def)
  ultimately show ?thesis using sample_exempt(1) by (simp add: sample_pe_def)
qed

text \<open>
  while OPA has delivered no policy, the configured \<open>detector_confidence_threshold\<close> has no
  effect on detection: the defaults carry it under \<open>confidence_threshold\<close>, a key the detector does
  not read.
\<close>
theorem default_threshold_ignored:
  "presidio_detect pe t (get_policy threshold1 c name) = presidio_detect pe t (get_policy threshold2 c name)"
proof (cases "policy_cache c name")
  case None
  have "lit ''score_threshold'' \<noteq> lit ''confidence_threshold''" "lit ''score_threshold'' \<noteq> lit ''entities''"
    by simp_all
  with None show ?thesis
    by (simp add: get_policy_def presidio_detect_def default_policy_def del: list.map)
qed (simp add: get_policy_def)

text \<open>
  with \<open>DEBUG\<close> logging enabled, a document with an exempted person or e-mail address makes
  detection raise \<open>TypeError\<close>, outside the handler that guards the analyzer.
\<close>
theorem debug_exemption_raises:
  assumes "analyze pe t (dict_get kvs (lit ''entities'') default_entities) th = Inr rs"
    and "py_float pe (dict_get kvs (lit ''score_threshold'') (JFloat (1 / 2))) = Inr th"
    and "debug_enabled pe" and "r \<in> set rs" and "logged_exemption pe t r"
  shows "presidio_detect pe t (JObj kvs) = Inl (PyExc ''TypeError'')"
  using assms by (auto simp: presidio_detect_def presidio_loop_debug)

lemma debug_exemption_raises_witness:
  "presidio_detect (sample_pe True) (lit ''Anna Key'') (JObj []) = Inl (PyExc ''TypeError'')"
  by (rule debug_exemption_raises [where th = "1 / 2" and rs = "[sample_rec 0 4, sample_rec 5 8]" and r = "sample_rec 5 8"])
    (insert sample_exempt(2) [of True], simp_all add: sample_pe_def)

end
