(* ===== verification/Codec.thy ===== *)
theory Codec
  imports Py_Text
begin

text \<open>
  The byte codecs of Python's standard library that carry evidence: \<open>bytes.fromhex\<close>, \<open>hex()\<close>,
  \<open>base64.b64encode\<close> and the lenient \<open>base64.b64decode\<close> (which skips characters outside the
  alphabet), and the parsing of \<open>vault:vN:<base64>\<close> tokens. The round trips hold on every list of
  bytes.
\<close>

definition is_bytes :: "bytes \<Rightarrow> bool" where
  "is_bytes bs \<longleftrightarrow> (\<forall>b \<in> set bs. b < 256)"

lemma is_bytes_simps [simp]: "is_bytes []" "is_bytes (b # bs) \<longleftrightarrow> b < 256 \<and> is_bytes bs"
  "is_bytes (as @ bs) \<longleftrightarrow> is_bytes as \<and> is_bytes bs"
  by (auto simp: is_bytes_def)

section \<open>Hexadecimal\<close>

definition hex_digit :: "nat \<Rightarrow> nat" where
  "hex_digit d = (if d < 10 then 48 + d else 87 + d)"

definition hex_value :: "nat \<Rightarrow> nat option" where
  "hex_value c = (if 48 \<le> c \<and> c \<le> 57 then Some (c - 48)
     else if 97 \<le> c \<and> c \<le> 102 then Some (c - 87)
     else if 65 \<le> c \<and> c \<le> 70 then Some (c - 55) else None)"

definition bytes_hex :: "bytes \<Rightarrow> doc" where
  "bytes_hex bs = concat (map (\<lambda>b. [hex_digit (b div 16), hex_digit (b mod 16)]) bs)"

text \<open>\<open>bytes.fromhex(s)\<close>: ASCII blanks are skipped between bytes; anything else is an error.\<close>

definition hex_blank :: "nat \<Rightarrow> bool" where
  "hex_blank c \<longleftrightarrow> c = 32 \<or> 9 \<le> c \<and> c \<le> 13"

fun fromhex :: "doc \<Rightarrow> bytes result" where
  "fromhex [] = Inr []"
| "fromhex [c] = (if hex_blank c then Inr [] else Inl (PyExc ''ValueError''))"
| "fromhex (c # d # s) =
     (if hex_blank c then fromhex (d # s)
      else case (hex_value c, hex_value d) of
             (Some x, Some y) \<Rightarrow> rbind (fromhex s) (\<lambda>bs. Inr ((16 * x + y) # bs))
           | _ \<Rightarrow> Inl (PyExc ''ValueError''))"

lemma hex_digit_value [simp]: "d < 16 \<Longrightarrow> hex_value (hex_digit d) = Some d"
  by (auto simp: hex_value_def hex_digit_def)

lemma hex_digit_not_blank [simp]: "\<not> hex_blank (hex_digit d)"
  by (auto simp: hex_blank_def hex_digit_def)

lemma fromhex_hex: "is_bytes bs \<Longrightarrow> fromhex (bytes_hex bs) = Inr bs"
  by (induction bs) (auto simp: bytes_hex_def)

section \<open>Base64\<close>

definition b64_char :: "nat \<Rightarrow> nat" where
  "b64_char n = (if n < 26 then 65 + n else if n < 52 then 71 + n else if n < 62 then n - 4
     else if n = 62 then 43 else 47)"

definition b64_value :: "nat \<Rightarrow> nat option" where
  "b64_value c = (if 65 \<le> c \<and> c \<le> 90 then Some (c - 65)
     else if 97 \<le> c \<and> c \<le> 122 then Some (c - 71)
     else if 48 \<le> c \<and> c \<le> 57 then Some (c + 4)
     else if c = 43 then Some 62 else if c = 47 then Some 63 else None)"

fun b64encode :: "bytes \<Rightarrow> doc" where
  "b64encode [] = []"
| "b64encode [a] = [b64_char (a div 4), b64_char (a mod 4 * 16), 61, 61]"
| "b64encode [a, b] =
     [b64_char (a div 4), b64_char (a mod 4 * 16 + b div 16), b64_char (b mod 16 * 4), 61]"
| "b64encode (a # b # c # s) =
     b64_char (a div 4) # b64_char (a mod 4 * 16 + b div 16) #
     b64_char (b mod 16 * 4 + c div 64) # b64_char (c mod 64) # b64encode s"

text \<open>
  \<open>binascii.a2b_base64\<close> outside strict mode: \<open>q\<close> is the position in the group of four, \<open>l\<close> the bits
  carried over, \<open>p\<close> the number of padding characters just read.
\<close>

definition b64_error :: exn where
  "b64_error = PyExc ''binascii.Error''"

fun b64_loop :: "nat \<Rightarrow> nat \<Rightarrow> nat \<Rightarrow> doc \<Rightarrow> bytes result" where
  "b64_loop q l p [] = (if q = 0 then Inr [] else Inl b64_error)"
| "b64_loop q l p (c # s) =
     (if c = 61 then (if 2 \<le> q \<and> 4 \<le> q + Suc p then Inr [] else b64_loop q l (Suc p) s)
      else case b64_value c of
        None \<Rightarrow> b64_loop q l p s
      | Some v \<Rightarrow>
          if q = 0 then b64_loop 1 v 0 s
          else if q = 1 then rbind (b64_loop 2 (v mod 16) 0 s) (\<lambda>r. Inr ((l * 4 + v div 16) # r))
          else if q = 2 then rbind (b64_loop 3 (v mod 4) 0 s) (\<lambda>r. Inr ((l * 16 + v div 4) # r))
          else rbind (b64_loop 0 0 0 s) (\<lambda>r. Inr ((l * 64 + v) # r)))"

definition b64decode :: "doc \<Rightarrow> bytes result" where
  "b64decode s = b64_loop 0 0 0 s"

lemma b64_value_char [simp]: "n < 64 \<Longrightarrow> b64_value (b64_char n) = Some n"
  by (auto simp: b64_value_def b64_char_def)

lemma b64_char_not_pad [simp]: "n < 64 \<Longrightarrow> b64_char n \<noteq> 61"
  by (auto simp: b64_char_def)

lemma b64_roundtrip: "is_bytes bs \<Longrightarrow> b64decode (b64encode bs) = Inr bs"
proof (induction bs rule: b64encode.induct)
  case 1
  show ?case by (simp add: b64decode_def)
next
  case (2 a)
  then have "a div 4 < 64" "a mod 4 * 16 < 64" by auto
  then show ?case by (simp add: b64decode_def)
next
  case (3 a b)
  have "a mod 4 * 16 + b div 16 < 64" "b mod 16 * 4 < 64" "a div 4 < 64" using 3 by auto
  moreover have "(a mod 4 * 16 + b div 16) div 16 = a mod 4" "(a mod 4 * 16 + b div 16) mod 16 = b div 16"
    using 3 by auto
  ultimately show ?case by (simp add: b64decode_def mult.commute)
next
  case (4 a b c s)
  have l: "a mod 4 * 16 + b div 16 < 64" "b mod 16 * 4 + c div 64 < 64" "a div 4 < 64" "c mod 64 < 64"
    using 4 by auto
  have m: "(a mod 4 * 16 + b div 16) div 16 = a mod 4" "(a mod 4 * 16 + b div 16) mod 16 = b div 16"
    "(b mod 16 * 4 + c div 64) div 4 = b mod 16" "(b mod 16 * 4 + c div 64) mod 4 = c div 64"
    using 4 by auto
  have "b64_loop 0 0 0 (b64encode s) = Inr s" using 4 by (simp add: b64decode_def)
  with l m show ?case by (simp add: b64decode_def mult.commute)
qed

section \<open>Vault signature tokens\<close>

definition vault_prefix :: doc where
  "vault_prefix = lit ''vault:''"

text \<open>\<open>sig.split(":", 2)\<close> has three parts: \<open>vault\<close>, the version, the signature.\<close>

definition vault_parts :: "doc \<Rightarrow> (doc \<times> doc) option" where
  "vault_parts sig =
     (if starts_with vault_prefix sig
      then case py_split_max 58 2 sig of [_, v, b] \<Rightarrow> Some (v, b) | _ \<Rightarrow> None
      else None)"

definition strip_vault_prefix :: "doc \<Rightarrow> doc" where
  "strip_vault_prefix sig = (case vault_parts sig of Some (v, b) \<Rightarrow> b | None \<Rightarrow> sig)"

definition vault_token :: "doc \<Rightarrow> doc \<Rightarrow> doc" where
  "vault_token v b = vault_prefix @ v @ [58] @ b"

lemma split_at_first: "c \<notin> set a \<Longrightarrow> py_split_max c (Suc n) (a @ c # b) = a # py_split_max c n b"
proof -
  assume "c \<notin> set a"
  then have n: "\<forall>x \<in> set a. x \<noteq> c" by auto
  have "takeWhile (\<lambda>x. x \<noteq> c) (a @ c # b) = a" using n by (simp add: takeWhile_append2)
  moreover have "dropWhile (\<lambda>x. x \<noteq> c) (a @ c # b) = c # b" using n by (simp add: dropWhile_append2)
  ultimately show ?thesis by simp
qed

lemma vault_parts_token:
  assumes "58 \<notin> set v"
  shows "vault_parts (vault_token v b) = Some (v, b)"
proof -
  have t: "vault_token v b = lit ''vault'' @ 58 # (v @ 58 # b)" by (simp add: vault_token_def vault_prefix_def)
  have "py_split_max 58 (Suc (Suc 0)) (lit ''vault'' @ 58 # (v @ 58 # b)) = [lit ''vault'', v, b]"
    using assms by (subst split_at_first, simp, subst split_at_first) simp_all
  then have "py_split_max 58 2 (vault_token v b) = [lit ''vault'', v, b]"
    by (simp only: t numeral_2_eq_2)
  moreover have "starts_with vault_prefix (vault_token v b)" by (simp add: vault_token_def)
  ultimately show ?thesis by (simp add: vault_parts_def)
qed

lemma strip_vault_token: "58 \<notin> set v \<Longrightarrow> strip_vault_prefix (vault_token v b) = b"
  by (simp add: strip_vault_prefix_def vault_parts_token)

end
