(* ===== verification/Sha256.thy ===== *)
theory Sha256
  imports Codec
begin

text \<open>
  \<open>hashlib.sha256(\<dots>).hexdigest()\<close> of the standard library (FIPS 180-4) on 32-bit words, and what
  the program relies on of a digest (the locale \<open>digest_fn\<close>): 64 lower-case hexadecimal digits.
  Components that hash take the digest function as an argument, so that their theorems hold for
  every function; here the locale is interpreted on SHA-256 itself.
\<close>

section \<open>SHA-256\<close>

type_synonym w32 = "32 word"

unbundle bit_operations_syntax

definition word_rows :: "int list \<Rightarrow> w32 list" where
  "word_rows xs = concat (map (\<lambda>x. map (\<lambda>i. word_of_int (x div 2 ^ (32 * (7 - i)))) [0..<8]) xs)"

lemma length_word_rows [simp]: "length (word_rows xs) = 8 * length xs"
  by (induction xs) (simp_all add: word_rows_def)

text \<open>The round constants and the initial state, eight words to a number.\<close>

definition sha_k :: "w32 list" where
  "sha_k = word_rows [
    0x428a2f9871374491b5c0fbcfe9b5dba53956c25b59f111f1923f82a4ab1c5ed5,
    0xd807aa9812835b01243185be550c7dc372be5d7480deb1fe9bdc06a7c19bf174,
    0xe49b69c1efbe47860fc19dc6240ca1cc2de92c6f4a7484aa5cb0a9dc76f988da,
    0x983e5152a831c66db00327c8bf597fc7c6e00bf3d5a7914706ca635114292967,
    0x27b70a852e1b21384d2c6dfc53380d13650a7354766a0abb81c2c92e92722c85,
    0xa2bfe8a1a81a664bc24b8b70c76c51a3d192e819d6990624f40e3585106aa070,
    0x19a4c1161e376c082748774c34b0bcb5391c0cb34ed8aa4a5b9cca4f682e6ff3,
    0x748f82ee78a5636f84c878148cc7020890befffaa4506cebbef9a3f7c67178f2]"

definition sha_h0 :: "w32 list" where
  "sha_h0 = word_rows [0x6a09e667bb67ae853c6ef372a54ff53a510e527f9b05688c1f83d9ab5be0cd19]"

definition rotr :: "nat \<Rightarrow> w32 \<Rightarrow> w32" where
  "rotr n x = drop_bit n x OR push_bit (32 - n) x"

definition sha_pad :: "bytes \<Rightarrow> bytes" where
  "sha_pad bs = bs @ [128] @ replicate (nat ((55 - int (length bs)) mod 64)) 0
     @ map (\<lambda>i. nat (8 * int (length bs) div 256 ^ i mod 256)) (rev [0..<8])"

fun be_words :: "bytes \<Rightarrow> w32 list" where
  "be_words (a # b # c # d # s) = (((of_nat a * 256 + of_nat b) * 256 + of_nat c) * 256 + of_nat d) # be_words s"
| "be_words _ = []"

text \<open>The message schedule, the last word first.\<close>

fun schedule :: "nat \<Rightarrow> w32 list \<Rightarrow> w32 list" where
  "schedule 0 ws = ws"
| "schedule (Suc n) ws =
     (let x = ws ! 14; y = ws ! 1;
          s0 = rotr 7 x XOR rotr 18 x XOR drop_bit 3 x;
          s1 = rotr 17 y XOR rotr 19 y XOR drop_bit 10 y
      in schedule n ((ws ! 15 + s0 + ws ! 6 + s1) # ws))"

type_synonym regs = "w32 \<times> w32 \<times> w32 \<times> w32 \<times> w32 \<times> w32 \<times> w32 \<times> w32"

fun sha_round :: "w32 \<times> w32 \<Rightarrow> regs \<Rightarrow> regs" where
  "sha_round (k, w) (a, b, c, d, e, f, g, h) =
     (let s1 = rotr 6 e XOR rotr 11 e XOR rotr 25 e;
          ch = (e AND f) XOR (NOT e AND g);
          t1 = h + s1 + ch + k + w;
          s0 = rotr 2 a XOR rotr 13 a XOR rotr 22 a;
          mj = (a AND b) XOR (a AND c) XOR (b AND c);
          t2 = s0 + mj
      in (t1 + t2, a, b, c, d + t1, e, f, g))"

fun regs_of :: "w32 list \<Rightarrow> regs" where
  "regs_of [a, b, c, d, e, f, g, h] = (a, b, c, d, e, f, g, h)"
| "regs_of _ = (0, 0, 0, 0, 0, 0, 0, 0)"

fun list_of :: "regs \<Rightarrow> w32 list" where
  "list_of (a, b, c, d, e, f, g, h) = [a, b, c, d, e, f, g, h]"

definition compress :: "bytes \<Rightarrow> w32 list \<Rightarrow> w32 list" where
  "compress block hs =
     (let ws = rev (schedule 48 (rev (be_words block)));
          r = fold sha_round (zip sha_k ws) (regs_of hs)
      in map2 (+) hs (list_of r))"

function sha_blocks :: "bytes \<Rightarrow> w32 list \<Rightarrow> w32 list" where
  "sha_blocks bs hs = (if length bs < 64 then hs else sha_blocks (drop 64 bs) (compress (take 64 bs) hs))"
  by pat_completeness auto
termination
  by (relation "measure (\<lambda>(bs, hs). length bs)") auto

declare sha_blocks.simps [simp del]

definition sha256 :: "bytes \<Rightarrow> string" where
  "sha256 bs = concat (map (\<lambda>w. hex_fixed 8 (uint w)) (sha_blocks (sha_pad bs) sha_h0))"

section \<open>What a digest is\<close>

lemma hexd_code:
  assumes "d \<in> {0..<16}"
  shows "hex_value (of_char (hexd d)) \<noteq> None \<and> \<not> hex_blank (of_char (hexd d))"
proof -
  let ?x = "of_char (hexd d) :: nat"
  have "int ?x = (if d < 10 then 48 + d else 87 + d)"
    using assms by (simp add: of_nat_of_char of_char_hexd)
  then show ?thesis using assms
    by (auto simp: hex_value_def hex_blank_def split: if_splits)
qed

lemma fromhex_digits:
  "length s = 2 * n \<Longrightarrow> \<forall>c \<in> set s. hex_value c \<noteq> None \<and> \<not> hex_blank c \<Longrightarrow>
     \<exists>raw. fromhex s = Inr raw \<and> length raw = n"
proof (induction n arbitrary: s)
  case 0
  then show ?case by simp
next
  case (Suc n)
  then obtain c d t where s: "s = c # d # t" "length t = 2 * n"
    by (cases s; cases "tl s") auto
  with Suc.IH [of t] Suc.prems obtain raw where "fromhex t = Inr raw" "length raw = n" by auto
  with s Suc.prems show ?case by auto
qed

text \<open>\<open>sha\<close> returns 64 lower-case hexadecimal digits.\<close>

locale digest_fn =
  fixes sha :: "bytes \<Rightarrow> string"
  assumes sha_length: "length (sha bs) = 64"
    and sha_digits: "set (sha bs) \<subseteq> hexd ` {0..<16}"
begin

lemma sha_append_inj: "p @ sha x = q @ sha y \<Longrightarrow> p = q \<and> sha x = sha y"
  using sha_length by (simp add: append_eq_append_conv)

lemma sha_not_empty: "sha bs \<noteq> []"
  using sha_length [of bs] by auto

text \<open>\<open>bytes.fromhex\<close> accepts a digest.\<close>

lemma sha_fromhex: "\<exists>raw. fromhex (lit (sha bs)) = Inr raw \<and> length raw = 32"
proof (rule fromhex_digits)
  show "length (lit (sha bs)) = 2 * 32" by (simp add: sha_length)
  show "\<forall>c \<in> set (lit (sha bs)). hex_value c \<noteq> None \<and> \<not> hex_blank c"
    using sha_digits hexd_code by fastforce
qed

end

lemma length_sha256: "length (sha256 bs) = 64"
proof -
  have "length (compress b hs) = 8" if "length hs = 8" for b hs
  proof -
    have "length (list_of r) = 8" for r by (cases r rule: list_of.cases) simp
    with that show ?thesis by (simp add: compress_def Let_def)
  qed
  then have "length (sha_blocks b hs) = 8" if "length hs = 8" for b hs
    using that by (induction b hs rule: sha_blocks.induct) (subst sha_blocks.simps, simp)
  then have l: "length (sha_blocks (sha_pad bs) sha_h0) = 8" by (simp add: sha_h0_def)
  have "length (concat (map (\<lambda>w. hex_fixed 8 (uint w)) ws)) = 8 * length ws" for ws :: "w32 list"
    by (induction ws) auto
  with l show ?thesis by (simp add: sha256_def)
qed

lemma set_sha256: "set (sha256 bs) \<subseteq> hexd ` {0..<16}"
  using set_hex_fixed by (fastforce simp: sha256_def)

interpretation sha256: digest_fn sha256
  by unfold_locales (rule length_sha256, rule set_sha256)

end
