(* ===== verification/Evidence.thy ===== *)
theory Evidence
  imports Sha256 Opa_Client
begin

text \<open>
  Write-time evidence (\<open>db/evidence.py\<close>) and the chain verifier (\<open>core/chain.py\<close>): the operation
  hash, the per-tenant hash chain, the best-effort Vault signature, the archive of public keys,
  and \<open>verify_chain\<close>. The digest function and Vault's HTTP interface are arguments. Tamper
  evidence is stated without assuming that collisions do not exist: two equal chains either
  hash the same records or exhibit an explicit collision.
\<close>

section \<open>Hashes\<close>

definition genesis_hash :: string where
  "genesis_hash = replicate 64 (CHR ''0'')"

text \<open>\<open>str.encode()\<close> of text without surrogates.\<close>

definition utf8_bytes :: "doc \<Rightarrow> bytes" where
  "utf8_bytes s = concat (map utf8_char s)"

definition hash_fields :: "string \<Rightarrow> string \<Rightarrow> string \<Rightarrow> string \<Rightarrow> string \<Rightarrow> string \<Rightarrow> (doc \<times> json) list" where
  "hash_fields i trace actor digest status created =
     [(lit ''id'', jstr i), (lit ''trace_id'', jstr trace), (lit ''actor_id'', jstr actor),
      (lit ''artifact_digest'', jstr digest), (lit ''status'', jstr status), (lit ''created_at'', jstr created)]"

definition op_content :: "string \<Rightarrow> string \<Rightarrow> string \<Rightarrow> string \<Rightarrow> string \<Rightarrow> string \<Rightarrow> doc" where
  "op_content i trace actor digest status created =
     dumps_sorted (\<lambda>q. []) (JObj (hash_fields i trace actor digest status created))"

definition compute_operation_hash ::
  "(bytes \<Rightarrow> string) \<Rightarrow> uuid \<Rightarrow> uuid \<Rightarrow> uuid \<Rightarrow> string \<Rightarrow> string \<Rightarrow> instant \<Rightarrow> string" where
  "compute_operation_hash sha i trace actor digest status created =
     sha (utf8_bytes (op_content (uuid_str i) (uuid_str trace) (uuid_str actor) digest status (isoformat created)))"

definition compute_chain_hash :: "(bytes \<Rightarrow> string) \<Rightarrow> string \<Rightarrow> string \<Rightarrow> string" where
  "compute_chain_hash sha prev h = sha (utf8_bytes (lit (prev @ h)))"

definition row_content :: "operation \<Rightarrow> doc" where
  "row_content r = op_content (uuid_str (op_id r)) (uuid_str (op_trace_id r)) (uuid_str (op_actor_id r))
     (op_artifact_digest r) (status_str (op_status r)) (isoformat (op_created_at r))"

definition op_hash :: "(bytes \<Rightarrow> string) \<Rightarrow> operation \<Rightarrow> string" where
  "op_hash sha r = compute_operation_hash sha (op_id r) (op_trace_id r) (op_actor_id r)
     (op_artifact_digest r) (status_str (op_status r)) (op_created_at r)"

lemma op_hash_content: "op_hash sha r = sha (utf8_bytes (row_content r))"
  by (simp add: op_hash_def row_content_def compute_operation_hash_def)

text \<open>\<open>SELECT chain_hash \<dots> ORDER BY created_at DESC LIMIT 1\<close>; \<open>latest or GENESIS_HASH\<close>.\<close>

definition sealed_of :: "uuid \<Rightarrow> db \<Rightarrow> operation list" where
  "sealed_of t d = filter (\<lambda>r. op_tenant_id r = t \<and> op_chain_hash r \<noteq> None) (operations d)"

definition get_latest_chain_hash :: "db \<Rightarrow> uuid \<Rightarrow> string" where
  "get_latest_chain_hash d t =
     (case latest_by op_created_at (sealed_of t d) of
        None \<Rightarrow> genesis_hash
      | Some r \<Rightarrow> (case op_chain_hash r of Some h \<Rightarrow> if h = [] then genesis_hash else h | None \<Rightarrow> genesis_hash))"

section \<open>Vault Transit\<close>

record vault_http =
  v_post :: "string \<Rightarrow> json \<Rightarrow> http_resp result"
  v_get :: "string \<Rightarrow> http_resp result"

record vault_cfg =
  vc_addr :: "string option"
  vc_token :: "string option"
  vc_key :: "string option"

text \<open>\<open>int(s)\<close> on ASCII text: blanks around, a sign, digits with single underscores between them.\<close>

fun dec_digits :: "int \<Rightarrow> bool \<Rightarrow> doc \<Rightarrow> int option" where
  "dec_digits acc dig [] = (if dig then Some acc else None)"
| "dec_digits acc dig (c # s) =
     (if 48 \<le> c \<and> c \<le> 57 then dec_digits (acc * 10 + (int c - 48)) True s
      else if c = 95 \<and> dig \<and> s \<noteq> [] then dec_digits acc False s else None)"

definition py_int :: "doc \<Rightarrow> int option" where
  "py_int s = (let t = strip_by is_space s in
     case t of
       [] \<Rightarrow> None
     | c # r \<Rightarrow> if c = 45 then map_option uminus (dec_digits 0 False r)
               else if c = 43 then dec_digits 0 False r else dec_digits 0 False t)"

definition sign_key_version :: "doc \<Rightarrow> int" where
  "sign_key_version sig =
     (case vault_parts sig of
        None \<Rightarrow> 1
      | Some (v, b) \<Rightarrow> (case py_int (dropWhile (\<lambda>c. c = 118) v) of Some n \<Rightarrow> n | None \<Rightarrow> 1))"

text \<open>
  \<open>sign_operation_hash\<close>: the token returned by Vault and the version it names, or nothing at all;
  only a hash that is not hexadecimal raises.
\<close>

fun sign_answer :: "http_resp result \<Rightarrow> (doc option \<times> int option) result" where
  "sign_answer (Inl e) = Inl e"
| "sign_answer (Inr resp) =
     (if h_status resp \<noteq> 200 then Inr (None, None)
      else rbind (resp_json resp) (\<lambda>j.
           rbind (json_get j ''data'' (JObj [])) (\<lambda>dj.
           rbind (json_get dj ''signature'' (JStr [])) (\<lambda>sj.
             case sj of
               JStr sig \<Rightarrow> Inr (Some sig, Some (sign_key_version sig))
             | _ \<Rightarrow> Inl (PyExc ''AttributeError'')))))"

definition swallow :: "'a \<Rightarrow> 'a result \<Rightarrow> 'a" where
  "swallow x r = (case r of Inl e \<Rightarrow> x | Inr y \<Rightarrow> y)"

definition sign_operation_hash ::
  "vault_http \<Rightarrow> string \<Rightarrow> string \<Rightarrow> string \<Rightarrow> (doc option \<times> int option) result" where
  "sign_operation_hash vh addr key h =
     rbind (fromhex (lit h)) (\<lambda>raw.
       Inr (swallow (None, None) (sign_answer
         (v_post vh (addr @ ''/v1/transit/sign/'' @ key)
            (JObj [(lit ''input'', JStr (b64encode raw)), (lit ''hash_algorithm'', jstr ''sha2-256'')])))))"

text \<open>\<open>get_transit_public_key\<close>: the PEM text and the algorithm as decoded, \<open>JNull\<close> for nothing.\<close>

fun pubkey_answer :: "(json \<Rightarrow> doc) \<Rightarrow> int option \<Rightarrow> http_resp result \<Rightarrow> (json \<times> json) result" where
  "pubkey_answer py_str ver (Inl e) = Inl e"
| "pubkey_answer py_str ver (Inr resp) =
     (if h_status resp \<noteq> 200 then Inr (JNull, JNull)
      else rbind (resp_json resp) (\<lambda>j.
           rbind (json_get j ''data'' (JObj [])) (\<lambda>dj.
           rbind (json_get dj ''type'' JNull) (\<lambda>alg.
           rbind (json_get dj ''keys'' (JObj [])) (\<lambda>keys.
           rbind (json_get dj ''latest_version'' (JStr [])) (\<lambda>latest.
             case keys of
               JObj kvs \<Rightarrow>
                 (let v = (case ver of Some n \<Rightarrow> lit (int_str n) | None \<Rightarrow> str_of_json py_str latest);
                      e = dict_get kvs v JNull;
                      entry = (if json_truthy e then e else JObj []);
                      pem = (case entry of JObj es \<Rightarrow> dict_get es (lit ''public_key'') JNull | _ \<Rightarrow> JNull)
                  in Inr (if json_truthy pem then pem else JNull, alg))
             | _ \<Rightarrow> Inl (PyExc ''AttributeError'')))))))"

definition get_transit_public_key ::
  "(json \<Rightarrow> doc) \<Rightarrow> vault_http \<Rightarrow> string \<Rightarrow> string \<Rightarrow> int option \<Rightarrow> json \<times> json" where
  "get_transit_public_key py_str vh addr key ver =
     swallow (JNull, JNull) (pubkey_answer py_str ver (v_get vh (addr @ ''/v1/transit/keys/'' @ key)))"

text \<open>
  \<open>archive_public_key_if_needed\<close>: a version is archived once; \<open>ON CONFLICT DO NOTHING\<close>; a key that is
  not text, which the column would refuse, ends in the handler like any other exception.
\<close>

definition archive_public_key_if_needed ::
  "(json \<Rightarrow> doc) \<Rightarrow> vault_http \<Rightarrow> string \<Rightarrow> string \<Rightarrow> int \<Rightarrow> db \<Rightarrow> db" where
  "archive_public_key_if_needed py_str vh addr key ver d =
     (if ver \<in> sk_key_version ` set (signing_keys d) then d
      else case get_transit_public_key py_str vh addr key (Some ver) of
             (JStr pem, JStr alg) \<Rightarrow>
               d\<lparr>signing_keys := signing_keys d @ [\<lparr>sk_key_version = ver, sk_public_key_pem = pem, sk_algorithm = Some alg\<rparr>]\<rparr>
           | (JStr pem, JNull) \<Rightarrow>
               d\<lparr>signing_keys := signing_keys d @ [\<lparr>sk_key_version = ver, sk_public_key_pem = pem, sk_algorithm = None\<rparr>]\<rparr>
           | _ \<Rightarrow> d)"

section \<open>Sealing\<close>

text \<open>What sealing runs on: the digest, Vault, its configuration, the clock and \<open>str()\<close>.\<close>

record seal_env =
  se_sha :: "bytes \<Rightarrow> string"
  se_vault :: vault_http
  se_cfg :: vault_cfg
  se_now :: instant
  se_str :: "json \<Rightarrow> doc"

record sealed =
  sl_operation_hash :: string
  sl_chain_hash :: string
  sl_signed :: bool
  sl_key_version :: "int option"

fun text_given :: "string option \<Rightarrow> string option" where
  "text_given None = None"
| "text_given (Some s) = (if s = [] then None else Some s)"

definition seal_signature :: "seal_env \<Rightarrow> string \<Rightarrow> (doc option \<times> int option) result" where
  "seal_signature se h =
     (case (text_given (vc_addr (se_cfg se)), text_given (vc_token (se_cfg se)), text_given (vc_key (se_cfg se)))
      of (Some addr, Some tok, Some key) \<Rightarrow> sign_operation_hash (se_vault se) addr key h
       | _ \<Rightarrow> Inr (None, None))"

definition seal_row :: "seal_env \<Rightarrow> string \<Rightarrow> doc option \<times> int option \<Rightarrow> operation \<Rightarrow> operation" where
  "seal_row se ch sk r =
     (case fst sk of
        None \<Rightarrow> r\<lparr>op_chain_hash := Some ch\<rparr>
      | Some sig \<Rightarrow> r\<lparr>op_chain_hash := Some ch, op_event_signature := Some sig,
                      op_event_signed_at := Some (se_now se), op_signing_key_version := snd sk\<rparr>)"

text \<open>
  \<open>seal_operation(db, op)\<close> on the row \<open>r\<close> as it stands in the session: the tables and the answer.
\<close>

definition seal_operation :: "seal_env \<Rightarrow> operation \<Rightarrow> db \<Rightarrow> (db \<times> sealed) result" where
  "seal_operation se r d =
     (let prev = get_latest_chain_hash d (op_tenant_id r);
          h = op_hash (se_sha se) r;
          ch = compute_chain_hash (se_sha se) prev h
      in rbind (seal_signature se h) (\<lambda>sk.
         let d1 = update_operation (op_id r) (seal_row se ch sk) d;
             d2 = (case (fst sk, snd sk, text_given (vc_addr (se_cfg se)), text_given (vc_key (se_cfg se))) of
                     (Some sig, Some ver, Some addr, Some key) \<Rightarrow>
                       archive_public_key_if_needed (se_str se) (se_vault se) addr key ver d1
                   | _ \<Rightarrow> d1)
         in Inr (d2, \<lparr>sl_operation_hash = h, sl_chain_hash = ch, sl_signed = (fst sk \<noteq> None),
                      sl_key_version = snd sk\<rparr>)))"

section \<open>The chain verifier (core/chain.py)\<close>

record chain_report =
  cr_valid :: bool
  cr_checked :: nat
  cr_first_broken :: "uuid option"
  cr_gaps :: "uuid list"

fun verify_loop :: "(bytes \<Rightarrow> string) \<Rightarrow> string \<Rightarrow> nat \<Rightarrow> uuid list \<Rightarrow> operation list \<Rightarrow> nat \<times> uuid option \<times> uuid list" where
  "verify_loop sha prev n gaps [] = (n, None, gaps)"
| "verify_loop sha prev n gaps (r # rs) =
     (case op_chain_hash r of
        None \<Rightarrow> verify_loop sha prev n (gaps @ [op_id r]) rs
      | Some ch \<Rightarrow>
          if ch \<noteq> compute_chain_hash sha prev (op_hash sha r) then (Suc n, Some (op_id r), gaps)
          else verify_loop sha ch (Suc n) gaps rs)"

definition chain_rows :: "uuid \<Rightarrow> nat \<Rightarrow> db \<Rightarrow> operation list" where
  "chain_rows t limit d = take limit (sorted_by op_created_at (filter (\<lambda>r. op_tenant_id r = t) (operations d)))"

definition verify_chain :: "(bytes \<Rightarrow> string) \<Rightarrow> uuid \<Rightarrow> nat \<Rightarrow> db \<Rightarrow> chain_report" where
  "verify_chain sha t limit d =
     (case verify_loop sha genesis_hash 0 [] (chain_rows t limit d) of
        (n, broken, gaps) \<Rightarrow> \<lparr>cr_valid = (broken = None), cr_checked = n, cr_first_broken = broken, cr_gaps = gaps\<rparr>)"

definition seal_operation_with_settings :: "bool \<Rightarrow> seal_env \<Rightarrow> operation \<Rightarrow> db \<Rightarrow> (db \<times> sealed) result" where
  "seal_operation_with_settings sign_on_write se r d =
     seal_operation (if sign_on_write then se
       else se\<lparr>se_cfg := \<lparr>vc_addr = None, vc_token = None, vc_key = None\<rparr>\<rparr>) r d"

definition compute_and_set_chain_hash :: "seal_env \<Rightarrow> operation \<Rightarrow> db \<Rightarrow> (db \<times> string) result" where
  "compute_and_set_chain_hash se r d =
     rbind (seal_operation (se\<lparr>se_cfg := \<lparr>vc_addr = None, vc_token = None, vc_key = None\<rparr>\<rparr>) r d)
       (\<lambda>(d', s). Inr (d', sl_chain_hash s))"

section \<open>What the operation hash binds\<close>

lemma op_content_eq:
  "op_content i trace actor digest status created =
     123 # json_quote (lit ''actor_id'') @ lit '': '' @ json_quote (lit actor) @ lit '', '' @
     json_quote (lit ''artifact_digest'') @ lit '': '' @ json_quote (lit digest) @ lit '', '' @
     json_quote (lit ''created_at'') @ lit '': '' @ json_quote (lit created) @ lit '', '' @
     json_quote (lit ''id'') @ lit '': '' @ json_quote (lit i) @ lit '', '' @
     json_quote (lit ''status'') @ lit '': '' @ json_quote (lit status) @ lit '', '' @
     json_quote (lit ''trace_id'') @ lit '': '' @ json_quote (lit trace) @ [125]"
  by (simp add: op_content_def dumps_sorted_def hash_fields_def jstr_def sorted_by_def Let_def)

lemma op_content_inj:
  assumes "op_content i trace actor digest status created = op_content i' trace' actor' digest' status' created'"
  shows "i = i' \<and> trace = trace' \<and> actor = actor' \<and> digest = digest' \<and> status = status' \<and> created = created'"
proof -
  note e = assms [unfolded op_content_eq]
  from e have a: "actor = actor'" by (auto dest!: json_lit_prefix)
  from e a have d: "digest = digest'" by (auto dest!: json_lit_prefix)
  from e a d have c: "created = created'" by (auto dest!: json_lit_prefix)
  from e a d c have i: "i = i'" by (auto dest!: json_lit_prefix)
  from e a d c i have s: "status = status'" by (auto dest!: json_lit_prefix)
  from e a d c i s have "trace = trace'" using json_lit_prefix [of trace "[]" trace' "[]"] by auto
  with a d c i s show ?thesis by simp
qed

lemma op_content_ascii: "is_ascii (op_content i trace actor digest status created)"
proof -
  have "c < 128" if "c \<in> set (json_quote x)" for c x
    using json_quote_ascii [of x] that by (auto simp: is_ascii_def)
  then show ?thesis by (auto simp: op_content_eq is_ascii_def)
qed

lemma utf8_bytes_ascii: "is_ascii s \<Longrightarrow> utf8_bytes s = s"
  by (induction s) (auto simp: utf8_bytes_def utf8_char_def is_ascii_def)

lemma utf8_bytes_row [simp]: "utf8_bytes (row_content r) = row_content r"
  by (simp add: utf8_bytes_ascii row_content_def op_content_ascii)

lemma utf8_bytes_inj:
  "\<forall>c \<in> set s. c < 256 \<Longrightarrow> \<forall>c \<in> set t. c < 256 \<Longrightarrow> utf8_bytes s = utf8_bytes t \<Longrightarrow> s = t"
proof (induction s arbitrary: t)
  case Nil
  then show ?case by (cases t) (auto simp: utf8_bytes_def utf8_char_def split: if_splits)
next
  case (Cons c s)
  show ?case
  proof (cases t)
    case Nil
    with Cons show ?thesis by (auto simp: utf8_bytes_def utf8_char_def split: if_splits)
  next
    case (Cons d t')
    have sm: "c < 2048" "d < 2048" using Cons.prems Cons by auto
    have e: "utf8_char c @ utf8_bytes s = utf8_char d @ utf8_bytes t'"
      using Cons.prems Cons by (simp add: utf8_bytes_def)
    have "c = d \<and> utf8_bytes s = utf8_bytes t'"
    proof (cases "c < 128"; cases "d < 128")
      assume "\<not> c < 128" "\<not> d < 128"
      with sm e have "c div 64 = d div 64" "c mod 64 = d mod 64" "utf8_bytes s = utf8_bytes t'"
        by (auto simp: utf8_char_def)
      then show ?thesis by (metis div_mult_mod_eq)
    qed (use e sm in \<open>auto simp: utf8_char_def\<close>)
    with Cons Cons.prems Cons.IH [of t'] show ?thesis by simp
  qed
qed

lemma of_char_lt [simp]: "of_char (c :: char) < (256 :: nat)"
  by (metis of_char_mod_256 mod_less_divisor zero_less_numeral)

lemma utf8_lit_inj: "utf8_bytes (lit s) = utf8_bytes (lit t) \<Longrightarrow> s = t"
  using utf8_bytes_inj [of "lit s" "lit t"] by (auto simp: lit_inj)

section \<open>Chains of rows\<close>

definition link :: "(bytes \<Rightarrow> string) \<Rightarrow> string \<Rightarrow> operation \<Rightarrow> string" where
  "link sha prev r = compute_chain_hash sha prev (op_hash sha r)"

text \<open>The rows store the hashes of the chain that starts after \<open>prev\<close>; the head of that chain.\<close>

fun chained :: "(bytes \<Rightarrow> string) \<Rightarrow> string \<Rightarrow> operation list \<Rightarrow> bool" where
  "chained sha prev [] \<longleftrightarrow> True"
| "chained sha prev (r # rs) \<longleftrightarrow> op_chain_hash r = Some (link sha prev r) \<and> chained sha (link sha prev r) rs"

fun chain_head :: "(bytes \<Rightarrow> string) \<Rightarrow> string \<Rightarrow> operation list \<Rightarrow> string" where
  "chain_head sha prev [] = prev"
| "chain_head sha prev (r # rs) = chain_head sha (link sha prev r) rs"

text \<open>Every byte string the chain hashes.\<close>

fun chain_inputs :: "(bytes \<Rightarrow> string) \<Rightarrow> string \<Rightarrow> operation list \<Rightarrow> bytes set" where
  "chain_inputs sha prev [] = {}"
| "chain_inputs sha prev (r # rs) =
     {row_content r, utf8_bytes (lit (prev @ op_hash sha r))} \<union> chain_inputs sha (link sha prev r) rs"

abbreviation sealed_rows :: "operation list \<Rightarrow> operation list" where
  "sealed_rows rs \<equiv> filter (\<lambda>r. op_chain_hash r \<noteq> None) rs"

lemma verify_loop_chained:
  "fst (snd (verify_loop sha prev n gaps rs)) = None \<longleftrightarrow> chained sha prev (sealed_rows rs)"
  by (induction rs arbitrary: prev n gaps) (auto simp: link_def split: option.splits)

lemma verify_loop_checked:
  "chained sha prev (sealed_rows rs) \<Longrightarrow> fst (verify_loop sha prev n gaps rs) = n + length (sealed_rows rs)"
  by (induction rs arbitrary: prev n gaps) (auto simp: link_def split: option.splits)

lemma verify_chain_valid:
  "cr_valid (verify_chain sha t limit d) \<longleftrightarrow> chained sha genesis_hash (sealed_rows (chain_rows t limit d))"
  using verify_loop_chained [of sha genesis_hash 0 "[]" "chain_rows t limit d"]
  by (auto simp: verify_chain_def split: prod.splits)

lemma verify_chain_checked:
  "cr_valid (verify_chain sha t limit d) \<Longrightarrow>
     cr_checked (verify_chain sha t limit d) = length (sealed_rows (chain_rows t limit d))"
  using verify_loop_checked [of sha genesis_hash "chain_rows t limit d" 0 "[]"]
  unfolding verify_chain_valid by (auto simp: verify_chain_def split: prod.splits)

lemma chained_append:
  "chained sha prev (rs @ ss) \<longleftrightarrow> chained sha prev rs \<and> chained sha (chain_head sha prev rs) ss"
  by (induction rs arbitrary: prev) auto

lemma chain_head_append: "chain_head sha prev (rs @ ss) = chain_head sha (chain_head sha prev rs) ss"
  by (induction rs arbitrary: prev) auto

lemma chain_inputs_append:
  "chain_inputs sha prev (rs @ ss) = chain_inputs sha prev rs \<union> chain_inputs sha (chain_head sha prev rs) ss"
  by (induction rs arbitrary: prev) auto

lemma chained_head: "chained sha prev rs \<Longrightarrow> rs \<noteq> [] \<Longrightarrow> op_chain_hash (last rs) = Some (chain_head sha prev rs)"
  by (induction rs arbitrary: prev) auto

text \<open>Two different byte strings of \<open>X\<close> and \<open>Y\<close> with one digest.\<close>

definition collision_in :: "(bytes \<Rightarrow> string) \<Rightarrow> bytes set \<Rightarrow> bytes set \<Rightarrow> bool" where
  "collision_in sha X Y \<longleftrightarrow> (\<exists>x \<in> X. \<exists>y \<in> Y. x \<noteq> y \<and> sha x = sha y)"

context digest_fn
begin

lemma link_inj:
  assumes "link sha p a = link sha q b"
  shows "p = q \<and> row_content a = row_content b \<or>
    collision_in sha {row_content a, utf8_bytes (lit (p @ op_hash sha a))}
      {row_content b, utf8_bytes (lit (q @ op_hash sha b))}"
proof (cases "utf8_bytes (lit (p @ op_hash sha a)) = utf8_bytes (lit (q @ op_hash sha b))")
  case False
  with assms show ?thesis by (auto simp: link_def compute_chain_hash_def collision_in_def)
next
  case True
  then have "p @ op_hash sha a = q @ op_hash sha b" by (rule utf8_lit_inj)
  then have "p = q" and "op_hash sha a = op_hash sha b"
    using sha_append_inj by (auto simp: op_hash_content)
  then show ?thesis by (cases "row_content a = row_content b") (auto simp: op_hash_content collision_in_def)
qed

lemma chain_head_inj:
  assumes "length rs = length ss" and "chain_head sha p rs = chain_head sha q ss"
  shows "p = q \<and> map row_content rs = map row_content ss
    \<or> collision_in sha (chain_inputs sha p rs) (chain_inputs sha q ss)"
  using assms
proof (induction rs ss arbitrary: p q rule: list_induct2)
  case Nil
  then show ?case by simp
next
  case (Cons r rs s ss)
  from Cons.IH Cons.prems
  have "link sha p r = link sha q s \<and> map row_content rs = map row_content ss
    \<or> collision_in sha (chain_inputs sha (link sha p r) rs) (chain_inputs sha (link sha q s) ss)" by simp
  then show ?case
  proof
    assume h: "link sha p r = link sha q s \<and> map row_content rs = map row_content ss"
    with link_inj [of p r q s] show ?thesis
      by (auto simp: collision_in_def)
  next
    assume "collision_in sha (chain_inputs sha (link sha p r) rs) (chain_inputs sha (link sha q s) ss)"
    then show ?thesis by (auto simp: collision_in_def)
  qed
qed

end

section \<open>Sealing in order\<close>

lemma filter_sort_key: "filter P (sort_key k xs) = sort_key k (filter P xs)"
  by (rule filter_sort)

lemma latest_by_last:
  assumes "distinct (map k xs)" and "xs \<noteq> []"
  shows "latest_by k xs = Some (last (sort_key k xs))"
proof (cases "sort_key k xs" rule: rev_cases)
  case Nil
  then have "set xs = {}" by (metis set_sort empty_set)
  with assms(2) show ?thesis by simp
next
  case (snoc ys z)
  then have set: "set xs = insert z (set ys)" by (metis set_sort Un_insert_right list.simps(15) set_append sup_bot_right empty_set)
  have "sorted (map k (ys @ [z]))" using snoc by (metis sorted_sort_key)
  then have le: "\<forall>y \<in> set ys. k y \<le> k z" by (auto simp: sorted_append)
  have inj: "inj_on k (set xs)" using assms(1) by (simp add: distinct_map)
  have "k y < k z" if "y \<in> set xs" "y \<noteq> z" for y
  proof -
    have "k y \<le> k z" using that le set by blast
    moreover have "k y \<noteq> k z" using that inj set by (metis inj_onD insertI1)
    ultimately show ?thesis by (rule order_le_neq_trans)
  qed
  then have "latest_by k xs = Some z" by (intro latest_by_unique) (simp_all add: set)
  then show ?thesis using snoc by simp
qed

lemma sort_key_map_upd:
  assumes "\<And>x. k (f x) = k x"
  shows "sort_key k (map f xs) = map f (sort_key k xs)"
proof (rule properties_for_sort_key)
  show "mset (map f (sort_key k xs)) = mset (map f xs)" by simp
  show "sorted (map k (map f (sort_key k xs)))" using assms by (simp add: o_def)
  show "filter (\<lambda>x. k y = k x) (map f (sort_key k xs)) = filter (\<lambda>x. k y = k x) (map f xs)" for y
    using assms sort_key_stable [of k "k y" xs] by (simp add: filter_map o_def eq_commute [of "k y"])
qed

lemma sealed_before:
  assumes "sorted (map k L)" and "r \<in> set L" and "\<not> P r"
    and "\<forall>s \<in> set L. P s \<longrightarrow> k s < k r" and "distinct (map k L)"
  shows "\<exists>A B. L = A @ r # B \<and> filter P B = [] \<and> r \<notin> set A \<and> r \<notin> set B"
proof -
  from assms(2) obtain A B where L: "L = A @ r # B" by (meson split_list)
  have "\<forall>s \<in> set B. k r \<le> k s" using assms(1) L by (auto simp: sorted_append)
  then have "filter P B = []" using assms(4) L by (fastforce simp: filter_empty_conv)
  with L assms(5) show ?thesis by auto
qed

lemma seal_row_fields [simp]:
  "op_id (seal_row se ch sk r) = op_id r" "op_tenant_id (seal_row se ch sk r) = op_tenant_id r"
  "op_created_at (seal_row se ch sk r) = op_created_at r"
  "op_chain_hash (seal_row se ch sk r) = Some ch" "op_status (seal_row se ch sk r) = op_status r"
  "row_content (seal_row se ch sk r) = row_content r"
  by (simp_all add: seal_row_def row_content_def split: option.splits)

lemma archive_operations [simp]:
  "operations (archive_public_key_if_needed py_str vh addr key ver d) = operations d"
  by (auto simp: archive_public_key_if_needed_def split: prod.splits json.splits)

lemma archive_wf [inv_intros]:
  "wf_db d \<Longrightarrow> wf_db (archive_public_key_if_needed py_str vh addr key ver d)"
  by (auto simp: archive_public_key_if_needed_def wf_db_def op_ids_def fd_ids_def finding_ok_def
      redaction_ok_def artifact_ok_def split: prod.splits json.splits)

lemma archive_idem:
  "archive_public_key_if_needed py_str vh addr key ver (archive_public_key_if_needed py_str vh addr key ver d) =
     archive_public_key_if_needed py_str vh addr key ver d"
  by (auto simp: archive_public_key_if_needed_def split: prod.splits json.splits)

lemma seal_operation_rows:
  assumes "seal_operation se r d = Inr (d', s)"
  shows "\<exists>sk. operations d' = map (\<lambda>x. if op_id x = op_id r
      then seal_row se (compute_chain_hash (se_sha se) (get_latest_chain_hash d (op_tenant_id r)) (op_hash (se_sha se) r)) sk x
      else x) (operations d)
    \<and> sl_chain_hash s = compute_chain_hash (se_sha se) (get_latest_chain_hash d (op_tenant_id r)) (op_hash (se_sha se) r)"
proof -
  from assms obtain sk where "seal_signature se (op_hash (se_sha se) r) = Inr sk"
    by (auto simp: seal_operation_def Let_def res_simps)
  with assms show ?thesis
    by (intro exI [of _ sk])
      (auto simp: seal_operation_def Let_def update_operation_def split: option.splits)
qed

lemma seal_operation_wf [inv_intros]:
  "seal_operation se r d = Inr (d', s) \<Longrightarrow> wf_db d \<Longrightarrow> wf_db d'"
proof -
  have w: "wf_db d \<Longrightarrow> wf_db (update_operation (op_id r) (seal_row se ch sk) d)" for ch sk
    by (rule update_operation_wf) simp_all
  show "seal_operation se r d = Inr (d', s) \<Longrightarrow> wf_db d \<Longrightarrow> wf_db d'"
    by (auto simp: seal_operation_def Let_def res_simps intro: archive_wf w split: option.splits)
qed

text \<open>The chain of a tenant with distinct creation times, and what sealing the last row does to it.\<close>

lemma op_hash_seal_row [simp]: "op_hash sha (seal_row se ch sk r) = op_hash sha r"
  by (simp add: op_hash_content)

lemma link_seal_row [simp]: "link sha prev (seal_row se ch sk r) = link sha prev r"
  by (simp add: link_def)

lemma get_latest_head:
  assumes "chained sha genesis_hash (sort_key op_created_at (sealed_of t d))"
    and "distinct (map op_created_at (sealed_of t d))" and "\<And>x. sha x \<noteq> []"
  shows "get_latest_chain_hash d t = chain_head sha genesis_hash (sort_key op_created_at (sealed_of t d))"
proof (cases "sealed_of t d = []")
  case True
  moreover have "latest_by op_created_at [] = (None :: operation option)" by simp
  ultimately show ?thesis by (simp add: get_latest_chain_hash_def del: latest_by_None)
next
  case False
  let ?s = "sort_key op_created_at (sealed_of t d)"
  have ne: "?s \<noteq> []" using False by (metis set_sort set_empty)
  have "op_chain_hash (last ?s) = Some (chain_head sha genesis_hash ?s)"
    using assms(1) ne by (rule chained_head)
  moreover have "chain_head sha genesis_hash ?s \<noteq> []"
  proof -
    obtain ys y where "?s = ys @ [y]" using ne by (metis rev_exhaust)
    then show ?thesis using assms(3) by (simp add: chain_head_append link_def compute_chain_hash_def)
  qed
  ultimately show ?thesis
    using latest_by_last [OF assms(2) False] by (simp add: get_latest_chain_hash_def)
qed

lemma chain_rows_all:
  "length (filter (\<lambda>r. op_tenant_id r = t) (operations d)) \<le> n \<Longrightarrow>
     chain_rows t n d = sort_key op_created_at (filter (\<lambda>r. op_tenant_id r = t) (operations d))"
  by (simp add: chain_rows_def sorted_by_def)

lemma sealed_chain_rows:
  "length (filter (\<lambda>r. op_tenant_id r = t) (operations d)) \<le> n \<Longrightarrow>
     sealed_rows (chain_rows t n d) = sort_key op_created_at (sealed_of t d)"
  by (simp add: chain_rows_all filter_sort_key sealed_of_def conj_commute)

section \<open>Properties\<close>

text \<open>Two rows that agree on every field the operation hash covers.\<close>

definition same_record :: "operation \<Rightarrow> operation \<Rightarrow> bool" where
  "same_record a b \<longleftrightarrow> op_id a = op_id b \<and> op_trace_id a = op_trace_id b \<and> op_actor_id a = op_actor_id b
     \<and> op_artifact_digest a = op_artifact_digest b \<and> op_status a = op_status b
     \<and> isoformat (op_created_at a) = isoformat (op_created_at b)"

lemma row_content_same: "row_content a = row_content b \<longleftrightarrow> same_record a b"
  by (auto simp: row_content_def same_record_def dest!: op_content_inj status_str_inj)

lemma same_contents: "map row_content rs = map row_content ss \<Longrightarrow> list_all2 same_record rs ss"
  by (induction rs arbitrary: ss) (auto simp: row_content_same [symmetric] Cons_eq_map_conv)

definition sealed_chain :: "uuid \<Rightarrow> nat \<Rightarrow> db \<Rightarrow> operation list" where
  "sealed_chain t limit d = sealed_rows (chain_rows t limit d)"

text \<open>
  C1: an anchored head pins the history. If two states of the database (say, the one that was
  anchored and a later one) both pass the chain verification, with the same number of sealed
  operations and the same head hash, then the sealed operations agree, one by one, on identity,
  trace, actor, document digest, status and creation time, or else the two chains exhibit two
  different inputs with the same SHA-256 digest.
\<close>
theorem anchor_pins_history:
  assumes "cr_valid (verify_chain sha256 t n d)" and "cr_valid (verify_chain sha256 t' n' d')"
    and "cr_checked (verify_chain sha256 t n d) = cr_checked (verify_chain sha256 t' n' d')"
    and "sealed_chain t n d \<noteq> []" and "sealed_chain t' n' d' \<noteq> []"
    and "op_chain_hash (last (sealed_chain t n d)) = op_chain_hash (last (sealed_chain t' n' d'))"
  shows "list_all2 same_record (sealed_chain t n d) (sealed_chain t' n' d')
    \<or> collision_in sha256 (chain_inputs sha256 genesis_hash (sealed_chain t n d))
        (chain_inputs sha256 genesis_hash (sealed_chain t' n' d'))"
proof -
  let ?r = "sealed_chain t n d" and ?s = "sealed_chain t' n' d'"
  have c: "chained sha256 genesis_hash ?r" "chained sha256 genesis_hash ?s"
    using assms(1,2) by (simp_all add: verify_chain_valid sealed_chain_def)
  have "length ?r = length ?s"
    using assms(1-3) by (simp add: verify_chain_checked sealed_chain_def)
  moreover have "chain_head sha256 genesis_hash ?r = chain_head sha256 genesis_hash ?s"
    using assms(4-6) chained_head [OF c(1)] chained_head [OF c(2)] by simp
  ultimately have "map row_content ?r = map row_content ?s
      \<or> collision_in sha256 (chain_inputs sha256 genesis_hash ?r) (chain_inputs sha256 genesis_hash ?s)"
    using sha256.chain_head_inj by blast
  then show ?thesis using same_contents by blast
qed

text \<open>
  C2: sealing keeps the chain. When operations complete in the order in which they were created
  (every sealed operation of the tenant is older than the one sealed now), a verified chain
  still verifies after \<open>seal_operation\<close>, with one more checked link.
\<close>
theorem seal_keeps_chain_valid:
  assumes "seal_operation se r d = Inr (d', s)" and "se_sha se = sha256"
    and "r \<in> set (operations d)" and "op_chain_hash r = None" and "wf_db d"
    and "distinct (map op_created_at (filter (\<lambda>x. op_tenant_id x = op_tenant_id r) (operations d)))"
    and "\<forall>x \<in> set (sealed_of (op_tenant_id r) d). op_created_at x < op_created_at r"
    and "length (filter (\<lambda>x. op_tenant_id x = op_tenant_id r) (operations d)) \<le> n"
    and "cr_valid (verify_chain sha256 (op_tenant_id r) n d)"
  shows "cr_valid (verify_chain sha256 (op_tenant_id r) n d')
    \<and> cr_checked (verify_chain sha256 (op_tenant_id r) n d') = Suc (cr_checked (verify_chain sha256 (op_tenant_id r) n d))"
proof -
  let ?t = "op_tenant_id r"
  let ?P = "\<lambda>x. op_tenant_id x = ?t"
  let ?L = "sort_key op_created_at (filter ?P (operations d))"
  let ?ch = "compute_chain_hash sha256 (get_latest_chain_hash d ?t) (op_hash sha256 r)"
  obtain sk where ops: "operations d' = map (\<lambda>x. if op_id x = op_id r then seal_row se ?ch sk x else x) (operations d)"
    using seal_operation_rows [OF assms(1)] unfolding assms(2) by blast
  define f where "f x = (if op_id x = op_id r then seal_row se ?ch sk x else x)" for x
  have f: "op_tenant_id (f x) = op_tenant_id x" "op_created_at (f x) = op_created_at x" for x
    by (simp_all add: f_def)
  have L': "filter ?P (operations d') = map f (filter ?P (operations d))"
    using ops f(1) by (simp add: f_def [abs_def] filter_map_inside o_def)
  have rows': "chain_rows ?t n d' = map f ?L"
    using assms(8) f(2) by (subst chain_rows_all) (simp_all add: L' sort_key_map_upd)
  have ids: "x = r" if "x \<in> set (operations d)" "op_id x = op_id r" for x
    using that assms(3,5) by (auto simp: wf_db_def distinct_map dest: inj_onD)
  have dk: "distinct (map op_created_at ?L)"
    using assms(6) by (metis mset_eq_imp_distinct_iff mset_map mset_sort)
  have r: "r \<in> set ?L" using assms(3) by simp
  have "\<exists>A B. ?L = A @ r # B \<and> filter (\<lambda>x. op_chain_hash x \<noteq> None) B = [] \<and> r \<notin> set A \<and> r \<notin> set B"
    using r assms(4,7) dk
    by (intro sealed_before [where k = op_created_at]) (auto simp: sealed_of_def)
  then obtain A B where AB: "?L = A @ r # B" "sealed_rows B = []" "r \<notin> set A" "r \<notin> set B" by blast
  have other: "f x = x" if "x \<in> set A \<union> set B" for x
  proof -
    have "x \<in> set ?L" using that AB(1) by auto
    then have "x \<in> set (operations d)" by simp
    moreover have "x \<noteq> r" using that AB by auto
    ultimately show ?thesis using ids by (auto simp: f_def)
  qed
  then have mAB: "map f A = A" "map f B = B" by (auto intro: map_idI)
  have S: "sealed_rows ?L = sealed_rows A" using AB assms(4) by simp
  have S': "sealed_rows (map f ?L) = sealed_rows A @ [f r]"
    using AB mAB by (simp add: f_def)
  have sealedL: "sealed_rows ?L = sort_key op_created_at (sealed_of ?t d)"
    using sealed_chain_rows [OF assms(8)] assms(8) by (simp add: chain_rows_all)
  have ch: "chained sha256 genesis_hash (sealed_rows A)"
    using assms(9) S assms(8) by (simp add: verify_chain_valid chain_rows_all)
  have dS: "distinct (map op_created_at (sealed_of ?t d))"
  proof -
    have "sealed_of ?t d = filter (\<lambda>x. op_chain_hash x \<noteq> None) (filter ?P (operations d))"
      by (simp add: sealed_of_def conj_commute)
    then show ?thesis by (metis assms(6) distinct_map_filterI)
  qed
  have "get_latest_chain_hash d ?t = chain_head sha256 genesis_hash (sealed_rows A)"
    using get_latest_head [OF _ dS sha256.sha_not_empty] ch S sealedL by simp
  then have "chained sha256 genesis_hash (sealed_rows A @ [f r])"
    using ch by (simp add: chained_append f_def link_def)
  then have v: "cr_valid (verify_chain sha256 ?t n d')"
    unfolding verify_chain_valid rows' S' .
  have "cr_checked (verify_chain sha256 ?t n d') = Suc (length (sealed_rows A))"
    unfolding verify_chain_checked [OF v] rows' S' by simp
  moreover have "cr_checked (verify_chain sha256 ?t n d) = length (sealed_rows A)"
    unfolding verify_chain_checked [OF assms(9)] chain_rows_all [OF assms(8)] S by simp
  ultimately show ?thesis using v by simp
qed

lemma sealed_chain_deleted:
  assumes "\<And>x. x \<in> set (operations d) \<Longrightarrow> op_tenant_id x = t \<Longrightarrow> p x \<longleftrightarrow> from_t \<le> op_created_at x"
  shows "\<exists>rest. sealed_chain t n d = sealed_chain t n (delete_operations_where k p d) @ rest"
proof -
  let ?P = "\<lambda>x. op_tenant_id x = t"
  let ?L = "sort_key op_created_at (filter ?P (operations d))"
  have "filter ?P (operations (delete_operations_where k p d)) = filter (\<lambda>x. op_created_at x < from_t) (filter ?P (operations d))"
    using assms by (auto simp: not_le intro!: filter_cong)
  then have rows: "chain_rows t n (delete_operations_where k p d) = take n (filter (\<lambda>x. op_created_at x < from_t) ?L)"
    by (simp add: chain_rows_def sorted_by_def filter_sort_key del: filter_filter)
  have "\<exists>b. xs = filter (\<lambda>x. op_created_at x < from_t) xs @ b" if "sorted (map op_created_at xs)" for xs
    using that
  proof (induction xs)
    case (Cons x xs)
    show ?case
    proof (cases "op_created_at x < from_t")
      case False
      with Cons.prems have "filter (\<lambda>x. op_created_at x < from_t) (x # xs) = []" by (auto simp: filter_empty_conv)
      then show ?thesis by simp
    qed (use Cons in auto)
  qed simp
  then obtain b where "?L = filter (\<lambda>x. op_created_at x < from_t) ?L @ b" by (metis sorted_sort_key)
  then have "take n ?L = take n (filter (\<lambda>x. op_created_at x < from_t) ?L) @ take (n - length (filter (\<lambda>x. op_created_at x < from_t) ?L)) b"
    by (metis take_append)
  then have "chain_rows t n d = chain_rows t n (delete_operations_where k p d) @ take (n - length (filter (\<lambda>x. op_created_at x < from_t) ?L)) b"
    using rows by (simp add: chain_rows_def sorted_by_def)
  then show ?thesis by (auto simp: sealed_chain_def)
qed

text \<open>
  deletion at the end goes unnoticed. A chain that verifies still verifies when the newest
  operations of the tenant (all those created from some moment on) are deleted; only an anchor
  kept elsewhere can show that they existed.
\<close>
theorem tail_deletion_undetected:
  assumes "cr_valid (verify_chain sha t n d)"
    and "\<forall>x \<in> set (operations d). op_tenant_id x = t \<longrightarrow> (p x \<longleftrightarrow> from_t \<le> op_created_at x)"
  shows "cr_valid (verify_chain sha t n (delete_operations_where k p d))"
proof -
  from assms(2) obtain rest where "sealed_chain t n d = sealed_chain t n (delete_operations_where k p d) @ rest"
    using sealed_chain_deleted [of d t p from_t n] by blast
  with assms(1) show ?thesis by (simp add: verify_chain_valid sealed_chain_def chained_append)
qed

text \<open>
  operations that complete out of order break the chain. When the later of two operations
  is sealed first (nothing else being sealed), sealing the earlier one links it behind the later
  one, and the verifier, which reads in creation order, reports the chain as broken at it,
  although nothing was tampered with.
\<close>
theorem out_of_order_sealing_breaks_chain:
  assumes "operations d = [a, b]" and "op_id a \<noteq> op_id b" and "op_tenant_id a = t" and "op_tenant_id b = t"
    and "op_created_at a < op_created_at b" and "op_chain_hash a = None" and "op_chain_hash b = None"
    and "seal_operation se b d = Inr (d1, s1)" and "seal_operation se a d1 = Inr (d2, s2)"
    and "se_sha se = sha" and "2 \<le> n"
    and "link sha genesis_hash b \<noteq> []"
    and "link sha genesis_hash a \<noteq> link sha (link sha genesis_hash b) a"
  shows "\<not> cr_valid (verify_chain sha t n d2) \<and> cr_first_broken (verify_chain sha t n d2) = Some (op_id a)"
proof -
  have "sealed_of t d = []" using assms by (simp add: sealed_of_def)
  then have l0: "get_latest_chain_hash d t = genesis_hash"
    using latest_by_None [of op_created_at "[] :: operation list"] by (simp add: get_latest_chain_hash_def del: latest_by_None)
  from seal_operation_rows [OF assms(8)] l0 assms obtain sk1 where
    o1: "operations d1 = [a, seal_row se (link sha genesis_hash b) sk1 b]"
    by (auto simp: link_def)
  then have "sealed_of t d1 = [seal_row se (link sha genesis_hash b) sk1 b]"
    using assms by (simp add: sealed_of_def)
  then have l1: "get_latest_chain_hash d1 t = link sha genesis_hash b"
    using assms(12) by (simp add: get_latest_chain_hash_def latest_by_def sorted_by_desc_def)
  from seal_operation_rows [OF assms(9)] l1 o1 assms obtain sk2 where
    o2: "operations d2 = [seal_row se (link sha (link sha genesis_hash b) a) sk2 a, seal_row se (link sha genesis_hash b) sk1 b]"
    by (auto simp: link_def)
  have "chain_rows t n d2 = operations d2"
    using assms o2 by (simp add: chain_rows_def sorted_by_def)
  then show ?thesis
    using assms(13) [unfolded link_def] assms(13) [unfolded link_def, symmetric] o2
    by (simp add: verify_chain_def link_def)
qed

lemma digits_dec:
  "0 \<le> n \<Longrightarrow> dec_digits acc b (lit (nat_str n) @ s) = dec_digits (acc * 10 ^ length (nat_str n) + n) True s"
proof (induction n arbitrary: acc b s rule: nat_str.induct)
  case (1 n)
  have code: "(of_char (char_of (48 + d) :: char) :: nat) = nat (48 + d)" if "0 \<le> d" "d < 10" for d :: int
  proof -
    have "int (of_char (char_of (48 + d) :: char)) = 48 + d" using that by (simp add: of_nat_of_char)
    then show ?thesis by simp
  qed
  show ?case
  proof (cases "n < 10")
    case True
    then have "48 \<le> nat (48 + n)" "nat (48 + n) \<le> 57" using 1(2) by simp_all
    with True 1(2) code [of n] show ?thesis by (simp add: nat_str.simps [of n])
  next
    case False
    let ?d = "n mod 10"
    have d: "0 \<le> ?d" "?d < 10" by simp_all
    have q: "0 \<le> n div 10" using 1(2) by simp
    have step: "dec_digits a True (nat (48 + ?d) # s) = dec_digits (a * 10 + ?d) True s" for a
    proof -
      have "48 \<le> nat (48 + ?d)" "nat (48 + ?d) \<le> 57" "int (nat (48 + ?d)) - 48 = ?d" using d by simp_all
      then show ?thesis by simp
    qed
    have "dec_digits acc b (lit (nat_str n) @ s) = dec_digits acc b (lit (nat_str (n div 10)) @ (nat (48 + ?d) # s))"
      using False code [OF d] by (simp add: nat_str.simps [of n])
    also have "\<dots> = dec_digits (acc * 10 ^ length (nat_str (n div 10)) + n div 10) True (nat (48 + ?d) # s)"
      using 1(1) [OF False q] by simp
    also have "\<dots> = dec_digits (acc * 10 ^ length (nat_str n) + n) True s"
      using False unfolding step by (simp add: nat_str.simps [of n] algebra_simps)
    finally show ?thesis .
  qed
qed

lemma digits_are_digits: "0 \<le> n \<Longrightarrow> c \<in> set (lit (nat_str n)) \<Longrightarrow> 48 \<le> c \<and> c \<le> 57"
proof (induction n rule: nat_str.induct)
  case (1 n)
  have code: "48 \<le> x \<and> x \<le> 57" if "0 \<le> d" "d < 10" "x = (of_char (char_of (48 + d) :: char) :: nat)" for d :: int and x
  proof -
    have "int (of_char (char_of (48 + d) :: char)) = 48 + d" using that by (simp add: of_nat_of_char)
    then show ?thesis using that by linarith
  qed
  show ?case
  proof (cases "n < 10")
    case True
    with 1 code [of n c] show ?thesis by (simp add: nat_str.simps [of n])
  next
    case False
    from 1(3) have "c \<in> set (lit (nat_str (n div 10))) \<or> c = of_char (char_of (48 + n mod 10) :: char)"
      using False by (auto simp: nat_str.simps [of n])
    then show ?thesis
    proof
      assume "c = of_char (char_of (48 + n mod 10) :: char)"
      then show ?thesis using code [of "n mod 10" c] by simp
    qed (use 1 False in auto)
  qed
qed

lemma nat_str_not_Nil: "nat_str n \<noteq> []"
  by (simp add: nat_str.simps [of n])

lemma strip_by_id: "(\<And>c. c \<in> set s \<Longrightarrow> \<not> p c) \<Longrightarrow> strip_by p s = s"
proof -
  assume n: "\<And>c. c \<in> set s \<Longrightarrow> \<not> p c"
  have "dropWhile p xs = xs" if "set xs \<subseteq> set s" for xs
    using that n by (cases xs) auto
  then show ?thesis by (simp add: strip_by_def)
qed

lemma py_int_nat_str: "0 \<le> n \<Longrightarrow> py_int (lit (nat_str n)) = Some n"
proof -
  assume n: "0 \<le> n"
  let ?s = "lit (nat_str n)"
  note d = digits_are_digits [OF n]
  have st: "strip_by is_space ?s = ?s"
    using d by (intro strip_by_id) (force simp: is_space_def)
  obtain c r where s: "?s = c # r" using nat_str_not_Nil [of n] by (cases "nat_str n") auto
  then have c: "c \<noteq> 45" "c \<noteq> 43" using d [of c] by auto
  have "dec_digits 0 False (?s @ []) = Some n" using digits_dec [OF n, of 0 False "[]"] by simp
  with s c show ?thesis unfolding py_int_def st Let_def by simp
qed

text \<open>
  the key version survives the token format: from any token \<open>vault:vN:<signature>\<close> the signer
  stores the version \<open>N\<close> (rotated keys included), and stripping the prefix gives back the
  signature.
\<close>
theorem vault_token_roundtrip:
  assumes "0 \<le> n"
  shows "sign_key_version (vault_token (lit (CHR ''v'' # nat_str n)) b) = n
    \<and> strip_vault_prefix (vault_token (lit (CHR ''v'' # nat_str n)) b) = b"
proof -
  let ?v = "lit (CHR ''v'' # nat_str n)"
  note d = digits_are_digits [OF assms]
  have "58 \<notin> set ?v" using d [of 58] by auto
  note p = vault_parts_token [OF this] strip_vault_token [OF this]
  have "dropWhile (\<lambda>c. c = 118) ?v = lit (nat_str n)"
    using d [of 118] by (cases "nat_str n") auto
  then show ?thesis using p py_int_nat_str [OF assms] by (simp add: sign_key_version_def)
qed

lemma vault_token_roundtrip_witness:
  "sign_key_version (vault_token (lit (CHR ''v'' # nat_str 12)) [65, 66]) = 12"
  using vault_token_roundtrip [of 12 "[65, 66]"] by simp

text \<open>
  sealing is total and signs only what Vault signed: whatever Vault does, \<open>seal_operation\<close>
  returns and the row gets its chain hash; it is reported as signed if and only if a signature
  is stored by this call, and the database keeps its constraints.
\<close>
theorem seal_operation_total:
  assumes "se_sha se = sha256" and "wf_db d" and "r \<in> set (operations d)"
  shows "\<exists>d' s r'. seal_operation se r d = Inr (d', s) \<and> wf_db d' \<and> select_operation (op_id r) d' = Some r'
    \<and> op_chain_hash r' = Some (sl_chain_hash s) \<and> op_status r' = op_status r
    \<and> (if sl_signed s then op_event_signature r' \<noteq> None \<and> op_signing_key_version r' = sl_key_version s
       else op_event_signature r' = op_event_signature r)"
proof -
  obtain raw where raw: "fromhex (lit (op_hash (se_sha se) r)) = Inr raw"
    using sha256.sha_fromhex [of "row_content r"] assms(1) by (auto simp: op_hash_content)
  then obtain sk where sk: "seal_signature se (op_hash (se_sha se) r) = Inr sk"
    by (cases "text_given (vc_addr (se_cfg se))"; cases "text_given (vc_token (se_cfg se))";
        cases "text_given (vc_key (se_cfg se))") (simp_all add: seal_signature_def sign_operation_hash_def)
  let ?ch = "compute_chain_hash (se_sha se) (get_latest_chain_hash d (op_tenant_id r)) (op_hash (se_sha se) r)"
  obtain d' s where res: "seal_operation se r d = Inr (d', s)"
    using sk by (simp add: seal_operation_def Let_def)
  have ops: "operations d' = operations (update_operation (op_id r) (seal_row se ?ch sk) d)"
    and s: "sl_chain_hash s = ?ch" "sl_signed s = (fst sk \<noteq> None)" "sl_key_version s = snd sk"
    using res sk by (auto simp: seal_operation_def Let_def split: option.splits)
  have "select_operation (op_id r) d' = select_operation (op_id r) (update_operation (op_id r) (seal_row se ?ch sk) d)"
    by (simp add: select_operation_def ops)
  also have "\<dots> = Some (seal_row se ?ch sk r)"
    by (simp add: select_update_same select_operation_in [OF assms(2,3)])
  finally have sel: "select_operation (op_id r) d' = Some (seal_row se ?ch sk r)" .
  moreover have "wf_db d'" using res assms(2) by (rule seal_operation_wf)
  ultimately show ?thesis using res s
    by (auto simp: seal_row_def split: option.splits)
qed

section \<open>Witnesses\<close>

definition sample_op :: "uuid \<Rightarrow> instant \<Rightarrow> operation" where
  "sample_op i created = \<lparr>op_id = i, op_tenant_id = 7, op_trace_id = i, op_actor_id = 3, op_actor_type = HUMAN,
     op_document_id = 4, op_artifact_digest = ''d'', op_policy_version = ''1.0.0'', op_status = COMPLETED,
     op_sanitized_text = None, op_created_at = created, op_completed_at = Some 9, op_chain_hash = None,
     op_event_signature = None, op_event_signed_at = None, op_signing_key_version = None\<rparr>"

lemma sample_op_simps [simp]:
  "op_id (sample_op i c) = i" "op_tenant_id (sample_op i c) = 7" "op_created_at (sample_op i c) = c"
  "op_chain_hash (sample_op i c) = None" "op_status (sample_op i c) = COMPLETED"
  "op_actor_id (sample_op i c) = 3" "op_trace_id (sample_op i c) = i"
  by (simp_all add: sample_op_def)

definition sample_tenant :: tenant where
  "sample_tenant = \<lparr>tn_id = 7, tn_name = [], tn_slug = ''a'', tn_plan = FREE, tn_is_active = True,
     tn_max_scans_per_day = None, tn_max_document_size = None, tn_max_storage_mb = None,
     tn_rate_limit_rpm = None, tn_contact_email = None, tn_policy_config = None, tn_siem_config = None,
     tn_retention_days = None, tn_created_at = 0, tn_updated_at = 0\<rparr>"

definition db_with :: "operation list \<Rightarrow> db" where
  "db_with rs = empty_db\<lparr>tenants := [sample_tenant], operations := rs\<rparr>"

lemma db_with_simps [simp]: "operations (db_with rs) = rs"
  by (simp add: db_with_def)

lemma db_with_wf: "distinct (map op_id rs) \<Longrightarrow> wf_db (db_with rs)"
  by (simp add: wf_db_def db_with_def empty_db_def sample_tenant_def)

definition no_vault :: seal_env where
  "no_vault = \<lparr>se_sha = sha256, se_vault = \<lparr>v_post = (\<lambda>u p. Inl (PyExc ''ConnectError'')), v_get = (\<lambda>u. Inl (PyExc ''ConnectError''))\<rparr>,
     se_cfg = \<lparr>vc_addr = None, vc_token = None, vc_key = None\<rparr>, se_now = 9, se_str = (\<lambda>j. [])\<rparr>"

lemma seal_no_vault:
  assumes "se_cfg se = \<lparr>vc_addr = None, vc_token = None, vc_key = None\<rparr>"
  shows "\<exists>d' s. seal_operation se r d = Inr (d', s)"
  using assms by (simp add: seal_operation_def seal_signature_def Let_def)

lemma no_vault_seals:
  "\<exists>d' s. seal_operation no_vault r d = Inr (d', s)"
  "\<exists>d' s. seal_operation (no_vault\<lparr>se_sha := f\<rparr>) r d = Inr (d', s)"
  by (rule seal_no_vault, simp add: no_vault_def)+

definition sealed_sample :: operation where
  "sealed_sample = (sample_op 1 10)\<lparr>op_chain_hash := Some (link sha256 genesis_hash (sample_op 1 10))\<rparr>"

lemma sealed_sample_chain:
  "sealed_chain 7 1000 (db_with [sealed_sample]) = [sealed_sample]"
  "cr_valid (verify_chain sha256 7 1000 (db_with [sealed_sample]))"
  "sealed_chain 7 1000 (db_with [sealed_sample\<lparr>op_sanitized_text := Some [1]\<rparr>]) = [sealed_sample\<lparr>op_sanitized_text := Some [1]\<rparr>]"
  "cr_valid (verify_chain sha256 7 1000 (db_with [sealed_sample\<lparr>op_sanitized_text := Some [1]\<rparr>]))"
  by (simp_all add: sealed_chain_def chain_rows_def verify_chain_valid sealed_sample_def sample_op_def
      link_def op_hash_def sorted_by_def)

lemma anchor_pins_history_witness:
  "list_all2 same_record [sealed_sample] [sealed_sample\<lparr>op_sanitized_text := Some [1]\<rparr>]
    \<or> collision_in sha256 (chain_inputs sha256 genesis_hash [sealed_sample])
        (chain_inputs sha256 genesis_hash [sealed_sample\<lparr>op_sanitized_text := Some [1]\<rparr>])"
proof -
  note v = sealed_sample_chain(2) sealed_sample_chain(4)
  have c: "cr_checked (verify_chain sha256 7 1000 (db_with [sealed_sample])) =
      cr_checked (verify_chain sha256 7 1000 (db_with [sealed_sample\<lparr>op_sanitized_text := Some [1]\<rparr>]))"
    by (simp only: verify_chain_checked [OF v(1)] verify_chain_checked [OF v(2)]
        sealed_chain_def [symmetric] sealed_sample_chain list.size)
  have h: "op_chain_hash (last (sealed_chain 7 1000 (db_with [sealed_sample]))) =
      op_chain_hash (last (sealed_chain 7 1000 (db_with [sealed_sample\<lparr>op_sanitized_text := Some [1]\<rparr>])))"
    unfolding sealed_sample_chain by simp
  from anchor_pins_history [OF v c _ _ h] show ?thesis unfolding sealed_sample_chain by blast
qed

lemma seal_keeps_chain_valid_witness:
  "\<exists>d' s. seal_operation no_vault (sample_op 2 20) (db_with [sample_op 2 20]) = Inr (d', s)
     \<and> cr_valid (verify_chain sha256 7 1000 d') \<and> cr_checked (verify_chain sha256 7 1000 d') = 1"
proof -
  have n: "chain_rows 7 1000 (db_with [sample_op 2 20]) = [sample_op 2 20]"
    by (simp add: chain_rows_def sorted_by_def)
  obtain d' s where res: "seal_operation no_vault (sample_op 2 20) (db_with [sample_op 2 20]) = Inr (d', s)"
    using no_vault_seals by blast
  have "cr_valid (verify_chain sha256 7 1000 d')
      \<and> cr_checked (verify_chain sha256 7 1000 d') = Suc (cr_checked (verify_chain sha256 7 1000 (db_with [sample_op 2 20])))"
    using seal_keeps_chain_valid [OF res, of 1000]
    by (simp add: db_with_wf verify_chain_valid n sealed_of_def) (simp add: no_vault_def)
  with res show ?thesis by (auto simp: verify_chain_def n)
qed

lemma tail_deletion_undetected_witness:
  "cr_valid (verify_chain sha256 7 1000 (delete_operations_where model_keys (\<lambda>x. 10 \<le> op_created_at x) (db_with [sealed_sample])))
    \<and> operations (delete_operations_where model_keys (\<lambda>x. 10 \<le> op_created_at x) (db_with [sealed_sample])) = []"
  using tail_deletion_undetected [OF sealed_sample_chain(2), of "\<lambda>x. 10 \<le> op_created_at x" 10]
  by (simp add: sealed_sample_def sample_op_def)

definition toy_sha :: "bytes \<Rightarrow> string" where
  "toy_sha bs = (case bs of [] \<Rightarrow> ''2'' | c # _ \<Rightarrow> if c = 48 then ''1'' else ''2'')"

lemma out_of_order_sealing_breaks_chain_witness:
  "\<exists>d1 s1 d2 s2. seal_operation (no_vault\<lparr>se_sha := toy_sha\<rparr>) (sample_op 2 20) (db_with [sample_op 1 10, sample_op 2 20]) = Inr (d1, s1)
     \<and> seal_operation (no_vault\<lparr>se_sha := toy_sha\<rparr>) (sample_op 1 10) d1 = Inr (d2, s2)
     \<and> \<not> cr_valid (verify_chain toy_sha 7 1000 d2)"
proof -
  let ?se = "no_vault\<lparr>se_sha := toy_sha\<rparr>"
  obtain d1 s1 where r1: "seal_operation ?se (sample_op 2 20) (db_with [sample_op 1 10, sample_op 2 20]) = Inr (d1, s1)"
    using no_vault_seals by blast
  obtain d2 s2 where r2: "seal_operation ?se (sample_op 1 10) d1 = Inr (d2, s2)"
    using no_vault_seals by blast
  have g0: "genesis_hash = CHR ''0'' # replicate 63 (CHR ''0'')"
    by (simp add: genesis_hash_def numeral_eq_Suc)
  have g: "link toy_sha genesis_hash r = ''1''" for r
    unfolding g0 by (simp add: link_def compute_chain_hash_def toy_sha_def utf8_bytes_def utf8_char_def)
  have h: "link toy_sha ''1'' r = ''2''" for r
    by (simp add: link_def compute_chain_hash_def toy_sha_def utf8_bytes_def utf8_char_def)
  have "\<not> cr_valid (verify_chain toy_sha 7 1000 d2)"
    using out_of_order_sealing_breaks_chain [OF _ _ _ _ _ _ _ r1 r2, of 7 toy_sha 1000] by (simp add: g h)
  with r1 r2 show ?thesis by blast
qed

lemma seal_operation_total_witness:
  "\<exists>d' s r'. seal_operation no_vault (sample_op 2 20) (db_with [sample_op 2 20]) = Inr (d', s)
     \<and> select_operation 2 d' = Some r' \<and> op_chain_hash r' = Some (sl_chain_hash s)"
  using seal_operation_total [of no_vault "db_with [sample_op 2 20]" "sample_op 2 20"]
  by (auto simp: db_with_wf no_vault_def)

end
