(* ===== verification/Workers.thy ===== *)
theory Workers
  imports Merge_Redact Presidio_Detector Evidence
begin

text \<open>
  The Dramatiq workers (\<open>workers/agents/\<close>): detection, sanitization, re-scan, audit, review and
  classification, each as a function of the world (database, object store, sent messages,
  metrics). A task runs in one database transaction (\<open>workers/core/db.py\<close>): an exception rolls
  the database back, while objects already stored and messages already sent remain. The locale
  \<open>task_handler\<close> states this contract; it is interpreted on every worker.
\<close>

section \<open>The world of a task\<close>

text \<open>\<open>w_classified\<close> is the log of the classifier: operation and level.\<close>

record world =
  w_db :: db
  w_objects :: "(string \<times> bytes) list"
  w_sent :: "(string \<times> string) list"
  w_tasks :: "(string \<times> string) list"
  w_findings_metric :: "(json \<times> string) list"
  w_classified :: "(string \<times> string) list"

text \<open>
  What a task runs on: detectors, policy client, OPA, the keys generated for new rows (in the
  order of the inserts), sealing, the outcome of \<open>put_object\<close>, and whether the broker accepts
  messages. \<open>settings.audit_sign_on_write\<close> is \<open>we_sign\<close>.
\<close>

record worker_env =
  we_presidio :: presidio_env
  we_threshold :: rat
  we_opa :: opa_client
  we_post :: "string \<Rightarrow> json \<Rightarrow> http_resp result"
  we_ids :: "nat \<Rightarrow> uuid"
  we_now :: instant
  we_seal :: seal_env
  we_sign :: bool
  we_put :: "string \<Rightarrow> bytes \<Rightarrow> unit result"
  we_send_fails :: bool

definition send_error :: exn where
  "send_error = PyExc ''ConnectionError''"

definition task_inc :: "string \<Rightarrow> string \<Rightarrow> world \<Rightarrow> world" where
  "task_inc agent status w = w\<lparr>w_tasks := w_tasks w @ [(agent, status)]\<rparr>"

definition send_msg :: "worker_env \<Rightarrow> string \<Rightarrow> string \<Rightarrow> world \<Rightarrow> world \<times> unit result" where
  "send_msg env q oid w =
     (if we_send_fails env then (w, Inl send_error) else (w\<lparr>w_sent := w_sent w @ [(q, oid)]\<rparr>, Inr ()))"

text \<open>The worker's session (\<open>get_session\<close>): commit the new tables, or keep the old ones and re-raise.\<close>

definition commit :: "db result \<Rightarrow> world \<Rightarrow> world \<times> unit result" where
  "commit r w = (case r of Inr d \<Rightarrow> (w\<lparr>w_db := d\<rparr>, Inr ()) | Inl e \<Rightarrow> (w, Inl e))"

fun then_do :: "world \<times> unit result \<Rightarrow> (world \<Rightarrow> world \<times> unit result) \<Rightarrow> world \<times> unit result" where
  "then_do (w, Inr u) f = f w"
| "then_do (w, Inl e) f = (w, Inl e)"

definition finding_rows :: "(nat \<Rightarrow> uuid) \<Rightarrow> uuid \<Rightarrow> finding_data list \<Rightarrow> finding list" where
  "finding_rows ids u fs = map (\<lambda>(k, f). finding_row (ids k) u f) (enumerate 0 fs)"

section \<open>detector\_agent\<close>

definition entity_label :: "finding_data \<Rightarrow> json" where
  "entity_label f = dict_get (explanation f) ''entity_type'' (jstr ''UNKNOWN'')"

definition scan_findings :: "worker_env \<Rightarrow> json \<Rightarrow> doc \<Rightarrow> finding_data list result" where
  "scan_findings env policy t =
     rbind (presidio_detect (we_presidio env) t policy) (\<lambda>p.
       Inr (merge_findings (regex_detect (pe_ucd (we_presidio env)) t) p))"

definition review_payload :: "finding_data list \<Rightarrow> json" where
  "review_payload fs = JObj [(lit ''findings'', JArr (map (\<lambda>f. JObj
     [(lit ''entity_type'', entity_label f), (lit ''severity'', jstr (severity f)),
      (lit ''confidence'', JFloat (confidence f))]) fs))]"

definition requires_review :: "worker_env \<Rightarrow> finding_data list \<Rightarrow> bool" where
  "requires_review env fs =
     (fs \<noteq> [] \<and>
      (case opa_evaluate (we_post env) ''safecontext/policy/operation_requires_review'' (review_payload fs) of
         Inr v \<Rightarrow> json_truthy v
       | Inl e \<Rightarrow> (\<exists>f \<in> set fs. severity f = ''critical'')))"

definition scan_tables :: "worker_env \<Rightarrow> uuid \<Rightarrow> uuid \<Rightarrow> finding_data list \<Rightarrow> bool \<Rightarrow> db \<Rightarrow> db result" where
  "scan_tables env u ob fs esc d =
     rbind (insert_all insert_finding (finding_rows (we_ids env) u fs) d) (\<lambda>d1.
       Inr (mark_processed ob
         (update_operation u (\<lambda>r. r\<lparr>op_status := (if esc then ESCALATED else PENDING)\<rparr>) d1)))"

definition process_scan :: "worker_env \<Rightarrow> string \<Rightarrow> world \<Rightarrow> world \<times> unit result" where
  "process_scan env oid w =
     (case uuid_of_str oid of
        Inl e \<Rightarrow> (w, Inl e)
      | Inr u \<Rightarrow>
          (case select_operation u (w_db w) of
             None \<Rightarrow> (task_inc ''detector'' ''failure'' w, Inr ())
           | Some r \<Rightarrow>
               if op_status r \<noteq> PENDING then (task_inc ''detector'' ''skipped'' w, Inr ())
               else (case outbox_for oid (w_db w) of
                  [] \<Rightarrow> (task_inc ''detector'' ''failure'' w, Inr ())
                | ob # _ \<Rightarrow>
                    (case rbind (payload_str ''TypeError'' (ob_payload ob) ''document_text'' [])
                            (scan_findings env (get_policy (we_threshold env) (we_opa env) ''base'')) of
                       Inl e \<Rightarrow> (w, Inl e)
                     | Inr fs \<Rightarrow>
                         (let w1 = w\<lparr>w_findings_metric := w_findings_metric w @ map (\<lambda>f. (entity_label f, severity f)) fs\<rparr>;
                              esc = requires_review env fs
                          in then_do (commit (scan_tables env u (ob_id ob) fs esc (w_db w)) w1) (\<lambda>w2.
                             then_do (send_msg env (if esc then ''safecontext_review'' else ''safecontext_sanitize'') oid w2)
                               (\<lambda>w3. (task_inc ''detector'' ''success'' w3, Inr ()))))))))"

section \<open>sanitizer\_agent\<close>

definition redaction_rows :: "worker_env \<Rightarrow> operation \<Rightarrow> finding list \<Rightarrow> redaction list" where
  "redaction_rows env r fs = map (\<lambda>(k, f).
     \<lparr>rd_id = we_ids env k, rd_finding_id = fd_id f, rd_operation_id = op_id r,
      rd_type = severity_to_redaction_type (severity f), rd_policy_version = op_policy_version r,
      rd_applied_at = we_now env, rd_approved_by = None, rd_approval_trace_id = None,
      rd_approved_by_agent_id = None\<rparr>) (enumerate 0 fs)"

definition outbox_text :: "string \<Rightarrow> string \<Rightarrow> db \<Rightarrow> doc result" where
  "outbox_text exc oid d =
     (case outbox_for oid d of [] \<Rightarrow> Inr [] | ob # _ \<Rightarrow> payload_str exc (ob_payload ob) ''document_text'' [])"

definition sanitize_tables :: "worker_env \<Rightarrow> string \<Rightarrow> operation \<Rightarrow> db \<Rightarrow> db result" where
  "sanitize_tables env oid r d =
     (let fs = findings_of (op_id r) d
      in rbind (outbox_text ''TypeError'' oid d) (\<lambda>t.
         rbind (insert_all insert_redaction (redaction_rows env r fs) d) (\<lambda>d1.
           Inr (update_operation (op_id r) (\<lambda>x. x\<lparr>op_sanitized_text :=
             Some (if fs = [] then t else apply_redactions t fs (redaction_map_of fs))\<rparr>) d1))))"

definition process_sanitize :: "worker_env \<Rightarrow> string \<Rightarrow> world \<Rightarrow> world \<times> unit result" where
  "process_sanitize env oid w =
     (case uuid_of_str oid of
        Inl e \<Rightarrow> (w, Inl e)
      | Inr u \<Rightarrow>
          if redactions_of u (w_db w) \<noteq> [] then (task_inc ''sanitizer'' ''skipped'' w, Inr ())
          else (case select_operation u (w_db w) of
             None \<Rightarrow> (task_inc ''sanitizer'' ''failure'' w, Inr ())
           | Some r \<Rightarrow>
               then_do (commit (sanitize_tables env oid r (w_db w)) w) (\<lambda>w1.
               then_do (send_msg env ''safecontext_audit'' oid w1) (\<lambda>w2.
               then_do (send_msg env ''safecontext_rescan'' oid w2) (\<lambda>w3.
                 (task_inc ''sanitizer'' ''success'' w3, Inr ()))))))"

section \<open>rescan\_agent\<close>

definition post_flag :: string where
  "post_flag = ''is_post_sanitization''"

definition is_post :: "finding \<Rightarrow> bool" where
  "is_post f \<longleftrightarrow> map_of (explanation f) post_flag = Some (JBool True)"

text \<open>\<open>{**f.explanation, "is_post_sanitization": True}\<close>.\<close>

definition mark_post :: "finding_data \<Rightarrow> finding_data" where
  "mark_post f = f\<lparr>explanation := filter (\<lambda>kv. fst kv \<noteq> post_flag) (explanation f) @ [(post_flag, JBool True)]\<rparr>"

definition overridable :: "operation_status \<Rightarrow> bool" where
  "overridable s \<longleftrightarrow> s \<notin> {ESCALATED, REJECTED, APPROVED}"

text \<open>
  With residual findings the message is sent inside the session. When the status is updated, the
  \<open>UPDATE\<close> flushes the new rows before the message is sent; otherwise the commit does, after it.
\<close>

definition rescan_found :: "worker_env \<Rightarrow> string \<Rightarrow> operation \<Rightarrow> finding_data list \<Rightarrow> world \<Rightarrow> world \<times> unit result" where
  "rescan_found env oid r fs w =
     (let ins = insert_all insert_finding (finding_rows (we_ids env) (op_id r) (map mark_post fs)) (w_db w)
      in if overridable (op_status r)
         then (case ins of
                 Inl e \<Rightarrow> (w, Inl e)
               | Inr d1 \<Rightarrow>
                   then_do (send_msg env ''safecontext_review'' oid (task_inc ''rescan'' ''escalated'' w))
                     (commit (Inr (update_operation (op_id r) (\<lambda>x. x\<lparr>op_status := ESCALATED\<rparr>) d1))))
         else then_do (send_msg env ''safecontext_review'' oid (task_inc ''rescan'' ''escalated'' w)) (commit ins))"

definition rescan_operation :: "worker_env \<Rightarrow> string \<Rightarrow> world \<Rightarrow> world \<times> unit result" where
  "rescan_operation env oid w =
     (case uuid_of_str oid of
        Inl e \<Rightarrow> (w, Inl e)
      | Inr u \<Rightarrow>
          (case select_operation u (w_db w) of
             None \<Rightarrow> (task_inc ''rescan'' ''failure'' w, Inr ())
           | Some r \<Rightarrow>
               (case op_sanitized_text r of
                  None \<Rightarrow> (task_inc ''rescan'' ''skipped'' w, Inr ())
                | Some t \<Rightarrow>
                    if t = [] then (task_inc ''rescan'' ''skipped'' w, Inr ())
                    else if \<exists>f \<in> set (findings_of u (w_db w)). is_post f
                    then (task_inc ''rescan'' ''skipped'' w, Inr ())
                    else (case scan_findings env (JObj []) t of
                       Inl e \<Rightarrow> (w, Inl e)
                     | Inr fs \<Rightarrow>
                         if fs \<noteq> [] then rescan_found env oid r fs w
                         else commit (Inr (if op_status r = PENDING
                                then update_operation u (\<lambda>x. x\<lparr>op_status := COMPLETED\<rparr>) (w_db w)
                                else w_db w)) (task_inc ''rescan'' ''success'' w)))))"

section \<open>auditor\_agent\<close>

definition original_key :: "string \<Rightarrow> string" where
  "original_key oid = ''artifacts/'' @ oid @ ''/original''"

definition audit_seal_env :: "worker_env \<Rightarrow> seal_env" where
  "audit_seal_env env =
     (if we_sign env then we_seal env
      else (we_seal env)\<lparr>se_cfg := \<lparr>vc_addr = None, vc_token = None, vc_key = None\<rparr>\<rparr>)"

text \<open>\<open>S3StorageAdapter.put\<close> (\<open>adapters/s3_storage.py\<close>): the digest of what is stored.\<close>

definition s3_put :: "worker_env \<Rightarrow> string \<Rightarrow> bytes \<Rightarrow> world \<Rightarrow> (world \<times> string) result" where
  "s3_put env key data w =
     rbind (we_put env key data) (\<lambda>_.
       Inr (w\<lparr>w_objects := (key, data) # w_objects w\<rparr>, se_sha (we_seal env) data))"

definition s3_get :: "string \<Rightarrow> world \<Rightarrow> bytes result" where
  "s3_get key w = (case map_of (w_objects w) key of Some b \<Rightarrow> Inr b | None \<Rightarrow> Inl (PyExc ''NoSuchKey''))"

definition audit_tables :: "worker_env \<Rightarrow> string \<Rightarrow> operation \<Rightarrow> string \<Rightarrow> db \<Rightarrow> db result" where
  "audit_tables env oid r digest d =
     (let a = \<lparr>ar_id = we_ids env 0, ar_operation_id = op_id r, ar_type = ''original'',
               ar_minio_key = original_key oid, ar_digest = digest, ar_worm_locked = True,
               ar_created_at = we_now env\<rparr>;
          done = (\<lambda>x. x\<lparr>op_status := COMPLETED, op_completed_at := Some (we_now env)\<rparr>)
      in rbind (insert_artifact a d) (\<lambda>d1.
         rbind (seal_operation (audit_seal_env env) (done r) (update_operation (op_id r) done d1)) (\<lambda>(d2, s).
           Inr d2)))"

definition process_audit :: "worker_env \<Rightarrow> string \<Rightarrow> world \<Rightarrow> world \<times> unit result" where
  "process_audit env oid w =
     (case uuid_of_str oid of
        Inl e \<Rightarrow> (w, Inl e)
      | Inr u \<Rightarrow>
          if \<exists>a \<in> set (artifacts_of u (w_db w)). ar_type a = ''original''
          then (task_inc ''auditor'' ''skipped'' w, Inr ())
          else (case select_operation u (w_db w) of
             None \<Rightarrow> (task_inc ''auditor'' ''failure'' w, Inr ())
           | Some r \<Rightarrow>
               (case rbind (outbox_text ''AttributeError'' oid (w_db w)) utf8_encode of
                  Inl e \<Rightarrow> (w, Inl e)
                | Inr data \<Rightarrow>
                    (case s3_put env (original_key oid) data w of
                       Inl e \<Rightarrow> (task_inc ''auditor'' ''failure'' w, Inl e)
                     | Inr (w1, digest) \<Rightarrow>
                         then_do (commit (audit_tables env oid r digest (w_db w)) w1)
                           (\<lambda>w2. (task_inc ''auditor'' ''success'' w2, Inr ()))))))"

section \<open>reviewer\_agent and classifier\_agent\<close>

definition process_review :: "string \<Rightarrow> world \<Rightarrow> world \<times> unit result" where
  "process_review oid w =
     (case uuid_of_str oid of
        Inl e \<Rightarrow> (w, Inl e)
      | Inr u \<Rightarrow>
          (case select_operation u (w_db w) of
             None \<Rightarrow> (task_inc ''reviewer'' ''failure'' w, Inr ())
           | Some r \<Rightarrow>
               if op_status r \<noteq> ESCALATED then (task_inc ''reviewer'' ''skipped'' w, Inr ())
               else (task_inc ''reviewer'' ''success'' w, Inr ())))"

definition severity_to_level :: "(string \<times> string) list" where
  "severity_to_level = [(''critical'', ''restricted''), (''high'', ''confidential''),
     (''medium'', ''internal''), (''low'', ''public'')]"

definition severity_rank :: "string \<Rightarrow> nat" where
  "severity_rank s = dict_get [(''critical'', 4), (''high'', 3), (''medium'', 2), (''low'', 1)] s 0"

text \<open>\<open>max(xs, key=k)\<close>: the first element of the largest key. \<open>Counter\<close> keeps first occurrences in order.\<close>

fun max_first :: "('a \<Rightarrow> nat) \<Rightarrow> 'a \<Rightarrow> 'a list \<Rightarrow> 'a" where
  "max_first k x [] = x"
| "max_first k x (y # ys) = max_first k (if k x < k y then y else x) ys"

definition counter_keys :: "'a list \<Rightarrow> 'a list" where
  "counter_keys xs = rev (remdups (rev xs))"

definition highest_severity :: "finding list \<Rightarrow> string" where
  "highest_severity fs =
     (case counter_keys (map severity fs) of [] \<Rightarrow> ''low'' | s # ss \<Rightarrow> max_first severity_rank s ss)"

definition classification_level :: "finding list \<Rightarrow> string" where
  "classification_level fs = dict_get severity_to_level (highest_severity fs) ''public''"

definition process_classify :: "string \<Rightarrow> world \<Rightarrow> world \<times> unit result" where
  "process_classify oid w =
     (case uuid_of_str oid of
        Inl e \<Rightarrow> (w, Inl e)
      | Inr u \<Rightarrow>
          (case select_operation u (w_db w) of
             None \<Rightarrow> (task_inc ''classifier'' ''failure'' w, Inr ())
           | Some r \<Rightarrow>
               (task_inc ''classifier'' ''success''
                  (w\<lparr>w_classified := w_classified w @ [(oid, classification_level (findings_of u (w_db w)))]\<rparr>),
                Inr ())))"

end
