(* ===== verification/Worker_Props.thy ===== *)
theory Worker_Props
  imports Workers
begin

text \<open>
  What the workers guarantee: every task keeps the database constraints and rolls back when it
  fails (\<open>task_handler\<close>, interpreted on all six workers), and the behaviour of detection,
  sanitization, re-scan, audit and classification, with the orders and failures under which the
  pipeline goes wrong.
\<close>

section \<open>Deliveries\<close>

text \<open>
  \<open>@dramatiq.actor(max_retries=n)\<close>: a task that raises is run again on the world it left, at most
  \<open>n\<close> more times; attempt \<open>k\<close> is \<open>run k\<close>.
\<close>

fun deliver :: "(nat \<Rightarrow> string \<Rightarrow> world \<Rightarrow> world \<times> unit result) \<Rightarrow> nat \<Rightarrow> nat \<Rightarrow> string \<Rightarrow> world \<Rightarrow> world \<times> unit result" where
  "deliver run k 0 oid w = run k oid w"
| "deliver run k (Suc n) oid w =
     (case run k oid w of
        (w1, Inr u) \<Rightarrow> (w1, Inr u)
      | (w1, Inl e) \<Rightarrow> deliver run (Suc k) n oid w1)"

locale task_handler =
  fixes run :: "nat \<Rightarrow> string \<Rightarrow> world \<Rightarrow> world \<times> unit result"
  assumes keeps_wf: "wf_db (w_db w) \<Longrightarrow> wf_db (w_db (fst (run k oid w)))"
    and rolls_back: "snd (run k oid w) = Inl e \<Longrightarrow> e \<noteq> send_error \<Longrightarrow> w_db (fst (run k oid w)) = w_db w"
begin

lemma deliver_wf: "wf_db (w_db w) \<Longrightarrow> wf_db (w_db (fst (deliver run k n oid w)))"
proof (induction n arbitrary: k w)
  case 0
  then show ?case by (simp add: keeps_wf)
next
  case (Suc n)
  obtain w1 r where r: "run k oid w = (w1, r)" by (cases "run k oid w")
  have "wf_db (w_db w1)" using keeps_wf [OF Suc.prems, of k oid] r by simp
  with Suc.IH r show ?case by (cases r) auto
qed

text \<open>
  When no attempt fails in the broker, a delivery that fails for good has left the database as
  it was.
\<close>

lemma deliver_fails:
  assumes "\<And>k w. snd (run k oid w) \<noteq> Inl send_error"
  shows "snd (deliver run k n oid w) = Inl e \<Longrightarrow> w_db (fst (deliver run k n oid w)) = w_db w"
proof (induction n arbitrary: k w)
  case 0
  then show ?case using rolls_back [of k oid w e] assms [of k w] by auto
next
  case (Suc n)
  obtain w1 r where r: "run k oid w = (w1, r)" by (cases "run k oid w")
  show ?case
  proof (cases r)
    case (Inl e')
    have "e' \<noteq> send_error" using assms [of k w] r Inl by auto
    then have "w_db w1 = w_db w" using rolls_back [of k oid w e'] r Inl by simp
    with Suc r Inl show ?thesis by simp
  next
    case (Inr u)
    with Suc.prems r show ?thesis by simp
  qed
qed

end

section \<open>Every worker is a task handler\<close>

lemma world_steps [simp]:
  "w_db (task_inc a s w) = w_db w"
  "w_db (fst (send_msg env q oid w)) = w_db w"
  "w_objects (task_inc a s w) = w_objects w"
  "w_sent (task_inc a s w) = w_sent w"
  by (simp_all add: task_inc_def send_msg_def)

lemma then_do_fst: "fst (then_do x f) = (case snd x of Inr u \<Rightarrow> fst (f (fst x)) | Inl e \<Rightarrow> fst x)"
  by (cases x; cases "snd x") auto

lemma then_do_snd: "snd (then_do x f) = (case snd x of Inr u \<Rightarrow> snd (f (fst x)) | Inl e \<Rightarrow> Inl e)"
  by (cases x; cases "snd x") auto

lemma commit_simps [simp]:
  "commit (Inr d) w = (w\<lparr>w_db := d\<rparr>, Inr ())" "commit (Inl e) w = (w, Inl e)"
  by (simp_all add: commit_def)

lemma send_msg_snd: "snd (send_msg env q oid w) = Inl e \<Longrightarrow> e = send_error"
  by (auto simp: send_msg_def split: if_splits)

lemma scan_tables_wf: "scan_tables env u ob fs esc d = Inr d' \<Longrightarrow> wf_db d \<Longrightarrow> wf_db d'"
proof -
  assume a: "scan_tables env u ob fs esc d = Inr d'" and w: "wf_db d"
  from a obtain d1 where d1: "insert_all insert_finding (finding_rows (we_ids env) u fs) d = Inr d1"
    and d': "d' = mark_processed ob (update_operation u (\<lambda>r. r\<lparr>op_status := (if esc then ESCALATED else PENDING)\<rparr>) d1)"
    by (auto simp: scan_tables_def res_simps)
  have "wf_db d1" using d1 w by (rule insert_findings_wf)
  then show ?thesis unfolding d' by (intro mark_processed_wf update_operation_wf) simp_all
qed

lemma sanitize_tables_wf: "sanitize_tables env oid r d = Inr d' \<Longrightarrow> wf_db d \<Longrightarrow> wf_db d'"
  by (auto simp: sanitize_tables_def Let_def res_simps intro!: update_operation_wf intro: insert_redactions_wf)

lemma audit_tables_wf: "audit_tables env oid r digest d = Inr d' \<Longrightarrow> wf_db d \<Longrightarrow> wf_db d'"
proof -
  assume a: "audit_tables env oid r digest d = Inr d'" and w: "wf_db d"
  define f where "f x = x\<lparr>op_status := COMPLETED, op_completed_at := Some (we_now env)\<rparr>" for x :: operation
  from a obtain a0 d1 s where i: "insert_artifact a0 d = Inr d1"
    and s: "seal_operation (audit_seal_env env) (f r) (update_operation (op_id r) f d1) = Inr (d', s)"
    by (auto simp: audit_tables_def Let_def res_simps f_def [abs_def])
  have "wf_db (update_operation (op_id r) f d1)"
    using insert_artifact_wf [OF i w] by (intro update_operation_wf) (simp add: f_def)
  with s show ?thesis by (rule seal_operation_wf)
qed

lemma process_scan_handler:
  "wf_db (w_db w) \<Longrightarrow> wf_db (w_db (fst (process_scan env oid w)))"
  "snd (process_scan env oid w) = Inl e \<Longrightarrow> e \<noteq> send_error \<Longrightarrow> w_db (fst (process_scan env oid w)) = w_db w"
  by (auto simp: process_scan_def Let_def then_do_fst then_do_snd commit_def
      dest: scan_tables_wf send_msg_snd split: sum.splits option.splits list.splits if_splits)

lemma process_sanitize_handler:
  "wf_db (w_db w) \<Longrightarrow> wf_db (w_db (fst (process_sanitize env oid w)))"
  "snd (process_sanitize env oid w) = Inl e \<Longrightarrow> e \<noteq> send_error \<Longrightarrow> w_db (fst (process_sanitize env oid w)) = w_db w"
  by (auto simp: process_sanitize_def Let_def then_do_fst then_do_snd commit_def
      dest: sanitize_tables_wf send_msg_snd split: sum.splits option.splits list.splits if_splits)

lemma rescan_operation_handler:
  "wf_db (w_db w) \<Longrightarrow> wf_db (w_db (fst (rescan_operation env oid w)))"
  "snd (rescan_operation env oid w) = Inl e \<Longrightarrow> w_db (fst (rescan_operation env oid w)) = w_db w"
  by (auto simp: rescan_operation_def rescan_found_def Let_def then_do_fst then_do_snd commit_def
      intro!: update_operation_wf dest: insert_findings_wf split: sum.splits option.splits list.splits if_splits)

lemma s3_put_world: "s3_put env key data w = Inr (w1, dg) \<Longrightarrow> w_db w1 = w_db w"
  by (auto simp: s3_put_def res_simps)

lemma process_audit_handler:
  "wf_db (w_db w) \<Longrightarrow> wf_db (w_db (fst (process_audit env oid w)))"
  "snd (process_audit env oid w) = Inl e \<Longrightarrow> w_db (fst (process_audit env oid w)) = w_db w"
  by (auto simp: process_audit_def Let_def then_do_fst then_do_snd commit_def
      dest: audit_tables_wf s3_put_world split: sum.splits option.splits prod.splits if_splits)

lemma process_review_handler:
  "w_db (fst (process_review oid w)) = w_db w" "w_db (fst (process_classify oid w)) = w_db w"
  by (auto simp: process_review_def process_classify_def split: sum.splits option.splits)

interpretation scan: task_handler "\<lambda>k. process_scan (envs k)"
  by unfold_locales (rule process_scan_handler, assumption)+

interpretation sanitize: task_handler "\<lambda>k. process_sanitize (envs k)"
  by unfold_locales (rule process_sanitize_handler, assumption)+

interpretation rescan: task_handler "\<lambda>k. rescan_operation (envs k)"
  by unfold_locales (erule rescan_operation_handler)+

interpretation audit: task_handler "\<lambda>k. process_audit (envs k)"
  by unfold_locales (erule process_audit_handler)+

interpretation review: task_handler "\<lambda>k. process_review"
  by unfold_locales (simp_all add: process_review_handler)

interpretation classify: task_handler "\<lambda>k. process_classify"
  by unfold_locales (simp_all add: process_review_handler)

section \<open>Inserting the findings of a detection\<close>

lemma enumerate_Suc_map: "enumerate (Suc n) xs = map (\<lambda>(k, x). (Suc k, x)) (enumerate n xs)"
  by (induction xs arbitrary: n) auto

lemma finding_rows_simps [simp]:
  "finding_rows ids u [] = []"
  "finding_rows ids u (f # fs) = finding_row (ids 0) u f # finding_rows (\<lambda>k. ids (Suc k)) u fs"
proof -
  have "enumerate 1 fs = map (\<lambda>(k, x). (Suc k, x)) (enumerate 0 fs)"
    using enumerate_Suc_map [of 0 fs] by simp
  then show "finding_rows ids u (f # fs) = finding_row (ids 0) u f # finding_rows (\<lambda>k. ids (Suc k)) u fs"
    by (simp add: finding_rows_def o_def case_prod_unfold)
qed (simp add: finding_rows_def)

lemma span_key_row: "span_key (finding_row i u f) = (u, finding_key f)"
  by (simp add: span_key_def finding_key_def)

lemma length_finding_rows [simp]: "length (finding_rows ids u fs) = length fs"
  by (simp add: finding_rows_def)

lemma insert_rows_ok:
  assumes "u \<in> op_ids d" and "\<forall>f \<in> set fs. report_wf t f" and "distinct (map finding_key fs)"
    and "\<forall>g \<in> set (findings d). fd_operation_id g = u \<longrightarrow> (rule_id g, span_start g, span_end g) \<notin> finding_key ` set fs"
    and "inj_on ids {..<length fs}" and "\<forall>k < length fs. ids k \<notin> fd_ids d"
  shows "insert_all insert_finding (finding_rows ids u fs) d = Inr (d\<lparr>findings := findings d @ finding_rows ids u fs\<rparr>)"
  using assms
proof (induction fs arbitrary: d ids)
  case Nil
  then show ?case by simp
next
  case (Cons f fs)
  let ?r = "finding_row (ids 0) u f" and ?ids = "\<lambda>k. ids (Suc k)"
  let ?d = "d\<lparr>findings := findings d @ [?r]\<rparr>"
  have ok: "finding_ok d ?r"
    using Cons.prems(1,2) by (simp add: finding_ok_def report_wf_def)
  have fresh: "span_key ?r \<notin> span_key ` set (findings d)"
    using Cons.prems(4) by (auto simp: span_key_def finding_key_def)
  have ins: "insert_finding ?r d = Inr ?d"
    using ok fresh Cons.prems(6) by (auto simp: insert_finding_def)
  have "insert_all insert_finding (finding_rows ?ids u fs) ?d
      = Inr (?d\<lparr>findings := findings ?d @ finding_rows ?ids u fs\<rparr>)"
  proof (rule Cons.IH)
    show "inj_on ?ids {..<length fs}" using Cons.prems(5) by (auto simp: inj_on_def)
    have "ids (Suc k) \<noteq> ids 0" if "k < length fs" for k
      using inj_onD [OF Cons.prems(5), of "Suc k" 0] that by auto
    then show "\<forall>k < length fs. ?ids k \<notin> fd_ids ?d"
      using Cons.prems(6) by (auto simp: fd_ids_def)
    show "\<forall>g \<in> set (findings ?d). fd_operation_id g = u \<longrightarrow> (rule_id g, span_start g, span_end g) \<notin> finding_key ` set fs"
      using Cons.prems(3,4) by (auto simp: finding_key_def)
  qed (use Cons.prems in \<open>auto simp: op_ids_def\<close>)
  with ins show ?case by simp
qed

lemma insert_rows_clash:
  assumes "g \<in> set (findings d)" and "fd_operation_id g = u" and "f \<in> set fs"
    and "(rule_id g, span_start g, span_end g) = finding_key f"
  shows "insert_all insert_finding (finding_rows ids u fs) d = Inl integrity_error"
  using assms
proof (induction fs arbitrary: d ids)
  case Nil
  then show ?case by simp
next
  case (Cons h fs)
  show ?case
  proof (cases "f = h")
    case True
    have "span_key g = span_key (finding_row (ids 0) u h)"
      using Cons.prems True by (simp add: span_key_def finding_key_def)
    then have "span_key (finding_row (ids 0) u h) \<in> span_key ` set (findings d)"
      using Cons.prems(1) by (metis image_eqI)
    then show ?thesis by (simp add: insert_finding_def)
  next
    case False
    show ?thesis
    proof (cases "insert_finding (finding_row (ids 0) u h) d")
      case (Inl e)
      then show ?thesis by (auto simp: insert_finding_def split: if_splits)
    next
      case (Inr d1)
      then have "g \<in> set (findings d1)"
        using Cons.prems(1) by (auto simp: insert_finding_def split: if_splits)
      then have "insert_all insert_finding (finding_rows (\<lambda>k. ids (Suc k)) u fs) d1 = Inl integrity_error"
        using False Cons.prems by (intro Cons.IH) auto
      with Inr show ?thesis by simp
    qed
  qed
qed

text \<open>The rule names of the two detectors differ, so merging keeps the keys distinct.\<close>

definition presidio_named :: "finding_data \<Rightarrow> bool" where
  "presidio_named f \<longleftrightarrow> starts_with ''presidio_'' (rule_id f)"

lemma presidio_loop_result:
  assumes "presidio_loop pe t rs fs = Inr p"
  shows "p = fs @ map presidio_finding (filter (\<lambda>r. \<not> exempt pe t r) rs)"
proof (cases "debug_enabled pe")
  case True
  from presidio_loop_debug [OF this, of t rs fs] assms show ?thesis by (simp split: if_splits)
next
  case False
  from presidio_loop_ok [OF this, of t rs fs] assms show ?thesis by simp
qed

lemma presidio_detect_result:
  "presidio_detect pe t policy = Inr p \<Longrightarrow> p = [] \<or> (\<exists>rs. presidio_loop pe t rs [] = Inr p)"
proof -
  assume "presidio_detect pe t policy = Inr p"
  then obtain ents thr where "(case analyze pe t ents thr of Inl e \<Rightarrow> Inr [] | Inr rs \<Rightarrow> presidio_loop pe t rs []) = Inr p"
    by (auto simp: presidio_detect_def res_simps)
  then show ?thesis by (cases "analyze pe t ents thr") auto
qed

lemma presidio_detect_named:
  assumes "presidio_detect pe t policy = Inr p" and "f \<in> set p"
  shows "presidio_named f"
proof -
  from presidio_detect_result [OF assms(1)] assms(2) obtain rs where "presidio_loop pe t rs [] = Inr p" by auto
  from presidio_loop_result [OF this] assms(2) show ?thesis
    by (auto simp: presidio_named_def presidio_finding_def starts_with_def)
qed

lemma regex_not_presidio: "f \<in> set (regex_detect u t) \<Longrightarrow> \<not> presidio_named f"
proof -
  assume "f \<in> set (regex_detect u t)"
  then obtain r where "r \<in> set (regex_rules u)" "rule_id f = r_rule_id r"
    by (rule regex_detect_memD) (auto simp: rule_finding_def)
  then show ?thesis by (auto simp: regex_rules_def presidio_named_def starts_with_def)
qed

lemma merged_keys_distinct:
  assumes "presidio_detect pe t policy = Inr p" and "distinct (map finding_key p)"
  shows "distinct (map finding_key (merge_findings (regex_detect u t) p))"
proof -
  let ?p = "filter (\<lambda>pf. \<not> (\<exists>rf \<in> set (regex_detect u t). overlaps rf pf)) p"
  have "finding_key ` set (regex_detect u t) \<inter> finding_key ` set ?p = {}"
  proof (rule equals0I)
    fix k assume k: "k \<in> finding_key ` set (regex_detect u t) \<inter> finding_key ` set ?p"
    from k obtain f where f: "f \<in> set (regex_detect u t)" and kf: "k = finding_key f" by blast
    from k obtain g where "g \<in> set ?p" and kg: "k = finding_key g" by blast
    then have g: "g \<in> set p" by simp
    from kf kg have "presidio_named f = presidio_named g" by (simp add: finding_key_def presidio_named_def)
    with presidio_detect_named [OF assms(1) g] regex_not_presidio [OF f] show False by simp
  qed
  then have d: "distinct (map finding_key (regex_detect u t @ ?p))"
    using regex_keys_distinct [of u t] distinct_map_filterI [OF assms(2)]
    by (simp only: map_append distinct_append set_map simp_thms)
  have "mset (map finding_key (merge_findings (regex_detect u t) p)) = mset (map finding_key (regex_detect u t @ ?p))"
    by (simp only: merge_findings_def merge_loop_eq mset_map mset_sorted_by)
  from mset_eq_imp_distinct_iff [OF this] d show ?thesis by blast
qed

end
