(* ===== verification/Scan_Props.thy ===== *)
theory Scan_Props
  imports Worker_Props
begin

text \<open>
  The behaviour of the pipeline's workers on the database: a first delivery of \<open>process_scan\<close>, the
  fail-safe path when OPA is down, the redelivery after a broker failure, sanitization and its
  idempotence, the orders of re-scan and audit, the archived evidence, and the classifier.
\<close>

section \<open>Reading back after the updates\<close>

lemma findings_of_append:
  "findings_of u (d\<lparr>findings := findings d @ finding_rows ids u fs\<rparr>) = findings_of u d @ finding_rows ids u fs"
  by (auto simp: findings_of_def finding_rows_def filter_id_conv)

lemma select_same_tables: "operations d = operations d' \<Longrightarrow> select_operation i d = select_operation i d'"
  by (simp add: select_operation_def)

lemma mark_processed_reads [simp]:
  "findings_of u (mark_processed i d) = findings_of u d"
  "select_operation u (mark_processed i d) = select_operation u d"
  by (simp_all add: findings_of_def select_operation_def)

lemma update_operation_reads [simp]:
  "findings_of u (update_operation i f d) = findings_of u d"
  "redactions_of u (update_operation i f d) = redactions_of u d"
  "outbox_for i' (update_operation i f d) = outbox_for i' d"
  by (simp_all add: findings_of_def redactions_of_def outbox_for_def)

lemma select_op_ids: "select_operation u d = Some r \<Longrightarrow> u \<in> op_ids d"
  using select_operation_SomeD [of u d r] by (auto simp: op_ids_def)

section \<open>Detection\<close>

text \<open>The operation \<open>u\<close> waits for its first scan of the text \<open>t\<close>.\<close>

definition awaits_scan :: "string \<Rightarrow> uuid \<Rightarrow> outbox \<Rightarrow> doc \<Rightarrow> db \<Rightarrow> bool" where
  "awaits_scan oid u ob t d \<longleftrightarrow> uuid_of_str oid = Inr u
     \<and> (\<exists>r. select_operation u d = Some r \<and> op_status r = PENDING)
     \<and> (\<exists>obs. outbox_for oid d = ob # obs) \<and> map_of (ob_payload ob) ''document_text'' = Some (JStr t)"

definition base_policy :: "worker_env \<Rightarrow> json" where
  "base_policy env = get_policy (we_threshold env) (we_opa env) ''base''"

lemma process_scan_awaiting:
  assumes "awaits_scan oid u ob t (w_db w)" and "scan_findings env (base_policy env) t = Inr fs"
  shows "process_scan env oid w =
    (let w1 = w\<lparr>w_findings_metric := w_findings_metric w @ map (\<lambda>f. (entity_label f, severity f)) fs\<rparr>;
         esc = requires_review env fs
     in then_do (commit (scan_tables env u (ob_id ob) fs esc (w_db w)) w1) (\<lambda>w2.
        then_do (send_msg env (if esc then ''safecontext_review'' else ''safecontext_sanitize'') oid w2)
          (\<lambda>w3. (task_inc ''detector'' ''success'' w3, Inr ()))))"
  using assms by (auto simp: process_scan_def awaits_scan_def payload_str_def base_policy_def)

text \<open>The first \<open>n\<close> generated keys are pairwise different and unused.\<close>

definition fresh_rows :: "(nat \<Rightarrow> uuid) \<Rightarrow> nat \<Rightarrow> db \<Rightarrow> bool" where
  "fresh_rows ids n d \<longleftrightarrow> inj_on ids {..<n} \<and> (\<forall>k < n. ids k \<notin> fd_ids d)"

definition scan_status :: "bool \<Rightarrow> operation_status" where
  "scan_status esc = (if esc then ESCALATED else PENDING)"

lemma scan_tables_first:
  assumes "select_operation u d = Some r" and "findings_of u d = []" and "fresh_rows (we_ids env) (length fs) d"
    and "\<forall>f \<in> set fs. report_wf t f" and "distinct (map finding_key fs)"
  shows "scan_tables env u ob fs esc d = Inr (mark_processed ob
    (update_operation u (\<lambda>r. r\<lparr>op_status := scan_status esc\<rparr>)
      (d\<lparr>findings := findings d @ finding_rows (we_ids env) u fs\<rparr>)))"
proof -
  have "\<forall>g \<in> set (findings d). fd_operation_id g = u \<longrightarrow> (rule_id g, span_start g, span_end g) \<notin> finding_key ` set fs"
    using assms(2) by (auto simp: findings_of_def filter_empty_conv)
  with assms select_op_ids [OF assms(1)] show ?thesis
    by (simp add: scan_tables_def insert_rows_ok fresh_rows_def scan_status_def)
qed

lemma scan_findings_merge:
  "scan_findings env policy t = Inr fs \<longleftrightarrow>
    (\<exists>p. presidio_detect (we_presidio env) t policy = Inr p \<and> fs = merge_findings (regex_detect (pe_ucd (we_presidio env)) t) p)"
  by (auto simp: scan_findings_def res_simps)

lemma scan_findings_wf:
  assumes "presidio_detect (we_presidio env) t policy = Inr p" and "\<forall>f \<in> set p. report_wf t f"
    and "distinct (map finding_key p)" and "scan_findings env policy t = Inr fs"
  shows "\<forall>f \<in> set fs. report_wf t f" and "distinct (map finding_key fs)"
proof -
  have fs: "fs = merge_findings (regex_detect (pe_ucd (we_presidio env)) t) p"
    using assms(1,4) by (auto simp: scan_findings_merge)
  show "\<forall>f \<in> set fs. report_wf t f"
    using merge_findings_report_wf [of "regex_detect (pe_ucd (we_presidio env)) t" p t] regex.detect_wf assms(2)
    unfolding fs by blast
  show "distinct (map finding_key fs)" unfolding fs using assms(1,3) by (rule merged_keys_distinct)
qed

lemma scan_first:
  assumes "awaits_scan oid u ob t (w_db w)"
    and "presidio_detect (we_presidio env) t (base_policy env) = Inr p"
    and "\<forall>f \<in> set p. report_wf t f" and "distinct (map finding_key p)"
    and "findings_of u (w_db w) = []" and "fresh_rows (we_ids env) (length (merge_findings (regex_detect (pe_ucd (we_presidio env)) t) p)) (w_db w)" and "\<not> we_send_fails env"
  shows "\<exists>w' fs r. process_scan env oid w = (w', Inr ())
    \<and> fs = merge_findings (regex_detect (pe_ucd (we_presidio env)) t) p
    \<and> findings_of u (w_db w') = finding_rows (we_ids env) u fs
    \<and> select_operation u (w_db w') = Some r \<and> op_status r = scan_status (requires_review env fs)
    \<and> w_sent w' = w_sent w @ [(if requires_review env fs then ''safecontext_review'' else ''safecontext_sanitize'', oid)]
    \<and> (\<forall>x \<in> set (outbox_rows (w_db w')). ob_id x = ob_id ob \<longrightarrow> ob_processed x)"
proof -
  let ?d = "w_db w"
  define fs where "fs = merge_findings (regex_detect (pe_ucd (we_presidio env)) t) p"
  have sf: "scan_findings env (base_policy env) t = Inr fs"
    using assms(2) by (simp add: scan_findings_merge fs_def)
  obtain r where r: "select_operation u ?d = Some r" using assms(1) by (auto simp: awaits_scan_def)
  define esc where "esc = requires_review env fs"
  define d1 where "d1 = ?d\<lparr>findings := findings ?d @ finding_rows (we_ids env) u fs\<rparr>"
  define d2 where "d2 = mark_processed (ob_id ob) (update_operation u (\<lambda>r. r\<lparr>op_status := scan_status esc\<rparr>) d1)"
  have fr: "fresh_rows (we_ids env) (length fs) ?d" using assms(6) unfolding fs_def .
  have "scan_tables env u (ob_id ob) fs esc ?d = Inr d2"
    unfolding d2_def d1_def using r assms(5) fr scan_findings_wf [OF assms(2-4) sf] by (intro scan_tables_first)
  then have run: "\<exists>w'. process_scan env oid w = (w', Inr ()) \<and> w_db w' = d2
      \<and> w_sent w' = w_sent w @ [(if esc then ''safecontext_review'' else ''safecontext_sanitize'', oid)]"
    unfolding process_scan_awaiting [OF assms(1) sf] esc_def [symmetric] Let_def
    using assms(7) by (simp add: send_msg_def)
  have f: "findings_of u d2 = finding_rows (we_ids env) u fs"
    using assms(5) by (simp add: d2_def d1_def findings_of_append)
  have "select_operation u d1 = Some r" using r by (simp add: d1_def select_operation_def)
  then have s: "select_operation u d2 = Some (r\<lparr>op_status := scan_status esc\<rparr>)"
    by (simp add: d2_def select_update_same)
  have "\<forall>x \<in> set (outbox_rows d2). ob_id x = ob_id ob \<longrightarrow> ob_processed x"
    by (auto simp: d2_def mark_processed_def)
  with run f s show ?thesis unfolding esc_def fs_def by fastforce
qed

text \<open>
  C6: the first delivery of a scan. For a pending operation whose text is in the outbox, if the
  Presidio results are well-formed and name no span twice, the worker stores exactly the merged
  findings, marks the outbox row as processed, escalates the operation if and only if a review
  is required, and hands it to the reviewer or to the sanitizer accordingly.
\<close>
theorem scan_first_delivery:
  assumes "awaits_scan oid u ob t (w_db w)"
    and "presidio_detect (we_presidio env) t (base_policy env) = Inr p"
    and "\<forall>f \<in> set p. report_wf t f" and "distinct (map finding_key p)"
    and "findings_of u (w_db w) = []" and "fresh_rows (we_ids env) (length (merge_findings (regex_detect (pe_ucd (we_presidio env)) t) p)) (w_db w)" and "\<not> we_send_fails env"
  shows "\<exists>w' fs r. process_scan env oid w = (w', Inr ())
    \<and> fs = merge_findings (regex_detect (pe_ucd (we_presidio env)) t) p
    \<and> findings_of u (w_db w') = finding_rows (we_ids env) u fs
    \<and> select_operation u (w_db w') = Some r \<and> op_status r = scan_status (requires_review env fs)
    \<and> w_sent w' = w_sent w @ [(if requires_review env fs then ''safecontext_review'' else ''safecontext_sanitize'', oid)]
    \<and> (\<forall>x \<in> set (outbox_rows (w_db w')). ob_id x = ob_id ob \<longrightarrow> ob_processed x)"
  using assms by (rule scan_first)

text \<open>OPA cannot be reached, answers with an error status, or with a body that is no JSON object.\<close>

definition opa_down :: "worker_env \<Rightarrow> bool" where
  "opa_down env \<longleftrightarrow> (\<forall>fs. \<exists>e. opa_evaluate (we_post env) ''safecontext/policy/operation_requires_review'' (review_payload fs) = Inl e)"

lemma opa_down_review:
  "opa_down env \<Longrightarrow> requires_review env fs \<longleftrightarrow> (\<exists>f \<in> set fs. severity f = ''critical'')"
proof -
  assume "opa_down env"
  then obtain e where "opa_evaluate (we_post env) ''safecontext/policy/operation_requires_review'' (review_payload fs) = Inl e"
    unfolding opa_down_def by blast
  then show ?thesis by (auto simp: requires_review_def)
qed

lemma critical_rule:
  assumes "pat \<in> {rx_connection_string, rx_pem_private_key}"
  shows "\<exists>q \<in> set (regex_rules u). r_pattern q = pat \<and> r_severity q = ''critical''"
proof -
  have "r_pattern (regex_rules u ! 0) = rx_connection_string \<and> r_severity (regex_rules u ! 0) = ''critical''"
    "r_pattern (regex_rules u ! 2) = rx_pem_private_key \<and> r_severity (regex_rules u ! 2) = ''critical''"
    "length (regex_rules u) = 6"
    by (simp_all add: regex_rules_def)
  moreover from this(3) have "regex_rules u ! 0 \<in> set (regex_rules u)" "regex_rules u ! 2 \<in> set (regex_rules u)"
    by simp_all
  ultimately show ?thesis using assms by (elim insertE emptyE) blast+
qed

text \<open>
  C16: fail-safe. While OPA is down, a document in which a connection string or a PEM private key
  occurs never goes on to sanitization automatically: the operation is escalated and the only
  message is to the reviewer.
\<close>
theorem opa_down_secret_is_reviewed:
  assumes "opa_down env" and "awaits_scan oid u ob t (w_db w)"
    and "presidio_detect (we_presidio env) t (base_policy env) = Inr p"
    and "\<forall>f \<in> set p. report_wf t f" and "distinct (map finding_key p)"
    and "findings_of u (w_db w) = []" and "fresh_rows (we_ids env) (length (merge_findings (regex_detect (pe_ucd (we_presidio env)) t) p)) (w_db w)" and "\<not> we_send_fails env"
    and "rx_match (pe_ucd (we_presidio env)) t pat i j" and "pat \<in> {rx_connection_string, rx_pem_private_key}"
    and "i \<le> length t"
  shows "\<exists>w' r. process_scan env oid w = (w', Inr ()) \<and> select_operation u (w_db w') = Some r
    \<and> op_status r = ESCALATED \<and> w_sent w' = w_sent w @ [(''safecontext_review'', oid)]"
proof -
  let ?u = "pe_ucd (we_presidio env)"
  let ?fs = "merge_findings (regex_detect ?u t) p"
  obtain q where q: "q \<in> set (regex_rules ?u)" "r_pattern q = pat" "r_severity q = ''critical''"
    using critical_rule [OF assms(10)] by blast
  obtain a b where "rule_finding t q (a, b) \<in> set (regex_detect ?u t)"
    using regex_rule_covers [of q ?u i t j] q(1,2) assms(9,11) by auto
  then have "rule_finding t q (a, b) \<in> set ?fs" by (simp add: set_merge_findings)
  moreover have "severity (rule_finding t q (a, b)) = ''critical''"
    using q(3) by (simp add: rule_finding_def)
  ultimately have rev: "requires_review env ?fs"
    unfolding opa_down_review [OF assms(1)] by blast
  from scan_first [OF assms(2-8)] obtain w' fs r where run: "process_scan env oid w = (w', Inr ())"
    and fs: "fs = ?fs" and sel: "select_operation u (w_db w') = Some r"
    and st: "op_status r = scan_status (requires_review env fs)"
    and sent: "w_sent w' = w_sent w @ [(if requires_review env fs then ''safecontext_review'' else ''safecontext_sanitize'', oid)]"
    by (elim exE conjE)
  from rev fs have "requires_review env fs" by (simp only:)
  with run sel st sent have "process_scan env oid w = (w', Inr ()) \<and> select_operation u (w_db w') = Some r
    \<and> op_status r = ESCALATED \<and> w_sent w' = w_sent w @ [(''safecontext_review'', oid)]"
    by (simp add: scan_status_def)
  then show ?thesis by blast
qed

section \<open>Redelivery of a scan\<close>

definition mark_row :: "uuid \<Rightarrow> outbox \<Rightarrow> outbox" where
  "mark_row i r = (if ob_id r = i then r\<lparr>ob_processed := True\<rparr> else r)"

lemma outbox_for_mark: "outbox_for oid (mark_processed i d) = map (mark_row i) (outbox_for oid d)"
proof -
  have "payload_is_for oid (mark_row i r) = payload_is_for oid r" for r
    by (simp add: mark_row_def payload_is_for_def)
  then show ?thesis
    by (simp add: outbox_for_def mark_processed_def mark_row_def [symmetric, abs_def] filter_map_inside o_def)
qed

lemma awaits_scan_again:
  assumes "awaits_scan oid u ob t d" and "outbox_rows d' = outbox_rows d"
    and "select_operation u d' = Some r" and "op_status r = PENDING"
  shows "awaits_scan oid u (mark_row i ob) t (mark_processed i d')"
proof -
  have "outbox_for oid d' = outbox_for oid d" using assms(2) by (simp add: outbox_for_def)
  then show ?thesis
    using assms by (auto simp: awaits_scan_def outbox_for_mark mark_row_def)
qed

lemma rows_hd: "fs \<noteq> [] \<Longrightarrow> finding_row (ids 0) u (hd fs) \<in> set (finding_rows ids u fs)"
  by (cases fs) simp_all

text \<open>
  C24: redelivery is not safe. When a scan has findings and needs no review and the broker refuses its
  message after the findings were committed, the operation stays pending, and every later delivery of
  the same scan inserts the same spans again and ends with \<open>IntegrityError\<close>, leaving the database as
  it was: the operation never reaches sanitization or review.
\<close>
theorem scan_redelivery_fails:
  assumes "awaits_scan oid u ob t (w_db w)"
    and "presidio_detect (we_presidio env) t (base_policy env) = Inr p"
    and "\<forall>f \<in> set p. report_wf t f" and "distinct (map finding_key p)"
    and "findings_of u (w_db w) = []" and "fresh_rows (we_ids env) (length (merge_findings (regex_detect (pe_ucd (we_presidio env)) t) p)) (w_db w)" and "we_send_fails env"
    and "fs = merge_findings (regex_detect (pe_ucd (we_presidio env)) t) p" and "fs \<noteq> []" and "\<not> requires_review env fs"
  shows "\<exists>w1. process_scan env oid w = (w1, Inl send_error) \<and>
    (\<forall>ids. \<exists>w2. process_scan (env\<lparr>we_ids := ids, we_send_fails := False\<rparr>) oid w1 = (w2, Inl integrity_error)
       \<and> w_db w2 = w_db w1 \<and> w_sent w2 = w_sent w1)"
proof -
  let ?d = "w_db w"
  have sf: "scan_findings env (base_policy env) t = Inr fs"
    using assms(2,8) by (simp add: scan_findings_merge)
  obtain r where r: "select_operation u ?d = Some r" using assms(1) by (auto simp: awaits_scan_def)
  define d1 where "d1 = update_operation u (\<lambda>r. r\<lparr>op_status := scan_status False\<rparr>) (?d\<lparr>findings := findings ?d @ finding_rows (we_ids env) u fs\<rparr>)"
  have fr: "fresh_rows (we_ids env) (length fs) ?d" using assms(6) unfolding assms(8) .
  have tab: "scan_tables env u (ob_id ob) fs False ?d = Inr (mark_processed (ob_id ob) d1)"
    unfolding d1_def using r assms(5) fr scan_findings_wf [OF assms(2-4) sf] by (intro scan_tables_first)
  define w1 where "w1 = w\<lparr>w_findings_metric := w_findings_metric w @ map (\<lambda>f. (entity_label f, severity f)) fs,
    w_db := mark_processed (ob_id ob) d1\<rparr>"
  have first: "process_scan env oid w = (w1, Inl send_error)"
    unfolding process_scan_awaiting [OF assms(1) sf] Let_def
    using tab assms(7,10) by (simp add: send_msg_def w1_def)
  have "select_operation u (?d\<lparr>findings := findings ?d @ finding_rows (we_ids env) u fs\<rparr>) = Some r"
    using r by (simp add: select_operation_def)
  then have s1: "select_operation u d1 = Some (r\<lparr>op_status := scan_status False\<rparr>)"
    by (simp add: d1_def select_update_same)
  have again: "awaits_scan oid u (mark_row (ob_id ob) ob) t (w_db w1)"
    using awaits_scan_again [OF assms(1) _ s1] by (simp add: w1_def d1_def scan_status_def)
  have "\<exists>w2. process_scan (env\<lparr>we_ids := ids, we_send_fails := False\<rparr>) oid w1 = (w2, Inl integrity_error)
      \<and> w_db w2 = w_db w1 \<and> w_sent w2 = w_sent w1" for ids
  proof -
    let ?e = "env\<lparr>we_ids := ids, we_send_fails := False\<rparr>"
    have sf2: "scan_findings ?e (base_policy ?e) t = Inr fs"
      using sf by (simp add: scan_findings_def base_policy_def)
    have "finding_row (we_ids env 0) u (hd fs) \<in> set (findings (w_db w1))"
      using rows_hd [OF assms(9)] by (simp add: w1_def d1_def)
    then have "insert_all insert_finding (finding_rows ids u fs) (w_db w1) = Inl integrity_error"
      using assms(9) by (intro insert_rows_clash [where f = "hd fs"]) (auto simp: finding_key_def)
    then have "scan_tables ?e u ob2 fs esc (w_db w1) = Inl integrity_error" for ob2 esc
      by (simp add: scan_tables_def)
    then show ?thesis
      unfolding process_scan_awaiting [OF again sf2] Let_def by simp
  qed
  with first show ?thesis by blast
qed

section \<open>Sanitization\<close>

lemma insert_redactions_ok:
  assumes "\<forall>r \<in> set rs. redaction_ok d r" and "distinct (map rd_id rs)"
    and "\<forall>r \<in> set rs. rd_id r \<notin> rd_id ` set (redactions d)"
  shows "insert_all insert_redaction rs d = Inr (d\<lparr>redactions := redactions d @ rs\<rparr>)"
  using assms
proof (induction rs arbitrary: d)
  case Nil
  then show ?case by simp
next
  case (Cons r rs)
  let ?d = "d\<lparr>redactions := redactions d @ [r]\<rparr>"
  have "insert_redaction r d = Inr ?d" using Cons.prems by (simp add: insert_redaction_def)
  moreover have "insert_all insert_redaction rs ?d = Inr (?d\<lparr>redactions := redactions ?d @ rs\<rparr>)"
    using Cons.prems by (intro Cons.IH) (auto simp: redaction_ok_def op_ids_def fd_ids_def image_iff)
  ultimately show ?case by simp
qed

definition fresh_redactions :: "(nat \<Rightarrow> uuid) \<Rightarrow> nat \<Rightarrow> db \<Rightarrow> bool" where
  "fresh_redactions ids n d \<longleftrightarrow> inj_on ids {..<n} \<and> (\<forall>k < n. ids k \<notin> rd_id ` set (redactions d))"

lemma redaction_rows_ids: "map rd_id (redaction_rows env r fs) = map (we_ids env) [0..<length fs]"
proof -
  have "map rd_id (redaction_rows env r fs) = map (we_ids env) (map fst (enumerate 0 fs))"
    by (simp add: redaction_rows_def o_def case_prod_unfold del: map_fst_enumerate)
  then show ?thesis by simp
qed

lemma redaction_rows_finding: "map rd_finding_id (redaction_rows env r fs) = map fd_id fs"
proof -
  have "map rd_finding_id (redaction_rows env r fs) = map fd_id (map snd (enumerate 0 fs))"
    by (simp add: redaction_rows_def o_def case_prod_unfold del: map_snd_enumerate)
  then show ?thesis by simp
qed

lemma redaction_rows_ok:
  assumes "select_operation u d = Some r" and "wf_db d" and "x \<in> set (redaction_rows env r (findings_of u d))"
  shows "redaction_ok d x" and "rd_operation_id x = u"
proof -
  from assms(3) obtain k f where f: "(k, f) \<in> set (enumerate 0 (findings_of u d))"
    and x: "rd_finding_id x = fd_id f" "rd_operation_id x = op_id r" "rd_type x = severity_to_redaction_type (severity f)"
    by (auto simp: redaction_rows_def)
  have "f \<in> set (map snd (enumerate 0 (findings_of u d)))" using f by (force simp del: map_snd_enumerate)
  then have "f \<in> set (findings_of u d)" by simp
  then have "f \<in> set (findings d)" by (simp add: findings_of_def)
  moreover have "op_id r = u" and "u \<in> op_ids d"
    using select_operation_SomeD [OF assms(1)] select_op_ids [OF assms(1)] by auto
  ultimately show "redaction_ok d x" "rd_operation_id x = u"
    using x by (auto simp: redaction_ok_def fd_ids_def redaction_types_def severity_to_redaction_type_def)
qed

text \<open>
  C8: sanitization. For an operation without redactions the worker stores the text redacted
  at its findings (the text itself when there is none), one redaction per finding, and hands the
  operation to audit and re-scan. When there was a finding, every later delivery is skipped
  without a change; when there was none, a redelivery leaves the tables as they are too, but sends the
  messages to audit and re-scan again.
\<close>
theorem sanitize_delivery:
  assumes "uuid_of_str oid = Inr u" and "wf_db (w_db w)" and "select_operation u (w_db w) = Some r"
    and "redactions_of u (w_db w) = []" and "outbox_text ''TypeError'' oid (w_db w) = Inr t"
    and "fresh_redactions (we_ids env) (length (findings_of u (w_db w))) (w_db w)" and "\<not> we_send_fails env"
    and "fs = findings_of u (w_db w)"
  shows "\<exists>w' r'. process_sanitize env oid w = (w', Inr ())
    \<and> select_operation u (w_db w') = Some r' \<and> op_status r' = op_status r
    \<and> op_sanitized_text r' = Some (if fs = [] then t else apply_redactions t fs (redaction_map_of fs))
    \<and> map rd_finding_id (redactions_of u (w_db w')) = map fd_id fs
    \<and> w_sent w' = w_sent w @ [(''safecontext_audit'', oid), (''safecontext_rescan'', oid)]
    \<and> (fs \<noteq> [] \<longrightarrow> process_sanitize env2 oid w' = (task_inc ''sanitizer'' ''skipped'' w', Inr ()))
    \<and> (fs = [] \<and> \<not> we_send_fails env2 \<longrightarrow> (\<exists>w''. process_sanitize env2 oid w' = (w'', Inr ()) \<and> w_db w'' = w_db w'
        \<and> w_sent w'' = w_sent w' @ [(''safecontext_audit'', oid), (''safecontext_rescan'', oid)]))"
proof -
  let ?d = "w_db w" and ?rs = "redaction_rows env r fs"
  have id: "op_id r = u" using select_operation_SomeD [OF assms(3)] by simp
  have ok: "redaction_ok ?d x" "rd_operation_id x = u" if "x \<in> set ?rs" for x
    using that redaction_rows_ok [OF assms(3,2)] unfolding assms(8) by blast+
  have "distinct (map rd_id ?rs)"
    using assms(6) by (simp add: redaction_rows_ids distinct_map fresh_redactions_def lessThan_atLeast0 assms(8))
  moreover have "\<forall>x \<in> set ?rs. rd_id x \<notin> rd_id ` set (redactions ?d)"
  proof
    fix x assume "x \<in> set ?rs"
    then have "rd_id x \<in> set (map rd_id ?rs)" by simp
    then obtain k where "rd_id x = we_ids env k" "k < length fs" unfolding redaction_rows_ids by auto
    then show "rd_id x \<notin> rd_id ` set (redactions ?d)"
      using assms(6,8) by (simp add: fresh_redactions_def)
  qed
  ultimately have ins: "insert_all insert_redaction ?rs ?d = Inr (?d\<lparr>redactions := redactions ?d @ ?rs\<rparr>)"
    using ok by (intro insert_redactions_ok) blast+
  define f where "f x = x\<lparr>op_sanitized_text := Some (if fs = [] then t else apply_redactions t fs (redaction_map_of fs))\<rparr>" for x :: operation
  define d2 where "d2 = update_operation u f (?d\<lparr>redactions := redactions ?d @ ?rs\<rparr>)"
  have tab: "sanitize_tables env oid r ?d = Inr d2"
    using ins assms(5,8) id by (simp add: sanitize_tables_def Let_def d2_def f_def [abs_def])
  define w' where "w' = task_inc ''sanitizer'' ''success''
    (w\<lparr>w_db := d2, w_sent := w_sent w @ [(''safecontext_audit'', oid), (''safecontext_rescan'', oid)]\<rparr>)"
  have run: "process_sanitize env oid w = (w', Inr ())"
    using assms(1,3,4,7) tab by (simp add: process_sanitize_def send_msg_def w'_def)
  have db: "w_db w' = d2" "w_sent w' = w_sent w @ [(''safecontext_audit'', oid), (''safecontext_rescan'', oid)]"
    by (simp_all add: w'_def)
  have sel: "select_operation u d2 = Some (f r)"
    using assms(3) by (simp add: d2_def select_update_same f_def) (simp add: select_operation_def)
  have "redactions_of u d2 = redactions_of u ?d @ filter (\<lambda>x. rd_operation_id x = u) ?rs"
    by (simp add: d2_def redactions_of_def)
  also have "\<dots> = ?rs" using assms(4) ok(2) by (simp add: filter_id_conv)
  finally have red: "redactions_of u d2 = ?rs" .
  have "?rs \<noteq> []" if "fs \<noteq> []" using that redaction_rows_finding [of env r fs] by (metis map_is_Nil_conv)
  then have "process_sanitize env2 oid w' = (task_inc ''sanitizer'' ''skipped'' w', Inr ())" if "fs \<noteq> []"
    using that assms(1) by (simp add: process_sanitize_def db red)
  moreover have "\<exists>w''. process_sanitize env2 oid w' = (w'', Inr ()) \<and> w_db w'' = w_db w'
      \<and> w_sent w'' = w_sent w' @ [(''safecontext_audit'', oid), (''safecontext_rescan'', oid)]"
    if "fs = []" "\<not> we_send_fails env2"
  proof -
    have none: "findings_of u d2 = []" "redaction_rows env2 (f r) [] = []" "redactions_of u d2 = []"
      using that(1) assms(8) red by (simp_all add: d2_def redaction_rows_def findings_of_def update_operation_def)
    have "outbox_text ''TypeError'' oid d2 = Inr t"
      using assms(5) by (simp add: d2_def outbox_text_def) (simp add: outbox_for_def)
    moreover have "update_operation u (\<lambda>x. x\<lparr>op_sanitized_text := Some t\<rparr>) d2 = d2"
      using that(1) by (simp add: d2_def f_def update_operation_def o_def)
    moreover have "op_id (f r) = u" using id by (simp add: f_def)
    ultimately have "sanitize_tables env2 oid (f r) d2 = Inr d2"
      using none by (simp add: sanitize_tables_def Let_def)
    with none assms(1) sel that(2) show ?thesis
      by (simp add: process_sanitize_def db commit_def send_msg_def task_inc_def)
  qed
  ultimately show ?thesis using run sel
    unfolding db red by (intro exI [of _ w'] exI [of _ "f r"]) (simp add: red redaction_rows_finding f_def db)
qed

section \<open>Re-scan and audit\<close>

lemma process_audit_result:
  assumes "process_audit env oid w = (w', Inr ())" and "uuid_of_str oid = Inr u"
    and "select_operation u (w_db w) = Some r" and "\<forall>a \<in> set (artifacts_of u (w_db w)). ar_type a \<noteq> ''original''"
  shows "\<exists>t data d2 a s. outbox_text ''AttributeError'' oid (w_db w) = Inr t \<and> utf8_encode t = Inr data
    \<and> s3_get (original_key oid) w' = Inr data \<and> w_db w' = d2 \<and> w_sent w' = w_sent w
    \<and> ar_digest a = se_sha (we_seal env) data \<and> ar_type a = ''original'' \<and> ar_worm_locked a
    \<and> ar_operation_id a = u \<and> ar_minio_key a = original_key oid
    \<and> insert_artifact a (w_db w) = Inr (w_db w\<lparr>artifacts := artifacts (w_db w) @ [a]\<rparr>)
    \<and> seal_operation (audit_seal_env env) (r\<lparr>op_status := COMPLETED, op_completed_at := Some (we_now env)\<rparr>)
        (update_operation u (\<lambda>x. x\<lparr>op_status := COMPLETED, op_completed_at := Some (we_now env)\<rparr>)
          (w_db w\<lparr>artifacts := artifacts (w_db w) @ [a]\<rparr>)) = Inr (d2, s)"
proof -
  have id: "op_id r = u" using select_operation_SomeD [OF assms(3)] by simp
  have no: "\<not> (\<exists>a \<in> set (artifacts_of u (w_db w)). ar_type a = ''original'')" using assms(4) by blast
  have run: "process_audit env oid w = (case rbind (outbox_text ''AttributeError'' oid (w_db w)) utf8_encode of
      Inl e \<Rightarrow> (w, Inl e)
    | Inr data \<Rightarrow>
        (case s3_put env (original_key oid) data w of
           Inl e \<Rightarrow> (task_inc ''auditor'' ''failure'' w, Inl e)
         | Inr (w1, digest) \<Rightarrow>
             then_do (commit (audit_tables env oid r digest (w_db w)) w1) (\<lambda>w2. (task_inc ''auditor'' ''success'' w2, Inr ()))))"
    using no assms(2,3) by (simp add: process_audit_def)
  obtain data where enc: "rbind (outbox_text ''AttributeError'' oid (w_db w)) utf8_encode = Inr data"
    using run assms(1) by (cases "rbind (outbox_text ''AttributeError'' oid (w_db w)) utf8_encode") auto
  obtain w1 dg where put: "s3_put env (original_key oid) data w = Inr (w1, dg)"
    using run assms(1) enc by (cases "s3_put env (original_key oid) data w") auto
  have c: "then_do (commit (audit_tables env oid r dg (w_db w)) w1) (\<lambda>w2. (task_inc ''auditor'' ''success'' w2, Inr ())) = (w', Inr ())"
    using run assms(1) enc put by simp
  from put have w1: "w1 = w\<lparr>w_objects := (original_key oid, data) # w_objects w\<rparr>" and dg: "dg = se_sha (we_seal env) data"
    by (auto simp: s3_put_def res_simps)
  from c obtain d2 where tab: "audit_tables env oid r dg (w_db w) = Inr d2" and w': "w' = task_inc ''auditor'' ''success'' (w1\<lparr>w_db := d2\<rparr>)"
    by (cases "audit_tables env oid r dg (w_db w)") auto
  define a where "a = \<lparr>ar_id = we_ids env 0, ar_operation_id = op_id r, ar_type = ''original'',
               ar_minio_key = original_key oid, ar_digest = dg, ar_worm_locked = True, ar_created_at = we_now env\<rparr>"
  from tab obtain d1 s where ins: "insert_artifact a (w_db w) = Inr d1"
    and seal: "seal_operation (audit_seal_env env) (r\<lparr>op_status := COMPLETED, op_completed_at := Some (we_now env)\<rparr>)
        (update_operation u (\<lambda>x. x\<lparr>op_status := COMPLETED, op_completed_at := Some (we_now env)\<rparr>) d1) = Inr (d2, s)"
    by (auto simp: audit_tables_def Let_def res_simps a_def id)
  have d1: "d1 = w_db w\<lparr>artifacts := artifacts (w_db w) @ [a]\<rparr>"
    using ins by (auto simp: insert_artifact_def split: if_splits)
  from enc obtain t where t: "outbox_text ''AttributeError'' oid (w_db w) = Inr t" "utf8_encode t = Inr data"
    by (auto simp: res_simps)
  have "s3_get (original_key oid) w' = Inr data" "w_db w' = d2" "w_sent w' = w_sent w"
    by (simp_all add: w' w1 s3_get_def)
  with t ins seal d1 dg id show ?thesis
    by (intro exI [of _ t] exI [of _ data] exI [of _ d2] exI [of _ a] exI [of _ s]) (simp add: a_def)
qed

lemma seal_operation_tables:
  assumes "seal_operation se r d = Inr (d', s)"
  shows "findings d' = findings d" "artifacts d' = artifacts d" "redactions d' = redactions d" "outbox_rows d' = outbox_rows d"
proof -
  have a: "findings (archive_public_key_if_needed py_str vh addr key ver x) = findings x"
    "artifacts (archive_public_key_if_needed py_str vh addr key ver x) = artifacts x"
    "redactions (archive_public_key_if_needed py_str vh addr key ver x) = redactions x"
    "outbox_rows (archive_public_key_if_needed py_str vh addr key ver x) = outbox_rows x" for py_str vh addr key ver x
    by (auto simp: archive_public_key_if_needed_def split: prod.splits json.splits)
  from assms show "findings d' = findings d" "artifacts d' = artifacts d" "redactions d' = redactions d" "outbox_rows d' = outbox_rows d"
    by (auto simp: seal_operation_def Let_def res_simps a split: option.splits)
qed

lemma sealed_status:
  assumes "seal_operation se r d = Inr (d', s)" and "select_operation (op_id r) d = Some x"
  shows "\<exists>r'. select_operation (op_id r) d' = Some r' \<and> op_status r' = op_status x
    \<and> op_completed_at r' = op_completed_at x \<and> op_chain_hash r' = Some (sl_chain_hash s)
    \<and> op_sanitized_text r' = op_sanitized_text x"
proof -
  let ?ch = "compute_chain_hash (se_sha se) (get_latest_chain_hash d (op_tenant_id r)) (op_hash (se_sha se) r)"
  obtain sk where "operations d' = map (\<lambda>x. if op_id x = op_id r then seal_row se ?ch sk x else x) (operations d)"
    and ch: "sl_chain_hash s = ?ch"
    using seal_operation_rows [OF assms(1)] by blast
  then have ops: "operations d' = operations (update_operation (op_id r) (seal_row se (sl_chain_hash s) sk) d)"
    by (simp add: update_operation_def)
  from ops have "select_operation (op_id r) d' = select_operation (op_id r) (update_operation (op_id r) (seal_row se (sl_chain_hash s) sk) d)"
    by (rule select_same_tables)
  also have "\<dots> = Some (seal_row se (sl_chain_hash s) sk x)" using assms(2) by (simp add: select_update_same)
  finally show ?thesis by (auto simp: seal_row_def split: option.splits)
qed

lemma audit_completes:
  assumes "process_audit env oid w = (w', Inr ())" and "uuid_of_str oid = Inr u"
    and "select_operation u (w_db w) = Some r" and "\<forall>a \<in> set (artifacts_of u (w_db w)). ar_type a \<noteq> ''original''"
  shows "\<exists>r'. select_operation u (w_db w') = Some r' \<and> op_status r' = COMPLETED
      \<and> op_completed_at r' = Some (we_now env) \<and> op_chain_hash r' \<noteq> None"
    and "findings (w_db w') = findings (w_db w)" and "w_sent w' = w_sent w"
proof -
  have id: "op_id r = u" using select_operation_SomeD [OF assms(3)] by simp
  let ?f = "\<lambda>x. x\<lparr>op_status := COMPLETED, op_completed_at := Some (we_now env)\<rparr> :: operation"
  from process_audit_result [OF assms] obtain a d2 s where w': "w_db w' = d2" "w_sent w' = w_sent w"
    and seal: "seal_operation (audit_seal_env env) (?f r) (update_operation u ?f (w_db w\<lparr>artifacts := artifacts (w_db w) @ [a]\<rparr>)) = Inr (d2, s)"
    by blast
  have "select_operation u (update_operation u ?f (w_db w\<lparr>artifacts := artifacts (w_db w) @ [a]\<rparr>)) = Some (?f r)"
    using assms(3) by (simp add: select_update_same) (simp add: select_operation_def)
  with sealed_status [OF seal] id w' show "\<exists>r'. select_operation u (w_db w') = Some r' \<and> op_status r' = COMPLETED
      \<and> op_completed_at r' = Some (we_now env) \<and> op_chain_hash r' \<noteq> None" by auto
  show "findings (w_db w') = findings (w_db w)" using seal_operation_tables(1) [OF seal] w' by simp
  show "w_sent w' = w_sent w" using w' by simp
qed

lemma insert_findings_tables:
  "insert_all insert_finding rs d = Inr d' \<Longrightarrow> d' = d\<lparr>findings := findings d @ rs\<rparr>"
proof (induction rs arbitrary: d)
  case (Cons r rs)
  from Cons.prems obtain d1 where d1: "insert_finding r d = Inr d1" "insert_all insert_finding rs d1 = Inr d'"
    by (auto simp: res_simps)
  then have "d1 = d\<lparr>findings := findings d @ [r]\<rparr>" by (auto simp: insert_finding_def split: if_splits)
  with Cons.IH [OF d1(2)] show ?case by simp
qed simp

text \<open>The operation \<open>u\<close> is sanitized, and a re-scan of its text finds \<open>fs\<close>.\<close>

definition residual :: "worker_env \<Rightarrow> string \<Rightarrow> uuid \<Rightarrow> finding_data list \<Rightarrow> db \<Rightarrow> bool" where
  "residual env oid u fs d \<longleftrightarrow> uuid_of_str oid = Inr u \<and> fs \<noteq> []
     \<and> (\<exists>r t. select_operation u d = Some r \<and> op_sanitized_text r = Some t \<and> t \<noteq> []
            \<and> scan_findings env (JObj []) t = Inr fs)
     \<and> (\<forall>f \<in> set (findings_of u d). \<not> is_post f)"

lemma rescan_result:
  assumes "rescan_operation env oid w = (w', Inr ())" and "residual env oid u fs (w_db w)"
    and "select_operation u (w_db w) = Some r"
  shows "findings (w_db w') = findings (w_db w) @ finding_rows (we_ids env) u (map mark_post fs)"
    and "\<exists>r'. select_operation u (w_db w') = Some r' \<and> op_status r' = (if overridable (op_status r) then ESCALATED else op_status r)"
    and "artifacts (w_db w') = artifacts (w_db w)" and "w_sent w' = w_sent w @ [(''safecontext_review'', oid)]"
proof -
  from assms(2,3) obtain t where t: "op_sanitized_text r = Some t" "t \<noteq> []" "scan_findings env (JObj []) t = Inr fs"
    and u: "uuid_of_str oid = Inr u" and fs: "fs \<noteq> []" and np: "\<not> (\<exists>f \<in> set (findings_of u (w_db w)). is_post f)"
    by (auto simp: residual_def)
  have id: "op_id r = u" using select_operation_SomeD [OF assms(3)] by simp
  let ?rows = "finding_rows (we_ids env) u (map mark_post fs)"
  have run: "rescan_operation env oid w = rescan_found env oid r fs w"
    using t u fs np assms(3) by (simp add: rescan_operation_def)
  obtain d1 where ins: "insert_all insert_finding ?rows (w_db w) = Inr d1"
    using run assms(1) id
    by (cases "insert_all insert_finding ?rows (w_db w)")
      (auto simp: rescan_found_def Let_def send_msg_def split: if_splits)
  note d1 = insert_findings_tables [OF ins]
  have res: "w_db w' = (if overridable (op_status r) then update_operation u (\<lambda>x. x\<lparr>op_status := ESCALATED\<rparr>) d1 else d1)
      \<and> w_sent w' = w_sent w @ [(''safecontext_review'', oid)]"
    using run assms(1) id ins
    by (auto simp: rescan_found_def Let_def send_msg_def task_inc_def split: if_splits)
  show "findings (w_db w') = findings (w_db w) @ ?rows" "artifacts (w_db w') = artifacts (w_db w)"
    "w_sent w' = w_sent w @ [(''safecontext_review'', oid)]"
    using res d1 by auto
  have "select_operation u d1 = Some r" using assms(3) d1 by (simp add: select_operation_def)
  then show "\<exists>r'. select_operation u (w_db w') = Some r' \<and> op_status r' = (if overridable (op_status r) then ESCALATED else op_status r)"
    using res by (auto simp: select_update_same)
qed

lemma rows_post: "f \<in> set (finding_rows ids u (map mark_post fs)) \<Longrightarrow> is_post f"
proof (induction fs arbitrary: ids)
  case (Cons g fs)
  have "explanation (finding_row i u x) = explanation x" for i x by (simp add: finding_row_def finding_data.defs)
  moreover have "map_of (filter (\<lambda>kv. fst kv \<noteq> k) xs @ [(k, v)]) k = Some v" for k v and xs :: "(string \<times> json) list"
    by (induction xs) auto
  ultimately show ?case using Cons by (auto simp: is_post_def mark_post_def)
qed simp

lemma post_in_rows: "fs \<noteq> [] \<Longrightarrow> \<exists>f \<in> set (finding_rows ids u (map mark_post fs)). is_post f \<and> fd_operation_id f = u"
  using rows_post [of _ ids u fs] by (cases fs) fastforce+

lemma audit_keeps_residual:
  assumes "process_audit enva oid w = (v1, Inr ())" and "residual envr oid u fs (w_db w)"
    and "\<forall>a \<in> set (artifacts_of u (w_db w)). ar_type a \<noteq> ''original''"
  shows "residual envr oid u fs (w_db v1)"
proof -
  from assms(2) obtain r t where r: "select_operation u (w_db w) = Some r" "op_sanitized_text r = Some t"
    and u: "uuid_of_str oid = Inr u"
    by (auto simp: residual_def)
  have id: "op_id r = u" using select_operation_SomeD [OF r(1)] by simp
  let ?f = "\<lambda>x. x\<lparr>op_status := COMPLETED, op_completed_at := Some (we_now enva)\<rparr> :: operation"
  from process_audit_result [OF assms(1) u r(1) assms(3)] obtain a d2 s where w': "w_db v1 = d2"
    and seal: "seal_operation (audit_seal_env enva) (?f r) (update_operation u ?f (w_db w\<lparr>artifacts := artifacts (w_db w) @ [a]\<rparr>)) = Inr (d2, s)"
    by blast
  have "select_operation u (update_operation u ?f (w_db w\<lparr>artifacts := artifacts (w_db w) @ [a]\<rparr>)) = Some (?f r)"
    using r(1) by (simp add: select_update_same) (simp add: select_operation_def)
  then have "\<exists>r'. select_operation u d2 = Some r' \<and> op_sanitized_text r' = Some t"
    using sealed_status [OF seal] id r(2) by auto
  moreover have "findings_of u d2 = findings_of u (w_db w)"
    using seal_operation_tables(1) [OF seal] by (simp add: findings_of_def)
  ultimately show ?thesis using assms(2) r w' by (auto simp: residual_def)
qed

text \<open>
  C29: audit and re-scan race. The sanitizer queues both tasks, and their order decides the fate
  of an operation whose sanitized text still contains findings: if the audit runs last, it
  overwrites the escalation with \<open>completed\<close> and the review is lost, although the residual
  findings are stored; if the re-scan runs last, the operation ends escalated.
\<close>
theorem audit_rescan_order_matters:
  assumes "residual envr oid u fs (w_db w)" and "select_operation u (w_db w) = Some r" and "op_status r = PENDING"
    and "\<forall>a \<in> set (artifacts_of u (w_db w)). ar_type a \<noteq> ''original''"
    and "rescan_operation envr oid w = (w1, Inr ())" and "process_audit enva oid w1 = (w2, Inr ())"
    and "process_audit enva oid w = (v1, Inr ())" and "rescan_operation envr oid v1 = (v2, Inr ())"
  shows "(\<exists>x. select_operation u (w_db w2) = Some x \<and> op_status x = COMPLETED)
    \<and> (\<exists>f \<in> set (findings_of u (w_db w2)). is_post f)
    \<and> (\<exists>x. select_operation u (w_db v2) = Some x \<and> op_status x = ESCALATED)
    \<and> (\<exists>f \<in> set (findings_of u (w_db v2)). is_post f)"
proof -
  have u: "uuid_of_str oid = Inr u" and fs: "fs \<noteq> []" using assms(1) by (auto simp: residual_def)
  note r1 = rescan_result [OF assms(5,1,2)]
  obtain x1 where x1: "select_operation u (w_db w1) = Some x1" using r1(2) by blast
  have na: "\<forall>a \<in> set (artifacts_of u (w_db w1)). ar_type a \<noteq> ''original''"
    using assms(4) r1(3) by (simp add: artifacts_of_def)
  note a1 = audit_completes [OF assms(6) u x1 na]
  note a2 = audit_completes [OF assms(7) u assms(2,4)]
  obtain x2 where x2: "select_operation u (w_db v1) = Some x2" "op_status x2 = COMPLETED" using a2(1) by blast
  note r2 = rescan_result [OF assms(8) audit_keeps_residual [OF assms(7,1,4)] x2(1)]
  have "\<exists>f \<in> set (findings_of u (w_db w2)). is_post f"
    using post_in_rows [OF fs, of "we_ids envr" u] a1(2) r1(1) by (auto simp: findings_of_def)
  moreover have "\<exists>f \<in> set (findings_of u (w_db v2)). is_post f"
    using post_in_rows [OF fs, of "we_ids envr" u] r2(1) by (auto simp: findings_of_def)
  moreover have "\<exists>x. select_operation u (w_db v2) = Some x \<and> op_status x = ESCALATED"
    using r2(2) x2(2) by (auto simp: overridable_def)
  ultimately show ?thesis using a1(1) by blast
qed

text \<open>
  C9: the audit archives the original. When the auditor succeeds on an operation without an
  original artifact, the object store returns the UTF-8 text of the document under the key
  \<open>artifacts/<operation>/original\<close>, one new locked artifact row carries its digest, the operation is
  completed and sealed, and a second delivery is skipped without a change.
\<close>
theorem audit_archives_original:
  assumes "process_audit env oid w = (w', Inr ())" and "uuid_of_str oid = Inr u"
    and "select_operation u (w_db w) = Some r" and "\<forall>a \<in> set (artifacts_of u (w_db w)). ar_type a \<noteq> ''original''"
  shows "\<exists>t data a r'. outbox_text ''AttributeError'' oid (w_db w) = Inr t \<and> utf8_encode t = Inr data
    \<and> s3_get (original_key oid) w' = Inr data
    \<and> artifacts_of u (w_db w') = artifacts_of u (w_db w) @ [a]
    \<and> ar_digest a = se_sha (we_seal env) data \<and> ar_worm_locked a \<and> ar_minio_key a = original_key oid
    \<and> select_operation u (w_db w') = Some r' \<and> op_status r' = COMPLETED \<and> op_chain_hash r' \<noteq> None
    \<and> process_audit env2 oid w' = (task_inc ''auditor'' ''skipped'' w', Inr ())"
proof -
  note c = audit_completes [OF assms]
  from process_audit_result [OF assms] obtain t data d2 a s where
    t: "outbox_text ''AttributeError'' oid (w_db w) = Inr t" "utf8_encode t = Inr data"
      "s3_get (original_key oid) w' = Inr data"
    and w': "w_db w' = d2" and a: "ar_digest a = se_sha (we_seal env) data" "ar_type a = ''original''" "ar_worm_locked a"
      "ar_operation_id a = u" "ar_minio_key a = original_key oid"
    and seal: "seal_operation (audit_seal_env env) (r\<lparr>op_status := COMPLETED, op_completed_at := Some (we_now env)\<rparr>)
        (update_operation u (\<lambda>x. x\<lparr>op_status := COMPLETED, op_completed_at := Some (we_now env)\<rparr>)
          (w_db w\<lparr>artifacts := artifacts (w_db w) @ [a]\<rparr>)) = Inr (d2, s)"
    by (elim exE conjE) (rule that)
  have art: "artifacts_of u (w_db w') = artifacts_of u (w_db w) @ [a]"
    using seal_operation_tables(2) [OF seal] w' a by (simp add: artifacts_of_def)
  moreover have "process_audit env2 oid w' = (task_inc ''auditor'' ''skipped'' w', Inr ())"
    using assms(2) art a(2) by (simp add: process_audit_def)
  ultimately show ?thesis using c(1) t a by blast
qed

section \<open>Classification\<close>

datatype level = PUBLIC | INTERNAL | CONFIDENTIAL | RESTRICTED

text \<open>Levels are ordered by sensitivity.\<close>

fun level_rank :: "level \<Rightarrow> nat" where
  "level_rank PUBLIC = 0"
| "level_rank INTERNAL = 1"
| "level_rank CONFIDENTIAL = 2"
| "level_rank RESTRICTED = 3"

instantiation level :: linorder
begin

definition less_eq_level :: "level \<Rightarrow> level \<Rightarrow> bool" where
  "less_eq_level a b \<longleftrightarrow> level_rank a \<le> level_rank b"

definition less_level :: "level \<Rightarrow> level \<Rightarrow> bool" where
  "less_level a b \<longleftrightarrow> level_rank a < level_rank b"

instance
proof
  fix a b c :: level
  show "(a < b) = (a \<le> b \<and> \<not> b \<le> a)" by (auto simp: less_level_def less_eq_level_def)
  show "a \<le> a" by (simp add: less_eq_level_def)
  show "a \<le> b \<Longrightarrow> b \<le> c \<Longrightarrow> a \<le> c" by (simp add: less_eq_level_def)
  show "a \<le> b \<Longrightarrow> b \<le> a \<Longrightarrow> a = b" by (cases a; cases b) (simp_all add: less_eq_level_def)
  show "a \<le> b \<or> b \<le> a" by (auto simp: less_eq_level_def)
qed

end

fun level_str :: "level \<Rightarrow> string" where
  "level_str PUBLIC = ''public''"
| "level_str INTERNAL = ''internal''"
| "level_str CONFIDENTIAL = ''confidential''"
| "level_str RESTRICTED = ''restricted''"

definition level_of :: "string \<Rightarrow> level" where
  "level_of s = (if s = ''critical'' then RESTRICTED else if s = ''high'' then CONFIDENTIAL
     else if s = ''medium'' then INTERNAL else PUBLIC)"

lemma level_table: "dict_get severity_to_level s ''public'' = level_str (level_of s)"
  by (simp add: severity_to_level_def level_of_def)

lemma max_first_in: "max_first k x ys \<in> set (x # ys)"
  by (induction ys arbitrary: x) fastforce+

lemma max_first_ge: "k x \<le> k (max_first k x ys) \<and> (\<forall>y \<in> set ys. k y \<le> k (max_first k x ys))"
proof (induction ys arbitrary: x)
  case (Cons z ys)
  have "k x \<le> k (if k x < k z then z else x)" "k z \<le> k (if k x < k z then z else x)" by simp_all
  with Cons [of "if k x < k z then z else x"] show ?case
    by (auto simp del: if_split)
qed simp

lemma rank_level_rank: "s \<in> set severities \<Longrightarrow> severity_rank s = Suc (level_rank (level_of s))"
proof -
  have "\<forall>s \<in> set severities. severity_rank s = Suc (level_rank (level_of s))"
    unfolding severities_def list.set ball_simps by (simp add: severity_rank_def level_of_def)
  then show "s \<in> set severities \<Longrightarrow> severity_rank s = Suc (level_rank (level_of s))" by blast
qed

lemma rank_level: "s \<in> set severities \<Longrightarrow> t \<in> set severities \<Longrightarrow> severity_rank s \<le> severity_rank t \<Longrightarrow> level_of s \<le> level_of t"
  by (simp add: rank_level_rank less_eq_level_def)

text \<open>
  the classifier assigns the most sensitive level of the findings, in the order public,
  internal, confidential, restricted, and public when there is none.
\<close>
theorem classification_is_maximum:
  assumes "\<forall>f \<in> set fs. severity f \<in> set severities"
  shows "classification_level fs = level_str (Max (insert PUBLIC (level_of ` severity ` set fs)))"
proof (cases "counter_keys (map severity fs)")
  case Nil
  then have "fs = []" by (simp add: counter_keys_def)
  then show ?thesis by (simp add: classification_level_def highest_severity_def counter_keys_def severity_to_level_def)
next
  case (Cons s ss)
  have keys: "set (s # ss) = severity ` set fs" using Cons [symmetric] by (simp add: counter_keys_def)
  let ?m = "max_first severity_rank s ss"
  have m: "?m \<in> severity ` set fs" using max_first_in [of severity_rank s ss] unfolding keys .
  have "level_of x \<le> level_of ?m" if "x \<in> severity ` set fs" for x
  proof (rule rank_level)
    show "x \<in> set severities" "?m \<in> set severities" using that m assms by auto
    have "x \<in> set (s # ss)" using that keys by blast
    then show "severity_rank x \<le> severity_rank ?m"
      using max_first_ge [of severity_rank s ss] by auto
  qed
  moreover have "PUBLIC \<le> l" for l by (simp add: less_eq_level_def)
  ultimately have "Max (insert PUBLIC (level_of ` severity ` set fs)) = level_of ?m"
    using m by (intro Max_eqI) auto
  then show ?thesis using Cons by (simp add: classification_level_def highest_severity_def level_table)
qed

section \<open>Witnesses\<close>

definition sample_oid :: string where
  "sample_oid = ''00000000-0000-0000-0000-000000000001''"

lemma sample_oid: "uuid_of_str sample_oid = Inr 1"
  by code_simp

definition sample_worker :: "bool \<Rightarrow> worker_env" where
  "sample_worker fails = \<lparr>we_presidio = \<lparr>analyze = (\<lambda>t ents th. Inr []), float_of_str = (\<lambda>s. Inl (PyExc ''ValueError'')),
       pe_ucd = ascii_ucd, debug_enabled = False\<rparr>,
     we_threshold = 1 / 2, we_opa = opa_init, we_post = (\<lambda>p j. Inl (PyExc ''ConnectError'')),
     we_ids = (\<lambda>k. word_of_nat (100 + k)), we_now = 50, we_seal = no_vault, we_sign = False,
     we_put = (\<lambda>k b. Inr ()), we_send_fails = fails\<rparr>"

definition sample_outbox :: "doc \<Rightarrow> outbox" where
  "sample_outbox t = \<lparr>ob_id = 5, ob_event_type = ''scan_requested'',
     ob_payload = [(''operation_id'', jstr sample_oid), (''document_text'', JStr t)],
     ob_processed = False, ob_created_at = 1\<rparr>"

definition sample_world :: "doc \<Rightarrow> operation \<Rightarrow> world" where
  "sample_world t r = \<lparr>w_db = (db_with [r])\<lparr>outbox_rows := [sample_outbox t]\<rparr>, w_objects = [], w_sent = [],
     w_tasks = [], w_findings_metric = [], w_classified = []\<rparr>"

definition pending_op :: operation where
  "pending_op = (sample_op 1 10)\<lparr>op_status := PENDING, op_completed_at := None\<rparr>"

lemma pending_op_simps [simp]: "op_id pending_op = 1" "op_status pending_op = PENDING" "op_sanitized_text pending_op = None"
  by (simp_all add: pending_op_def sample_op_def)

lemma sample_awaits: "awaits_scan sample_oid 1 (sample_outbox t) t (w_db (sample_world t pending_op))"
  by (simp add: awaits_scan_def sample_oid sample_world_def select_operation_def outbox_for_def
      payload_is_for_def sample_outbox_def jstr_def)

lemma sample_presidio: "presidio_detect (we_presidio (sample_worker b)) t (base_policy (sample_worker b)) = Inr []"
  by (simp add: sample_worker_def base_policy_def get_policy_def opa_init_def default_policy_def presidio_detect_def)

lemma sample_no_findings: "findings_of 1 (w_db (sample_world t pending_op)) = []"
  by (simp add: sample_world_def findings_of_def db_with_def empty_db_def)

lemma sample_fresh: "fresh_rows (we_ids (sample_worker b)) 1 (w_db (sample_world t pending_op))"
  by (simp add: fresh_rows_def fd_ids_def sample_world_def db_with_def empty_db_def inj_on_def)

lemma sample_opa_down: "opa_down (sample_worker b)"
  by (simp add: opa_down_def opa_evaluate_def sample_worker_def)

definition amqp_doc :: doc where
  "amqp_doc = lit ''amqp://a''"

definition api_doc :: doc where
  "api_doc = lit ''API_SECRET=x''"

lemma amqp_findings:
  obtains f where "merge_findings (regex_detect ascii_ucd amqp_doc) [] = [f]"
    and "finding_key f = (''regex_connection_string'', 0, 8)"
proof -
  have "map finding_key (regex_detect ascii_ucd amqp_doc) = [(''regex_connection_string'', 0, 8)]"
    by (simp add: regex_eval finding_key_def amqp_doc_def)
  then obtain f where "regex_detect ascii_ucd amqp_doc = [f]" "finding_key f = (''regex_connection_string'', 0, 8)"
    by (auto simp: map_eq_Cons_conv)
  then show ?thesis using that [of f] by (simp add: merge_findings_def sorted_by_def)
qed

lemma api_findings:
  obtains f where "merge_findings (regex_detect ascii_ucd api_doc) [] = [f]"
    and "finding_key f = (''regex_env_secret_assignment'', 0, 12)" and "severity f = ''high''"
proof -
  have "map finding_key (regex_detect ascii_ucd api_doc) = [(''regex_env_secret_assignment'', 0, 12)]"
    "map severity (regex_detect ascii_ucd api_doc) = [''high'']"
    by (simp_all add: regex_eval finding_key_def api_doc_def)
  then obtain f where "regex_detect ascii_ucd api_doc = [f]" "finding_key f = (''regex_env_secret_assignment'', 0, 12)"
    "severity f = ''high''"
    by (auto simp: map_eq_Cons_conv)
  then show ?thesis using that [of f] by (simp add: merge_findings_def sorted_by_def)
qed

lemma sample_ucd: "pe_ucd (we_presidio (sample_worker b)) = ascii_ucd"
  by (simp add: sample_worker_def)

lemma sample_sends: "\<not> we_send_fails (sample_worker False)" "we_send_fails (sample_worker True)"
  by (simp_all add: sample_worker_def)

lemma one_fresh:
  assumes "merge_findings (regex_detect ascii_ucd t) [] = [f]"
  shows "fresh_rows (we_ids (sample_worker b))
    (length (merge_findings (regex_detect (pe_ucd (we_presidio (sample_worker b))) t) [])) (w_db (sample_world t pending_op))"
  unfolding sample_ucd assms using sample_fresh by simp

lemma scan_first_delivery_witness:
  "\<exists>w' f r. process_scan (sample_worker False) sample_oid (sample_world amqp_doc pending_op) = (w', Inr ())
    \<and> findings_of 1 (w_db w') = [finding_row (word_of_nat 100) 1 f] \<and> select_operation 1 (w_db w') = Some r"
proof (rule amqp_findings)
  fix f assume m: "merge_findings (regex_detect ascii_ucd amqp_doc) [] = [f]"
  have "we_ids (sample_worker False) 0 = word_of_nat 100" by (simp add: sample_worker_def)
  with scan_first_delivery [OF sample_awaits sample_presidio _ _ sample_no_findings one_fresh [OF m] sample_sends(1)]
  show ?thesis unfolding sample_ucd m by fastforce
qed

lemma opa_down_secret_is_reviewed_witness:
  "\<exists>w' r. process_scan (sample_worker False) sample_oid (sample_world amqp_doc pending_op) = (w', Inr ())
    \<and> select_operation 1 (w_db w') = Some r \<and> op_status r = ESCALATED \<and> w_sent w' = [(''safecontext_review'', sample_oid)]"
proof (rule amqp_findings)
  fix f assume m: "merge_findings (regex_detect ascii_ucd amqp_doc) [] = [f]"
  have "8 \<in> set (ends ascii_ucd rx_connection_string amqp_doc 0)" by (simp add: regex_eval amqp_doc_def)
  then have "rx_match (pe_ucd (we_presidio (sample_worker False))) amqp_doc rx_connection_string 0 8"
    unfolding sample_ucd by (subst ends_match [symmetric]) simp_all
  from opa_down_secret_is_reviewed [OF sample_opa_down sample_awaits sample_presidio _ _ sample_no_findings
      one_fresh [OF m] sample_sends(1) this]
  show ?thesis by (auto simp: sample_world_def)
qed

lemma scan_redelivery_fails_witness:
  "\<exists>w1. process_scan (sample_worker True) sample_oid (sample_world api_doc pending_op) = (w1, Inl send_error) \<and>
    (\<forall>ids. \<exists>w2. process_scan ((sample_worker True)\<lparr>we_ids := ids, we_send_fails := False\<rparr>) sample_oid w1 = (w2, Inl integrity_error))"
proof (rule api_findings)
  fix f assume m: "merge_findings (regex_detect ascii_ucd api_doc) [] = [f]" and s: "severity f = ''high''"
  have r: "\<not> requires_review (sample_worker True) [f]"
    using s by (simp add: opa_down_review [OF sample_opa_down])
  from scan_redelivery_fails [OF sample_awaits sample_presidio _ _ sample_no_findings one_fresh [OF m] sample_sends(2), of "[f]"] r
  show ?thesis unfolding sample_ucd m by fastforce
qed

definition sanitizable_world :: world where
  "sanitizable_world = (sample_world (lit ''abcdef'') pending_op)\<lparr>w_db :=
     (w_db (sample_world (lit ''abcdef'') pending_op))\<lparr>findings := [sample_finding 20 1 5]\<rparr>\<rparr>"

lemma sample_finding_op [simp]: "fd_operation_id (sample_finding i s e) = 1"
  by (simp add: sample_finding_def)

lemma sanitizable_wf: "wf_db (w_db sanitizable_world)"
  by (simp add: wf_db_def sanitizable_world_def sample_world_def db_with_def empty_db_def sample_tenant_def
      finding_ok_def op_ids_def sample_finding_def severities_def)

lemma sanitize_delivery_witness:
  "\<exists>w' r'. process_sanitize (sample_worker False) sample_oid sanitizable_world = (w', Inr ())
    \<and> select_operation 1 (w_db w') = Some r' \<and> op_sanitized_text r' = Some (lit ''a'' @ redacted @ lit ''f'')
    \<and> process_sanitize (sample_worker False) sample_oid w' = (task_inc ''sanitizer'' ''skipped'' w', Inr ())"
proof -
  let ?f = "sample_finding 20 1 5"
  have fs: "findings_of 1 (w_db sanitizable_world) = [?f]"
    by (simp add: sanitizable_world_def findings_of_def)
  have sel: "select_operation 1 (w_db sanitizable_world) = Some pending_op"
    by (simp add: sanitizable_world_def sample_world_def select_operation_def)
  have red: "redactions_of 1 (w_db sanitizable_world) = []"
    by (simp add: sanitizable_world_def sample_world_def redactions_of_def db_with_def empty_db_def)
  have tx: "outbox_text ''TypeError'' sample_oid (w_db sanitizable_world) = Inr (lit ''abcdef'')"
    by (simp add: sanitizable_world_def sample_world_def outbox_text_def outbox_for_def payload_is_for_def
        sample_outbox_def jstr_def payload_str_def)
  have fr: "fresh_redactions (we_ids (sample_worker False)) (length (findings_of 1 (w_db sanitizable_world))) (w_db sanitizable_world)"
    unfolding fs by (simp add: fresh_redactions_def sanitizable_world_def sample_world_def db_with_def empty_db_def inj_on_def)
  have "apply_redactions (lit ''abcdef'') [?f] (redaction_map_of [?f]) = lit ''a'' @ redacted @ lit ''f''"
    by (simp add: apply_redactions_def redaction_map_of_marker sorted_by_desc_def slice_assign_def)
  with sanitize_delivery [OF sample_oid sanitizable_wf sel red tx fr sample_sends(1) fs [symmetric], of "sample_worker False"]
  show ?thesis by fastforce
qed

lemma audit_returns:
  assumes "uuid_of_str oid = Inr u" and "select_operation u (w_db w) = Some r"
    and "artifacts (w_db w) = []" and "rbind (outbox_text ''AttributeError'' oid (w_db w)) utf8_encode = Inr data"
  shows "\<exists>w'. process_audit (sample_worker b) oid w = (w', Inr ())"
proof -
  have u: "op_id r = u" "r \<in> set (operations (w_db w))" using select_operation_SomeD [OF assms(2)] by simp_all
  then have ins: "u \<in> op_ids (w_db w)" by (auto simp: op_ids_def)
  have cfg: "se_cfg (audit_seal_env (sample_worker b)) = \<lparr>vc_addr = None, vc_token = None, vc_key = None\<rparr>"
    by (simp add: audit_seal_env_def sample_worker_def)
  have "\<exists>d2. audit_tables (sample_worker b) oid r dg (w_db w) = Inr d2" for dg
  proof -
    let ?a = "\<lparr>ar_id = we_ids (sample_worker b) 0, ar_operation_id = op_id r, ar_type = ''original'',
               ar_minio_key = original_key oid, ar_digest = dg, ar_worm_locked = True, ar_created_at = we_now (sample_worker b)\<rparr>"
    let ?done = "\<lambda>x. x\<lparr>op_status := COMPLETED, op_completed_at := Some (we_now (sample_worker b))\<rparr> :: operation"
    have "insert_artifact ?a (w_db w) = Inr (w_db w\<lparr>artifacts := artifacts (w_db w) @ [?a]\<rparr>)"
      using assms(3) u ins by (simp add: insert_artifact_def artifact_ok_def artifact_types_def)
    moreover obtain d2 s where "seal_operation (audit_seal_env (sample_worker b)) (?done r)
        (update_operation (op_id r) ?done (w_db w\<lparr>artifacts := artifacts (w_db w) @ [?a]\<rparr>)) = Inr (d2, s)"
      using seal_no_vault [OF cfg] by blast
    ultimately show ?thesis by (simp add: audit_tables_def Let_def)
  qed
  moreover have "s3_put (sample_worker b) (original_key oid) data w =
      Inr (w\<lparr>w_objects := (original_key oid, data) # w_objects w\<rparr>, se_sha (we_seal (sample_worker b)) data)"
    by (simp add: s3_put_def sample_worker_def)
  ultimately obtain d2 where "audit_tables (sample_worker b) oid r (se_sha (we_seal (sample_worker b)) data) (w_db w) = Inr d2"
    "s3_put (sample_worker b) (original_key oid) data w =
      Inr (w\<lparr>w_objects := (original_key oid, data) # w_objects w\<rparr>, se_sha (we_seal (sample_worker b)) data)" by blast
  then show ?thesis using assms by (simp add: process_audit_def artifacts_of_def commit_def)
qed

lemma rescan_outbox:
  assumes "rescan_operation env oid w = (w', Inr ())"
  shows "outbox_rows (w_db w') = outbox_rows (w_db w)"
proof -
  have ins: "outbox_rows d1 = outbox_rows d" if "insert_all insert_finding rs d = Inr d1" for rs d d1
    using insert_findings_tables [OF that] by simp
  have up: "outbox_rows (update_operation u g d) = outbox_rows d" for u g d by (simp add: update_operation_def)
  have found: "outbox_rows (w_db w') = outbox_rows (w_db w)" if "rescan_found env oid r fs w = (w', Inr ())" for r fs
    using that
    by (cases "insert_all insert_finding (finding_rows (we_ids env) (op_id r) (map mark_post fs)) (w_db w)")
      (auto simp: rescan_found_def Let_def send_msg_def commit_def task_inc_def up dest!: ins split: if_splits)
  show ?thesis using assms
    by (auto simp: rescan_operation_def commit_def task_inc_def up found split: sum.splits option.splits if_splits)
qed

definition sanitized_op :: operation where
  "sanitized_op = pending_op\<lparr>op_sanitized_text := Some amqp_doc\<rparr>"

lemma sanitized_op_simps [simp]: "op_id sanitized_op = 1" "op_status sanitized_op = PENDING"
    "op_sanitized_text sanitized_op = Some amqp_doc"
  by (simp_all add: sanitized_op_def)

lemma sanitized_world:
  "select_operation 1 (w_db (sample_world t sanitized_op)) = Some sanitized_op"
  "artifacts (w_db (sample_world t sanitized_op)) = []" "findings (w_db (sample_world t sanitized_op)) = []"
  "outbox_text e sample_oid (w_db (sample_world t sanitized_op)) = Inr t"
  by (simp_all add: sample_world_def select_operation_def db_with_def empty_db_def outbox_text_def outbox_for_def
      payload_is_for_def sample_outbox_def jstr_def payload_str_def)

lemma audit_archives_original_witness:
  "\<exists>w' a. process_audit (sample_worker False) sample_oid (sample_world (lit ''hi'') sanitized_op) = (w', Inr ())
    \<and> s3_get (original_key sample_oid) w' = Inr [104, 105] \<and> artifacts_of 1 (w_db w') = [a]
    \<and> ar_digest a = sha256 [104, 105]"
proof -
  let ?w = "sample_world (lit ''hi'') sanitized_op"
  have e: "utf8_encode [104, 105] = Inr [104, 105]" by (simp add: utf8_encode_def utf8_char_def is_surrogate_def)
  have t: "rbind (outbox_text ''AttributeError'' sample_oid (w_db ?w)) utf8_encode = Inr [104, 105]"
    unfolding sanitized_world(4) by (simp add: e)
  obtain w' where w': "process_audit (sample_worker False) sample_oid ?w = (w', Inr ())"
    using audit_returns [OF sample_oid sanitized_world(1,2) t] by blast
  have a: "artifacts_of 1 (w_db ?w) = []" by (simp add: artifacts_of_def sanitized_world)
  have sh: "se_sha (we_seal (sample_worker False)) = sha256" by (simp add: sample_worker_def no_vault_def)
  obtain tx data x where x: "outbox_text ''AttributeError'' sample_oid (w_db ?w) = Inr tx" "utf8_encode tx = Inr data"
      "s3_get (original_key sample_oid) w' = Inr data" "artifacts_of 1 (w_db w') = artifacts_of 1 (w_db ?w) @ [x]"
      "ar_digest x = se_sha (we_seal (sample_worker False)) data"
    using audit_archives_original [OF w' sample_oid sanitized_world(1)] a by fastforce
  have "data = [104, 105]" using x(1,2) e unfolding sanitized_world(4) by simp
  with x(3-5) w' a sh show ?thesis by simp
qed

lemma rescan_returns:
  assumes "residual env oid u [f] (w_db w)" and "select_operation u (w_db w) = Some r"
    and "findings (w_db w) = []" and "report_wf t' f" and "\<not> we_send_fails env"
  shows "\<exists>w'. rescan_operation env oid w = (w', Inr ())"
proof -
  from assms(1,2) obtain t where t: "op_sanitized_text r = Some t" "t \<noteq> []" "scan_findings env (JObj []) t = Inr [f]"
    and u: "uuid_of_str oid = Inr u" and np: "\<not> (\<exists>f \<in> set (findings_of u (w_db w)). is_post f)"
    by (auto simp: residual_def)
  have id: "op_id r = u" "u \<in> op_ids (w_db w)" using select_operation_SomeD [OF assms(2)] by (auto simp: op_ids_def)
  have run: "rescan_operation env oid w = rescan_found env oid r [f] w"
    using t u np assms(2) by (simp add: rescan_operation_def)
  have "\<exists>d1. insert_all insert_finding (finding_rows (we_ids env) u (map mark_post [f])) (w_db w) = Inr d1"
  proof (rule exI, rule insert_rows_ok [OF id(2)])
    show "\<forall>g \<in> set (map mark_post [f]). report_wf t' g"
      using assms(4) by (simp add: report_wf_def span_wf_def mark_post_def)
  qed (simp_all add: assms(3) fd_ids_def inj_on_def)
  then show ?thesis unfolding run using assms(5) id(1)
    by (auto simp: rescan_found_def Let_def send_msg_def)
qed

lemma amqp_scan:
  assumes "merge_findings (regex_detect ascii_ucd amqp_doc) [] = [f]"
  shows "scan_findings (sample_worker b) (JObj []) amqp_doc = Inr [f]"
proof -
  have "presidio_detect (we_presidio (sample_worker b)) amqp_doc (JObj []) = Inr []"
    by (simp add: sample_worker_def presidio_detect_def)
  then show ?thesis by (simp add: scan_findings_def sample_ucd assms)
qed

lemma audit_rescan_order_matters_witness:
  "\<exists>w1 w2 v1 v2 x y. rescan_operation (sample_worker False) sample_oid (sample_world amqp_doc sanitized_op) = (w1, Inr ())
    \<and> process_audit (sample_worker False) sample_oid w1 = (w2, Inr ())
    \<and> process_audit (sample_worker False) sample_oid (sample_world amqp_doc sanitized_op) = (v1, Inr ())
    \<and> rescan_operation (sample_worker False) sample_oid v1 = (v2, Inr ())
    \<and> select_operation 1 (w_db w2) = Some x \<and> op_status x = COMPLETED
    \<and> select_operation 1 (w_db v2) = Some y \<and> op_status y = ESCALATED"
proof (rule amqp_findings)
  let ?e = "sample_worker False" and ?w = "sample_world amqp_doc sanitized_op"
  fix f assume m: "merge_findings (regex_detect ascii_ucd amqp_doc) [] = [f]"
  then have "set (sorted_by span_start (regex_detect ascii_ucd amqp_doc)) = {f}" by (simp add: merge_findings_def del: set_sorted_by)
  then have "f \<in> set (regex_detect ascii_ucd amqp_doc)" by simp
  note wf = regex.detect_wf [OF this]
  have ne: "amqp_doc \<noteq> []" by (simp add: amqp_doc_def)
  have res: "residual ?e sample_oid 1 [f] (w_db ?w)"
    using amqp_scan [OF m] ne by (simp add: residual_def sample_oid sanitized_world findings_of_def)
  obtain data where data: "rbind (outbox_text ''AttributeError'' sample_oid (w_db ?w)) utf8_encode = Inr data"
    unfolding sanitized_world(4) by (simp add: amqp_doc_def utf8_encode_def is_surrogate_def)
  obtain v1 where v1: "process_audit ?e sample_oid ?w = (v1, Inr ())"
    using audit_returns [OF sample_oid sanitized_world(1,2) data] by blast
  obtain w1 where w1: "rescan_operation ?e sample_oid ?w = (w1, Inr ())"
    using rescan_returns [OF res sanitized_world(1,3) wf sample_sends(1)] by blast
  have na: "\<forall>a \<in> set (artifacts_of 1 (w_db ?w)). ar_type a \<noteq> ''original''"
    by (simp add: artifacts_of_def sanitized_world)
  note r1 = rescan_result [OF w1 res sanitized_world(1)]
  obtain x1 where x1: "select_operation 1 (w_db w1) = Some x1" using r1(2) by blast
  have "outbox_rows (w_db w1) = outbox_rows (w_db ?w)"
    using rescan_outbox [OF w1] .
  then have "rbind (outbox_text ''AttributeError'' sample_oid (w_db w1)) utf8_encode = Inr data"
    using data by (simp add: outbox_text_def outbox_for_def)
  then obtain w2 where w2: "process_audit ?e sample_oid w1 = (w2, Inr ())"
    using audit_returns [OF sample_oid x1] r1(3) by (auto simp: sanitized_world)
  obtain x2 where x2: "select_operation 1 (w_db v1) = Some x2"
    using audit_completes(1) [OF v1 sample_oid sanitized_world(1) na] by blast
  have "findings (w_db v1) = []"
    using audit_completes(2) [OF v1 sample_oid sanitized_world(1) na] by (simp add: sanitized_world)
  then obtain v2 where v2: "rescan_operation ?e sample_oid v1 = (v2, Inr ())"
    using rescan_returns [OF audit_keeps_residual [OF v1 res na] x2 _ wf sample_sends(1)] by blast
  show ?thesis
    using audit_rescan_order_matters [OF res sanitized_world(1) sanitized_op_simps(2) na w1 w2 v1 v2] w1 w2 v1 v2 by blast
qed

lemma classification_is_maximum_witness:
  "classification_level [sample_finding 1 0 1, sample_finding 2 3 4] =
     level_str (Max (insert PUBLIC (level_of ` severity ` {sample_finding 1 0 1, sample_finding 2 3 4})))"
  using classification_is_maximum [of "[sample_finding 1 0 1, sample_finding 2 3 4]"]
  by (simp add: sample_finding_def severities_def)

end
