(* ===== verification/Outbox_Relay.thy ===== *)
theory Outbox_Relay
  imports Workers
begin

text \<open>
  The transactional outbox (\<open>workers/core/outbox_relay.py\<close>) and the Redis broker adapters. The relay
  reads a batch of unprocessed rows, sends one message per known event and marks the row in the
  same transaction; a failed send or commit rolls every mark back while the messages stay sent.
  The relay, the inserts of the API and the deliveries to the detector form a step relation; the lemmas
  show that no processed row lacks its message, that a healthy relay sends every row it knows and drains
  the table, and when it cannot.
\<close>

section \<open>The relay\<close>

definition event_to_queue :: "(string \<times> string) list" where
  "event_to_queue =
     [(''scan_requested'', ''safecontext_scan''), (''sanitize_requested'', ''safecontext_sanitize''),
      (''classify_requested'', ''safecontext_classify''), (''audit_requested'', ''safecontext_audit''),
      (''review_requested'', ''safecontext_review''), (''document.scan_requested'', ''safecontext_scan''),
      (''document.sanitize_requested'', ''safecontext_sanitize''),
      (''document.classify_requested'', ''safecontext_classify'')]"

definition get_actor :: "string \<Rightarrow> string option" where
  "get_actor q = map_of
     [(''safecontext_scan'', ''process_scan''), (''safecontext_sanitize'', ''process_sanitize''),
      (''safecontext_classify'', ''process_classify''), (''safecontext_audit'', ''process_audit''),
      (''safecontext_review'', ''process_review'')] q"

text \<open>
  The relay's state: the database, the messages sent (actor and argument), the metrics, the cycle
  counter and the last sample of the lag gauge. Its environment in one cycle: the batch size, the
  rows another transaction has locked, the rows whose message cannot be sent, and whether the
  commit fails.
\<close>

record relay =
  rl_db :: db
  rl_sent :: "(string \<times> json) list"
  rl_errors :: nat
  rl_relayed :: "string list"
  rl_cycle :: nat
  rl_lag :: "nat option"

record relay_env =
  rv_batch :: nat
  rv_locked :: "uuid \<Rightarrow> bool"
  rv_send_fails :: "uuid \<Rightarrow> bool"
  rv_commit_fails :: bool

definition unprocessed :: "db \<Rightarrow> outbox list" where
  "unprocessed d = filter (\<lambda>r. \<not> ob_processed r) (outbox_rows d)"

definition due_events :: "relay_env \<Rightarrow> db \<Rightarrow> outbox list" where
  "due_events env d = take (rv_batch env)
     (filter (\<lambda>r. \<not> rv_locked env (ob_id r)) (sorted_by ob_created_at (unprocessed d)))"

definition relay_error :: "relay \<Rightarrow> relay" where
  "relay_error s = s\<lparr>rl_errors := Suc (rl_errors s)\<rparr>"

definition event_arg :: "outbox \<Rightarrow> json" where
  "event_arg e = dict_get (ob_payload e) ''operation_id'' (JStr [])"

definition relay_send :: "string \<Rightarrow> outbox \<Rightarrow> relay \<Rightarrow> relay" where
  "relay_send a e s = s\<lparr>rl_sent := rl_sent s @ [(a, event_arg e)], rl_relayed := rl_relayed s @ [ob_event_type e]\<rparr>"

fun relay_events :: "relay_env \<Rightarrow> outbox list \<Rightarrow> db \<Rightarrow> nat \<Rightarrow> relay \<Rightarrow> relay \<times> (db \<times> nat) result" where
  "relay_events env [] d n s = (s, Inr (d, n))"
| "relay_events env (e # es) d n s =
     (case map_of event_to_queue (ob_event_type e) of
        None \<Rightarrow> relay_events env es d n (relay_error s)
      | Some q \<Rightarrow>
          (case get_actor q of
             None \<Rightarrow> relay_events env es d n (relay_error s)
           | Some a \<Rightarrow>
               if rv_send_fails env (ob_id e) then (relay_error s, Inl send_error)
               else relay_events env es (mark_processed (ob_id e) d) (Suc n) (relay_send a e s)))"

definition commit_error :: exn where
  "commit_error = PyExc ''OperationalError''"

definition sample_lag :: "relay \<Rightarrow> relay" where
  "sample_lag s = (let s1 = s\<lparr>rl_cycle := Suc (rl_cycle s)\<rparr>
     in if rl_cycle s1 mod 10 = 0 then s1\<lparr>rl_lag := Some (length (unprocessed (rl_db s)))\<rparr> else s1)"

definition relay_once :: "relay_env \<Rightarrow> relay \<Rightarrow> relay \<times> nat result" where
  "relay_once env s =
     (case relay_events env (due_events env (rl_db s)) (rl_db s) 0 (sample_lag s) of
        (s1, Inl e) \<Rightarrow> (s1, Inl e)
      | (s1, Inr (d, n)) \<Rightarrow> if rv_commit_fails env then (s1, Inl commit_error) else (s1\<lparr>rl_db := d\<rparr>, Inr n))"

text \<open>One turn of \<open>run_relay_loop\<close>, and the loop over the environments of its turns.\<close>

definition relay_turn :: "relay_env \<Rightarrow> relay \<Rightarrow> relay" where
  "relay_turn env s = (case relay_once env s of (s1, Inl e) \<Rightarrow> relay_error s1 | (s1, Inr n) \<Rightarrow> s1)"

definition run_relay_loop :: "relay_env list \<Rightarrow> relay \<Rightarrow> relay" where
  "run_relay_loop envs s = fold relay_turn envs s"

section \<open>What one cycle does\<close>

definition actor_for :: "outbox \<Rightarrow> string option" where
  "actor_for e = (case map_of event_to_queue (ob_event_type e) of None \<Rightarrow> None | Some q \<Rightarrow> get_actor q)"

definition relayable :: "outbox \<Rightarrow> bool" where
  "relayable e \<longleftrightarrow> actor_for e \<noteq> None"

definition message :: "outbox \<Rightarrow> string \<times> json" where
  "message e = (case actor_for e of Some a \<Rightarrow> (a, event_arg e) | None \<Rightarrow> ([], JNull))"

text \<open>Every queue of the table has an actor, so an event is sendable if and only if its type is listed.\<close>

lemma queue_has_actor: "q \<in> snd ` set event_to_queue \<Longrightarrow> get_actor q \<noteq> None"
  by (auto simp: event_to_queue_def get_actor_def)

lemma relayable_iff: "relayable e \<longleftrightarrow> ob_event_type e \<in> fst ` set event_to_queue"
proof (cases "map_of event_to_queue (ob_event_type e)")
  case None
  then have "ob_event_type e \<notin> fst ` set event_to_queue" by (simp only: map_of_eq_None_iff not_False_eq_True)
  with None show ?thesis by (simp add: relayable_def actor_for_def)
next
  case (Some q)
  from map_of_SomeD [OF this] have "ob_event_type e \<in> fst ` set event_to_queue" "q \<in> snd ` set event_to_queue"
    by force+
  with Some queue_has_actor show ?thesis by (simp add: relayable_def actor_for_def)
qed

lemma relay_events_Cons:
  "relay_events env (e # es) d n s =
     (case actor_for e of
        None \<Rightarrow> relay_events env es d n (relay_error s)
      | Some a \<Rightarrow> if rv_send_fails env (ob_id e) then (relay_error s, Inl send_error)
                  else relay_events env es (mark_processed (ob_id e) d) (Suc n) (relay_send a e s))"
  by (cases "map_of event_to_queue (ob_event_type e)") (simp_all add: actor_for_def)

declare relay_events.simps(2) [simp del]
lemmas relay_simps = relay_events_Cons relay_error_def relay_send_def relayable_def message_def

definition mark_all :: "outbox list \<Rightarrow> db \<Rightarrow> db" where
  "mark_all es d = d\<lparr>outbox_rows := map (\<lambda>r. if ob_id r \<in> ob_id ` set es then r\<lparr>ob_processed := True\<rparr> else r) (outbox_rows d)\<rparr>"

lemma mark_all_Nil [simp]: "mark_all [] d = d"
  by (simp add: mark_all_def)

lemma mark_all_Cons: "mark_all (e # es) d = mark_all es (mark_processed (ob_id e) d)"
  by (auto simp: mark_all_def mark_processed_def)

text \<open>The sendable events up to the first failure are sent, in order; the rest is untouched.\<close>

definition sent_part :: "relay_env \<Rightarrow> outbox list \<Rightarrow> outbox list" where
  "sent_part env es = takeWhile (\<lambda>e. \<not> rv_send_fails env (ob_id e)) (filter relayable es)"

lemma sent_part_Cons:
  "sent_part env (e # es) =
     (if \<not> relayable e then sent_part env es else if rv_send_fails env (ob_id e) then [] else e # sent_part env es)"
  by (simp add: sent_part_def)

lemma relay_events_spec:
  "relay_events env es d n s = (s', r) \<Longrightarrow>
     rl_sent s' = rl_sent s @ map message (sent_part env es) \<and> rl_db s' = rl_db s
   \<and> (if \<exists>e \<in> set es. relayable e \<and> rv_send_fails env (ob_id e) then r = Inl send_error
      else r = Inr (mark_all (sent_part env es) d, n + length (sent_part env es)))"
proof (induction es arbitrary: d n s)
  case Nil
  then show ?case by (simp add: sent_part_def)
next
  case (Cons e es)
  show ?case
  proof (cases "actor_for e")
    case None
    with Cons.prems Cons.IH [of d n "relay_error s"] show ?thesis
      by (simp add: relay_simps sent_part_Cons)
  next
    case (Some a)
    show ?thesis
    proof (cases "rv_send_fails env (ob_id e)")
      case True
      with Some Cons.prems show ?thesis by (auto simp: relay_simps sent_part_Cons)
    next
      case False
      with Some Cons.prems Cons.IH [of "mark_processed (ob_id e) d" "Suc n" "relay_send a e s"] show ?thesis
        by (simp add: relay_simps sent_part_Cons mark_all_Cons)
    qed
  qed
qed

lemma sample_lag_same [simp]: "rl_db (sample_lag s) = rl_db s" "rl_sent (sample_lag s) = rl_sent s"
  by (simp_all add: sample_lag_def Let_def)

lemma relay_turn_spec:
  fixes s env
  defines "es \<equiv> due_events env (rl_db s)"
  defines "ok \<equiv> \<not> (\<exists>e \<in> set es. relayable e \<and> rv_send_fails env (ob_id e)) \<and> \<not> rv_commit_fails env"
  shows "rl_sent (relay_turn env s) = rl_sent s @ map message (sent_part env es)"
    and "rl_db (relay_turn env s) = (if ok then mark_all (filter relayable es) (rl_db s) else rl_db s)"
    and "ok \<Longrightarrow> relay_once env s = (relay_turn env s, Inr (length (filter relayable es)))"
proof -
  obtain s1 r where run: "relay_events env es (rl_db s) 0 (sample_lag s) = (s1, r)" by fastforce
  note sp = relay_events_spec [OF run]
  have all: "sent_part env es = filter relayable es" if ok
    using that by (auto simp: sent_part_def ok_def takeWhile_eq_all_conv)
  show "rl_sent (relay_turn env s) = rl_sent s @ map message (sent_part env es)"
    using sp run by (auto simp: relay_turn_def relay_once_def es_def relay_error_def split: sum.splits prod.splits if_splits)
  show "rl_db (relay_turn env s) = (if ok then mark_all (filter relayable es) (rl_db s) else rl_db s)"
    using sp run all by (auto simp: relay_turn_def relay_once_def ok_def es_def relay_error_def split: if_splits)
  show "relay_once env s = (relay_turn env s, Inr (length (filter relayable es)))" if ok
    using sp run all that by (auto simp: relay_turn_def relay_once_def ok_def es_def)
qed

section \<open>No processed row lacks its message\<close>

text \<open>
  The API inserts unprocessed rows while the relay runs, under any failures, and the detector handles any
  message that was sent to it, under any environment: it marks the first row of the operation itself. The
  rows that the program inserts for an operation are scan events (\<open>scan.py\<close>, \<open>mcp/router.py\<close>).
\<close>

inductive outbox_step :: "relay \<Rightarrow> relay \<Rightarrow> bool" where
  turn: "outbox_step s (relay_turn env s)"
| enqueue: "insert_outbox r (rl_db s) = Inr d \<Longrightarrow> \<not> ob_processed r \<Longrightarrow> outbox_step s (s\<lparr>rl_db := d\<rparr>)"
| detect: "(''process_scan'', JStr (lit oid)) \<in> set (rl_sent s) \<Longrightarrow> w_db w = rl_db s
    \<Longrightarrow> \<forall>ob obs. outbox_for oid (rl_db s) = ob # obs \<longrightarrow> actor_for ob = Some ''process_scan''
    \<Longrightarrow> process_scan env oid w = (w', r) \<Longrightarrow> outbox_step s (s\<lparr>rl_db := w_db w'\<rparr>)"

inductive outbox_reach :: "relay \<Rightarrow> relay \<Rightarrow> bool" for s0 where
  start: "outbox_reach s0 s0"
| step: "outbox_reach s0 s \<Longrightarrow> outbox_step s s' \<Longrightarrow> outbox_reach s0 s'"

inductive_cases outbox_stepE: "outbox_step s s'"

definition relay_inv :: "relay \<Rightarrow> bool" where
  "relay_inv s \<longleftrightarrow> distinct (map ob_id (outbox_rows (rl_db s)))
     \<and> (\<forall>r \<in> set (outbox_rows (rl_db s)). ob_processed r \<longrightarrow> relayable r \<and> message r \<in> set (rl_sent s))"

lemma due_in_rows: "e \<in> set (due_events env d) \<Longrightarrow> e \<in> set (outbox_rows d) \<and> \<not> ob_processed e"
  by (auto simp: due_events_def unprocessed_def dest: in_set_takeD)

lemma message_update [simp]:
  "message (r\<lparr>ob_processed := b\<rparr>) = message r" "relayable (r\<lparr>ob_processed := b\<rparr>) = relayable r"
  by (simp_all add: message_def relayable_def actor_for_def event_arg_def split: option.splits)

lemma relay_turn_inv [inv_intros]:
  assumes "relay_inv s"
  shows "relay_inv (relay_turn env s)"
proof -
  let ?es = "due_events env (rl_db s)" and ?d = "rl_db s"
  let ?ok = "\<not> (\<exists>e \<in> set ?es. relayable e \<and> rv_send_fails env (ob_id e)) \<and> \<not> rv_commit_fails env"
  note sp = relay_turn_spec [of env s]
  show ?thesis
  proof (cases ?ok)
    case False
    then show ?thesis using sp(1,2) assms by (auto simp: relay_inv_def)
  next
    case True
    have "sent_part env ?es = filter relayable ?es"
      using True by (auto simp: sent_part_def takeWhile_eq_all_conv)
    then have sent: "message e \<in> set (rl_sent (relay_turn env s))" if "e \<in> set ?es" "relayable e" for e
      using sp(1) that by simp
    have same: "e = r" if "e \<in> set ?es" "r \<in> set (outbox_rows ?d)" "ob_id r = ob_id e" for e r
      using due_in_rows [OF that(1)] that assms by (metis relay_inv_def distinct_map inj_onD)
    have db: "rl_db (relay_turn env s) = mark_all (filter relayable ?es) ?d" using sp(2) True by simp
    have "relayable r' \<and> message r' \<in> set (rl_sent (relay_turn env s))"
      if r': "r' \<in> set (outbox_rows (mark_all (filter relayable ?es) ?d))" "ob_processed r'" for r'
    proof -
      from r'(1) obtain r where r: "r \<in> set (outbox_rows ?d)"
        and e: "r' = (if ob_id r \<in> ob_id ` set (filter relayable ?es) then r\<lparr>ob_processed := True\<rparr> else r)"
        by (auto simp: mark_all_def)
      show ?thesis
      proof (cases "ob_id r \<in> ob_id ` set (filter relayable ?es)")
        case True
        then obtain x where x: "x \<in> set ?es" "relayable x" "ob_id r = ob_id x" by auto
        then have "x = r" using same r by blast
        with x sent e True show ?thesis by simp
      next
        case False
        with e r r'(2) assms sp(1) show ?thesis by (simp add: relay_inv_def)
      qed
    qed
    moreover have "map ob_id (outbox_rows (mark_all xs d)) = map ob_id (outbox_rows d)" for xs d
      by (auto simp: mark_all_def)
    ultimately show ?thesis using assms unfolding relay_inv_def db by simp
  qed
qed

lemma relay_insert_inv [inv_intros]:
  "relay_inv s \<Longrightarrow> insert_outbox r (rl_db s) = Inr d \<Longrightarrow> \<not> ob_processed r \<Longrightarrow> relay_inv (s\<lparr>rl_db := d\<rparr>)"
  by (auto simp: relay_inv_def insert_outbox_def split: if_splits)

lemma insert_findings_outbox: "insert_all insert_finding rs d = Inr d' \<Longrightarrow> outbox_rows d' = outbox_rows d"
  by (induction rs arbitrary: d) (force simp: res_simps insert_finding_def split: if_splits)+

lemma scan_tables_outbox:
  assumes "scan_tables env u i fs esc d = Inr d'" shows "outbox_rows d' = outbox_rows (mark_processed i d)"
proof -
  from assms obtain d1 where "insert_all insert_finding (finding_rows (we_ids env) u fs) d = Inr d1"
    and d': "d' = mark_processed i (update_operation u (\<lambda>r. r\<lparr>op_status := (if esc then ESCALATED else PENDING)\<rparr>) d1)"
    by (auto simp: scan_tables_def res_simps)
  from insert_findings_outbox [OF this(1)] show ?thesis by (simp add: d' mark_processed_def update_operation_def)
qed

text \<open>A delivery changes the outbox at most by marking the first row of the operation.\<close>

lemma then_do_db:
  "then_do (w, r) f = (w', r') \<Longrightarrow> (\<And>v. w_db (fst (f v)) = w_db v) \<Longrightarrow> w_db w' = w_db w"
  by (cases r) (auto dest: arg_cong [of _ _ "\<lambda>p. w_db (fst p)"])

lemma process_scan_outbox:
  assumes "process_scan env oid w = (w', r)"
  shows "outbox_rows (w_db w') = outbox_rows (w_db w)
    \<or> (\<exists>ob obs. outbox_for oid (w_db w) = ob # obs \<and> outbox_rows (w_db w') = outbox_rows (mark_processed (ob_id ob) (w_db w)))"
proof (cases "w_db w' = w_db w")
  case False
  have send: "w_db (fst (then_do (send_msg env q oid v) (\<lambda>w3. (task_inc a b w3, Inr ())))) = w_db v" for q v a b
    by (simp add: send_msg_def task_inc_def)
  have inc: "w_db (task_inc a b v) = w_db v" for a b v by (simp add: task_inc_def)
  obtain u where u: "uuid_of_str oid = Inr u" using assms False by (cases "uuid_of_str oid") (simp_all add: process_scan_def)
  obtain x where x: "select_operation u (w_db w) = Some x" "op_status x = PENDING"
    using assms False u inc by (cases "select_operation u (w_db w)") (auto simp: process_scan_def split: if_splits)
  obtain ob obs where ob: "outbox_for oid (w_db w) = ob # obs"
    using assms False u x inc by (cases "outbox_for oid (w_db w)") (auto simp: process_scan_def)
  obtain fs where fs: "rbind (payload_str ''TypeError'' (ob_payload ob) ''document_text'' [])
      (scan_findings env (get_policy (we_threshold env) (we_opa env) ''base'')) = Inr fs"
    using assms False u x ob
    by (cases "rbind (payload_str ''TypeError'' (ob_payload ob) ''document_text'' [])
      (scan_findings env (get_policy (we_threshold env) (we_opa env) ''base''))") (simp_all add: process_scan_def)
  obtain esc q w1 where w1: "w_db w1 = w_db w"
    and run: "then_do (commit (scan_tables env u (ob_id ob) fs esc (w_db w)) w1) (\<lambda>w2.
       then_do (send_msg env q oid w2) (\<lambda>w3. (task_inc ''detector'' ''success'' w3, Inr ()))) = (w', r)"
    by (rule that [OF _ trans [OF _ assms]]) (simp_all add: process_scan_def u x ob fs Let_def)
  show ?thesis
  proof (cases "scan_tables env u (ob_id ob) fs esc (w_db w)")
    case (Inl e)
    with run w1 False show ?thesis by (simp add: commit_def)
  next
    case (Inr d)
    with run have "then_do (w1\<lparr>w_db := d\<rparr>, Inr ()) (\<lambda>w2.
       then_do (send_msg env q oid w2) (\<lambda>w3. (task_inc ''detector'' ''success'' w3, Inr ()))) = (w', r)" by (simp add: commit_def)
    then have "w_db w' = d" using then_do_db [OF _ send] by fastforce
    with ob scan_tables_outbox [OF Inr] show ?thesis by auto
  qed
qed simp

lemma relay_mark_inv:
  assumes "relay_inv s" and "outbox_rows d = outbox_rows (mark_processed (ob_id ob) (rl_db s))"
    and "ob \<in> set (outbox_rows (rl_db s))" and "relayable ob" and "message ob \<in> set (rl_sent s)"
  shows "relay_inv (s\<lparr>rl_db := d\<rparr>)"
proof -
  have "x = ob" if "x \<in> set (outbox_rows (rl_db s))" "ob_id x = ob_id ob" for x
    using that assms(1,3) by (metis relay_inv_def distinct_map inj_onD)
  moreover have "map ob_id (outbox_rows d) = map ob_id (outbox_rows (rl_db s))"
    unfolding assms(2) by (simp add: mark_processed_def)
  moreover have "relayable x \<and> message x \<in> set (rl_sent s)"
    if "x \<in> set (outbox_rows d)" "ob_processed x" for x
  proof -
    from that(1) obtain y where y: "y \<in> set (outbox_rows (rl_db s))"
      and x: "x = (if ob_id y = ob_id ob then y\<lparr>ob_processed := True\<rparr> else y)"
      unfolding assms(2) by (auto simp: mark_processed_def)
    show ?thesis
    proof (cases "ob_id y = ob_id ob")
      case True
      with calculation(1) [OF y] assms(4,5) x show ?thesis by simp
    next
      case False
      with x y that(2) assms(1) show ?thesis by (simp add: relay_inv_def)
    qed
  qed
  ultimately show ?thesis using assms(1) by (simp add: relay_inv_def)
qed

lemma relay_detect_inv [inv_intros]:
  assumes "relay_inv s" and "(''process_scan'', JStr (lit oid)) \<in> set (rl_sent s)" and "w_db w = rl_db s"
    and "\<forall>ob obs. outbox_for oid (rl_db s) = ob # obs \<longrightarrow> actor_for ob = Some ''process_scan''"
    and "process_scan env oid w = (w', r)"
  shows "relay_inv (s\<lparr>rl_db := w_db w'\<rparr>)"
  using process_scan_outbox [OF assms(5)] unfolding assms(3)
proof
  assume "outbox_rows (w_db w') = outbox_rows (rl_db s)"
  with assms(1) show ?thesis by (simp add: relay_inv_def)
next
  assume "\<exists>ob obs. outbox_for oid (rl_db s) = ob # obs \<and> outbox_rows (w_db w') = outbox_rows (mark_processed (ob_id ob) (rl_db s))"
  then obtain ob obs where ob: "outbox_for oid (rl_db s) = ob # obs"
    and rows: "outbox_rows (w_db w') = outbox_rows (mark_processed (ob_id ob) (rl_db s))" by blast
  then have "ob \<in> set (outbox_for oid (rl_db s))" by simp
  then have mem: "ob \<in> set (outbox_rows (rl_db s))" "map_of (ob_payload ob) ''operation_id'' = Some (JStr (lit oid))"
    by (auto simp: outbox_for_def payload_is_for_def)
  have a: "actor_for ob = Some ''process_scan''" using assms(4) ob by blast
  then have "relayable ob" "message ob = (''process_scan'', JStr (lit oid))"
    using mem(2) by (simp_all add: relayable_def message_def event_arg_def dict_get_def)
  with relay_mark_inv [OF assms(1) rows mem(1)] assms(2) show ?thesis by simp
qed

lemma outbox_step_inv [inv_intros]: "outbox_step s s' \<Longrightarrow> relay_inv s \<Longrightarrow> relay_inv s'"
  by (erule outbox_stepE) (auto intro: relay_turn_inv relay_insert_inv relay_detect_inv)

text \<open>
  C5: at-least-once. Whatever sends and commits fail, whatever is inserted and whatever messages the
  detector handles meanwhile, every row marked as processed, by the relay or by the detector, has had
  its message sent to the actor of its event type.
\<close>
theorem outbox_at_least_once:
  assumes "outbox_reach s0 s" and "relay_inv s0" and "r \<in> set (outbox_rows (rl_db s))" and "ob_processed r"
  shows "\<exists>a. actor_for r = Some a \<and> (a, event_arg r) \<in> set (rl_sent s)"
proof -
  from assms(1,2) have "relay_inv s"
    by (induction rule: outbox_reach.induct) (auto intro: inv_intros)
  with assms(3,4) have "relayable r" "message r \<in> set (rl_sent s)" by (auto simp: relay_inv_def)
  then show ?thesis by (auto simp: relayable_def message_def)
qed

section \<open>Progress\<close>

text \<open>A cycle in which nothing is locked and nothing fails.\<close>

definition healthy :: "nat \<Rightarrow> relay_env \<Rightarrow> bool" where
  "healthy b env \<longleftrightarrow> rv_batch env = b \<and> (\<forall>i. \<not> rv_locked env i \<and> \<not> rv_send_fails env i) \<and> \<not> rv_commit_fails env"

definition pending :: "db \<Rightarrow> outbox list" where
  "pending d = filter relayable (unprocessed d)"

definition stuck :: "db \<Rightarrow> outbox list" where
  "stuck d = filter (\<lambda>r. \<not> relayable r) (unprocessed d)"

lemma healthy_turn:
  assumes "healthy b env"
  shows "rl_db (relay_turn env s) = mark_all (filter relayable (take b (sorted_by ob_created_at (unprocessed (rl_db s))))) (rl_db s)"
    and "relay_once env s = (relay_turn env s, Inr (length (filter relayable (take b (sorted_by ob_created_at (unprocessed (rl_db s)))))))"
  using relay_turn_spec(2,3) [of env s] assms by (simp_all add: healthy_def due_events_def)

lemma unprocessed_mark_all:
  "unprocessed (mark_all es d) = filter (\<lambda>r. ob_id r \<notin> ob_id ` set es) (unprocessed d)"
proof -
  have "filter (\<lambda>r. \<not> ob_processed r) (map (\<lambda>r. if ob_id r \<in> I then r\<lparr>ob_processed := True\<rparr> else r) rs)
      = filter (\<lambda>r. ob_id r \<notin> I) (filter (\<lambda>r. \<not> ob_processed r) rs)" for I and rs :: "outbox list"
    by (induction rs) auto
  then show ?thesis by (simp add: unprocessed_def mark_all_def)
qed

lemma marked_rows:
  assumes "distinct (map ob_id (outbox_rows d))" and "set es \<subseteq> set (pending d)"
  shows "stuck (mark_all es d) = stuck d"
    and "es \<noteq> [] \<Longrightarrow> length (pending (mark_all es d)) < length (pending d)"
proof -
  have other: "ob_id r \<notin> ob_id ` set es" if r: "r \<in> set (unprocessed d)" "\<not> relayable r" for r
  proof
    assume "ob_id r \<in> ob_id ` set es"
    then obtain e where e: "e \<in> set es" "ob_id e = ob_id r" by auto
    with assms(2) have "e \<in> set (outbox_rows d)" "relayable e" by (auto simp: pending_def unprocessed_def)
    with assms(1) e r show False by (auto simp: unprocessed_def distinct_map dest: inj_onD)
  qed
  show "stuck (mark_all es d) = stuck d"
    unfolding stuck_def unprocessed_mark_all filter_filter using other by (auto intro!: filter_cong)
  assume "es \<noteq> []"
  then obtain e where "e \<in> set es" by (cases es) auto
  then have "e \<in> set (pending d)" "\<not> ob_id e \<notin> ob_id ` set es" using assms(2) by auto
  from length_filter_less [OF this(1), of "\<lambda>r. ob_id r \<notin> ob_id ` set es", OF this(2)]
  have "length (filter (\<lambda>r. ob_id r \<notin> ob_id ` set es) (pending d)) < length (pending d)" .
  moreover have "pending (mark_all es d) = filter (\<lambda>r. ob_id r \<notin> ob_id ` set es) (pending d)"
    unfolding pending_def unprocessed_mark_all by (simp add: conj_commute)
  ultimately show "length (pending (mark_all es d)) < length (pending d)" by simp
qed

text \<open>Fewer stuck rows than the batch size leave room for a sendable one.\<close>

lemma batch_reaches:
  assumes "length (filter (\<lambda>x. \<not> P x) xs) < b" and "\<exists>x \<in> set xs. P x"
  shows "filter P (take b xs) \<noteq> []"
proof
  assume none: "filter P (take b xs) = []"
  then have all: "filter (\<lambda>x. \<not> P x) (take b xs) = take b xs" by (auto simp: filter_empty_conv)
  have "length (take b xs) \<le> length (filter (\<lambda>x. \<not> P x) xs)"
    using all by (metis append_take_drop_id filter_append length_append le_add1)
  with assms(1) have "take b xs = xs" by (simp add: min_def split: if_splits)
  with none assms(2) show False by (auto simp: filter_empty_conv)
qed

lemma healthy_turn_rows:
  assumes "healthy b env" and "relay_inv s" and "length (stuck (rl_db s)) < b"
  shows "relay_inv (relay_turn env s) \<and> stuck (rl_db (relay_turn env s)) = stuck (rl_db s)
    \<and> (pending (rl_db s) \<noteq> [] \<longrightarrow> length (pending (rl_db (relay_turn env s))) < length (pending (rl_db s)))"
proof -
  let ?d = "rl_db s" and ?xs = "sorted_by ob_created_at (unprocessed (rl_db s))"
  let ?es = "filter relayable (take b ?xs)"
  have d: "rl_db (relay_turn env s) = mark_all ?es ?d" by (rule healthy_turn(1) [OF assms(1)])
  have "set ?es \<subseteq> set (pending ?d)" by (auto simp: pending_def dest: in_set_takeD)
  moreover have "distinct (map ob_id (outbox_rows ?d))" using assms(2) by (simp add: relay_inv_def)
  ultimately have m: "stuck (mark_all ?es ?d) = stuck ?d"
      "?es \<noteq> [] \<Longrightarrow> length (pending (mark_all ?es ?d)) < length (pending ?d)"
    using marked_rows [of ?d ?es] by blast+
  have "mset (filter (\<lambda>x. \<not> relayable x) ?xs) = mset (stuck ?d)" by (simp add: stuck_def mset_filter)
  from mset_eq_length [OF this] assms(3) have "length (filter (\<lambda>x. \<not> relayable x) ?xs) < b" by simp
  then have "pending ?d \<noteq> [] \<Longrightarrow> ?es \<noteq> []"
    by (intro batch_reaches) (auto simp: pending_def filter_empty_conv)
  then show ?thesis unfolding d using m relay_turn_inv [OF assms(2), of env] by simp
qed

text \<open>A turn sends every sendable row of its batch; the others are still there afterwards.\<close>

lemma healthy_turn_sends:
  assumes "healthy b env" and "relay_inv s" and "r \<in> set (pending (rl_db s))"
  shows "message r \<in> set (rl_sent (relay_turn env s)) \<or> r \<in> set (pending (rl_db (relay_turn env s)))"
proof -
  let ?es = "filter relayable (take b (sorted_by ob_created_at (unprocessed (rl_db s))))"
  have "sent_part env (due_events env (rl_db s)) = ?es"
    using assms(1) by (simp add: sent_part_def healthy_def due_events_def takeWhile_eq_all_conv)
  then have sent: "rl_sent (relay_turn env s) = rl_sent s @ map message ?es"
    unfolding relay_turn_spec(1) by simp
  show ?thesis
  proof (cases "ob_id r \<in> ob_id ` set ?es")
    case False
    with assms(3) show ?thesis by (auto simp: healthy_turn(1) [OF assms(1)] pending_def unprocessed_mark_all)
  next
    case True
    then obtain e where e: "e \<in> set ?es" "ob_id r = ob_id e" by blast
    then have "e \<in> set (outbox_rows (rl_db s))" by (auto simp: unprocessed_def dest: in_set_takeD)
    moreover have "r \<in> set (outbox_rows (rl_db s))" using assms(3) by (simp add: pending_def unprocessed_def)
    ultimately have "r = e" using e(2) assms(2) by (metis relay_inv_def distinct_map inj_onD)
    with e(1) sent show ?thesis by simp
  qed
qed

lemma relay_loop_sent: "set (rl_sent s) \<subseteq> set (rl_sent (run_relay_loop envs s))"
proof (induction envs arbitrary: s)
  case (Cons env envs)
  from Cons.IH [of "relay_turn env s"] show ?case by (auto simp: run_relay_loop_def relay_turn_spec(1))
qed (simp add: run_relay_loop_def)

text \<open>
  C19: the relay makes progress. As long as the rows of unknown event type are fewer than the
  batch size, a healthy relay has, after at most as many turns as there were other unprocessed rows,
  sent the message of every one of them and marked it; the rows of unknown type stay.
\<close>
theorem relay_drains:
  assumes "relay_inv s" and "length (stuck (rl_db s)) < b" and "\<forall>env \<in> set envs. healthy b env"
    and "length (pending (rl_db s)) \<le> length envs"
  shows "(\<forall>r \<in> set (pending (rl_db s)). message r \<in> set (rl_sent (run_relay_loop envs s)))
    \<and> pending (rl_db (run_relay_loop envs s)) = [] \<and> stuck (rl_db (run_relay_loop envs s)) = stuck (rl_db s)"
  using assms
proof (induction envs arbitrary: s)
  case Nil
  then show ?case by (simp add: run_relay_loop_def)
next
  case (Cons env envs)
  note h = healthy_turn_rows [of b env s]
  have le: "length (pending (rl_db (relay_turn env s))) \<le> length envs"
  proof (cases "pending (rl_db s) = []")
    case True
    then have "filter relayable (take b (sorted_by ob_created_at (unprocessed (rl_db s)))) = []"
      by (auto simp: pending_def filter_empty_conv dest: in_set_takeD)
    then have "rl_db (relay_turn env s) = rl_db s"
      using healthy_turn(1) [of b env s] Cons.prems(3) by simp
    with True show ?thesis by simp
  next
    case False
    with h Cons.prems show ?thesis by simp
  qed
  with h Cons.prems Cons.IH [of "relay_turn env s"]
  have rest: "\<forall>r \<in> set (pending (rl_db (relay_turn env s))). message r \<in> set (rl_sent (run_relay_loop envs (relay_turn env s)))"
    "pending (rl_db (run_relay_loop envs (relay_turn env s))) = []"
    "stuck (rl_db (run_relay_loop envs (relay_turn env s))) = stuck (rl_db s)" by simp_all
  have "message r \<in> set (rl_sent (run_relay_loop envs (relay_turn env s)))" if "r \<in> set (pending (rl_db s))" for r
    using healthy_turn_sends [of b env s r] that Cons.prems(1,3) rest(1) relay_loop_sent [of "relay_turn env s" envs] by auto
  with rest(2,3) show ?case by (simp add: run_relay_loop_def)
qed

lemma sorted_split:
  assumes "sorted (map k xs)" and "\<forall>x \<in> set xs. \<forall>y \<in> set xs. \<not> P x \<longrightarrow> P y \<longrightarrow> k x < k y"
  shows "xs = filter (\<lambda>x. \<not> P x) xs @ filter P xs"
  using assms
proof (induction xs)
  case (Cons x xs)
  show ?case
  proof (cases "P x")
    case True
    with Cons.prems have "\<forall>y \<in> set xs. P y" by fastforce
    then have "filter P xs = xs" "filter (\<lambda>x. \<not> P x) xs = []" by (auto simp: filter_id_conv filter_empty_conv)
    with True show ?thesis by simp
  next
    case False
    with Cons show ?thesis by simp
  qed
qed simp

text \<open>
  C25: head-of-line blocking. Once a full batch of rows of unknown event type is older than all
  other unprocessed rows, no healthy turn sends anything ever again.
\<close>
theorem relay_blocked:
  assumes "\<forall>env \<in> set envs. healthy b env" and "b \<le> length (stuck (rl_db s))"
    and "\<forall>x \<in> set (stuck (rl_db s)). \<forall>y \<in> set (pending (rl_db s)). ob_created_at x < ob_created_at y"
  shows "rl_db (run_relay_loop envs s) = rl_db s \<and> rl_sent (run_relay_loop envs s) = rl_sent s"
  using assms
proof (induction envs arbitrary: s)
  case (Cons env envs)
  let ?xs = "sorted_by ob_created_at (unprocessed (rl_db s))"
  have h: "healthy b env" using Cons.prems(1) by simp
  have "?xs = filter (\<lambda>x. \<not> relayable x) ?xs @ filter relayable ?xs"
    using Cons.prems(3) by (intro sorted_split [of ob_created_at]) (auto simp: stuck_def pending_def)
  moreover have "length (filter (\<lambda>x. \<not> relayable x) ?xs) = length (stuck (rl_db s))"
    by (rule mset_eq_length) (simp add: stuck_def mset_filter)
  ultimately have "take b ?xs = take b (filter (\<lambda>x. \<not> relayable x) ?xs)"
    using Cons.prems(2) by (metis append_eq_conv_conj take_append diff_is_0_eq take0 append_Nil2)
  then have none: "filter relayable (take b ?xs) = []" by (auto simp: filter_empty_conv dest: in_set_takeD)
  have db: "rl_db (relay_turn env s) = rl_db s"
    using healthy_turn(1) [OF h, of s] none by (simp add: mark_all_def)
  have "rl_sent (relay_turn env s) = rl_sent s"
    using relay_turn_spec(1) [of env s] h none by (simp add: sent_part_def healthy_def due_events_def)
  with db Cons.IH [of "relay_turn env s"] Cons.prems show ?case by (simp add: run_relay_loop_def)
qed (simp add: run_relay_loop_def)

section \<open>Witnesses\<close>

definition event_row :: "uuid \<Rightarrow> string \<Rightarrow> instant \<Rightarrow> outbox" where
  "event_row i t c = \<lparr>ob_id = i, ob_event_type = t, ob_payload = [(''operation_id'', jstr ''op'')],
     ob_processed = False, ob_created_at = c\<rparr>"

definition sample_relay :: "outbox list \<Rightarrow> relay" where
  "sample_relay rs = \<lparr>rl_db = empty_db\<lparr>outbox_rows := rs\<rparr>, rl_sent = [], rl_errors = 0, rl_relayed = [],
     rl_cycle = 0, rl_lag = None\<rparr>"

definition calm :: "nat \<Rightarrow> relay_env" where
  "calm b = \<lparr>rv_batch = b, rv_locked = (\<lambda>i. False), rv_send_fails = (\<lambda>i. False), rv_commit_fails = False\<rparr>"

lemma calm_healthy: "healthy b (calm b)"
  by (simp add: healthy_def calm_def)

lemma event_row_simps [simp]: "ob_id (event_row i t c) = i" "ob_processed (event_row i t c) = False"
    "ob_created_at (event_row i t c) = c" "ob_event_type (event_row i t c) = t"
  by (simp_all add: event_row_def)

lemma sample_relay_simps [simp]: "outbox_rows (rl_db (sample_relay rs)) = rs" "rl_sent (sample_relay rs) = []"
  by (simp_all add: sample_relay_def)

lemma row_relayable [simp]: "relayable (event_row i ''scan_requested'' c)" "\<not> relayable (event_row i ''unknown'' c)"
  by (simp_all add: relayable_def actor_for_def event_to_queue_def get_actor_def event_row_def)

abbreviation "two_rows \<equiv> [event_row 1 ''unknown'' 1, event_row 2 ''scan_requested'' 2]"

lemma outbox_at_least_once_witness:
  "\<exists>s r. outbox_reach (sample_relay two_rows) s \<and> r \<in> set (outbox_rows (rl_db s)) \<and> ob_processed r
     \<and> (''process_scan'', jstr ''op'') \<in> set (rl_sent s)"
proof -
  let ?s = "relay_turn (calm 5) (sample_relay two_rows)" and ?r = "(event_row 2 ''scan_requested'' 2)\<lparr>ob_processed := True\<rparr>"
  have reach: "outbox_reach (sample_relay two_rows) ?s"
    by (rule outbox_reach.step [OF outbox_reach.start outbox_step.turn])
  have inv: "relay_inv (sample_relay two_rows)" by (simp add: relay_inv_def)
  have row: "?r \<in> set (outbox_rows (rl_db ?s))"
    using healthy_turn(1) [OF calm_healthy, of 5 "sample_relay two_rows"]
    by (simp add: unprocessed_def sorted_by_def mark_all_def)
  from outbox_at_least_once [OF reach inv row] show ?thesis using reach row
    by (fastforce simp: actor_for_def event_to_queue_def get_actor_def event_row_def event_arg_def)
qed

lemma relay_drains_witness:
  "pending (rl_db (run_relay_loop [calm 2] (sample_relay two_rows))) = []
     \<and> (''process_scan'', jstr ''op'') \<in> set (rl_sent (run_relay_loop [calm 2] (sample_relay two_rows)))"
proof -
  have "message (event_row 2 ''scan_requested'' 2) = (''process_scan'', jstr ''op'')"
    by (simp add: message_def actor_for_def event_to_queue_def get_actor_def event_row_def event_arg_def dict_get_def)
  with relay_drains [of "sample_relay two_rows" 2 "[calm 2]"] calm_healthy show ?thesis
    by (simp add: relay_inv_def stuck_def pending_def unprocessed_def)
qed

lemma relay_blocked_witness:
  "rl_sent (run_relay_loop [calm 1, calm 1] (sample_relay two_rows)) = []"
  using relay_blocked [of "[calm 1, calm 1]" 1 "sample_relay two_rows"] calm_healthy
  by (simp add: stuck_def pending_def unprocessed_def)

section \<open>The broker adapters\<close>

text \<open>
  \<open>RedisBrokerAdapter\<close> of the workers and of the API (\<open>adapters/redis_broker.py\<close>): the client,
  and the lists in Redis, oldest entry first. \<open>ping\<close> and \<open>push\<close> are the outcomes of the requests.
  The client is stored before \<open>ping\<close>, so it stays when the ping fails.
\<close>

record broker =
  bk_client :: bool
  bk_lists :: "string \<Rightarrow> doc list"

definition connect :: "unit result \<Rightarrow> broker \<Rightarrow> broker \<times> unit result" where
  "connect ping b = (b\<lparr>bk_client := True\<rparr>, ping)"

definition disconnect :: "broker \<Rightarrow> broker" where
  "disconnect b = b\<lparr>bk_client := False\<rparr>"

definition rpush :: "string \<Rightarrow> doc list \<Rightarrow> broker \<Rightarrow> broker" where
  "rpush k vs b = b\<lparr>bk_lists := (bk_lists b)(k := bk_lists b k @ vs)\<rparr>"

definition dumps :: "(rat \<Rightarrow> string) \<Rightarrow> json \<Rightarrow> doc" where
  "dumps fl j = json_dumps fl False (lit '', '') (lit '': '') j"

definition not_connected :: exn where
  "not_connected = PyExc ''RuntimeError''"

definition worker_key :: "string \<Rightarrow> string" where
  "worker_key q = ''safecontext:'' @ q"

definition enqueue_worker :: "(rat \<Rightarrow> string) \<Rightarrow> string \<Rightarrow> json \<Rightarrow> unit result \<Rightarrow> broker \<Rightarrow> broker result" where
  "enqueue_worker fl q m push b =
     (if \<not> bk_client b then Inl not_connected else rbind push (\<lambda>_. Inr (rpush (worker_key q) [dumps fl m] b)))"

definition enqueue_api :: "(rat \<Rightarrow> string) \<Rightarrow> string \<Rightarrow> json \<Rightarrow> unit result \<Rightarrow> broker \<Rightarrow> broker result" where
  "enqueue_api fl q m push b =
     (if \<not> bk_client b then Inl not_connected else rbind push (\<lambda>_. Inr (rpush q [dumps fl m] b)))"

text \<open>\<open>enqueue_batch\<close>: one transaction, so all messages or none.\<close>

definition enqueue_batch :: "(rat \<Rightarrow> string) \<Rightarrow> string \<Rightarrow> json list \<Rightarrow> unit result \<Rightarrow> broker \<Rightarrow> broker result" where
  "enqueue_batch fl q ms exec b =
     (if \<not> bk_client b then Inl not_connected
      else if ms = [] then Inr b else rbind exec (\<lambda>_. Inr (rpush q (map (dumps fl) ms) b)))"

text \<open>The contract of \<open>BrokerPort\<close> (\<open>core/ports.py\<close>): \<open>key\<close> is the list a queue lives in.\<close>

locale broker_port =
  fixes enq :: "string \<Rightarrow> json \<Rightarrow> unit result \<Rightarrow> broker \<Rightarrow> broker result"
    and key :: "string \<Rightarrow> string"
    and enc :: "json \<Rightarrow> doc"
  assumes enq_offline: "\<not> bk_client b \<Longrightarrow> enq q m push b = Inl not_connected"
    and enq_error: "bk_client b \<Longrightarrow> enq q m (Inl e) b = Inl e"
    and enq_appends: "bk_client b \<Longrightarrow> enq q m (Inr u) b = Inr (rpush (key q) [enc m] b)"
    and key_inj: "key q = key q' \<Longrightarrow> q = q'"
begin

lemma enq_only_own_queue: "enq q m push b = Inr b' \<Longrightarrow> q' \<noteq> q \<Longrightarrow> bk_lists b' (key q') = bk_lists b (key q')"
  using enq_offline enq_error enq_appends key_inj
  by (cases "bk_client b"; cases push) (auto simp: rpush_def)

lemma enq_grows: "enq q m push b = Inr b' \<Longrightarrow> bk_lists b' (key q) = bk_lists b (key q) @ [enc m]"
  using enq_offline enq_error enq_appends
  by (cases "bk_client b"; cases push) (auto simp: rpush_def)

lemma enq_after_disconnect: "enq q m push (disconnect b) = Inl not_connected"
  by (rule enq_offline) (simp add: disconnect_def)

fun enq_all :: "string \<Rightarrow> json list \<Rightarrow> broker \<Rightarrow> broker result" where
  "enq_all q [] b = Inr b"
| "enq_all q (m # ms) b = rbind (enq q m (Inr ()) b) (enq_all q ms)"

lemma enq_all_order: "bk_client b \<Longrightarrow> ms \<noteq> [] \<Longrightarrow> enq_all q ms b = Inr (rpush (key q) (map enc ms) b)"
proof (induction ms arbitrary: b)
  case (Cons m ms)
  have c: "bk_client (rpush (key q) [enc m] b)" using Cons.prems(1) by (simp add: rpush_def)
  show ?case
  proof (cases ms)
    case Nil
    then show ?thesis using Cons.prems(1) by (simp add: enq_appends)
  next
    case (Cons m' ms')
    with Cons.IH [OF c] Cons.prems(1) show ?thesis by (simp add: enq_appends rpush_def)
  qed
qed simp

end

interpretation worker_broker: broker_port "enqueue_worker fl" worker_key "dumps fl" for fl
  by unfold_locales (auto simp: enqueue_worker_def worker_key_def)

interpretation api_broker: broker_port "enqueue_api fl" "\<lambda>q. q" "dumps fl" for fl
  by unfold_locales (auto simp: enqueue_api_def)

text \<open>A batch is the same as its messages one by one.\<close>

lemma enqueue_batch_refines: "bk_client b \<Longrightarrow> enqueue_batch fl q ms (Inr ()) b = api_broker.enq_all fl q ms b"
  by (cases ms) (simp_all add: enqueue_batch_def api_broker.enq_all_order del: api_broker.enq_all.simps(2))

end
