(* ===== verification/Vault_Tsa.thy ===== *)
theory Vault_Tsa
  imports Evidence
begin

text \<open>
  The clients that turn a digest into third-party evidence: the Vault Transit client of the API
  (\<open>core/vault_transit.py\<close>) and the RFC 3161 time-stamp client (\<open>core/tsa.py\<close>). Vault and the
  time-stamping authority are the outcomes of their HTTP requests. The request the latter gets is
  built byte by byte, and read back by a parser of ASN.1 type-length-value elements.
\<close>

section \<open>Vault Transit (core/vault\_transit.py)\<close>

text \<open>\<open>vt_addr\<close>, \<open>vt_key\<close>: the module's \<open>VAULT_ADDR\<close> and \<open>TRANSIT_KEY\<close>; an override of the key may be given.\<close>

record vault_transit =
  vt_http :: vault_http
  vt_addr :: string
  vt_key :: string

definition key_for :: "vault_transit \<Rightarrow> string option \<Rightarrow> string" where
  "key_for vt name = (case text_given name of Some k \<Rightarrow> k | None \<Rightarrow> vt_key vt)"

definition ensure_transit_key :: "vault_transit \<Rightarrow> bool" where
  "ensure_transit_key vt =
     (let url = vt_addr vt @ ''/v1/transit/keys/'' @ vt_key vt
      in swallow False (rbind (v_get (vt_http vt) url) (\<lambda>resp.
           if h_status resp = 200 then Inr True
           else rbind (v_post (vt_http vt) url
                  (JObj [(lit ''type'', jstr ''ecdsa-p256''), (lit ''exportable'', JBool False)]))
                (\<lambda>resp2. Inr (h_status resp2 \<in> {200, 204})))))"

definition sign_payload :: "bytes \<Rightarrow> json" where
  "sign_payload data = JObj [(lit ''input'', JStr (b64encode data)), (lit ''hash_algorithm'', jstr ''sha2-256'')]"

definition sign_data :: "vault_transit \<Rightarrow> bytes \<Rightarrow> string option \<Rightarrow> doc option" where
  "sign_data vt data name =
     swallow None (rbind (v_post (vt_http vt) (vt_addr vt @ ''/v1/transit/sign/'' @ key_for vt name) (sign_payload data))
       (\<lambda>resp. if h_status resp \<noteq> 200 then Inr None
          else rbind (resp_json resp) (\<lambda>j.
               rbind (json_get j ''data'' (JObj [])) (\<lambda>dj.
               rbind (json_get dj ''signature'' (JStr [])) (\<lambda>sj.
                 case sj of JStr sig \<Rightarrow> Inr (Some (strip_vault_prefix sig))
                          | _ \<Rightarrow> Inl (PyExc ''AttributeError''))))))"

text \<open>\<open>get_public_key\<close>: of the versions listed, the largest; every key must read as a number.\<close>

record public_key_info =
  pk_algorithm :: json
  pk_pem :: json
  pk_version :: int
  pk_name :: string

fun versions :: "(doc \<times> json) list \<Rightarrow> int list result" where
  "versions [] = Inr []"
| "versions ((k, v) # kvs) =
     (case py_int k of
        None \<Rightarrow> Inl (PyExc ''ValueError'')
      | Some n \<Rightarrow> rbind (versions kvs) (\<lambda>ns. Inr (n # ns)))"

definition get_public_key :: "vault_transit \<Rightarrow> string option \<Rightarrow> public_key_info option" where
  "get_public_key vt name =
     swallow None (rbind (v_get (vt_http vt) (vt_addr vt @ ''/v1/transit/keys/'' @ key_for vt name)) (\<lambda>resp.
       if h_status resp \<noteq> 200 then Inr None
       else rbind (resp_json resp) (\<lambda>j.
            rbind (json_get j ''data'' (JObj [])) (\<lambda>dj.
            rbind (json_get dj ''keys'' (JObj [])) (\<lambda>keys.
            case keys of
              JObj kvs \<Rightarrow>
                rbind (versions kvs) (\<lambda>ns.
                  let latest = (if kvs = [] then 1 else Max (set ns))
                  in rbind (json_get dj ''type'' (jstr ''unknown'')) (\<lambda>alg.
                     rbind (json_get (dict_get kvs (lit (int_str latest)) (JObj [])) ''public_key'' (JStr [])) (\<lambda>pem.
                       Inr (Some \<lparr>pk_algorithm = alg, pk_pem = pem, pk_version = latest, pk_name = key_for vt name\<rparr>))))
            | _ \<Rightarrow> Inl (PyExc ''AttributeError''))))))"

definition full_token :: "doc \<Rightarrow> int \<Rightarrow> doc" where
  "full_token sig ver =
     (if starts_with vault_prefix sig then sig else lit (''vault:v'' @ int_str ver @ '':'') @ sig)"

definition verify_payload :: "bytes \<Rightarrow> doc \<Rightarrow> int \<Rightarrow> json" where
  "verify_payload data sig ver = JObj [(lit ''input'', JStr (b64encode data)),
     (lit ''signature'', JStr (full_token sig ver)), (lit ''hash_algorithm'', jstr ''sha2-256'')]"

text \<open>The answer is Vault's \<open>valid\<close> field as decoded.\<close>

definition verify_signature :: "vault_transit \<Rightarrow> bytes \<Rightarrow> doc \<Rightarrow> string option \<Rightarrow> int \<Rightarrow> json" where
  "verify_signature vt data sig name ver =
     swallow (JBool False) (rbind
       (v_post (vt_http vt) (vt_addr vt @ ''/v1/transit/verify/'' @ key_for vt name) (verify_payload data sig ver)) (\<lambda>resp.
       if h_status resp \<noteq> 200 then Inr (JBool False)
       else rbind (resp_json resp) (\<lambda>j. rbind (json_get j ''data'' (JObj [])) (\<lambda>dj. json_get dj ''valid'' (JBool False)))))"

section \<open>Tokens survive the client\<close>

definition version_doc :: "int \<Rightarrow> doc" where
  "version_doc n = lit (''v'' @ int_str n)"

lemma version_no_colon: "0 \<le> n \<Longrightarrow> 58 \<notin> set (version_doc n)"
  using digits_are_digits [of n 58] by (auto simp: version_doc_def int_str_def)

lemma full_token_version: "\<not> starts_with vault_prefix b \<Longrightarrow> full_token b n = vault_token (version_doc n) b"
  by (simp add: full_token_def vault_token_def vault_prefix_def version_doc_def)

text \<open>
  What the code relies on Vault for. \<open>sign\<close> answers with a token \<open>vault:vN:<signature>\<close> that names the version
  of the key; \<open>verify\<close> of the signed input accepts that token; and it does not accept the signature under
  the number of another version (an error status when there is no such version, otherwise \<open>valid\<close> is false,
  or the request fails). Nothing is said of other signatures or inputs.
\<close>

definition verify_request :: "bytes \<Rightarrow> doc \<Rightarrow> json" where
  "verify_request data tok = JObj [(lit ''input'', JStr (b64encode data)), (lit ''signature'', JStr tok),
     (lit ''hash_algorithm'', jstr ''sha2-256'')]"

definition data_field :: "http_resp \<Rightarrow> string \<Rightarrow> json \<Rightarrow> json \<Rightarrow> bool" where
  "data_field resp k dflt x \<longleftrightarrow> h_status resp = 200
     \<and> (\<exists>j dj. resp_json resp = Inr j \<and> json_get j ''data'' (JObj []) = Inr dj \<and> json_get dj k dflt = Inr x)"

definition vault_signs :: "vault_transit \<Rightarrow> string \<Rightarrow> bytes \<Rightarrow> doc \<Rightarrow> bool" where
  "vault_signs vt key data tok \<longleftrightarrow>
     (\<exists>resp. v_post (vt_http vt) (vt_addr vt @ ''/v1/transit/sign/'' @ key) (sign_payload data) = Inr resp
        \<and> data_field resp ''signature'' (JStr []) (JStr tok))"

definition vault_accepts :: "vault_transit \<Rightarrow> string \<Rightarrow> bytes \<Rightarrow> doc \<Rightarrow> bool" where
  "vault_accepts vt key data tok \<longleftrightarrow>
     (\<exists>resp. v_post (vt_http vt) (vt_addr vt @ ''/v1/transit/verify/'' @ key) (verify_request data tok) = Inr resp
        \<and> data_field resp ''valid'' (JBool False) (JBool True))"

definition vault_refuses :: "vault_transit \<Rightarrow> string \<Rightarrow> bytes \<Rightarrow> doc \<Rightarrow> bool" where
  "vault_refuses vt key data tok \<longleftrightarrow>
     (\<forall>resp. v_post (vt_http vt) (vt_addr vt @ ''/v1/transit/verify/'' @ key) (verify_request data tok) = Inr resp
        \<longrightarrow> h_status resp \<noteq> 200 \<or> data_field resp ''valid'' (JBool False) (JBool False))"

definition transit_answers :: "vault_transit \<Rightarrow> string \<Rightarrow> bytes \<Rightarrow> int \<Rightarrow> doc \<Rightarrow> bool" where
  "transit_answers vt key data n b \<longleftrightarrow>
     vault_signs vt key data (vault_token (version_doc n) b)
   \<and> vault_accepts vt key data (vault_token (version_doc n) b)
   \<and> (\<forall>m. 0 \<le> m \<and> m \<noteq> n \<longrightarrow> vault_refuses vt key data (vault_token (version_doc m) b))"

lemmas vault_contract = vault_signs_def vault_accepts_def vault_refuses_def data_field_def

lemma verify_payload_token: "full_token sig ver = tok \<Longrightarrow> verify_payload data sig ver = verify_request data tok"
  by (simp add: verify_payload_def verify_request_def)

lemma verify_accepted:
  assumes "vault_accepts vt (key_for vt name) data (full_token sig ver)"
  shows "verify_signature vt data sig name ver = JBool True"
  using assms by (auto simp: verify_signature_def verify_payload_token [OF refl] vault_contract swallow_def)

lemma verify_refused:
  assumes "vault_refuses vt (key_for vt name) data (full_token sig ver)"
  shows "verify_signature vt data sig name ver = JBool False"
proof (cases "v_post (vt_http vt) (vt_addr vt @ ''/v1/transit/verify/'' @ key_for vt name) (verify_request data (full_token sig ver))")
  case (Inr resp)
  with assms show ?thesis by (auto simp: verify_signature_def verify_payload_token [OF refl] vault_contract swallow_def)
qed (simp add: verify_signature_def verify_payload_token [OF refl] swallow_def)

lemma vault_token_inj:
  assumes "0 \<le> m" and "0 \<le> n" and "vault_token (version_doc m) b = vault_token (version_doc n) b"
  shows "m = n"
proof -
  have "vault_parts (vault_token (version_doc m) b) = Some (version_doc m, b)"
    "vault_parts (vault_token (version_doc n) b) = Some (version_doc n, b)"
    using assms(1,2) by (simp_all add: vault_parts_token version_no_colon)
  with assms(3) have "lit (nat_str m) = lit (nat_str n)" using assms(1,2) by (simp add: version_doc_def int_str_def)
  then show ?thesis using py_int_nat_str assms(1,2) by (metis option.inject)
qed

text \<open>
  C22: a signature made by \<open>sign_data\<close>, which returns it without its version, verifies through
  \<open>verify_signature\<close> if and only if it is given the version of the key that made it; the default
  version 1 fails for every rotated key.
\<close>
theorem transit_sign_verify:
  assumes "transit_answers vt (key_for vt name) data n b" and "0 \<le> n" and "0 \<le> m"
    and "\<not> starts_with vault_prefix b"
  shows "sign_data vt data name = Some b \<and> verify_signature vt data b name m = JBool (m = n)"
proof
  have "vault_signs vt (key_for vt name) data (vault_token (version_doc n) b)" using assms(1) by (simp add: transit_answers_def)
  then show "sign_data vt data name = Some b"
    by (auto simp: vault_contract sign_data_def swallow_def strip_vault_token version_no_colon [OF assms(2)])
  note tok = full_token_version [OF assms(4)]
  show "verify_signature vt data b name m = JBool (m = n)"
  proof (cases "m = n")
    case True
    with assms(1) verify_accepted [of vt name data b m] show ?thesis by (simp add: transit_answers_def tok)
  next
    case False
    with assms(1,3) verify_refused [of vt name data b m] show ?thesis by (simp add: transit_answers_def tok)
  qed
qed

text \<open>A Vault whose key has version 2 only: it signs under version 2 and knows no other version.\<close>

definition sample_transit :: vault_transit where
  "sample_transit = \<lparr>vt_http = \<lparr>v_post = (\<lambda>u p.
       if starts_with ''/v1/transit/sign/'' u
       then Inr \<lparr>h_status = 200, h_body = Some (JObj [(lit ''data'', JObj [(lit ''signature'', JStr (vault_token (version_doc 2) [65, 66]))])])\<rparr>
       else case p of JObj kvs \<Rightarrow>
              (case dict_get kvs (lit ''signature'') JNull of
                 JStr tok \<Rightarrow> if starts_with (vault_token (version_doc 2) []) tok
                   then Inr \<lparr>h_status = 200, h_body = Some (JObj [(lit ''data'', JObj [(lit ''valid'', JBool (tok = vault_token (version_doc 2) [65, 66]))])])\<rparr>
                   else Inr \<lparr>h_status = 400, h_body = None\<rparr>
               | _ \<Rightarrow> Inr \<lparr>h_status = 400, h_body = None\<rparr>)
            | _ \<Rightarrow> Inr \<lparr>h_status = 400, h_body = None\<rparr>),
       v_get = (\<lambda>u. Inl (PyExc ''ConnectError''))\<rparr>, vt_addr = [], vt_key = ''k''\<rparr>"

lemma sample_transit_contract: "transit_answers sample_transit (key_for sample_transit None) data 2 [65, 66]"
proof -
  have v2: "starts_with (vault_token (version_doc 2) []) (vault_token (version_doc 2) [65, 66])"
    by (simp add: starts_with_def vault_token_def)
  have other: "vault_token (version_doc m) [65, 66] \<noteq> vault_token (version_doc 2) [65, 66]" if "0 \<le> m" "m \<noteq> 2" for m
    using vault_token_inj [OF that(1), of 2] that(2) by auto
  show ?thesis
    using v2 other by (auto simp: transit_answers_def vault_contract sample_transit_def key_for_def starts_with_def [of "''/v1/transit/sign/''"]
        verify_request_def dict_get_def resp_json_def)
qed

lemma transit_sign_verify_witness:
  "sign_data sample_transit [1, 2] None = Some [65, 66]
   \<and> verify_signature sample_transit [1, 2] [65, 66] None 2 = JBool True
   \<and> verify_signature sample_transit [1, 2] [65, 66] None 1 = JBool False"
proof -
  have b: "\<not> starts_with vault_prefix [65, 66]" by (simp add: starts_with_def vault_prefix_def)
  show ?thesis using transit_sign_verify [OF sample_transit_contract _ _ b, of 2] transit_sign_verify [OF sample_transit_contract _ _ b, of 1]
    by simp
qed

section \<open>The time-stamp request (core/tsa.py)\<close>

text \<open>\<open>bytes([b])\<close> accepts values below 256; \<open>struct.pack(">H", n)\<close> values below 65536.\<close>

definition byte :: "nat \<Rightarrow> bytes result" where
  "byte n = (if n < 256 then Inr [n] else Inl (PyExc ''ValueError''))"

definition pack_H :: "nat \<Rightarrow> bytes result" where
  "pack_H n = (if n < 65536 then Inr [n div 256, n mod 256] else Inl (PyExc ''struct.error''))"

definition sha256_oid :: bytes where
  "sha256_oid = [48, 13, 6, 9, 96, 134, 72, 1, 101, 3, 4, 2, 1, 5, 0]"

definition build_ts_request :: "bytes \<Rightarrow> bytes result" where
  "build_ts_request digest =
     rbind (byte (length digest)) (\<lambda>dl.
       let imprint = sha256_oid @ [4] @ dl @ digest
       in rbind (byte (length imprint)) (\<lambda>il.
          let content = [2, 1, 1] @ ([48] @ il @ imprint) @ [1, 1, 255]
          in rbind (pack_H (length content)) (\<lambda>cl. Inr ([48, 130] @ cl @ content))))"

record tsa_token =
  raw_token :: bytes
  token_b64 :: doc
  timestamp_utc :: instant
  tsa_url :: string

text \<open>The answer of the authority: its status and content.\<close>

definition request_tsa_token ::
  "(bytes \<Rightarrow> bytes) \<Rightarrow> (string \<Rightarrow> bytes \<Rightarrow> (nat \<times> bytes) result) \<Rightarrow> instant \<Rightarrow> string \<Rightarrow> bytes \<Rightarrow> string option
     \<Rightarrow> tsa_token option result" where
  "request_tsa_token sha_raw post now default_url data url =
     rbind (build_ts_request (sha_raw data)) (\<lambda>req.
       let u = (case text_given url of Some x \<Rightarrow> x | None \<Rightarrow> default_url)
       in Inr (swallow None (rbind (post u req) (\<lambda>(st, content).
            Inr (if st \<noteq> 200 then None
                 else if length content < 10 then None
                 else Some \<lparr>raw_token = content, token_b64 = b64encode content, timestamp_utc = now, tsa_url = u\<rparr>)))))"

definition verify_tsa_digest :: "bytes \<Rightarrow> bytes \<Rightarrow> bool" where
  "verify_tsa_digest raw expected = is_infix expected raw"

section \<open>Reading the request back\<close>

text \<open>
  One type-length-value element: tag, content and rest. The length is one byte below 128, or 129 or
  130 followed by one or two bytes. \<open>strict\<close> demands the shortest form, as DER does.
\<close>

fun read_tlv :: "bool \<Rightarrow> bytes \<Rightarrow> (nat \<times> bytes \<times> bytes) option" where
  "read_tlv strict (tag # l # s) =
     (if l < 128 then (if length s < l then None else Some (tag, take l s, drop l s))
      else if l = 129 then
        (case s of m # s1 \<Rightarrow> if length s1 < m \<or> strict \<and> m < 128 then None else Some (tag, take m s1, drop m s1)
                 | _ \<Rightarrow> None)
      else if l = 130 then
        (case s of m # n # s2 \<Rightarrow> (let k = 256 * m + n
             in if length s2 < k \<or> strict \<and> k < 256 then None else Some (tag, take k s2, drop k s2))
                 | _ \<Rightarrow> None)
      else None)"
| "read_tlv strict _ = None"

text \<open>\<open>TimeStampReq\<close> with version 1 and \<open>certReq\<close>: the algorithm and the hashed message.\<close>

definition read_tag :: "bool \<Rightarrow> nat \<Rightarrow> bytes \<Rightarrow> (bytes \<times> bytes) option" where
  "read_tag strict tag bs =
     (case read_tlv strict bs of None \<Rightarrow> None | Some (t, c, r) \<Rightarrow> if t = tag then Some (c, r) else None)"

definition read_request :: "bool \<Rightarrow> bytes \<Rightarrow> (bytes \<times> bytes) option" where
  "read_request strict bs =
     Option.bind (read_tag strict 48 bs) (\<lambda>(c, r0).
     Option.bind (read_tag strict 2 c) (\<lambda>(v, c1).
     Option.bind (read_tag strict 48 c1) (\<lambda>(mi, c2).
     Option.bind (read_tag strict 48 mi) (\<lambda>(alg, mi1).
     Option.bind (read_tag strict 4 mi1) (\<lambda>(h, r1).
     Option.bind (read_tag strict 1 c2) (\<lambda>(cr, r2).
       if v = [1] \<and> cr = [255] \<and> r0 = [] \<and> r1 = [] \<and> r2 = [] then Some (alg, h) else None))))))"

lemma request_shape:
  assumes "length digest \<le> 110"
  shows "build_ts_request digest = Inr ([48, 130, 0, length digest + 25] @ [2, 1, 1] @
     [48, length digest + 17] @ sha256_oid @ [4, length digest] @ digest @ [1, 1, 255])"
  using assms by (simp add: build_ts_request_def byte_def pack_H_def sha256_oid_def Let_def)

lemma read_tag_short: "l < 128 \<Longrightarrow> length c = l \<Longrightarrow> read_tag strict t (t # l # c @ rest) = Some (c, rest)"
  by (simp add: read_tag_def)

text \<open>
  the time-stamp request carries the digest: reading it back gives the SHA-256 algorithm
  identifier and the digest itself, for every digest of up to 110 bytes.
\<close>
theorem ts_request_roundtrip:
  assumes "length digest \<le> 110"
  shows "\<exists>req. build_ts_request digest = Inr req
    \<and> read_request False req = Some ([6, 9, 96, 134, 72, 1, 101, 3, 4, 2, 1, 5, 0], digest)"
proof -
  let ?mi = "sha256_oid @ [4, length digest] @ digest"
  let ?c = "[2, 1, 1] @ [48, length digest + 17] @ ?mi @ [1, 1, 255]"
  have 1: "read_tag False 48 ([48, 130, 0, length digest + 25] @ ?c) = Some (?c, [])"
    using assms by (simp add: read_tag_def sha256_oid_def Let_def)
  have 2: "read_tag False 2 ?c = Some ([1], [48, length digest + 17] @ ?mi @ [1, 1, 255])" by (simp add: read_tag_def)
  have 3: "read_tag False 48 ([48, length digest + 17] @ ?mi @ [1, 1, 255]) = Some (?mi, [1, 1, 255])"
    using read_tag_short [of "length digest + 17" ?mi False 48 "[1, 1, 255]"] assms
    by (simp only: append_Cons append_Nil) (simp add: sha256_oid_def)
  have 4: "read_tag False 48 ?mi = Some ([6, 9, 96, 134, 72, 1, 101, 3, 4, 2, 1, 5, 0], [4, length digest] @ digest)"
    by (simp add: read_tag_def sha256_oid_def)
  have 5: "read_tag False 4 ([4, length digest] @ digest) = Some (digest, [])" using assms by (simp add: read_tag_def)
  have 6: "read_tag False 1 [1, 1, 255] = Some ([255], [])" by (simp add: read_tag_def)
  have "read_request False ([48, 130, 0, length digest + 25] @ ?c) = Some ([6, 9, 96, 134, 72, 1, 101, 3, 4, 2, 1, 5, 0], digest)"
    unfolding read_request_def 1 bind.simps prod.case 2 3 4 5 6 by simp
  then show ?thesis using request_shape [OF assms] by auto
qed

lemma ts_request_roundtrip_witness:
  "\<exists>req. build_ts_request (replicate 32 7) = Inr req
    \<and> read_request False req = Some ([6, 9, 96, 134, 72, 1, 101, 3, 4, 2, 1, 5, 0], replicate 32 7)"
  using ts_request_roundtrip [of "replicate 32 7"] by simp

text \<open>
  the request is not DER: for a SHA-256 digest its outer length is written in two bytes
  although one would do, and a reader that insists on the shortest form rejects it.
\<close>
theorem ts_request_not_der:
  assumes "length digest = 32"
  shows "\<exists>req. build_ts_request digest = Inr req \<and> read_request True req = None"
  using request_shape [of digest] assms by (auto simp: read_request_def read_tag_def Let_def)

lemma ts_request_not_der_witness:
  "\<exists>req. build_ts_request (replicate 32 7) = Inr req \<and> read_request True req = None"
  using ts_request_not_der [of "replicate 32 7"] by simp

text \<open>With a digest of 32 bytes the client never raises, and a token it accepts has at least ten bytes.\<close>

lemma request_tsa_total:
  assumes "length (sha_raw data) = 32"
  shows "\<exists>t. request_tsa_token sha_raw post now d data url = Inr t
    \<and> (\<forall>x. t = Some x \<longrightarrow> 10 \<le> length (raw_token x) \<and> timestamp_utc x = now)"
  using request_shape [of "sha_raw data"] assms
  by (auto simp: request_tsa_token_def swallow_def Let_def res_simps split: sum.splits if_splits)

lemma verify_tsa_digest_iff: "verify_tsa_digest raw expected \<longleftrightarrow> (\<exists>u v. raw = u @ expected @ v)"
  by (simp add: verify_tsa_digest_def is_infix_iff)

end
