(* ===== verification/Verify_Offline.thy ===== *)
theory Verify_Offline
  imports Evidence
begin

text \<open>
  The offline verifier handed to auditors (\<open>tools/verify_offline.py\<close>): it recomputes the operation
  hash from the fields of an export and checks the ECDSA signature with the embedded key. The
  \<open>cryptography\<close> package is a parameter (loading a PEM key, verifying a signature), and so are
  \<open>json.loads\<close> and \<open>str()\<close>. The lemmas tie it to the server: its hash is the hash of
  \<open>db/evidence.py\<close> on every row, and a verdict of validity means that the signature verifies, under the
  key embedded in the same export, over the hash of exactly the fields shown. Whose key that is the
  verifier does not ask.
\<close>

section \<open>Model\<close>

text \<open>\<open>load_pem\<close> raises or returns a key, \<open>is_ec\<close> tells its kind, \<open>ec_ok\<close> the outcome of \<open>verify\<close>.\<close>

record 'k crypto =
  load_pem :: "doc \<Rightarrow> 'k result"
  is_ec :: "'k \<Rightarrow> bool"
  ec_ok :: "'k \<Rightarrow> bytes \<Rightarrow> bytes \<Rightarrow> bool"

record 'k offline_env =
  of_crypto :: "'k crypto"
  of_sha :: "bytes \<Rightarrow> string"
  of_str :: "json \<Rightarrow> doc"
  of_float :: "rat \<Rightarrow> string"

text \<open>\<open>d[k]\<close> and \<open>d.get(k)\<close> on a decoded dictionary.\<close>

definition item :: "(doc \<times> json) list \<Rightarrow> string \<Rightarrow> json result" where
  "item kvs k = (case map_of kvs (lit k) of Some v \<Rightarrow> Inr v | None \<Rightarrow> Inl (PyExc ''KeyError''))"

definition get_item :: "(doc \<times> json) list \<Rightarrow> string \<Rightarrow> json" where
  "get_item kvs k = dict_get kvs (lit k) JNull"

definition offline_content :: "'k offline_env \<Rightarrow> (doc \<times> json) list \<Rightarrow> doc result" where
  "offline_content env op =
     rbind (item op ''id'') (\<lambda>i. rbind (item op ''trace_id'') (\<lambda>t. rbind (item op ''actor_id'') (\<lambda>a.
     rbind (item op ''artifact_digest'') (\<lambda>d. rbind (item op ''status'') (\<lambda>s. rbind (item op ''created_at'') (\<lambda>c.
       Inr (dumps_sorted (of_float env) (JObj
         [(lit ''id'', JStr (str_of_json (of_str env) i)), (lit ''trace_id'', JStr (str_of_json (of_str env) t)),
          (lit ''actor_id'', JStr (str_of_json (of_str env) a)), (lit ''artifact_digest'', d),
          (lit ''status'', s), (lit ''created_at'', if json_truthy c then c else JStr [])]))))))))"

definition offline_operation_hash :: "'k offline_env \<Rightarrow> (doc \<times> json) list \<Rightarrow> string result" where
  "offline_operation_hash env op = rbind (offline_content env op) (\<lambda>c. Inr (of_sha env (utf8_bytes c)))"

text \<open>\<open>_strip_vault_prefix\<close> is that of \<open>Codec\<close>; a PEM or signature that is not text raises.\<close>

definition verify_ecdsa :: "'k crypto \<Rightarrow> json \<Rightarrow> doc \<Rightarrow> json \<Rightarrow> bool result" where
  "verify_ecdsa cr pem message_hex sig =
     (case pem of
        JStr p \<Rightarrow>
          rbind (load_pem cr p) (\<lambda>k.
            if \<not> is_ec cr k then Inl (PyExc ''ValueError'')
            else case sig of
              JStr s \<Rightarrow> rbind (b64decode (strip_vault_prefix s)) (\<lambda>der.
                          rbind (fromhex message_hex) (\<lambda>m. Inr (ec_ok cr k m der)))
            | _ \<Rightarrow> Inl (PyExc ''AttributeError''))
      | _ \<Rightarrow> Inl (PyExc ''AttributeError''))"

text \<open>The lines of the report.\<close>

datatype report_line = No_operation | No_signature | No_key | Hash_is doc | Key_version bool json | Key_only json
  | Anchor_incomplete | Anchor_no_key | Signature_valid | Signature_invalid

definition verify_export :: "'k offline_env \<Rightarrow> (doc \<times> json) list \<Rightarrow> (bool \<times> report_line list) result" where
  "verify_export env export =
     (let op = get_item export ''operation''; sig = get_item export ''digital_signature'';
          pem = get_item export ''verification_public_key_pem''
      in if \<not> json_truthy op then Inr (False, [No_operation])
         else if \<not> json_truthy sig then Inr (False, [No_signature])
         else if \<not> json_truthy pem then Inr (False, [No_key])
         else case op of
           JObj fs \<Rightarrow>
             rbind (offline_operation_hash env fs) (\<lambda>h.
             rbind (verify_ecdsa (of_crypto env) pem (lit h) sig) (\<lambda>ok.
               Inr (ok, [Hash_is (lit h),
                 Key_version (json_truthy (get_item export ''signature_at_write_time'')) (get_item export ''signing_key_version''),
                 if ok then Signature_valid else Signature_invalid])))
         | _ \<Rightarrow> Inl (PyExc ''TypeError''))"

definition verify_anchor :: "'k offline_env \<Rightarrow> (doc \<times> json) list \<Rightarrow> (bool \<times> report_line list) result" where
  "verify_anchor env anchor =
     (let head = get_item anchor ''chain_head_hash''; sig = get_item anchor ''signature'';
          pem = get_item anchor ''signing_public_key_pem''
      in if \<not> json_truthy head \<or> \<not> json_truthy sig then Inr (False, [Anchor_incomplete])
         else if \<not> json_truthy pem then Inr (False, [Anchor_no_key])
         else case head of
           JStr h \<Rightarrow>
             rbind (verify_ecdsa (of_crypto env) pem h sig) (\<lambda>ok.
               Inr (ok, [Hash_is h, Key_only (get_item anchor ''signing_key_version''),
                 if ok then Signature_valid else Signature_invalid]))
         | _ \<Rightarrow> rbind (verify_ecdsa (of_crypto env) pem [] sig) (\<lambda>ok. Inl (PyExc ''TypeError'')))"

definition has_key :: "string \<Rightarrow> (doc \<times> json) list \<Rightarrow> bool" where
  "has_key k kvs \<longleftrightarrow> lit k \<in> fst ` set kvs"

definition verify_document :: "'k offline_env \<Rightarrow> (doc \<times> json) list \<Rightarrow> (bool \<times> report_line list) result" where
  "verify_document env d =
     (if has_key ''chain_head_hash'' d \<and> has_key ''signature'' d then verify_anchor env d else verify_export env d)"

text \<open>
  \<open>main\<close>: the exit code. \<open>src\<close> is the text read (an exception when the file cannot be read),
  \<open>loads\<close> is \<open>json.loads\<close>; a document that is not a dictionary has no \<open>get\<close>.
\<close>

definition main :: "'k offline_env \<Rightarrow> (doc \<Rightarrow> json option) \<Rightarrow> nat \<Rightarrow> doc result \<Rightarrow> nat result" where
  "main env loads argc src =
     (if argc \<noteq> 2 then Inr 2
      else rbind src (\<lambda>raw.
        case loads raw of
          None \<Rightarrow> Inr 2
        | Some (JObj d) \<Rightarrow> rbind (verify_document env d) (\<lambda>(ok, notes). Inr (if ok then 0 else 1))
        | Some _ \<Rightarrow> Inl (PyExc ''AttributeError'')))"

section \<open>Agreement with the server\<close>

text \<open>The \<open>operation\<close> object of an export of the row \<open>r\<close>, whatever further fields it has.\<close>

definition shows_row :: "(doc \<times> json) list \<Rightarrow> operation \<Rightarrow> bool" where
  "shows_row kvs r \<longleftrightarrow>
     map_of kvs (lit ''id'') = Some (jstr (uuid_str (op_id r)))
   \<and> map_of kvs (lit ''trace_id'') = Some (jstr (uuid_str (op_trace_id r)))
   \<and> map_of kvs (lit ''actor_id'') = Some (jstr (uuid_str (op_actor_id r)))
   \<and> map_of kvs (lit ''artifact_digest'') = Some (jstr (op_artifact_digest r))
   \<and> map_of kvs (lit ''status'') = Some (jstr (status_str (op_status r)))
   \<and> map_of kvs (lit ''created_at'') = Some (jstr (isoformat (op_created_at r)))"

lemma isoformat_given: "isoformat c \<noteq> []"
  by (simp add: isoformat_def Let_def split: prod.splits)

lemma dumps_strings:
  "dumps_sorted fl (JObj (map (\<lambda>(k, v). (k, JStr v)) kvs)) = dumps_sorted fl' (JObj (map (\<lambda>(k, v). (k, JStr v)) kvs))"
  by (simp add: dumps_sorted_def o_def split_def)

lemma offline_content_row:
  assumes "shows_row kvs r"
  shows "offline_content env kvs = Inr (row_content r)"
proof -
  have "json_truthy (jstr (isoformat c))" for c using isoformat_given by (simp add: jstr_def)
  then show ?thesis using assms
    by (simp add: shows_row_def offline_content_def item_def str_of_json_def jstr_def row_content_def op_content_def
        hash_fields_def dumps_sorted_def)
qed

text \<open>
  C12: the offline verifier recomputes the server's hash: on an export that shows a row, with any
  further fields and in any order, it computes exactly the operation hash that sealing signed.
\<close>
theorem offline_hash_agrees:
  assumes "shows_row kvs r"
  shows "offline_operation_hash env kvs = Inr (op_hash (of_sha env) r)"
  using offline_content_row [OF assms, of env] by (simp add: offline_operation_hash_def op_hash_content)

section \<open>What a verdict means\<close>

lemma verify_ecdsa_true:
  assumes "verify_ecdsa cr pem h sig = Inr True"
  shows "\<exists>p s k der m. pem = JStr p \<and> sig = JStr s \<and> load_pem cr p = Inr k \<and> is_ec cr k
    \<and> b64decode (strip_vault_prefix s) = Inr der \<and> fromhex h = Inr m \<and> ec_ok cr k m der"
  using assms by (cases pem; cases sig) (auto simp: verify_ecdsa_def res_simps split: if_splits)

lemma verify_export_true:
  assumes "verify_export env export = Inr (True, notes)"
  shows "\<exists>fs h. get_item export ''operation'' = JObj fs \<and> offline_operation_hash env fs = Inr h
    \<and> verify_ecdsa (of_crypto env) (get_item export ''verification_public_key_pem'') (lit h)
        (get_item export ''digital_signature'') = Inr True"
  using assms by (auto simp: verify_export_def Let_def res_simps split: json.splits if_splits)

lemma hex_value_hexd: "d \<in> {0..<16} \<Longrightarrow> hex_value (of_char (hexd d)) = Some (nat d)"
proof -
  assume d: "d \<in> {0..<16}"
  then have "int (of_char (hexd d)) = (if d < 10 then 48 + d else 87 + d)"
    by (simp add: of_nat_of_char of_char_hexd)
  then have "of_char (hexd d) = (if d < 10 then 48 + nat d else 87 + nat d)" using d by (auto split: if_splits)
  then show ?thesis using d by (auto simp: hex_value_def split: if_splits)
qed

lemma fromhex_inj:
  "length s = 2 * n \<Longrightarrow> length t = 2 * n \<Longrightarrow> set s \<subseteq> hexd ` {0..<16} \<Longrightarrow> set t \<subseteq> hexd ` {0..<16} \<Longrightarrow>
     fromhex (lit s) = Inr m \<Longrightarrow> fromhex (lit t) = Inr m \<Longrightarrow> s = t"
proof (induction n arbitrary: s t m)
  case (Suc n)
  obtain a b u where s: "s = a # b # u" "length u = 2 * n" using Suc.prems(1) by (cases s; cases "tl s") auto
  obtain c d v where t: "t = c # d # v" "length v = 2 * n" using Suc.prems(2) by (cases t; cases "tl t") auto
  obtain a' b' c' d' where h: "a = hexd a'" "b = hexd b'" "c = hexd c'" "d = hexd d'"
    and r: "a' \<in> {0..<16}" "b' \<in> {0..<16}" "c' \<in> {0..<16}" "d' \<in> {0..<16}"
    using Suc.prems(3,4) s t by auto
  note hv = r [THEN hex_value_hexd] r [THEN hexd_code, THEN conjunct2]
  obtain x y where x: "fromhex (lit u) = Inr x" "m = (16 * nat a' + nat b') # x"
    and y: "fromhex (lit v) = Inr y" "m = (16 * nat c' + nat d') # y"
    using Suc.prems(5,6) hv by (auto simp: s t h res_simps)
  then have "x = y" and e: "16 * nat a' + nat b' = 16 * nat c' + nat d'" by auto
  have lt: "nat b' < 16" "nat d' < 16" using r by auto
  have "nat a' = (16 * nat a' + nat b') div 16" "nat c' = (16 * nat c' + nat d') div 16" using lt by simp_all
  with e have "nat a' = nat c'" by simp
  with e have "nat b' = nat d'" by simp
  with \<open>nat a' = nat c'\<close> have "a = c" "b = d" using r h by (auto simp: nat_eq_iff2)
  moreover have "u = v" using Suc.IH [OF s(2) t(2) _ _ x(1)] y(1) \<open>x = y\<close> Suc.prems(3,4) s t by auto
  ultimately show ?case using s t by simp
qed simp

text \<open>
  C11: what the auditor learns. If the verifier accepts an export that shows a row, then the key embedded in
  the export is an elliptic-curve key under which the signature of the export verifies over exactly the
  bytes of the operation hash of the fields shown; and any row whose operation hash has these bytes agrees
  with the row shown in every hashed field, or the two canonical texts are an explicit SHA-256 collision.
  The key comes from the export itself: that it is the key of the server the auditor has to know from
  elsewhere.
\<close>
theorem offline_accept_means_signed:
  assumes "verify_export env export = Inr (True, notes)" and "of_sha env = sha256"
    and "get_item export ''operation'' = JObj fs" and "shows_row fs r"
  shows "\<exists>p k s der m. get_item export ''verification_public_key_pem'' = JStr p \<and> load_pem (of_crypto env) p = Inr k
      \<and> is_ec (of_crypto env) k \<and> get_item export ''digital_signature'' = JStr s
      \<and> b64decode (strip_vault_prefix s) = Inr der \<and> fromhex (lit (op_hash sha256 r)) = Inr m
      \<and> ec_ok (of_crypto env) k m der
      \<and> (\<forall>r'. fromhex (lit (op_hash sha256 r')) = Inr m \<longrightarrow>
           (op_id r' = op_id r \<and> op_trace_id r' = op_trace_id r \<and> op_actor_id r' = op_actor_id r
            \<and> op_artifact_digest r' = op_artifact_digest r \<and> op_status r' = op_status r
            \<and> isoformat (op_created_at r') = isoformat (op_created_at r))
         \<or> (row_content r' \<noteq> row_content r \<and> sha256 (row_content r') = sha256 (row_content r)))"
proof -
  from verify_export_true [OF assms(1)] assms(3) obtain h where
    h: "offline_operation_hash env fs = Inr h"
      "verify_ecdsa (of_crypto env) (get_item export ''verification_public_key_pem'') (lit h)
        (get_item export ''digital_signature'') = Inr True" by auto
  from h(1) offline_content_row [OF assms(4), of env] assms(2) have eq: "h = op_hash sha256 r"
    by (simp add: offline_operation_hash_def op_hash_content)
  from verify_ecdsa_true [OF h(2)] obtain p s k der m where
    v: "get_item export ''verification_public_key_pem'' = JStr p" "load_pem (of_crypto env) p = Inr k" "is_ec (of_crypto env) k"
      "get_item export ''digital_signature'' = JStr s" "b64decode (strip_vault_prefix s) = Inr der"
      "fromhex (lit (op_hash sha256 r)) = Inr m" "ec_ok (of_crypto env) k m der" unfolding eq by blast
  have "(op_id r' = op_id r \<and> op_trace_id r' = op_trace_id r \<and> op_actor_id r' = op_actor_id r
      \<and> op_artifact_digest r' = op_artifact_digest r \<and> op_status r' = op_status r
      \<and> isoformat (op_created_at r') = isoformat (op_created_at r))
    \<or> (row_content r' \<noteq> row_content r \<and> sha256 (row_content r') = sha256 (row_content r))"
    if r': "fromhex (lit (op_hash sha256 r')) = Inr m" for r'
  proof -
    have "op_hash sha256 r' = op_hash sha256 r"
      by (rule fromhex_inj [OF _ _ _ _ r' v(6), of 32]) (simp_all add: op_hash_content sha256.sha_length sha256.sha_digits)
    then have e: "sha256 (row_content r') = sha256 (row_content r)" by (simp add: op_hash_content)
    show ?thesis
    proof (cases "row_content r' = row_content r")
      case True
      then show ?thesis using op_content_inj [of "uuid_str (op_id r')"]
        unfolding row_content_def by (metis status_str_inj uuid_str_inj)
    qed (use e in blast)
  qed
  with v show ?thesis by blast
qed

section \<open>Witnesses\<close>

definition row_fields :: "operation \<Rightarrow> (doc \<times> json) list" where
  "row_fields r = [(lit ''id'', jstr (uuid_str (op_id r))), (lit ''trace_id'', jstr (uuid_str (op_trace_id r))),
     (lit ''actor_id'', jstr (uuid_str (op_actor_id r))), (lit ''artifact_digest'', jstr (op_artifact_digest r)),
     (lit ''status'', jstr (status_str (op_status r))), (lit ''created_at'', jstr (isoformat (op_created_at r)))]"

lemma row_fields_show: "shows_row (row_fields r) r"
  by (simp add: shows_row_def row_fields_def)

lemma offline_hash_agrees_row: "offline_operation_hash env (row_fields r) = Inr (op_hash (of_sha env) r)"
  using offline_content_row [OF row_fields_show, of env r] by (simp add: offline_operation_hash_def op_hash_content)

lemma offline_hash_agrees_witness:
  "offline_operation_hash (undefined\<lparr>of_sha := sha256\<rparr>) ((lit ''extra'', JNull) # row_fields (sample_op 1 2))
     = Inr (op_hash sha256 (sample_op 1 2))"
proof -
  have "shows_row ((lit ''extra'', JNull) # row_fields (sample_op 1 2)) (sample_op 1 2)"
    using row_fields_show [of "sample_op 1 2"] by (simp add: shows_row_def)
  from offline_hash_agrees [OF this, of "undefined\<lparr>of_sha := sha256\<rparr>"] show ?thesis by simp
qed

text \<open>A key for which the signature of a message is the message.\<close>

definition mirror_env :: "unit offline_env" where
  "mirror_env = \<lparr>of_crypto = \<lparr>load_pem = (\<lambda>p. Inr ()), is_ec = (\<lambda>k. True), ec_ok = (\<lambda>k m s. m = s)\<rparr>,
     of_sha = sha256, of_str = (\<lambda>j. []), of_float = (\<lambda>q. [])\<rparr>"

lemma fromhex_bytes: "fromhex s = Inr m \<Longrightarrow> is_bytes m"
proof (induction s arbitrary: m rule: fromhex.induct)
  case (3 c d s)
  have "hex_value c = Some x \<Longrightarrow> x < 16" for c x by (auto simp: hex_value_def split: if_splits)
  note v = this [of c] this [of d]
  show ?case
  proof (cases "hex_blank c")
    case True
    with 3 show ?thesis by simp
  next
    case False
    with "3.prems" obtain x y bs where h: "hex_value c = Some x" "hex_value d = Some y" "fromhex s = Inr bs"
      "m = (16 * x + y) # bs" by (auto simp: res_simps split: option.splits)
    with "3.IH" False have "is_bytes bs" by auto
    with v h show ?thesis by fastforce
  qed
qed (auto split: if_splits)

lemma offline_accept_means_signed_witness:
  "\<exists>export notes. verify_export mirror_env export = Inr (True, notes)
    \<and> (\<exists>s m. get_item export ''digital_signature'' = JStr s \<and> b64decode (strip_vault_prefix s) = Inr m
        \<and> fromhex (lit (op_hash sha256 (sample_op 1 2))) = Inr m)"
proof -
  let ?r = "sample_op 1 2"
  obtain m where m: "fromhex (lit (op_hash sha256 ?r)) = Inr m"
    using sha256.sha_fromhex [of "row_content ?r"] by (auto simp: op_hash_content)
  define export where "export = [(lit ''operation'', JObj (row_fields ?r)), (lit ''verification_public_key_pem'', jstr ''k''),
       (lit ''digital_signature'', JStr (vault_token (lit ''v1'') (b64encode m)))]"
  have "strip_vault_prefix (vault_token (lit ''v1'') (b64encode m)) = b64encode m"
    by (rule strip_vault_token) simp
  then have "verify_ecdsa (of_crypto mirror_env) (jstr ''k'') (lit (op_hash sha256 ?r))
      (JStr (vault_token (lit ''v1'') (b64encode m))) = Inr True"
    using m b64_roundtrip [OF fromhex_bytes [OF m]] by (simp add: verify_ecdsa_def mirror_env_def jstr_def)
  moreover have "offline_operation_hash mirror_env (row_fields ?r) = Inr (op_hash sha256 ?r)"
    using offline_hash_agrees_row [of mirror_env ?r] by (simp add: mirror_env_def)
  moreover have "row_fields ?r \<noteq> []" "vault_token (lit ''v1'') (b64encode m) \<noteq> []" by (simp_all add: row_fields_def vault_token_def vault_prefix_def)
  ultimately obtain ns where n: "verify_export mirror_env export = Inr (True, ns)"
    by (auto simp: verify_export_def export_def get_item_def jstr_def)
  have g: "get_item export ''operation'' = JObj (row_fields ?r)" by (simp add: export_def get_item_def)
  from offline_accept_means_signed [OF n _ g row_fields_show] n show ?thesis
    by (auto simp: mirror_env_def)
qed

end
