(* ===== verification/Access.thy ===== *)
theory Access
  imports Evidence
begin

text \<open>
  Who may call the API: token validation with the cached key set, the MFA check, roles and
  self-approval (\<open>core/auth_oidc.py\<close>), OAuth for MCP agents and tool scopes (\<open>mcp/auth.py\<close>,
  \<open>mcp/scopes.py\<close>), tenant resolution (\<open>core/tenant.py\<close>). PyJWT is a parameter: reading a token's
  header and decoding it under a key. A decoded payload is a JSON object.
\<close>

section \<open>Python on claims\<close>

type_synonym claims = "(doc \<times> json) list"

definition claim_or :: "claims \<Rightarrow> string \<Rightarrow> json \<Rightarrow> json" where
  "claim_or p k x = dict_get p (lit k) x"

text \<open>\<open>s in v\<close>: membership in a list, a substring, a key; other values raise.\<close>

fun json_contains :: "doc \<Rightarrow> json \<Rightarrow> bool result" where
  "json_contains s (JArr js) = Inr (JStr s \<in> set js)"
| "json_contains s (JStr t) = Inr (is_infix s t)"
| "json_contains s (JObj kvs) = Inr (s \<in> fst ` set kvs)"
| "json_contains s _ = Inl (PyExc ''TypeError'')"

definition unauthorized :: exn where "unauthorized = HTTPException 401"
definition forbidden :: exn where "forbidden = HTTPException 403"
definition invalid_token :: exn where "invalid_token = PyExc ''InvalidTokenError''"

section \<open>The key set (\_get\_jwks)\<close>

text \<open>A key set is its keys with their identifiers. \<open>None\<close> until the first fetch.\<close>

type_synonym 'k keyset = "(doc option \<times> 'k) list"

record 'k jwks_cache =
  jk_set :: "'k keyset option"
  jk_at :: instant

definition jwks_ttl :: int where
  "jwks_ttl = 900 * 1000000"

text \<open>\<open>fetch\<close>: the request, its parsing, and the time after it.\<close>

definition get_jwks :: "instant \<Rightarrow> ('k keyset \<times> instant) result \<Rightarrow> 'k jwks_cache \<Rightarrow> 'k jwks_cache \<times> 'k keyset result" where
  "get_jwks now fetch c =
     (case jk_set c of
        Some ks \<Rightarrow>
          if now - jk_at c < jwks_ttl then (c, Inr ks)
          else (case fetch of Inl e \<Rightarrow> (c, Inl e) | Inr (ks', t) \<Rightarrow> (\<lparr>jk_set = Some ks', jk_at = t\<rparr>, Inr ks'))
      | None \<Rightarrow> (case fetch of Inl e \<Rightarrow> (c, Inl e) | Inr (ks', t) \<Rightarrow> (\<lparr>jk_set = Some ks', jk_at = t\<rparr>, Inr ks')))"

section \<open>Decoding\<close>

record 'k jwt =
  jw_header :: "doc \<Rightarrow> claims result"
  jw_decode :: "doc \<Rightarrow> 'k \<Rightarrow> string list \<Rightarrow> string \<Rightarrow> claims result"

definition key_of :: "json \<Rightarrow> 'k keyset \<Rightarrow> 'k option" where
  "key_of kid ks =
     (if json_truthy kid
      then map_option snd (find (\<lambda>(i, k). (case i of Some x \<Rightarrow> JStr x | None \<Rightarrow> JNull) = kid) ks)
      else (case ks of [] \<Rightarrow> None | (i, k) # _ \<Rightarrow> Some k))"

definition decode_with_jwks :: "'k jwt \<Rightarrow> string \<Rightarrow> doc \<Rightarrow> 'k keyset \<Rightarrow> claims result" where
  "decode_with_jwks jw aud token ks =
     rbind (jw_header jw token) (\<lambda>h.
       case key_of (claim_or h ''kid'' JNull) ks of
         None \<Rightarrow> Inl invalid_token
       | Some k \<Rightarrow> jw_decode jw token k [''RS256''] aud)"

text \<open>Only an invalid token becomes 401; a failed fetch of the keys is not caught.\<close>

definition decode_token ::
  "'k jwt \<Rightarrow> string \<Rightarrow> instant \<Rightarrow> ('k keyset \<times> instant) result \<Rightarrow> doc \<Rightarrow> 'k jwks_cache \<Rightarrow> 'k jwks_cache \<times> claims result" where
  "decode_token jw aud now fetch token c =
     (case get_jwks now fetch c of
        (c1, Inl e) \<Rightarrow> (c1, Inl (if e = invalid_token then unauthorized else e))
      | (c1, Inr ks) \<Rightarrow>
          (case decode_with_jwks jw aud token ks of
             Inl e \<Rightarrow> (c1, Inl (if e = invalid_token then unauthorized else e))
           | Inr p \<Rightarrow> (c1, Inr p)))"

definition require_mfa :: "bool \<Rightarrow> claims \<Rightarrow> unit result" where
  "require_mfa enforced p =
     (if \<not> enforced then Inr ()
      else rbind (json_contains (lit ''otp'') (claim_or p ''amr'' (JArr []))) (\<lambda>b. raise_if (\<not> b) unauthorized))"

definition get_roles :: "claims \<Rightarrow> json result" where
  "get_roles p = json_get (claim_or p ''realm_access'' (JObj [])) ''roles'' (JArr [])"

definition has_role :: "string \<Rightarrow> claims \<Rightarrow> bool result" where
  "has_role role p = rbind (get_roles p) (json_contains (lit role))"

text \<open>The dependency \<open>require_auth\<close>: the payload, or the exception that ends the request.\<close>

record 'k auth_env =
  au_jwt :: "'k jwt"
  au_client :: string
  au_mfa :: bool
  au_now :: instant
  au_fetch :: "('k keyset \<times> instant) result"

definition require_auth :: "'k auth_env \<Rightarrow> doc option \<Rightarrow> 'k jwks_cache \<Rightarrow> 'k jwks_cache \<times> claims result" where
  "require_auth env cred c =
     (case cred of
        None \<Rightarrow> (c, Inl unauthorized)
      | Some token \<Rightarrow>
          (case decode_token (au_jwt env) (au_client env) (au_now env) (au_fetch env) token c of
             (c1, Inl e) \<Rightarrow> (c1, Inl e)
           | (c1, Inr p) \<Rightarrow> (c1, rbind (require_mfa (au_mfa env) p) (\<lambda>_. Inr p))))"

definition require_role :: "string \<Rightarrow> claims \<Rightarrow> claims result" where
  "require_role role p = rbind (has_role role p) (\<lambda>b. if b then Inr p else Inl forbidden)"

definition require_reviewer :: "claims \<Rightarrow> claims result" where
  "require_reviewer p =
     rbind (has_role ''reviewer'' p) (\<lambda>r. if r then Inr p
       else rbind (has_role ''admin'' p) (\<lambda>a. if a then Inr p else Inl forbidden))"

definition require_admin :: "claims \<Rightarrow> claims result" where
  "require_admin p = rbind (has_role ''admin'' p) (\<lambda>b. if b then Inr p else Inl forbidden)"

definition check_self_approval :: "string \<Rightarrow> claims \<Rightarrow> unit result" where
  "check_self_approval actor p = raise_if (claim_or p ''sub'' (JStr []) = jstr actor) forbidden"

section \<open>MCP agents (mcp/auth.py, mcp/scopes.py)\<close>

record mcp_settings =
  ms_env :: string
  ms_static_token :: doc

definition dev_payload :: "doc \<Rightarrow> claims" where
  "dev_payload token = [(lit ''sub'', jstr ''dev-agent''),
     (lit ''scope'', jstr ''mcp:scan mcp:sanitize mcp:classify mcp:audit mcp:policy mcp:approve''),
     (lit ''client_id'', jstr ''dev''), (lit ''_raw_token'', JStr token)]"

text \<open>Whatever exception decoding ends with, other than an \<open>HTTPException\<close>, becomes 401.\<close>

definition require_mcp_oauth ::
  "'k auth_env \<Rightarrow> mcp_settings \<Rightarrow> doc option \<Rightarrow> 'k jwks_cache \<Rightarrow> 'k jwks_cache \<times> claims result" where
  "require_mcp_oauth env ms cred c =
     (case cred of
        None \<Rightarrow> (c, Inl unauthorized)
      | Some token \<Rightarrow>
          if ms_env ms = ''dev'' \<and> ms_static_token ms \<noteq> [] \<and> token = ms_static_token ms then (c, Inr (dev_payload token))
          else (case decode_token (au_jwt env) (au_client env) (au_now env) (au_fetch env) token c of
             (c1, Inl (HTTPException n)) \<Rightarrow> (c1, Inl (HTTPException n))
           | (c1, Inl (PyExc n)) \<Rightarrow> (c1, Inl unauthorized)
           | (c1, Inr p) \<Rightarrow>
               (c1, (let aud = claim_or p ''aud'' (JArr [])
                     in rbind (json_contains (lit ''safecontext-api'') (case aud of JStr a \<Rightarrow> JArr [JStr a] | _ \<Rightarrow> aud))
                          (\<lambda>b. if b then Inr p else Inl unauthorized)))))"

definition tool_scopes :: "(string \<times> string) list" where
  "tool_scopes = [(''safecontext.scan'', ''mcp:scan''), (''safecontext.sanitize'', ''mcp:sanitize''),
     (''safecontext.classify'', ''mcp:classify''), (''safecontext.audit'', ''mcp:audit''),
     (''safecontext.policy.get'', ''mcp:policy''), (''safecontext.approve'', ''mcp:approve'')]"

definition require_tool_scope :: "string \<Rightarrow> claims \<Rightarrow> unit result" where
  "require_tool_scope tool p =
     (case map_of tool_scopes tool of
        None \<Rightarrow> Inr ()
      | Some req \<Rightarrow>
          (case claim_or p ''scope'' (JStr []) of
             JStr s \<Rightarrow> raise_if (lit req \<notin> set (split_ws is_space s)) forbidden
           | _ \<Rightarrow> Inl (PyExc ''AttributeError'')))"

section \<open>Tenants (core/tenant.py)\<close>

definition default_tenant_id :: uuid where
  "default_tenant_id = 0"

definition sentinel_actor_id :: uuid where
  "sentinel_actor_id = 1"

datatype state_tenant = No_tenant | Tenant_uuid uuid | Tenant_text string

definition resolve_tenant_id :: "state_tenant \<Rightarrow> uuid result" where
  "resolve_tenant_id s =
     (case s of
        No_tenant \<Rightarrow> Inr default_tenant_id
      | Tenant_uuid u \<Rightarrow> Inr u
      | Tenant_text t \<Rightarrow> if t = [] then Inr default_tenant_id else uuid_of_str t)"

text \<open>\<open>get_tenant_db\<close>: the value of \<open>app.current_tenant_id\<close> in the transaction.\<close>

definition tenant_setting :: "state_tenant \<Rightarrow> string result" where
  "tenant_setting s = rbind (resolve_tenant_id s) (\<lambda>u. Inr (uuid_str u))"

section \<open>What authentication guarantees\<close>

lemma get_jwks_fresh:
  assumes "get_jwks now fetch c = (c', Inr ks)"
  shows "jk_set c' = Some ks \<and> (c' = c \<and> now - jk_at c < jwks_ttl \<or> (\<exists>t. fetch = Inr (ks, t) \<and> jk_at c' = t))"
  using assms by (auto simp: get_jwks_def split: option.splits if_splits sum.splits)

lemma decode_token_sound:
  assumes "decode_token jw aud now fetch token c = (c', Inr p)"
  shows "\<exists>ks k h. jk_set c' = Some ks \<and> (c' = c \<and> now - jk_at c < jwks_ttl \<or> (\<exists>t. fetch = Inr (ks, t)))
    \<and> jw_header jw token = Inr h \<and> key_of (claim_or h ''kid'' JNull) ks = Some k
    \<and> jw_decode jw token k [''RS256''] aud = Inr p"
proof -
  from assms obtain ks where g: "get_jwks now fetch c = (c', Inr ks)" and d: "decode_with_jwks jw aud token ks = Inr p"
    by (auto simp: decode_token_def split: prod.splits sum.splits)
  from d obtain h k where "jw_header jw token = Inr h" "key_of (claim_or h ''kid'' JNull) ks = Some k"
    "jw_decode jw token k [''RS256''] aud = Inr p"
    by (auto simp: decode_with_jwks_def res_simps split: option.splits)
  with get_jwks_fresh [OF g] show ?thesis by blast
qed

lemma key_of_in: "key_of kid ks = Some k \<Longrightarrow> k \<in> snd ` set ks"
  by (auto simp: key_of_def find_Some_iff split: if_splits list.splits) (metis image_eqI nth_mem snd_conv)+

lemma key_of_kid: "key_of (JStr kid) ks = Some k \<Longrightarrow> kid \<noteq> [] \<Longrightarrow> (Some kid, k) \<in> set ks"
  by (auto simp: key_of_def find_Some_iff split: option.splits) (metis json.distinct json.inject(4) nth_mem option.exhaust)

lemma mfa_otp:
  assumes "require_mfa True p = Inr u" and "claim_or p ''amr'' (JArr []) = JArr js"
  shows "jstr ''otp'' \<in> set js"
  using assms by (auto simp: require_mfa_def res_simps jstr_def)

text \<open>
  C13: a request passes \<open>require_auth\<close> only with a token that decodes, under RS256 and the
  audience of the client, with a key of a key set that is less than 900 seconds old or was fetched
  in this request, and that is the key named by the token when it names one; and, when MFA is
  enforced, whose \<open>amr\<close>, when it is a list, contains \<open>otp\<close>. Everything else raises. (\<open>POST /v1/scan\<close> does
  not use \<open>require_auth\<close>: it decodes the token itself.)
\<close>
theorem auth_only_valid_tokens:
  assumes "require_auth env cred c = (c', Inr p)"
  shows "\<exists>token ks h k. cred = Some token \<and> jk_set c' = Some ks
    \<and> (c' = c \<and> au_now env - jk_at c < jwks_ttl \<or> (\<exists>t. au_fetch env = Inr (ks, t)))
    \<and> jw_header (au_jwt env) token = Inr h \<and> k \<in> snd ` set ks
    \<and> (\<forall>kid. claim_or h ''kid'' JNull = JStr kid \<and> kid \<noteq> [] \<longrightarrow> (Some kid, k) \<in> set ks)
    \<and> jw_decode (au_jwt env) token k [''RS256''] (au_client env) = Inr p
    \<and> (au_mfa env \<longrightarrow> (\<forall>js. claim_or p ''amr'' (JArr []) = JArr js \<longrightarrow> jstr ''otp'' \<in> set js))"
proof -
  from assms obtain token where t: "cred = Some token"
    "decode_token (au_jwt env) (au_client env) (au_now env) (au_fetch env) token c = (c', Inr p)"
    "require_mfa (au_mfa env) p = Inr ()"
    by (auto simp: require_auth_def res_simps split: option.splits prod.splits sum.splits)
  from decode_token_sound [OF t(2)] obtain ks k h where
    d: "jk_set c' = Some ks" "c' = c \<and> au_now env - jk_at c < jwks_ttl \<or> (\<exists>t. au_fetch env = Inr (ks, t))"
      "jw_header (au_jwt env) token = Inr h" "key_of (claim_or h ''kid'' JNull) ks = Some k"
      "jw_decode (au_jwt env) token k [''RS256''] (au_client env) = Inr p" by blast
  have kid: "\<forall>kid. claim_or h ''kid'' JNull = JStr kid \<and> kid \<noteq> [] \<longrightarrow> (Some kid, k) \<in> set ks"
  proof (intro allI impI, elim conjE)
    fix kid assume "claim_or h ''kid'' JNull = JStr kid" "kid \<noteq> []"
    with d(4) show "(Some kid, k) \<in> set ks" by (simp add: key_of_kid)
  qed
  have mfa: "au_mfa env \<longrightarrow> (\<forall>js. claim_or p ''amr'' (JArr []) = JArr js \<longrightarrow> jstr ''otp'' \<in> set js)"
    using t(3) mfa_otp [of p] by (cases "au_mfa env") simp_all
  show ?thesis
    by (rule exI [of _ token], rule exI [of _ ks], rule exI [of _ h], rule exI [of _ k],
        intro conjI t(1) d(1,2,3,5) key_of_in [OF d(4)] kid mfa)
qed

definition lists_api :: "json \<Rightarrow> bool result" where
  "lists_api aud = json_contains (lit ''safecontext-api'') (case aud of JStr a \<Rightarrow> JArr [JStr a] | _ \<Rightarrow> aud)"

lemma lists_api_true:
  "lists_api aud = Inr True \<Longrightarrow> (case aud of JStr a \<Rightarrow> a = lit ''safecontext-api''
     | JArr js \<Rightarrow> jstr ''safecontext-api'' \<in> set js | JObj kvs \<Rightarrow> lit ''safecontext-api'' \<in> fst ` set kvs | _ \<Rightarrow> False)"
  unfolding lists_api_def jstr_def by (cases aud) (simp_all del: list.map)

lemma mcp_oauth_cases:
  assumes "require_mcp_oauth env ms cred c = (c', Inr p)"
    and "\<not> (ms_env ms = ''dev'' \<and> ms_static_token ms \<noteq> [] \<and> cred = Some (ms_static_token ms))"
  obtains token where "cred = Some token"
    "decode_token (au_jwt env) (au_client env) (au_now env) (au_fetch env) token c = (c', Inr p)"
    "lists_api (claim_or p ''aud'' (JArr [])) = Inr True"
proof (cases cred)
  case None
  with assms(1) show ?thesis by (simp add: require_mcp_oauth_def)
next
  case (Some token)
  let ?d = "decode_token (au_jwt env) (au_client env) (au_now env) (au_fetch env) token c"
  have nd: "\<not> (ms_env ms = ''dev'' \<and> ms_static_token ms \<noteq> [] \<and> token = ms_static_token ms)"
    using assms(2) Some by blast
  obtain c1 r where d: "?d = (c1, r)" by (cases ?d)
  have run: "(c', Inr p) = (case r of Inl (HTTPException n) \<Rightarrow> (c1, Inl (HTTPException n))
      | Inl (PyExc n) \<Rightarrow> (c1, Inl unauthorized)
      | Inr p \<Rightarrow> (c1, rbind (lists_api (claim_or p ''aud'' (JArr []))) (\<lambda>b. if b then Inr p else Inl unauthorized)))"
    using assms(1) Some nd d
    unfolding require_mcp_oauth_def lists_api_def Let_def by (simp only: option.case if_False prod.case)
  show ?thesis
  proof (cases r)
    case (Inl e)
    with run show ?thesis by (cases e) auto
  next
    case (Inr q)
    with run have "c' = c1" "rbind (lists_api (claim_or q ''aud'' (JArr []))) (\<lambda>b. if b then Inr q else Inl unauthorized) = Inr p"
      by simp_all
    then have "q = p" "lists_api (claim_or p ''aud'' (JArr [])) = Inr True" by (auto simp: res_simps split: if_splits)
    with that Some d Inr \<open>c' = c1\<close> show ?thesis by simp
  qed
qed

text \<open>
  The scope check of a known tool passes only for an agent whose token carries the scope of that tool as a
  whole word of its \<open>scope\<close> claim, and either is the static token of a development setup or names
  this API as an audience. Theory \<open>Mcp_Api\<close> says which routes make this check.
\<close>
theorem mcp_tool_needs_scope:
  assumes "require_mcp_oauth env ms cred c = (c', Inr p)" and "require_tool_scope tool p = Inr u"
    and "map_of tool_scopes tool = Some req"
  shows "\<exists>s. claim_or p ''scope'' (JStr []) = JStr s \<and> lit req \<in> set (split_ws is_space s)
    \<and> ((ms_env ms = ''dev'' \<and> ms_static_token ms \<noteq> [] \<and> cred = Some (ms_static_token ms))
       \<or> (\<exists>token ks k. cred = Some token \<and> jk_set c' = Some ks \<and> k \<in> snd ` set ks
            \<and> jw_decode (au_jwt env) token k [''RS256''] (au_client env) = Inr p
            \<and> (case claim_or p ''aud'' (JArr []) of JStr a \<Rightarrow> a = lit ''safecontext-api''
               | JArr js \<Rightarrow> jstr ''safecontext-api'' \<in> set js | JObj kvs \<Rightarrow> lit ''safecontext-api'' \<in> fst ` set kvs | _ \<Rightarrow> False)))"
proof -
  from assms(2,3) obtain s where s: "claim_or p ''scope'' (JStr []) = JStr s" "lit req \<in> set (split_ws is_space s)"
    by (auto simp: require_tool_scope_def res_simps split: json.splits)
  show ?thesis
  proof (cases "ms_env ms = ''dev'' \<and> ms_static_token ms \<noteq> [] \<and> cred = Some (ms_static_token ms)")
    case True
    with s show ?thesis by blast
  next
    case False
    from mcp_oauth_cases [OF assms(1) False] obtain token where t: "cred = Some token"
      "decode_token (au_jwt env) (au_client env) (au_now env) (au_fetch env) token c = (c', Inr p)"
      "lists_api (claim_or p ''aud'' (JArr [])) = Inr True" .
    from decode_token_sound [OF t(2)] obtain ks k h where
      d: "jk_set c' = Some ks" "key_of (claim_or h ''kid'' JNull) ks = Some k"
        "jw_decode (au_jwt env) token k [''RS256''] (au_client env) = Inr p" by blast
    note aud = lists_api_true [OF t(3)]
    show ?thesis using s t(1) d key_of_in [OF d(2)] aud by blast
  qed
qed

text \<open>An actor never passes the self-approval check on its own work.\<close>

lemma no_self_approval: "claim_or p ''sub'' (JStr []) = jstr a \<Longrightarrow> check_self_approval a p = Inl forbidden"
  by (simp add: check_self_approval_def raise_if_def)

lemma admin_is_reviewer: "require_admin p = Inr q \<Longrightarrow> is_ok (has_role ''reviewer'' p) \<Longrightarrow> require_reviewer p = Inr p"
  by (auto simp: require_admin_def require_reviewer_def res_simps split: if_splits)

section \<open>Witnesses\<close>

definition sample_jwt :: "nat jwt" where
  "sample_jwt = \<lparr>jw_header = (\<lambda>t. Inr [(lit ''kid'', jstr ''k1'')]),
     jw_decode = (\<lambda>t k algs aud. if k = 7 then Inr
       [(lit ''amr'', JArr [jstr ''otp'']), (lit ''aud'', jstr ''safecontext-api''), (lit ''scope'', jstr ''mcp:scan mcp:audit'')]
       else Inl invalid_token)\<rparr>"

definition sample_auth :: "nat auth_env" where
  "sample_auth = \<lparr>au_jwt = sample_jwt, au_client = ''safecontext-api'', au_mfa = True, au_now = 5,
     au_fetch = Inr ([(Some (lit ''k0''), 3), (Some (lit ''k1''), 7)], 6)\<rparr>"

definition no_keys :: "nat jwks_cache" where
  "no_keys = \<lparr>jk_set = None, jk_at = 0\<rparr>"

lemma sample_decodes:
  "decode_token sample_jwt ''safecontext-api'' 5 (au_fetch sample_auth) t no_keys =
     (\<lparr>jk_set = Some [(Some (lit ''k0''), 3), (Some (lit ''k1''), 7)], jk_at = 6\<rparr>,
      Inr [(lit ''amr'', JArr [jstr ''otp'']), (lit ''aud'', jstr ''safecontext-api''), (lit ''scope'', jstr ''mcp:scan mcp:audit'')])"
  by (simp add: decode_token_def get_jwks_def decode_with_jwks_def sample_jwt_def sample_auth_def no_keys_def
      key_of_def claim_or_def jstr_def)

lemma auth_only_valid_tokens_witness:
  "\<exists>c' p token ks k. require_auth sample_auth (Some [1]) no_keys = (c', Inr p) \<and> jk_set c' = Some ks
     \<and> k \<in> snd ` set ks \<and> jw_decode sample_jwt token k [''RS256''] ''safecontext-api'' = Inr p"
proof -
  let ?c = "fst (require_auth sample_auth (Some [1]) no_keys)"
  obtain p where p: "require_auth sample_auth (Some [1]) no_keys = (?c, Inr p)"
    using sample_decodes [of "[1]"]
    by (simp add: require_auth_def sample_auth_def require_mfa_def claim_or_def jstr_def raise_if_def)
  have j: "au_jwt sample_auth = sample_jwt" "au_client sample_auth = ''safecontext-api''" by (simp_all add: sample_auth_def)
  from auth_only_valid_tokens [OF p, unfolded j] obtain token ks k where
    "jk_set ?c = Some ks" "k \<in> snd ` set ks" "jw_decode sample_jwt token k [''RS256''] ''safecontext-api'' = Inr p"
    by (elim exE conjE) (rule that)
  with p show ?thesis by blast
qed

definition sample_claims :: claims where
  "sample_claims = [(lit ''amr'', JArr [jstr ''otp'']), (lit ''aud'', jstr ''safecontext-api''), (lit ''scope'', jstr ''mcp:scan mcp:audit'')]"

lemma sample_scope: "require_tool_scope ''safecontext.scan'' sample_claims = Inr ()"
  by (simp add: require_tool_scope_def tool_scopes_def sample_claims_def claim_or_def jstr_def split_ws_def
      is_space_def raise_if_def)

lemma sample_mcp:
  "require_mcp_oauth sample_auth \<lparr>ms_env = ''production'', ms_static_token = []\<rparr> (Some [1]) no_keys =
     (\<lparr>jk_set = Some [(Some (lit ''k0''), 3), (Some (lit ''k1''), 7)], jk_at = 6\<rparr>, Inr sample_claims)"
proof -
  have "decode_token (au_jwt sample_auth) (au_client sample_auth) (au_now sample_auth) (au_fetch sample_auth) [1] no_keys =
     (\<lparr>jk_set = Some [(Some (lit ''k0''), 3), (Some (lit ''k1''), 7)], jk_at = 6\<rparr>, Inr sample_claims)"
    using sample_decodes [of "[1]"] unfolding sample_claims_def by (simp add: sample_auth_def)
  moreover have "lists_api (claim_or sample_claims ''aud'' (JArr [])) = Inr True"
    by (simp add: lists_api_def sample_claims_def claim_or_def jstr_def)
  ultimately show ?thesis unfolding require_mcp_oauth_def lists_api_def Let_def by simp
qed

lemma mcp_tool_needs_scope_witness:
  "\<exists>s. claim_or sample_claims ''scope'' (JStr []) = JStr s \<and> lit ''mcp:scan'' \<in> set (split_ws is_space s)"
proof -
  have req: "map_of tool_scopes ''safecontext.scan'' = Some ''mcp:scan''" by (simp add: tool_scopes_def)
  from mcp_tool_needs_scope [OF sample_mcp sample_scope req] show ?thesis by blast
qed

end
