(* ===== verification/Rate_Limits.thy ===== *)
theory Rate_Limits
  imports Access "HOL-Library.AList" "HOL-Library.While_Combinator"
begin

text \<open>
  Rate limits and quotas: the per-client limiter of MCP in memory and in Redis
  (\<open>core/auth_oidc.py\<close>), the per-tenant limiter, the document size limit and the daily scan quota
  (\<open>core/quotas.py\<close>). The locale \<open>window_limiter\<close> states what a sliding-window limiter does with its
  log of time stamps, and proves the bound on accepted calls once; all three limiters interpret it.
\<close>

section \<open>Sliding windows\<close>

definition minute :: int where
  "minute = 60 * 1000000"

definition live :: "instant \<Rightarrow> instant list \<Rightarrow> instant list" where
  "live now ts = filter (\<lambda>t. now - minute < t) ts"

definition too_many :: exn where
  "too_many = HTTPException 429"

text \<open>\<open>check_rate_limit\<close>: one deque per client, oldest first; idle clients are evicted when there are many.\<close>

record rate_store =
  rs_clients :: "(string \<times> instant list) list"
  rs_last_eviction :: instant

definition deque_of :: "string \<Rightarrow> rate_store \<Rightarrow> instant list" where
  "deque_of c st = (case map_of (rs_clients st) c of Some d \<Rightarrow> d | None \<Rightarrow> [])"

definition append_max :: "nat \<Rightarrow> 'a list \<Rightarrow> 'a \<Rightarrow> 'a list" where
  "append_max n xs x = (let ys = xs @ [x] in drop (length ys - n) ys)"

definition evict_idle :: "instant \<Rightarrow> rate_store \<Rightarrow> rate_store" where
  "evict_idle now st =
     (if 10000 < length (rs_clients st) \<and> 30 * 1000000 < now - rs_last_eviction st
      then \<lparr>rs_clients = filter (\<lambda>(k, d). \<not> (d = [] \<or> last d < now - minute)) (rs_clients st), rs_last_eviction = now\<rparr>
      else st)"

definition check_rate_limit :: "nat \<Rightarrow> string \<Rightarrow> instant \<Rightarrow> rate_store \<Rightarrow> rate_store \<times> unit result" where
  "check_rate_limit rpm c now st =
     (let d = dropWhile (\<lambda>t. t \<le> now - minute) (deque_of c st);
          st1 = st\<lparr>rs_clients := AList.update c d (rs_clients st)\<rparr>
      in if rpm \<le> length d then (st1, Inl too_many)
         else (evict_idle now (st1\<lparr>rs_clients := AList.update c (append_max rpm d now) (rs_clients st1)\<rparr>), Inr ()))"

text \<open>
  \<open>check_rate_limit_redis\<close>: a sorted set of time stamps per key. The pipeline removes, counts and
  adds before the limit is looked at, so a rejected call is added too.
\<close>

type_synonym zsets = "string \<Rightarrow> instant list"

definition rl_key :: "string \<Rightarrow> string" where
  "rl_key c = ''sc:rl:'' @ c"

definition zadd :: "instant \<Rightarrow> instant list \<Rightarrow> instant list" where
  "zadd t z = (if t \<in> set z then z else z @ [t])"

definition check_rate_limit_redis :: "nat \<Rightarrow> string \<Rightarrow> unit result \<Rightarrow> instant \<Rightarrow> zsets \<Rightarrow> zsets \<times> unit result" where
  "check_rate_limit_redis rpm c exec now z =
     (let key = rl_key c;
          kept = filter (\<lambda>t. \<not> (0 \<le> t \<and> t \<le> now - minute)) (z key)
      in case exec of
           Inl e \<Rightarrow> (z, Inl e)
         | Inr u \<Rightarrow> (z(key := zadd now kept), raise_if (rpm \<le> length kept) too_many))"

text \<open>\<open>check_tenant_rate_limit\<close> of \<open>quotas.py\<close>.\<close>

type_synonym rpm_store = "uuid \<Rightarrow> instant list"

definition check_tenant_rate_limit :: "uuid \<Rightarrow> int option \<Rightarrow> instant \<Rightarrow> rpm_store \<Rightarrow> rpm_store \<times> unit result" where
  "check_tenant_rate_limit t limit now st =
     (case limit of
        None \<Rightarrow> (st, Inr ())
      | Some n \<Rightarrow>
          (let w = live now (st t)
           in if n \<le> int (length w) then (st(t := w), Inl too_many) else (st(t := w @ [now]), Inr ())))"

section \<open>The contract of a limiter\<close>

text \<open>At most \<open>n\<close> entries in the minute that ends with any of them.\<close>

definition at_most_per_minute :: "nat \<Rightarrow> instant list \<Rightarrow> bool" where
  "at_most_per_minute n xs \<longleftrightarrow> (\<forall>t \<in> set xs. length (filter (\<lambda>a. t - minute < a \<and> a \<le> t) xs) \<le> n)"

text \<open>The accepted calls of a sequence of calls of a limiter.\<close>

fun accepted :: "(instant \<Rightarrow> 's \<Rightarrow> 's \<times> unit result) \<Rightarrow> instant list \<Rightarrow> 's \<Rightarrow> instant list" where
  "accepted hit [] s = []"
| "accepted hit (t # ts) s = (case hit t s of (s', r) \<Rightarrow> (if is_ok r then [t] else []) @ accepted hit ts s')"

locale window_limiter =
  fixes hit :: "instant \<Rightarrow> 's \<Rightarrow> 's \<times> unit result" and log :: "'s \<Rightarrow> instant list" and limit :: nat
  assumes hit_accepts: "hit now s = (s', Inr u) \<Longrightarrow> \<forall>t \<in> set (log s). t < now \<Longrightarrow>
      length (live now (log s)) < limit \<and> mset (live now (log s)) + {#now#} \<subseteq># mset (log s')"
    and hit_rejects: "hit now s = (s', Inl e) \<Longrightarrow> mset (live now (log s)) \<subseteq># mset (log s')"
    and hit_logs: "hit now s = (s', r) \<Longrightarrow> set (log s') \<subseteq> insert now (set (log s))"
begin

lemma accepted_later: "sorted_wrt (<) (t # ts) \<Longrightarrow> a \<in> set (accepted hit ts s) \<Longrightarrow> t < a"
proof -
  have "set (accepted hit ts s) \<subseteq> set ts"
    by (induction ts arbitrary: s) (auto split: prod.splits)
  then show "sorted_wrt (<) (t # ts) \<Longrightarrow> a \<in> set (accepted hit ts s) \<Longrightarrow> t < a" by auto
qed

lemma live_live: "p \<le> now \<Longrightarrow> live now (live p ts) = live now ts"
  by (auto simp: live_def intro!: filter_cong)

lemma live_mono: "mset xs \<subseteq># mset ys \<Longrightarrow> mset (live now xs) \<subseteq># mset (live now ys)"
  by (simp add: live_def mset_filter multiset_filter_mono)

lemma accepted_bound:
  assumes "sorted_wrt (<) (t0 # ts)" and "\<forall>t \<in> set (log s) \<union> set A. t \<le> t0"
    and "mset (live t0 A) \<subseteq># mset (log s)" and "t \<in> set (accepted hit ts s)"
  shows "length (filter (\<lambda>a. t - minute < a \<and> a \<le> t) (A @ accepted hit ts s)) \<le> limit"
  using assms
proof (induction ts arbitrary: t0 s A)
  case Nil
  then show ?case by simp
next
  case (Cons n ts)
  obtain s' r where h: "hit n s = (s', r)" by fastforce
  have t0: "t0 < n" using Cons.prems(1) by simp
  have "\<forall>x \<in> set (log s) \<union> set A. x < n"
  proof
    fix x assume "x \<in> set (log s) \<union> set A"
    with Cons.prems(2) have "x \<le> t0" by blast
    with t0 show "x < n" by simp
  qed
  note lt = t0 this
  have liveA: "mset (live n A) \<subseteq># mset (live n (log s))"
    using live_mono [OF Cons.prems(3), of n] lt(1) by (simp add: live_live)
  have logs': "\<forall>x \<in> set (log s'). x \<le> n"
  proof
    fix x assume "x \<in> set (log s')"
    with hit_logs [OF h] have "x = n \<or> x \<in> set (log s)" by blast
    with lt(2) show "x \<le> n" by (auto simp: less_imp_le)
  qed
  have allA: "x \<le> n" if "x \<in> set A" for x using lt(2) that by (simp add: less_imp_le)
  then have all: "\<forall>x \<in> set (log s') \<union> set A. x \<le> n" using logs' by blast
  have sorted: "sorted_wrt (<) (n # ts)" using Cons.prems(1) by simp
  show ?case
  proof (cases r)
    case (Inl e)
    have "mset (live n A) \<subseteq># mset (log s')" using hit_rejects [of n s s' e] h Inl liveA by (auto intro: subset_mset.order_trans)
    with Cons.IH [OF sorted all] Cons.prems(4) h Inl show ?thesis by simp
  next
    case (Inr u)
    have acc: "length (live n (log s)) < limit" "mset (live n (log s)) + {#n#} \<subseteq># mset (log s')"
      using hit_accepts [of n s s' u] h Inr lt(2) by auto
    have "live n (A @ [n]) = live n A @ [n]" by (simp add: live_def minute_def)
    then have A': "mset (live n (A @ [n])) \<subseteq># mset (log s')"
      using acc(2) liveA by (simp add: subset_mset.order_trans [OF _ acc(2)])
    have ac: "accepted hit (n # ts) s = n # accepted hit ts s'" using h Inr by simp
    show ?thesis
    proof (cases "t = n")
      case True
      have "filter (\<lambda>a. n - minute < a \<and> a \<le> n) (accepted hit ts s') = []"
        using accepted_later [OF sorted] by (fastforce simp: filter_empty_conv)
      moreover have "filter (\<lambda>a. n - minute < a \<and> a \<le> n) A = live n A"
        using allA by (auto simp: live_def intro!: filter_cong)
      moreover have "length (live n A) \<le> length (live n (log s))" using size_mset_mono [OF liveA] by simp
      ultimately show ?thesis using acc(1) ac True by (simp add: minute_def)
    next
      case False
      then have "t \<in> set (accepted hit ts s')" using Cons.prems(4) unfolding ac by simp
      moreover have "\<forall>x \<in> set (log s') \<union> set (A @ [n]). x \<le> n" using all by auto
      ultimately show ?thesis using Cons.IH [OF sorted _ A'] unfolding ac by simp
    qed
  qed
qed

theorem at_most_limit:
  assumes "sorted_wrt (<) ts" and "\<forall>x \<in> set (log s). \<forall>t \<in> set ts. x < t" and "t \<in> set (accepted hit ts s)"
  shows "length (filter (\<lambda>a. t - minute < a \<and> a \<le> t) (accepted hit ts s)) \<le> limit"
proof (cases ts)
  case (Cons n ts')
  have "sorted_wrt (<) ((n - 1) # ts)" using assms(1) Cons by auto
  moreover have "\<forall>t \<in> set (log s) \<union> set ([] :: instant list). t \<le> n - 1" using assms(2) Cons by fastforce
  ultimately show ?thesis using accepted_bound [of "n - 1" ts s "[]" t] assms(3) by (simp add: live_def)
qed (use assms in simp)

end

section \<open>The three limiters\<close>

lemma dropWhile_live: "mset (live now d) \<subseteq># mset (dropWhile (\<lambda>t. t \<le> now - minute) d)"
  by (induction d) (auto simp: live_def)

lemma deque_update: "deque_of c (st\<lparr>rs_clients := AList.update c' d (rs_clients st)\<rparr>) = (if c = c' then d else deque_of c st)"
  by (simp add: deque_of_def update_conv)

lemma map_of_filter_first: "map_of xs c = Some d \<Longrightarrow> P (c, d) \<Longrightarrow> map_of (filter P xs) c = Some d"
  by (induction xs) (auto split: if_splits)

lemma deque_evict:
  assumes "map_of (rs_clients st) c = Some d" and "d \<noteq> []" and "now - minute \<le> last d"
  shows "deque_of c (evict_idle now st) = d"
  using assms map_of_filter_first [of "rs_clients st" c d "\<lambda>(k, d). \<not> (d = [] \<or> last d < now - minute)"]
  by (auto simp: evict_idle_def deque_of_def)

lemma rate_limit_step:
  fixes c st now rpm
  defines "d \<equiv> dropWhile (\<lambda>t. t \<le> now - minute) (deque_of c st)"
  assumes "check_rate_limit rpm c now st = (st', r)"
  shows "if rpm \<le> length d then r = Inl too_many \<and> deque_of c st' = d
    else r = Inr () \<and> deque_of c st' = d @ [now]"
proof (cases "rpm \<le> length d")
  case True
  with assms(2) show ?thesis by (auto simp: check_rate_limit_def d_def Let_def deque_update)
next
  case False
  let ?st = "st\<lparr>rs_clients := AList.update c (append_max rpm d now) (AList.update c d (rs_clients st))\<rparr>"
  have ap: "append_max rpm d now = d @ [now]" using False by (simp add: append_max_def Let_def)
  have "map_of (rs_clients ?st) c = Some (d @ [now])" by (simp add: update_conv ap)
  then have "deque_of c (evict_idle now ?st) = d @ [now]" by (rule deque_evict) (simp_all add: minute_def)
  with assms(2) False show ?thesis by (auto simp: check_rate_limit_def d_def Let_def)
qed

interpretation memory_limiter: window_limiter "check_rate_limit rpm c" "deque_of c" rpm for rpm c
proof
  fix now and s s' :: rate_store and u e r
  let ?d = "dropWhile (\<lambda>t. t \<le> now - minute) (deque_of c s)"
  note l = dropWhile_live [of now "deque_of c s"]
  show "length (live now (deque_of c s)) < rpm \<and> mset (live now (deque_of c s)) + {#now#} \<subseteq># mset (deque_of c s')"
    if "check_rate_limit rpm c now s = (s', Inr u)"
    using rate_limit_step [OF that] l size_mset_mono [OF l] by (auto split: if_splits)
  show "mset (live now (deque_of c s)) \<subseteq># mset (deque_of c s')" if "check_rate_limit rpm c now s = (s', Inl e)"
    using rate_limit_step [OF that] l by (auto split: if_splits)
  show "set (deque_of c s') \<subseteq> insert now (set (deque_of c s))" if "check_rate_limit rpm c now s = (s', r)"
    using rate_limit_step [OF that] set_dropWhileD by (fastforce split: if_splits)
qed

lemma kept_live: "mset (live now ts) \<subseteq># mset (filter (\<lambda>t. \<not> (0 \<le> t \<and> t \<le> now - minute)) ts)"
  by (auto simp: live_def subseteq_mset_def)

interpretation redis_limiter: window_limiter "check_rate_limit_redis rpm c (Inr v)" "\<lambda>z. z (rl_key c)" rpm for rpm c v
proof
  fix now and s s' :: zsets and u e r
  let ?key = "rl_key c"
  let ?k = "filter (\<lambda>t. \<not> (0 \<le> t \<and> t \<le> now - minute)) (s ?key)"
  note l = kept_live [of now "s ?key"]
  show "length (live now (s ?key)) < rpm \<and> mset (live now (s ?key)) + {#now#} \<subseteq># mset (s' ?key)"
    if "check_rate_limit_redis rpm c (Inr v) now s = (s', Inr u)" and "\<forall>t \<in> set (s ?key). t < now"
  proof -
    have "now \<notin> set (s ?key)" using that(2) by blast
    then have "s' ?key = ?k @ [now]" "length ?k < rpm"
      using that(1) by (auto simp: check_rate_limit_redis_def Let_def zadd_def res_simps)
    moreover have "length (live now (s ?key)) \<le> length ?k" using size_mset_mono [OF l] by (simp only: size_mset)
    ultimately show ?thesis using l by simp
  qed
  show "mset (live now (s ?key)) \<subseteq># mset (s' ?key)" if "check_rate_limit_redis rpm c (Inr v) now s = (s', Inl e)"
  proof -
    have "s' ?key = zadd now ?k" using that by (auto simp: check_rate_limit_redis_def Let_def)
    moreover have "mset ?k \<subseteq># mset (zadd now ?k)" by (simp add: zadd_def)
    ultimately show ?thesis using l by (auto intro: subset_mset.order_trans)
  qed
  show "set (s' ?key) \<subseteq> insert now (set (s ?key))" if "check_rate_limit_redis rpm c (Inr v) now s = (s', r)"
    using that by (auto simp: check_rate_limit_redis_def Let_def zadd_def split: if_splits)
qed

interpretation tenant_limiter: window_limiter "check_tenant_rate_limit t (Some (int n))" "\<lambda>st. st t" n for t n
  by unfold_locales (auto simp: check_tenant_rate_limit_def Let_def live_def split: if_splits)

text \<open>
  C20: in every minute that ends with an accepted call, at most as many calls of a client are
  accepted as its limit: for the in-memory limiter, for Redis when it answers, and for the tenant
  limiter, over any sequence of calls of this client at strictly increasing times.
\<close>
theorem rate_limits_hold:
  assumes "sorted_wrt (<) ts"
  shows "at_most_per_minute rpm (accepted (check_rate_limit rpm c) ts \<lparr>rs_clients = [], rs_last_eviction = 0\<rparr>)
    \<and> at_most_per_minute rpm (accepted (check_rate_limit_redis rpm c (Inr ())) ts (\<lambda>k. []))
    \<and> at_most_per_minute rpm (accepted (check_tenant_rate_limit tid (Some (int rpm))) ts (\<lambda>k. []))"
  using memory_limiter.at_most_limit [OF assms] redis_limiter.at_most_limit [OF assms]
    tenant_limiter.at_most_limit [OF assms]
  by (simp add: deque_of_def at_most_per_minute_def)

lemma rate_limits_hold_witness:
  "accepted (check_rate_limit 1 ''a'') [5, 6] \<lparr>rs_clients = [], rs_last_eviction = 0\<rparr> = [5]
   \<and> at_most_per_minute 1 (accepted (check_rate_limit 1 ''a'') [5, 6] \<lparr>rs_clients = [], rs_last_eviction = 0\<rparr>)"
proof
  show "accepted (check_rate_limit 1 ''a'') [5, 6] \<lparr>rs_clients = [], rs_last_eviction = 0\<rparr> = [5]"
    by (simp add: check_rate_limit_def deque_of_def append_max_def evict_idle_def Let_def minute_def)
  show "at_most_per_minute 1 (accepted (check_rate_limit 1 ''a'') [5, 6] \<lparr>rs_clients = [], rs_last_eviction = 0\<rparr>)"
    using rate_limits_hold [of "[5, 6]" 1 "''a''"] by simp
qed

lemma redis_step:
  assumes "\<forall>x \<in> set (z (rl_key c)). x < now" and "rpm \<le> length (live now (z (rl_key c)))"
  shows "\<exists>z'. check_rate_limit_redis rpm c (Inr ()) now z = (z', Inl too_many)
    \<and> (\<forall>n \<ge> now. live n (z' (rl_key c)) = live n (z (rl_key c) @ [now]))
    \<and> set (z' (rl_key c)) \<subseteq> insert now (set (z (rl_key c)))"
proof -
  let ?key = "rl_key c"
  let ?k = "filter (\<lambda>t. \<not> (0 \<le> t \<and> t \<le> now - minute)) (z ?key)"
  have "length (live now (z ?key)) \<le> length ?k" using size_mset_mono [OF kept_live [of now "z ?key"]] by (simp only: size_mset)
  then have "check_rate_limit_redis rpm c (Inr ()) now z = (z(?key := zadd now ?k), Inl too_many)"
    using assms(2) by (simp add: check_rate_limit_redis_def Let_def raise_if_def)
  moreover have "zadd now ?k = ?k @ [now]" using assms(1) by (auto simp: zadd_def)
  moreover have "live n ?k = live n (z ?key)" if "n \<ge> now" for n
    using that by (auto simp: live_def intro!: filter_cong)
  ultimately show ?thesis by (auto simp: live_def)
qed

text \<open>
  in Redis the limit counts attempts, not accepted calls: a client whose every retry finds
  \<open>rpm\<close> attempts, accepted or rejected, in the minute before it is never served again.
\<close>
theorem redis_retries_lock_out:
  assumes "sorted_wrt (<) ts" and "\<forall>x \<in> set (z (rl_key c)). \<forall>t \<in> set ts. x < t"
    and "\<forall>n < length ts. rpm \<le> length (live (ts ! n) (z (rl_key c) @ take n ts))"
  shows "accepted (check_rate_limit_redis rpm c (Inr ())) ts z = []"
  using assms
proof (induction ts arbitrary: z)
  case (Cons t ts)
  let ?key = "rl_key c"
  have le: "rpm \<le> length (live t (z ?key))" using Cons.prems(3) [rule_format, of 0] by simp
  have lt: "\<forall>x \<in> set (z ?key). x < t" using Cons.prems(2) by simp
  obtain z' where
    z': "check_rate_limit_redis rpm c (Inr ()) t z = (z', Inl too_many)"
      "\<forall>n \<ge> t. live n (z' ?key) = live n (z ?key @ [t])" "set (z' ?key) \<subseteq> insert t (set (z ?key))"
    using redis_step [of z c t rpm, OF lt le] by (elim exE conjE) (rule that)
  have "accepted (check_rate_limit_redis rpm c (Inr ())) ts z' = []"
  proof (rule Cons.IH)
    show "sorted_wrt (<) ts" using Cons.prems(1) by simp
    show "\<forall>x \<in> set (z' ?key). \<forall>u \<in> set ts. x < u"
    proof
      fix x assume "x \<in> set (z' ?key)"
      with z'(3) have "x = t \<or> x \<in> set (z ?key)" by blast
      with Cons.prems(1,2) show "\<forall>u \<in> set ts. x < u" by auto
    qed
    show "\<forall>n < length ts. rpm \<le> length (live (ts ! n) (z' ?key @ take n ts))"
    proof (intro allI impI)
      fix n assume n: "n < length ts"
      then have "t \<le> ts ! n" using Cons.prems(1) by (simp add: less_imp_le)
      with z'(2) have l: "live (ts ! n) (z' ?key) = live (ts ! n) (z ?key @ [t])" by blast
      have la: "live m (xs @ ys) = live m xs @ live m ys" for m xs ys by (simp add: live_def)
      have "live (ts ! n) (z' ?key @ take n ts) = live (ts ! n) ((z ?key @ [t]) @ take n ts)"
        unfolding la [of _ "z' ?key"] la [of _ "z ?key @ [t]"] l by (rule refl)
      moreover have "rpm \<le> length (live (ts ! n) ((z ?key @ [t]) @ take n ts))"
        using Cons.prems(3) [rule_format, of "Suc n"] n by simp
      ultimately show "rpm \<le> length (live (ts ! n) (z' ?key @ take n ts))" by (simp only:)
    qed
  qed
  then show ?case unfolding accepted.simps z'(1) prod.case by simp
qed simp

text \<open>A limit of one call a minute, one call at time 0, retries every 50 seconds.\<close>

lemma redis_retries_lock_out_witness:
  "accepted (check_rate_limit_redis 1 ''a'' (Inr ())) [50000000, 100000000] (\<lambda>k. [0]) = []
   \<and> accepted (check_rate_limit 1 ''a'') [50000000, 100000000] \<lparr>rs_clients = [(''a'', [0])], rs_last_eviction = 0\<rparr> = [100000000]"
proof
  show "accepted (check_rate_limit_redis 1 ''a'' (Inr ())) [50000000, 100000000] (\<lambda>k. [0]) = []"
    by (rule redis_retries_lock_out) (simp_all add: All_less_Suc2 live_def minute_def numeral_2_eq_2)
  show "accepted (check_rate_limit 1 ''a'') [50000000, 100000000] \<lparr>rs_clients = [(''a'', [0])], rs_last_eviction = 0\<rparr> = [100000000]"
    by (simp add: check_rate_limit_def deque_of_def append_max_def evict_idle_def Let_def minute_def)
qed

section \<open>Quotas (core/quotas.py)\<close>

text \<open>
  The daily counters: in Redis when it answers, else in memory, where they are cleared when the
  day changes. \<open>rd_ok\<close> tells for a request whether Redis is configured and answers.
\<close>

record quota_store =
  qs_day :: string
  qs_counts :: "string \<Rightarrow> int"
  qs_redis :: "string \<Rightarrow> int option"

definition scan_key :: "uuid \<Rightarrow> instant \<Rightarrow> string" where
  "scan_key t now = ''quota:scans:'' @ uuid_str t @ '':'' @ date_str now"

definition get_count_redis :: "bool \<Rightarrow> uuid \<Rightarrow> instant \<Rightarrow> quota_store \<Rightarrow> int option" where
  "get_count_redis ok t now st =
     (if \<not> ok then None else Some (case qs_redis st (scan_key t now) of Some n \<Rightarrow> n | None \<Rightarrow> 0))"

definition incr_redis :: "bool \<Rightarrow> uuid \<Rightarrow> instant \<Rightarrow> quota_store \<Rightarrow> quota_store \<times> int option" where
  "incr_redis ok t now st =
     (if \<not> ok then (st, None)
      else (let n = (case qs_redis st (scan_key t now) of Some n \<Rightarrow> n | None \<Rightarrow> 0) + 1
            in (st\<lparr>qs_redis := (qs_redis st)(scan_key t now := Some n)\<rparr>, Some n)))"

definition roll_day :: "instant \<Rightarrow> quota_store \<Rightarrow> quota_store" where
  "roll_day now st =
     (if qs_day st \<noteq> date_str now then st\<lparr>qs_day := date_str now, qs_counts := (\<lambda>k. 0)\<rparr> else st)"

definition get_count_memory :: "uuid \<Rightarrow> instant \<Rightarrow> quota_store \<Rightarrow> quota_store \<times> int" where
  "get_count_memory t now st = (roll_day now st, qs_counts (roll_day now st) (uuid_str t))"

definition incr_memory :: "uuid \<Rightarrow> instant \<Rightarrow> quota_store \<Rightarrow> quota_store \<times> int" where
  "incr_memory t now st =
     (let st1 = roll_day now st; n = qs_counts st1 (uuid_str t) + 1
      in (st1\<lparr>qs_counts := (qs_counts st1)(uuid_str t := n)\<rparr>, n))"

definition check_document_size :: "doc \<Rightarrow> int option \<Rightarrow> unit result" where
  "check_document_size d limit =
     (case limit of
        None \<Rightarrow> Inr ()
      | Some n \<Rightarrow> rbind (utf8_encode d) (\<lambda>bs. raise_if (n < int (length bs)) (HTTPException 413)))"

definition check_daily_scan_quota :: "bool \<Rightarrow> uuid \<Rightarrow> int option \<Rightarrow> instant \<Rightarrow> quota_store \<Rightarrow> quota_store \<times> unit result" where
  "check_daily_scan_quota ok t limit now st =
     (case limit of
        None \<Rightarrow> (st, Inr ())
      | Some n \<Rightarrow>
          (case (case get_count_redis ok t now st of Some k \<Rightarrow> (st, k) | None \<Rightarrow> get_count_memory t now st) of
             (st1, k) \<Rightarrow> (st1, raise_if (n \<le> k) too_many)))"

definition increment_scan_count :: "bool \<Rightarrow> uuid \<Rightarrow> instant \<Rightarrow> quota_store \<Rightarrow> quota_store" where
  "increment_scan_count ok t now st =
     (case incr_redis ok t now st of (st1, Some n) \<Rightarrow> st1 | (st1, None) \<Rightarrow> fst (incr_memory t now st1))"

text \<open>A request that checks, scans and counts, one at a time or with its check before others count.\<close>

definition quota_request :: "bool \<Rightarrow> uuid \<Rightarrow> int \<Rightarrow> instant \<Rightarrow> quota_store \<Rightarrow> quota_store \<times> bool" where
  "quota_request ok t n now st =
     (case check_daily_scan_quota ok t (Some n) now st of
        (st1, Inl e) \<Rightarrow> (st1, False)
      | (st1, Inr u) \<Rightarrow> (increment_scan_count ok t now st1, True))"

definition used_today :: "bool \<Rightarrow> uuid \<Rightarrow> instant \<Rightarrow> quota_store \<Rightarrow> int" where
  "used_today ok t now st =
     (case get_count_redis ok t now st of Some k \<Rightarrow> k | None \<Rightarrow> snd (get_count_memory t now st))"

lemma roll_day_twice [simp]: "roll_day now (roll_day now st) = roll_day now st"
  by (simp add: roll_day_def)

lemma roll_day_redis [simp]: "qs_redis (roll_day now st) = qs_redis st"
  by (simp add: roll_day_def)

lemma quota_request_spec:
  "quota_request ok t n now st = (st', b) \<Longrightarrow>
     b = (used_today ok t now st < n) \<and> used_today ok t now st' = used_today ok t now st + (if b then 1 else 0)"
  by (cases ok) (auto simp: quota_request_def check_daily_scan_quota_def increment_scan_count_def used_today_def
      get_count_redis_def get_count_memory_def incr_redis_def incr_memory_def Let_def raise_if_def roll_day_def
      split: if_splits option.splits)

fun serve :: "bool \<Rightarrow> uuid \<Rightarrow> int \<Rightarrow> instant \<Rightarrow> nat \<Rightarrow> quota_store \<Rightarrow> quota_store \<times> nat" where
  "serve ok t n now 0 st = (st, 0)"
| "serve ok t n now (Suc m) st =
     (case quota_request ok t n now st of
        (st1, b) \<Rightarrow> (case serve ok t n now m st1 of (st2, k) \<Rightarrow> (st2, (if b then 1 else 0) + k)))"

lemma used_increment: "used_today ok t now (increment_scan_count ok t now st) = used_today ok t now st + 1"
  by (cases ok) (auto simp: increment_scan_count_def used_today_def get_count_redis_def get_count_memory_def
      incr_redis_def incr_memory_def Let_def roll_day_def split: option.splits)

lemma used_check: "snd (check_daily_scan_quota ok t (Some n) now st) = raise_if (n \<le> used_today ok t now st) too_many"
  by (simp add: check_daily_scan_quota_def used_today_def split: option.splits prod.splits)

text \<open>
  the daily quota. On one day, with Redis always up or always down, \<open>m\<close> requests served one
  after the other are accepted exactly until the count reaches the limit; but when all of them
  check before any of them counts, all are accepted and the limit is exceeded.
\<close>
theorem daily_quota:
  assumes "used_today ok t now st < n"
  shows "snd (serve ok t n now m st) = min m (nat (n - used_today ok t now st))"
    and "(\<forall>i < m. snd (check_daily_scan_quota ok t (Some n) now st) = Inr ())
      \<and> used_today ok t now ((increment_scan_count ok t now ^^ m) st) = used_today ok t now st + int m"
proof -
  have "snd (serve ok t n now m s) = min m (nat (n - used_today ok t now s))" for s
  proof (induction m arbitrary: s)
    case (Suc m)
    obtain s' b where r: "quota_request ok t n now s = (s', b)" by fastforce
    show ?case using quota_request_spec [OF r] Suc [of s'] r by (auto split: prod.splits)
  qed simp
  then show "snd (serve ok t n now m st) = min m (nat (n - used_today ok t now st))" .
  have "used_today ok t now ((increment_scan_count ok t now ^^ m) st) = used_today ok t now st + int m"
    by (induction m) (simp_all add: used_increment)
  with assms show "(\<forall>i < m. snd (check_daily_scan_quota ok t (Some n) now st) = Inr ())
      \<and> used_today ok t now ((increment_scan_count ok t now ^^ m) st) = used_today ok t now st + int m"
    by (simp add: used_check raise_if_def)
qed

lemma daily_quota_witness:
  "snd (serve False 7 2 9 5 \<lparr>qs_day = [], qs_counts = (\<lambda>k. 0), qs_redis = Map.empty\<rparr>) = 2
   \<and> used_today False 7 9 ((increment_scan_count False 7 9 ^^ 5) \<lparr>qs_day = [], qs_counts = (\<lambda>k. 0), qs_redis = Map.empty\<rparr>) = 5"
proof -
  let ?st = "\<lparr>qs_day = [], qs_counts = (\<lambda>k. 0), qs_redis = Map.empty\<rparr>"
  have "date_str 9 \<noteq> []" by (simp add: date_str_def split: prod.splits)
  then have "used_today False 7 9 ?st = 0"
    by (simp add: used_today_def get_count_redis_def get_count_memory_def roll_day_def)
  with daily_quota [of False 7 9 ?st 2 5] show ?thesis by simp
qed

section \<open>The eviction loop\<close>

text \<open>
  The loop \<open>while dq and dq[0] <= window_start: dq.popleft()\<close> as it is written; \<open>None\<close> would be a loop that does not end.
\<close>

definition evict_expired :: "instant \<Rightarrow> instant list \<Rightarrow> instant list option" where
  "evict_expired window_start = while_option (\<lambda>dq. dq \<noteq> [] \<and> hd dq \<le> window_start) tl"

lemma evict_expired_eq: "evict_expired w d = Some (dropWhile (\<lambda>t. t \<le> w) d)"
proof (induction d)
  case Nil
  then show ?case by (simp add: evict_expired_def while_option_unfold)
next
  case (Cons t d)
  then show ?case unfolding evict_expired_def by (subst while_option_unfold) (simp add: while_option_unfold)
qed

lemma dropWhile_drop: "\<exists>k \<le> length d. dropWhile P d = drop k d"
  by (intro exI [of _ "length (takeWhile P d)"]) (simp add: length_takeWhile_le dropWhile_eq_drop)

text \<open>
  C33: the in-memory limiter always answers. Its eviction loop ends for every deque, ordered or not, after at most as many
  turns as the deque is long; what it leaves is a suffix whose first time stamp is inside the
  window, and the call is accepted exactly when that suffix is shorter than the limit, and then logged.
\<close>
theorem rate_limit_terminates:
  "\<exists>k dq. evict_expired (now - minute) (deque_of c st) = Some dq \<and> dq = drop k (deque_of c st) \<and> k \<le> length (deque_of c st)
     \<and> (dq = [] \<or> now - minute < hd dq)
     \<and> check_rate_limit rpm c now st =
         (let st1 = st\<lparr>rs_clients := AList.update c dq (rs_clients st)\<rparr>
          in if rpm \<le> length dq then (st1, Inl too_many)
             else (evict_idle now (st1\<lparr>rs_clients := AList.update c (append_max rpm dq now) (rs_clients st1)\<rparr>), Inr ()))"
proof -
  let ?d = "dropWhile (\<lambda>t. t \<le> now - minute) (deque_of c st)"
  obtain k where k: "k \<le> length (deque_of c st)" "?d = drop k (deque_of c st)" using dropWhile_drop by blast
  have "?d = [] \<or> now - minute < hd ?d" using hd_dropWhile [of "\<lambda>t. t \<le> now - minute" "deque_of c st"] by fastforce
  with k evict_expired_eq [of "now - minute" "deque_of c st"] show ?thesis
    by (intro exI [of _ k] exI [of _ ?d]) (simp add: check_rate_limit_def Let_def)
qed

end
