(* ===== verification/Hmac.thy ===== *)
theory Hmac
  imports Sha256
begin

text \<open>
  \<open>hmac.new(key, msg, hashlib.sha256).hexdigest()\<close> over a digest function: the key is hashed when
  it is longer than a block and padded to one, then both hashes are taken. Two messages have one
  code under one key only if the digest function has a collision among four inputs.
\<close>

definition digest_bytes :: "string \<Rightarrow> bytes" where
  "digest_bytes s = (case fromhex (lit s) of Inr b \<Rightarrow> b | Inl e \<Rightarrow> [])"

definition xor_bytes :: "nat \<Rightarrow> bytes \<Rightarrow> bytes" where
  "xor_bytes m = map (\<lambda>b. unat ((of_nat b :: 8 word) XOR of_nat m))"

definition hmac_key :: "(bytes \<Rightarrow> string) \<Rightarrow> bytes \<Rightarrow> bytes" where
  "hmac_key sha key = (let k = (if 64 < length key then digest_bytes (sha key) else key)
     in k @ replicate (64 - length k) 0)"

definition hmac_inner :: "(bytes \<Rightarrow> string) \<Rightarrow> bytes \<Rightarrow> bytes \<Rightarrow> bytes" where
  "hmac_inner sha key msg = xor_bytes 54 (hmac_key sha key) @ msg"

definition hmac_outer :: "(bytes \<Rightarrow> string) \<Rightarrow> bytes \<Rightarrow> bytes \<Rightarrow> bytes" where
  "hmac_outer sha key msg = xor_bytes 92 (hmac_key sha key) @ digest_bytes (sha (hmac_inner sha key msg))"

definition hmac_hex :: "(bytes \<Rightarrow> string) \<Rightarrow> bytes \<Rightarrow> bytes \<Rightarrow> string" where
  "hmac_hex sha key msg = sha (hmac_outer sha key msg)"

text \<open>Reading a digest back loses nothing.\<close>

lemma hexd_value_inj:
  assumes "c \<in> hexd ` {0..<16}" and "d \<in> hexd ` {0..<16}"
    and "hex_value (of_char c) = hex_value (of_char d)"
  shows "c = d"
proof -
  from assms(1,2) obtain a b where a: "c = hexd a" "0 \<le> a" "a < 16" and b: "d = hexd b" "0 \<le> b" "b < 16" by auto
  have v: "hex_value (of_char (hexd x)) = Some (nat x)" if "0 \<le> x" "x < 16" for x
  proof -
    have "int (of_char (hexd x)) = (if x < 10 then 48 + x else 87 + x)"
      using that by (simp add: of_nat_of_char of_char_hexd)
    then have "of_char (hexd x) = (if nat x < 10 then 48 + nat x else 87 + nat x)" using that by (cases "x < 10") auto
    moreover have "nat x < 16" using that by simp
    ultimately show ?thesis by (simp add: hex_value_def)
  qed
  have "Some (nat a) = Some (nat b)" using assms(3) unfolding a(1) b(1) v [OF a(2,3)] v [OF b(2,3)] .
  then have "a = b" using a(2) b(2) by simp
  with a b show ?thesis by simp
qed

lemma hex_pairs_inj:
  assumes "set s \<subseteq> hexd ` {0..<16}" and "set t \<subseteq> hexd ` {0..<16}" and "length s = length t" and "even (length s)"
    and "fromhex (lit s) = Inr b" and "fromhex (lit t) = Inr b"
  shows "s = t"
  using assms
proof (induction "length s div 2" arbitrary: s t b)
  case 0
  then have "length s = 0" by presburger
  with 0 show ?case by simp
next
  case (Suc n)
  from Suc(2,6) obtain c d s' where s: "s = c # d # s'"
    by (cases s rule: remdups_adj.cases) auto
  from s Suc(5) obtain c' d' t' where t: "t = c' # d' # t'"
    by (cases t rule: remdups_adj.cases) auto
  have nb: "hex_value (of_char x) \<noteq> None \<and> \<not> hex_blank (of_char x)" if "x \<in> hexd ` {0..<16}" for x
    using that by (auto dest: hexd_code)
  have lt: "hex_value n = Some v \<Longrightarrow> v < 16" for n v by (auto simp: hex_value_def split: if_splits)
  have m: "c \<in> hexd ` {0..<16}" "d \<in> hexd ` {0..<16}" "c' \<in> hexd ` {0..<16}" "d' \<in> hexd ` {0..<16}"
    using Suc(3,4) s t by auto
  obtain h l h' l' where v: "hex_value (of_char c) = Some h" "hex_value (of_char d) = Some l"
    "hex_value (of_char c') = Some h'" "hex_value (of_char d') = Some l'"
    using nb [OF m(1)] nb [OF m(2)] nb [OF m(3)] nb [OF m(4)] by force
  from Suc(7) s v nb [OF m(1)] obtain b1 where b1: "fromhex (lit s') = Inr b1" "b = (16 * h + l) # b1"
    by (auto simp: res_simps)
  from Suc(8) t v nb [OF m(3)] obtain b2 where b2: "fromhex (lit t') = Inr b2" "b = (16 * h' + l') # b2"
    by (auto simp: res_simps)
  have "l < 16" "l' < 16" by (rule lt [OF v(2)], rule lt [OF v(4)])
  have "(16 * h + l) # b1 = (16 * h' + l') # b2" using b1(2) b2(2) by (rule subst)
  then have n: "16 * h + l = 16 * h' + l'" "b1 = b2" by (rule list.inject [THEN iffD1, THEN conjunct1], rule list.inject [THEN iffD1, THEN conjunct2])
  have "(16 * h + l) div 16 = h" "(16 * h' + l') div 16 = h'" "(16 * h + l) mod 16 = l" "(16 * h' + l') mod 16 = l'"
    using \<open>l < 16\<close> \<open>l' < 16\<close> by simp_all
  with n have e: "h = h'" "l = l'" "b1 = b2" by metis+
  have "c = c'" "d = d'"
    using v e hexd_value_inj [OF m(1,3)] hexd_value_inj [OF m(2,4)] by simp_all
  moreover have "s' = t'"
    using Suc(1) [of s' t' b1] Suc(2-6) s t b1(1) b2(1) e(3) by auto
  ultimately show ?case using s t by simp
qed

context digest_fn
begin

lemma digest_bytes_inj: "digest_bytes (sha x) = digest_bytes (sha y) \<Longrightarrow> sha x = sha y"
proof -
  assume e: "digest_bytes (sha x) = digest_bytes (sha y)"
  obtain b where "fromhex (lit (sha x)) = Inr b" using sha_fromhex by blast
  moreover obtain c where "fromhex (lit (sha y)) = Inr c" using sha_fromhex by blast
  ultimately show ?thesis
    using e hex_pairs_inj [OF sha_digits sha_digits, of x y b] sha_length by (simp add: digest_bytes_def)
qed

lemma hmac_inj:
  assumes "hmac_hex sha k m = hmac_hex sha k n"
  shows "m = n \<or> (\<exists>x \<in> {hmac_inner sha k m, hmac_outer sha k m}. \<exists>y \<in> {hmac_inner sha k n, hmac_outer sha k n}. x \<noteq> y \<and> sha x = sha y)"
proof (cases "hmac_outer sha k m = hmac_outer sha k n")
  case False
  with assms show ?thesis by (auto simp: hmac_hex_def)
next
  case True
  then have s: "sha (hmac_inner sha k m) = sha (hmac_inner sha k n)"
    by (intro digest_bytes_inj) (simp add: hmac_outer_def)
  show ?thesis
  proof (cases "hmac_inner sha k m = hmac_inner sha k n")
    case True
    then show ?thesis by (simp add: hmac_inner_def)
  next
    case False
    with s show ?thesis by blast
  qed
qed

end

end
