(* ===== verification/Api_Base.thy ===== *)
theory Api_Base
  imports Rate_Limits Outbox_Relay
begin

text \<open>
  What the API's routers share: identifiers read from claims and paths, the round trip of UUIDs
  through their text, the SQLAlchemy session with its implicit transaction, and the outcome of a
  request as a state and a response or an exception.
\<close>

section \<open>UUIDs through text\<close>

lemma py_replace_absent: "old \<noteq> [] \<Longrightarrow> hd old \<notin> set s \<Longrightarrow> py_replace old new s = s"
  by (induction old new s rule: py_replace.induct) (auto simp: neq_Nil_conv)

lemma strip_by_absent: "\<forall>c \<in> set s. \<not> p c \<Longrightarrow> strip_by p s = s"
  by (rule strip_by_id) blast

lemma filter_groups:
  assumes "length h = 32" and "CHR ''-'' \<notin> set h"
  shows "filter (\<lambda>c. c \<noteq> CHR ''-'') (uuid_groups h) = h"
proof -
  have f: "filter (\<lambda>c. c \<noteq> CHR ''-'') (py_slice h i j) = py_slice h i j" for i j
    using assms(2) by (auto simp: filter_id_conv py_slice_def dest: in_set_takeD in_set_dropD)
  have j: "take n (drop i h) @ drop (n + i) h = drop i h" for n i
    using append_take_drop_id [of n "drop i h"] by simp
  have "py_slice h 0 8 @ py_slice h 8 12 @ py_slice h 12 16 @ py_slice h 16 20 @ py_slice h 20 32 = h"
    using j [of 12 20] j [of 4 16] j [of 4 12] j [of 4 8] assms(1) by (simp add: py_slice_def)
  then show ?thesis by (simp add: uuid_groups_def f)
qed

lemma digits_hex:
  "0 \<le> acc \<Longrightarrow> k > 0 \<or> dig \<Longrightarrow> digits_us acc dig (hex_fixed k n @ s) = digits_us (acc * 16 ^ k + n mod 16 ^ k) True s"
proof (induction k arbitrary: n s)
  case 0
  then show ?case by simp
next
  case (Suc k)
  have m: "n mod 16 ^ Suc k = 16 * (n div 16 mod 16 ^ k) + n mod 16"
    using zmod_zmult2_eq [of "16 ^ k" n 16] by simp
  have last: "digits_us x d (hexd (n mod 16) # s) = digits_us (x * 16 + n mod 16) True s" for x d by simp
  show ?case
  proof (cases "k > 0 \<or> dig")
    case True
    have "digits_us acc dig (hex_fixed (Suc k) n @ s) = digits_us acc dig (hex_fixed k (n div 16) @ (hexd (n mod 16) # s))" by simp
    also have "\<dots> = digits_us (acc * 16 ^ k + n div 16 mod 16 ^ k) True (hexd (n mod 16) # s)"
      using Suc.IH Suc.prems(1) True by blast
    also have "\<dots> = digits_us ((acc * 16 ^ k + n div 16 mod 16 ^ k) * 16 + n mod 16) True s" by (rule last)
    also have "(acc * 16 ^ k + n div 16 mod 16 ^ k) * 16 + n mod 16 = acc * 16 ^ Suc k + n mod 16 ^ Suc k"
      unfolding m by (simp add: algebra_simps)
    finally show ?thesis .
  next
    case False
    then show ?thesis by (simp add: m)
  qed
qed

lemma hexd_chars: "c \<in> hexd ` {0..<16} \<Longrightarrow> (of_char c :: nat) \<in> {48..57} \<union> {97..102}"
proof -
  assume "c \<in> hexd ` {0..<16}"
  then obtain d where d: "c = hexd d" "0 \<le> d" "d < 16" by auto
  then have "int (of_char c) = (if d < 10 then 48 + d else 87 + d)" by (simp add: of_nat_of_char of_char_hexd)
  then show ?thesis using d by (auto split: if_splits)
qed

lemma uuid_of_uuid_str [simp]: "uuid_of_str (uuid_str u) = Inr u"
proof -
  let ?h = "hex_fixed 32 (uint u)"
  have ch: "(of_char c :: nat) \<in> {48..57} \<union> {97..102}" if "c \<in> set ?h" for c
    using set_hex_fixed that by (intro hexd_chars) blast
  have no: "CHR ''-'' \<notin> set ?h" using ch by fastforce
  have "set (uuid_groups ?h) \<subseteq> set ?h \<union> {CHR ''-''}"
    by (auto simp: uuid_groups_def py_slice_def dest: in_set_takeD in_set_dropD)
  then have g: "c \<in> set (uuid_groups ?h) \<Longrightarrow> (of_char c :: nat) \<in> {45} \<union> {48..57} \<union> {97..102}" for c
    using ch by fastforce
  have "CHR ''u'' \<notin> set (uuid_groups ?h)" "\<forall>c \<in> set (uuid_groups ?h). \<not> (c = CHR ''{'' \<or> c = CHR ''}'')"
    using g [of "CHR ''u''"] g [of "CHR ''{''"] g [of "CHR ''}''"] by auto
  then have f: "filter (\<lambda>c. c \<noteq> CHR ''-'') (strip_by (\<lambda>c. c = CHR ''{'' \<or> c = CHR ''}'')
      (py_replace ''uuid:'' [] (py_replace ''urn:'' [] (uuid_str u)))) = ?h"
    using filter_groups [OF length_hex_fixed no] by (simp add: uuid_str_def py_replace_absent strip_by_absent)
  have st: "strip_by blank ?h = ?h"
    using ch by (intro strip_by_absent) (force simp: blank_def is_space_def)
  have n0: "\<not> starts_with ''-'' ?h" "\<not> starts_with ''+'' ?h" "\<not> starts_with ''0x'' ?h" "\<not> starts_with ''0X'' ?h"
    using ch [of "CHR ''-''"] ch [of "CHR ''+''"] ch [of "CHR ''x''"] ch [of "CHR ''X''"]
    by (auto simp: starts_with_iff simp del: hex_fixed.simps)
  have "uint u mod 16 ^ 32 = uint u"
    using unsigned_less [of u, where ?'a = int] by (intro mod_pos_pos_trivial) simp_all
  then have "digits_us 0 False ?h = Some (uint u)"
    using digits_hex [of 0 32 False "uint u" "[]"] by (simp del: hex_fixed.simps)
  moreover have "?h \<noteq> []" using length_hex_fixed [of 32 "uint u"] by (metis list.size(3) zero_neq_numeral)
  ultimately have "py_int16 ?h = Some (uint u)"
    unfolding py_int16_def st Let_def using n0 by (simp del: hex_fixed.simps)
  moreover have "0 \<le> uint u" "uint u < 2 ^ 128" using unsigned_less [of u, where ?'a = int] by simp_all
  ultimately show ?thesis unfolding uuid_of_str_def f Let_def by (simp del: hex_fixed.simps)
qed

text \<open>\<open>uuid.UUID(v)\<close> of a decoded value; digits outside ASCII are not modelled.\<close>

definition uuid_of_doc :: "doc \<Rightarrow> uuid result" where
  "uuid_of_doc s = (if \<forall>c \<in> set s. c < 128 then uuid_of_str (map char_of s) else Inl (PyExc ''ValueError''))"

fun uuid_of_json :: "json \<Rightarrow> uuid result" where
  "uuid_of_json (JStr s) = uuid_of_doc s"
| "uuid_of_json _ = Inl (PyExc ''AttributeError'')"

lemma char_of_lit [simp]: "map char_of (lit s) = s"
  by (induction s) simp_all

lemma uuid_str_ascii: "c \<in> set (lit (uuid_str u)) \<Longrightarrow> c < 128"
proof -
  assume "c \<in> set (lit (uuid_str u))"
  then have "c \<in> of_char ` (set (hex_fixed 32 (uint u)) \<union> {CHR ''-''})"
    by (auto simp: uuid_str_def uuid_groups_def py_slice_def dest: in_set_takeD in_set_dropD)
  then show "c < 128" using set_hex_fixed hexd_chars by fastforce
qed

lemma uuid_of_doc_str [simp]: "uuid_of_doc (lit (uuid_str u)) = Inr u"
  using uuid_str_ascii [of _ u] by (auto simp: uuid_of_doc_def)

text \<open>\<open>UUID(payload.get("tenant\_id", ""))\<close>, or the default tenant when the claim is empty.\<close>

definition tenant_of_claims :: "claims \<Rightarrow> uuid result" where
  "tenant_of_claims p =
     (let t = claim_or p ''tenant_id'' (JStr []) in if json_truthy t then uuid_of_json t else Inr default_tenant_id)"

section \<open>The session\<close>

text \<open>
  A session with its tables as of now, those last committed, and whether a transaction has begun,
  which the first statement does implicitly. \<open>strict_begin\<close> says that \<open>Session.begin()\<close> refuses
  when one has begun, as SQLAlchemy 2.0 documents.
\<close>

record session =
  ss_db :: db
  ss_committed :: db
  ss_begun :: bool

definition open_session :: "db \<Rightarrow> session" where
  "open_session d = \<lparr>ss_db = d, ss_committed = d, ss_begun = False\<rparr>"

definition executed :: "session \<Rightarrow> session" where
  "executed s = s\<lparr>ss_begun := True\<rparr>"

definition invalid_request :: exn where
  "invalid_request = PyExc ''InvalidRequestError''"

definition begin_block :: "bool \<Rightarrow> session \<Rightarrow> session result" where
  "begin_block strict_begin s = (if strict_begin \<and> ss_begun s then Inl invalid_request else Inr (executed s))"

definition commit_session :: "session \<Rightarrow> session" where
  "commit_session s = s\<lparr>ss_committed := ss_db s, ss_begun := False\<rparr>"

text \<open>\<open>async with db.begin(): body\<close>: commit on success, keep the committed tables on an exception.\<close>

definition in_block :: "bool \<Rightarrow> session \<Rightarrow> (db \<Rightarrow> (db \<times> 'a) result) \<Rightarrow> db \<times> 'a result" where
  "in_block strict_begin s body =
     (case begin_block strict_begin s of
        Inl e \<Rightarrow> (ss_committed s, Inl e)
      | Inr s1 \<Rightarrow> (case body (ss_db s1) of
          Inl e \<Rightarrow> (ss_committed s, Inl e)
        | Inr (d, x) \<Rightarrow> (ss_committed (commit_session (s1\<lparr>ss_db := d\<rparr>)), Inr x)))"

end
