(* ===== verification/Review_Api.thy ===== *)
theory Review_Api
  imports Api_Base Scan_Props
begin

text \<open>
  Human review (\<open>api/v1/review.py\<close>): the findings of escalated operations, page by page, and the
  decisions on them. A decision reads the finding and its operation first and then opens a
  transaction; the session is that of \<open>Api_Base\<close>.
\<close>

section \<open>Pending findings\<close>

record pending_item =
  pf_operation_id :: uuid
  pf_trace_id :: uuid
  pf_finding :: finding
  pf_preview :: doc
  pf_created_at :: instant

text \<open>
  \<open>\_load\_document\_previews\<close>: a dictionary, in which a later row of the same operation replaces
  an earlier one.
\<close>

definition preview_entry :: "outbox \<Rightarrow> (json option \<times> doc) result" where
  "preview_entry b = rbind (payload_str ''TypeError'' (ob_payload b) ''document_text'' [])
     (\<lambda>t. Inr (map_of (ob_payload b) ''operation_id'', py_slice t 0 200))"

fun preview_entries :: "outbox list \<Rightarrow> (json option \<times> doc) list result" where
  "preview_entries [] = Inr []"
| "preview_entries (b # bs) = rbind (preview_entry b) (\<lambda>e. rbind (preview_entries bs) (\<lambda>es. Inr (e # es)))"

definition load_document_previews :: "uuid list \<Rightarrow> db \<Rightarrow> (json option \<times> doc) list result" where
  "load_document_previews ids d =
     (if ids = [] then Inr []
      else preview_entries (filter (\<lambda>b. \<exists>i \<in> set ids. payload_is_for (uuid_str i) b) (outbox_rows d)))"

definition preview_of :: "(json option \<times> doc) list \<Rightarrow> uuid \<Rightarrow> doc" where
  "preview_of es i = (case map_of (rev es) (Some (jstr (uuid_str i))) of Some t \<Rightarrow> t | None \<Rightarrow> [])"

definition escalated_operations :: "db \<Rightarrow> operation list" where
  "escalated_operations d = filter (\<lambda>r. op_status r = ESCALATED) (operations d)"

definition pending_items :: "(json option \<times> doc) list \<Rightarrow> db \<Rightarrow> pending_item list" where
  "pending_items es d =
     concat (map (\<lambda>r. map (\<lambda>f. \<lparr>pf_operation_id = op_id r, pf_trace_id = op_trace_id r, pf_finding = f,
         pf_preview = preview_of es (op_id r), pf_created_at = op_created_at r\<rparr>) (findings_of (op_id r) d))
       (escalated_operations d))"

definition get_pending_reviews :: "nat \<Rightarrow> nat \<Rightarrow> db \<Rightarrow> (nat \<times> pending_item list) result" where
  "get_pending_reviews limit offset d =
     rbind (load_document_previews (map op_id (escalated_operations d)) d) (\<lambda>es.
       let all = pending_items es d in Inr (length all, py_slice all offset (offset + limit)))"

section \<open>Decisions\<close>

text \<open>
  What a decision runs on. \<open>rv_strict\<close>: \<open>Session.begin()\<close> refuses when a transaction has begun.
  \<open>rv_refresh\<close>: a \<open>SELECT ... FOR UPDATE\<close> overwrites the attributes of an instance the session
  already holds (in SQLAlchemy only with \<open>populate\_existing\<close>).
\<close>

record review_env =
  rv_strict :: bool
  rv_refresh :: bool
  rv_sign :: bool
  rv_seal :: seal_env
  rv_now :: instant
  rv_rd_id :: uuid
  rv_commit :: "unit result"

definition load_escalated_finding :: "uuid \<Rightarrow> db \<Rightarrow> (finding \<times> operation) result" where
  "load_escalated_finding i d =
     rbind (scalar_one_or_none (filter (\<lambda>f. fd_id f = i) (findings d))) (\<lambda>x.
       case x of
         None \<Rightarrow> Inl (HTTPException 404)
       | Some f \<Rightarrow>
           (case select_operation (fd_operation_id f) d of
              None \<Rightarrow> Inl (PyExc ''AttributeError'')
            | Some r \<Rightarrow> if op_status r \<noteq> ESCALATED then Inl (HTTPException 409) else Inr (f, r)))"

definition reviewer_of :: "claims \<Rightarrow> uuid result" where
  "reviewer_of p = (let sub = claim_or p ''sub'' (JStr [])
     in if json_truthy sub then uuid_of_json sub else Inr sentinel_actor_id)"

definition review_redaction :: "review_env \<Rightarrow> finding \<Rightarrow> operation \<Rightarrow> uuid \<Rightarrow> redaction" where
  "review_redaction env f r u =
     \<lparr>rd_id = rv_rd_id env, rd_finding_id = fd_id f, rd_operation_id = op_id r, rd_type = ''mask'',
      rd_policy_version = op_policy_version r, rd_applied_at = rv_now env, rd_approved_by = Some u,
      rd_approval_trace_id = Some (op_trace_id r), rd_approved_by_agent_id = None\<rparr>"

definition decided :: "review_env \<Rightarrow> operation_status \<Rightarrow> operation \<Rightarrow> operation" where
  "decided env st r = r\<lparr>op_status := st, op_completed_at := Some (rv_now env)\<rparr>"

text \<open>\<open>operation.status = st\<close>, \<open>completed\_at\<close>, and the seal, in the transaction.\<close>

definition decide :: "review_env \<Rightarrow> operation_status \<Rightarrow> operation \<Rightarrow> db \<Rightarrow> db result" where
  "decide env st r d =
     rbind (seal_operation_with_settings (rv_sign env) (rv_seal env) (decided env st r)
         (update_operation (op_id r) (decided env st) d))
       (\<lambda>(d', s). rbind (rv_commit env) (\<lambda>_. Inr d'))"

text \<open>The block of \<open>approve\_finding\<close>: \<open>r\<close> is the instance in the session, \<open>d\<close> the tables under the lock.\<close>

definition approve_body :: "review_env \<Rightarrow> finding \<Rightarrow> operation \<Rightarrow> uuid \<Rightarrow> db \<Rightarrow> (db \<times> uuid) result" where
  "approve_body env f r u d =
     (case select_operation (op_id r) d of
        None \<Rightarrow> Inl (PyExc ''NoResultFound'')
      | Some x \<Rightarrow>
          let r1 = (if rv_refresh env then x else r)
          in if op_status r1 \<noteq> ESCALATED then Inl (HTTPException 409)
             else rbind (insert_redaction (review_redaction env f r1 u) d) (\<lambda>d1.
               if length (findings_of (op_id r1) d1) \<le> length (redactions_of (op_id r1) d1)
               then rbind (decide env COMPLETED r1 d1) (\<lambda>d2. Inr (d2, op_trace_id r1))
               else rbind (rv_commit env) (\<lambda>_. Inr (d1, op_trace_id r1))))"

text \<open>
  \<open>d0\<close>: the tables at the first read; \<open>d\<close>: the committed tables when the transaction opens.
\<close>

definition approve_finding :: "review_env \<Rightarrow> claims \<Rightarrow> uuid \<Rightarrow> db \<Rightarrow> db \<Rightarrow> db \<times> (uuid \<times> string) result" where
  "approve_finding env p i d0 d =
     (case rbind (load_escalated_finding i d0) (\<lambda>(f, r). rbind (reviewer_of p) (\<lambda>u.
             rbind (check_self_approval (uuid_str (op_actor_id r)) p) (\<lambda>_. Inr (f, r, u)))) of
        Inl e \<Rightarrow> (d, Inl e)
      | Inr (f, r, u) \<Rightarrow>
          (case in_block (rv_strict env) (executed (open_session d)) (approve_body env f r u) of
             (d', Inl e) \<Rightarrow> (d', Inl e)
           | (d', Inr tr) \<Rightarrow> (d', Inr (tr, ''approved''))))"

definition reject_body :: "review_env \<Rightarrow> operation \<Rightarrow> db \<Rightarrow> (db \<times> uuid) result" where
  "reject_body env r d =
     (if select_operation (op_id r) d = None then Inl (PyExc ''StaleDataError'')
      else rbind (decide env REJECTED r d) (\<lambda>d'. Inr (d', op_trace_id r)))"

definition reject_finding :: "review_env \<Rightarrow> claims \<Rightarrow> uuid \<Rightarrow> db \<Rightarrow> db \<Rightarrow> db \<times> (uuid \<times> string) result" where
  "reject_finding env p i d0 d =
     (case rbind (load_escalated_finding i d0) (\<lambda>(f, r). rbind (reviewer_of p) (\<lambda>u. Inr r)) of
        Inl e \<Rightarrow> (d, Inl e)
      | Inr r \<Rightarrow>
          (case in_block (rv_strict env) (executed (open_session d)) (reject_body env r) of
             (d', Inl e) \<Rightarrow> (d', Inl e)
           | (d', Inr tr) \<Rightarrow> (d', Inr (tr, ''rejected''))))"

section \<open>Lemmas\<close>

lemma in_block_begun: "in_block True (executed (open_session d)) body = (d, Inl invalid_request)"
  by (simp add: in_block_def begin_block_def executed_def open_session_def)

lemma in_block_lenient:
  "in_block False (executed (open_session d)) body = (case body d of Inl e \<Rightarrow> (d, Inl e) | Inr (d', x) \<Rightarrow> (d', Inr x))"
  by (simp add: in_block_def begin_block_def executed_def open_session_def commit_session_def split: sum.splits prod.splits)

lemma load_escalatedD:
  assumes "load_escalated_finding i d = Inr (f, r)"
  shows "filter (\<lambda>f. fd_id f = i) (findings d) = [f]" and "fd_id f = i" and "f \<in> set (findings d)"
    and "select_operation (fd_operation_id f) d = Some r" and "op_id r = fd_operation_id f" and "op_status r = ESCALATED"
proof -
  from assms obtain x where x: "scalar_one_or_none (filter (\<lambda>f. fd_id f = i) (findings d)) = Inr x"
    by (auto simp: load_escalated_finding_def res_simps)
  with assms obtain g where g: "x = Some g" by (cases x) (auto simp: load_escalated_finding_def)
  obtain q where q: "select_operation (fd_operation_id g) d = Some q"
    using assms x g by (cases "select_operation (fd_operation_id g) d") (auto simp: load_escalated_finding_def)
  have e: "f = g" "r = q" "op_status q = ESCALATED"
    using assms x g q by (auto simp: load_escalated_finding_def split: if_splits)
  show l: "filter (\<lambda>f. fd_id f = i) (findings d) = [f]" using x g e by (simp add: scalar_one_or_none_Some)
  from l have "f \<in> set (filter (\<lambda>f. fd_id f = i) (findings d))" by simp
  then show "fd_id f = i" "f \<in> set (findings d)" by simp_all
  show "select_operation (fd_operation_id f) d = Some r" "op_id r = fd_operation_id f" "op_status r = ESCALATED"
    using q e select_operation_SomeD [OF q] by simp_all
qed

lemma decided_simps [simp]:
  "op_id (decided env st r) = op_id r" "op_status (decided env st r) = st" "op_tenant_id (decided env st r) = op_tenant_id r"
  "op_actor_id (decided env st r) = op_actor_id r"
  by (simp_all add: decided_def)

lemma seal_with_settings_wf [inv_intros]:
  "seal_operation_with_settings b se r d = Inr (d', s) \<Longrightarrow> wf_db d \<Longrightarrow> wf_db d'"
  unfolding seal_operation_with_settings_def by (rule seal_operation_wf)

lemma decide_wf [inv_intros]: "decide env st r d = Inr d' \<Longrightarrow> wf_db d \<Longrightarrow> wf_db d'"
  by (auto simp: decide_def res_simps intro!: update_operation_wf elim!: seal_with_settings_wf)

lemma archive_tables [simp]:
  "findings (archive_public_key_if_needed py_str vh addr key ver d) = findings d"
  "redactions (archive_public_key_if_needed py_str vh addr key ver d) = redactions d"
  by (auto simp: archive_public_key_if_needed_def split: prod.splits json.splits)

lemma seal_other_tables:
  assumes "seal_operation se r d = Inr (d', s)"
  shows "findings d' = findings d" "redactions d' = redactions d"
  using assms by (auto simp: seal_operation_def Let_def res_simps split: option.splits)

text \<open>A decision changes one row: its status, its completion time and its seal.\<close>

lemma decide_spec:
  assumes "decide env st r d = Inr d'" and "select_operation (op_id r) d = Some x"
  shows "\<exists>y. select_operation (op_id r) d' = Some y \<and> op_status y = st \<and> op_chain_hash y \<noteq> None"
    and "\<And>i. i \<noteq> op_id r \<Longrightarrow> select_operation i d' = select_operation i d"
    and "findings_of i d' = findings_of i d" and "redactions d' = redactions d"
proof -
  let ?d = "update_operation (op_id r) (decided env st) d"
  from assms(1) obtain se s where s: "seal_operation se (decided env st r) ?d = Inr (d', s)"
    by (auto simp: decide_def seal_operation_with_settings_def res_simps)
  obtain ch sk where ops: "operations d' = map (\<lambda>x. if op_id x = op_id r then seal_row se ch sk x else x) (operations ?d)"
    using seal_operation_rows [OF s] by auto
  have sel: "select_operation i d' = select_operation i (update_operation (op_id r) (seal_row se ch sk) ?d)" for i
    by (rule select_same_tables) (simp add: ops update_operation_def)
  show "\<exists>y. select_operation (op_id r) d' = Some y \<and> op_status y = st \<and> op_chain_hash y \<noteq> None"
    unfolding sel by (simp add: select_update_same assms(2))
  show "select_operation i d' = select_operation i d" if "i \<noteq> op_id r" for i
    unfolding sel using that by (simp add: select_update_other)
  show "findings_of i d' = findings_of i d" "redactions d' = redactions d"
    using seal_other_tables [OF s] by (simp_all add: findings_of_def)
qed

lemma decide_unsigned:
  assumes "\<not> rv_sign env" and "rv_commit env = Inr ()"
  shows "\<exists>d'. decide env st r d = Inr d'"
proof -
  let ?se = "(rv_seal env)\<lparr>se_cfg := \<lparr>vc_addr = None, vc_token = None, vc_key = None\<rparr>\<rparr>"
  obtain d' s where "seal_operation ?se (decided env st r) (update_operation (op_id r) (decided env st) d) = Inr (d', s)"
    using seal_no_vault [of ?se] by fastforce
  with assms show ?thesis by (simp add: decide_def seal_operation_with_settings_def)
qed

lemma insert_redaction_reads [simp]:
  assumes "insert_redaction x d = Inr d'"
  shows "operations d' = operations d" "findings d' = findings d" "redactions d' = redactions d @ [x]"
    "select_operation i d' = select_operation i d" "findings_of i d' = findings_of i d"
  using assms by (auto simp: insert_redaction_def select_operation_def findings_of_def split: if_splits)

text \<open>The transaction of an approval, when nothing changed since the first read.\<close>

lemma approve_body_spec:
  assumes "approve_body env f r u d = Inr (d', tr)" and "select_operation (op_id r) d = Some r" and "wf_db d"
  shows "wf_db d'" and "tr = op_trace_id r" and "redactions d' = redactions d @ [review_redaction env f r u]"
    and "\<exists>y. select_operation (op_id r) d' = Some y
      \<and> (if length (findings_of (op_id r) d) \<le> Suc (length (redactions_of (op_id r) d))
         then op_status y = COMPLETED \<and> op_chain_hash y \<noteq> None else y = r)"
    and "findings_of (op_id r) d' = findings_of (op_id r) d"
proof -
  let ?x = "review_redaction env f r u"
  from assms(1,2) obtain d1 where d1: "insert_redaction ?x d = Inr d1"
    and k: "(if length (findings_of (op_id r) d1) \<le> length (redactions_of (op_id r) d1)
        then rbind (decide env COMPLETED r d1) (\<lambda>d2. Inr (d2, op_trace_id r))
        else rbind (rv_commit env) (\<lambda>_. Inr (d1, op_trace_id r))) = Inr (d', tr)"
    by (cases "insert_redaction ?x d") (auto simp: approve_body_def Let_def split: if_splits)
  note d1r = insert_redaction_reads [OF d1]
  have n: "length (redactions_of (op_id r) d1) = Suc (length (redactions_of (op_id r) d))"
    by (simp add: redactions_of_def d1r review_redaction_def)
  have w1: "wf_db d1" using insert_redaction_wf [OF d1 assms(3)] .
  have s1: "select_operation (op_id r) d1 = Some r" using assms(2) d1r by simp
  show "tr = op_trace_id r" using k by (auto simp: res_simps split: if_splits)
  show "wf_db d'" using k w1 by (auto simp: res_simps split: if_splits intro: decide_wf)
  show "redactions d' = redactions d @ [?x]" "findings_of (op_id r) d' = findings_of (op_id r) d"
    using k d1r decide_spec(3,4) [OF _ s1] by (auto simp: res_simps split: if_splits)
  show "\<exists>y. select_operation (op_id r) d' = Some y
      \<and> (if length (findings_of (op_id r) d) \<le> Suc (length (redactions_of (op_id r) d))
         then op_status y = COMPLETED \<and> op_chain_hash y \<noteq> None else y = r)"
    using k d1r(5) n decide_spec(1) [OF _ s1] s1 by (auto simp: res_simps split: if_splits)
qed

lemma approve_lenient:
  assumes "load_escalated_finding i d0 = Inr (f, r)" and "reviewer_of p = Inr u"
    and "check_self_approval (uuid_str (op_actor_id r)) p = Inr ()" and "\<not> rv_strict env"
  shows "approve_finding env p i d0 d =
    (case approve_body env f r u d of Inl e \<Rightarrow> (d, Inl e) | Inr (d', tr) \<Rightarrow> (d', Inr (tr, ''approved'')))"
  using assms by (simp add: approve_finding_def in_block_lenient split: sum.splits prod.splits)

lemma approve_cases:
  assumes "approve_finding env p i d0 d = (d', Inr x)"
  obtains f r u tr where "load_escalated_finding i d0 = Inr (f, r)" "reviewer_of p = Inr u"
    "check_self_approval (uuid_str (op_actor_id r)) p = Inr ()" "\<not> rv_strict env"
    "approve_body env f r u d = Inr (d', tr)" "x = (tr, ''approved'')"
proof -
  from assms obtain f r u where l: "load_escalated_finding i d0 = Inr (f, r)" "reviewer_of p = Inr u"
    "check_self_approval (uuid_str (op_actor_id r)) p = Inr ()"
    by (auto simp: approve_finding_def res_simps split: sum.splits)
  have "\<not> rv_strict env" using assms l by (auto simp: approve_finding_def in_block_begun)
  with assms l approve_lenient [OF l this] that show ?thesis by (auto split: sum.splits)
qed

lemma no_self_decision: "check_self_approval a p = Inr () \<longleftrightarrow> claim_or p ''sub'' (JStr []) \<noteq> jstr a"
  by (simp add: check_self_approval_def raise_if_def)

lemma mset_filter_disj:
  "(\<And>x. P x \<Longrightarrow> \<not> Q x) \<Longrightarrow> mset (filter P xs) + mset (filter Q xs) = mset (filter (\<lambda>x. P x \<or> Q x) xs)"
  by (induction xs) auto

lemma approve_body_partial:
  assumes "select_operation (op_id r) d = Some r" and "op_status r = ESCALATED"
    and "insert_redaction (review_redaction env f r u) d = Inr d1" and "rv_commit env = Inr ()"
    and "length (redactions_of (op_id r) d1) < length (findings_of (op_id r) d1)"
  shows "approve_body env f r u d = Inr (d1, op_trace_id r)"
  using assms by (simp add: approve_body_def Let_def not_le [symmetric])

lemma approve_body_complete:
  assumes "select_operation (op_id r) d = Some r" and "op_status r = ESCALATED"
    and "insert_redaction (review_redaction env f r u) d = Inr d1" and "decide env COMPLETED r d1 = Inr d2"
    and "length (findings_of (op_id r) d1) \<le> length (redactions_of (op_id r) d1)"
  shows "approve_body env f r u d = Inr (d2, op_trace_id r)"
  using assms by (simp add: approve_body_def Let_def)

lemma review_redaction_simps [simp]:
  "rd_id (review_redaction env f r u) = rv_rd_id env" "rd_finding_id (review_redaction env f r u) = fd_id f"
  "rd_operation_id (review_redaction env f r u) = op_id r" "rd_type (review_redaction env f r u) = ''mask''"
  "rd_approved_by (review_redaction env f r u) = Some u"
  by (simp_all add: review_redaction_def)

lemma insert_review_redaction:
  assumes "select_operation (op_id r) d = Some r" and "f \<in> set (findings d)" and "rv_rd_id env \<notin> rd_id ` set (redactions d)"
  shows "\<exists>d1. insert_redaction (review_redaction env f r u) d = Inr d1"
proof -
  have "op_id r \<in> op_ids d" using assms(1) by (rule select_op_ids)
  moreover have "fd_id f \<in> fd_ids d" using assms(2) by (simp add: fd_ids_def)
  moreover have "''mask'' \<in> set redaction_types" by (simp add: redaction_types_def)
  ultimately have "redaction_ok d (review_redaction env f r u)" by (simp only: redaction_ok_def review_redaction_simps)
  then have "insert_redaction (review_redaction env f r u) d = Inr (d\<lparr>redactions := redactions d @ [review_redaction env f r u]\<rparr>)"
    using assms(3) unfolding insert_redaction_def by simp
  then show ?thesis by (rule exI)
qed

lemma redactions_of_append:
  "redactions d1 = redactions d @ [x] \<Longrightarrow> redactions_of i d1 = redactions_of i d @ (if rd_operation_id x = i then [x] else [])"
  by (simp add: redactions_of_def)

lemma partial_approval:
  assumes "load_escalated_finding i d = Inr (f, r)" and "reviewer_of p = Inr u"
    and "check_self_approval (uuid_str (op_actor_id r)) p = Inr ()" and "\<not> rv_strict env" and "rv_commit env = Inr ()"
    and "rv_rd_id env \<notin> rd_id ` set (redactions d)"
    and "Suc (length (redactions_of (op_id r) d)) < length (findings_of (op_id r) d)"
  shows "\<exists>d1. insert_redaction (review_redaction env f r u) d = Inr d1
    \<and> approve_finding env p i d d = (d1, Inr (op_trace_id r, ''approved''))"
proof -
  note l = load_escalatedD [OF assms(1)]
  have sel: "select_operation (op_id r) d = Some r" using l(4,5) by simp
  obtain d1 where ins: "insert_redaction (review_redaction env f r u) d = Inr d1"
    using insert_review_redaction [OF sel l(3) assms(6)] by blast
  note r1 = insert_redaction_reads [OF ins]
  have b: "approve_body env f r u d = Inr (d1, op_trace_id r)"
    by (rule approve_body_partial [OF sel l(6) ins assms(5)])
      (use assms(7) redactions_of_append [OF r1(3)] r1(5) in simp)
  have "approve_finding env p i d d = (d1, Inr (op_trace_id r, ''approved''))"
    unfolding approve_lenient [OF assms(1-4)] b by simp
  with ins show ?thesis by blast
qed

section \<open>What review guarantees\<close>

text \<open>
  C15: under SQLAlchemy 2.0 no review decision is ever stored. The read of the finding has begun a
  transaction, so \<open>db.begin()\<close> raises: whatever the finding, the reviewer and the tables, approving
  and rejecting end in an exception and leave the committed tables as they were; a decision that
  passes every guard ends in \<open>InvalidRequestError\<close>, which the client sees as a 500.
\<close>
theorem review_decisions_never_stored:
  assumes "rv_strict env"
  shows "(\<exists>e. approve_finding env p i d0 d = (d, Inl e)) \<and> (\<exists>e. reject_finding env p i d0 d = (d, Inl e))
    \<and> (is_ok (load_escalated_finding i d0) \<and> is_ok (reviewer_of p) \<longrightarrow> reject_finding env p i d0 d = (d, Inl invalid_request))"
  using assms by (auto simp: approve_finding_def reject_finding_def in_block_begun res_simps split: sum.splits)

text \<open>
  what an approval would do with a session whose \<open>begin()\<close> accepts a transaction that has begun
  (\<open>rv_strict\<close> false; the pinned SQLAlchemy 2.0 has no such session, and there no approval
  succeeds) and when nothing changed since the first read: the caller is not the actor of the operation, exactly one redaction
  is added, a mask for this finding in the reviewer's name, the operation is completed and sealed
  if there are now as many redactions as findings and is untouched otherwise, and the tables keep
  their constraints.
\<close>
theorem approve_outcome:
  assumes "approve_finding env p i d d = (d', Inr x)" and "wf_db d"
  shows "\<exists>f r u y. fd_id f = i \<and> f \<in> set (findings d) \<and> select_operation (fd_operation_id f) d = Some r
    \<and> op_status r = ESCALATED \<and> claim_or p ''sub'' (JStr []) \<noteq> jstr (uuid_str (op_actor_id r))
    \<and> redactions d' = redactions d @ [y] \<and> rd_finding_id y = i \<and> rd_type y = ''mask'' \<and> rd_approved_by y = Some u
    \<and> reviewer_of p = Inr u
    \<and> (\<exists>r'. select_operation (op_id r) d' = Some r'
        \<and> (if length (findings_of (op_id r) d) \<le> Suc (length (redactions_of (op_id r) d))
           then op_status r' = COMPLETED \<and> op_chain_hash r' \<noteq> None else r' = r))
    \<and> x = (op_trace_id r, ''approved'') \<and> wf_db d'"
  using assms(1)
proof (cases rule: approve_cases)
  case (1 f r u tr)
  note l = load_escalatedD [OF 1(1)]
  note b = approve_body_spec [OF 1(5) l(4) [folded l(5)] assms(2)]
  show ?thesis
    by (rule exI [of _ f], rule exI [of _ r], rule exI [of _ u], rule exI [of _ "review_redaction env f r u"], intro conjI)
      (rule l b 1(2) 1(3) [unfolded no_self_decision] 1(6) [folded b(2)] | simp add: l(2) b(2) 1(6))+
qed

text \<open>
  completion counts redactions, not reviewed findings. On an operation with two findings,
  approving the first one twice completes and seals the operation, and no redaction ever covered
  the second finding.
\<close>
theorem double_approval_completes:
  assumes "wf_db d" and "load_escalated_finding i d = Inr (f, r)" and "findings_of (op_id r) d = [f, g]"
    and "fd_id g \<noteq> i" and "redactions_of (op_id r) d = []" and "reviewer_of p = Inr u"
    and "check_self_approval (uuid_str (op_actor_id r)) p = Inr ()"
    and "\<not> rv_strict env" and "\<not> rv_sign env" and "rv_commit env = Inr ()"
    and "rv_rd_id env \<notin> rd_id ` set (redactions d)"
    and "k \<notin> rd_id ` set (redactions d)" and "k \<noteq> rv_rd_id env"
  shows "\<exists>d1 d2 x y z. approve_finding env p i d d = (d1, Inr x)
    \<and> approve_finding (env\<lparr>rv_rd_id := k\<rparr>) p i d1 d1 = (d2, Inr y)
    \<and> select_operation (op_id r) d2 = Some z \<and> op_status z = COMPLETED \<and> op_chain_hash z \<noteq> None
    \<and> g \<in> set (findings_of (op_id r) d2) \<and> (\<forall>w \<in> set (redactions_of (op_id r) d2). rd_finding_id w \<noteq> fd_id g)"
proof -
  note l = load_escalatedD [OF assms(2)]
  define env2 where "env2 = env\<lparr>rv_rd_id := k\<rparr>"
  have e2: "rv_rd_id env2 = k" "rv_commit env2 = Inr ()" "\<not> rv_strict env2" "\<not> rv_sign env2"
    using assms(8-10) by (simp_all add: env2_def)
  have sel: "select_operation (op_id r) d = Some r" using l(4,5) by simp
  obtain d1 where ins1: "insert_redaction (review_redaction env f r u) d = Inr d1"
    and one: "approve_finding env p i d d = (d1, Inr (op_trace_id r, ''approved''))"
    using partial_approval [OF assms(2,6-8,10,11)] assms(3,5) by auto
  note r1 = insert_redaction_reads [OF ins1]
  have n1: "redactions_of (op_id r) d1 = [review_redaction env f r u]"
    using redactions_of_append [OF r1(3)] assms(5) by simp
  have load: "load_escalated_finding i d1 = Inr (f, r)"
    using assms(2) unfolding load_escalated_finding_def r1(2,4) .
  have sel1: "select_operation (op_id r) d1 = Some r" using sel r1(4) by simp
  have "rv_rd_id env2 \<notin> rd_id ` set (redactions d1)" using assms(12,13) by (simp add: r1(3) e2)
  then obtain d2 where ins2: "insert_redaction (review_redaction env2 f r u) d1 = Inr d2"
    using insert_review_redaction [OF sel1 load_escalatedD(3) [OF load]] by blast
  note r2 = insert_redaction_reads [OF ins2]
  have n2: "redactions_of (op_id r) d2 = [review_redaction env f r u, review_redaction env2 f r u]"
    using redactions_of_append [OF r2(3)] n1 by simp
  obtain d3 where d3: "decide env2 COMPLETED r d2 = Inr d3" using decide_unsigned [OF e2(4,2)] by blast
  have b2: "approve_body env2 f r u d1 = Inr (d3, op_trace_id r)"
    by (rule approve_body_complete [OF sel1 l(6) ins2 d3]) (simp add: n2 r2(5) r1(5) assms(3))
  have two: "approve_finding (env\<lparr>rv_rd_id := k\<rparr>) p i d1 d1 = (d3, Inr (op_trace_id r, ''approved''))"
    unfolding env2_def [symmetric] approve_lenient [OF load assms(6,7) e2(3)] b2 by simp
  have sel2: "select_operation (op_id r) d2 = Some r" using sel1 r2(4) by simp
  note fin = decide_spec [OF d3 sel2]
  obtain z where z: "select_operation (op_id r) d3 = Some z" "op_status z = COMPLETED" "op_chain_hash z \<noteq> None"
    using fin(1) by blast
  have g: "g \<in> set (findings_of (op_id r) d3)" by (simp add: fin(3) r2(5) r1(5) assms(3))
  have c: "\<forall>w \<in> set (redactions_of (op_id r) d3). rd_finding_id w \<noteq> fd_id g"
    using n2 fin(4) assms(4) l(2) by (simp add: redactions_of_def)
  show ?thesis
    by (rule exI [of _ d1], rule exI [of _ d3], rule exI, rule exI, rule exI [of _ z], intro conjI)
      (rule one two z g c)+
qed

text \<open>
  a page of pending findings is a slice of one list, in which every finding of an escalated
  operation occurs exactly once and nothing else does; the pages of size \<open>limit\<close> cover it.
\<close>
theorem pending_pages:
  assumes "wf_db d" and "get_pending_reviews limit offset d = Inr (n, page)"
  shows "\<exists>all. length all = n \<and> page = take limit (drop offset all)
    \<and> mset (map pf_finding all) = mset (filter (\<lambda>f. \<exists>r. select_operation (fd_operation_id f) d = Some r \<and> op_status r = ESCALATED) (findings d))
    \<and> (\<forall>x \<in> set all. pf_operation_id x = fd_operation_id (pf_finding x))
    \<and> (\<forall>q. concat (map (\<lambda>k. take limit (drop (k * limit) all)) [0..<q]) = take (q * limit) all)"
proof -
  from assms(2) obtain es where es: "n = length (pending_items es d)" "page = take limit (drop offset (pending_items es d))"
    by (auto simp: get_pending_reviews_def res_simps Let_def py_slice_def)
  let ?all = "pending_items es d"
  have fs: "map pf_finding ?all = concat (map (\<lambda>r. findings_of (op_id r) d) (escalated_operations d))"
    by (simp add: pending_items_def map_concat o_def)
  have count: "mset (concat (map (\<lambda>r. filter (\<lambda>f. fd_operation_id f = op_id r) fs) rs)) = mset (filter (\<lambda>f. fd_operation_id f \<in> op_id ` set rs) fs)"
    if "distinct (map op_id rs)" for rs :: "operation list" and fs
    using that
  proof (induction rs)
    case (Cons r rs)
    then have "op_id r \<notin> op_id ` set rs" by simp
    then have "mset (filter (\<lambda>f. fd_operation_id f = op_id r) fs) + mset (filter (\<lambda>f. fd_operation_id f \<in> op_id ` set rs) fs)
      = mset (filter (\<lambda>f. fd_operation_id f \<in> op_id ` set (r # rs)) fs)"
      using mset_filter_disj [of "\<lambda>f. fd_operation_id f = op_id r" "\<lambda>f. fd_operation_id f \<in> op_id ` set rs" fs] by auto
    with Cons show ?case by simp
  qed simp
  have d: "distinct (map op_id (escalated_operations d))"
    using assms(1) by (simp add: wf_db_def escalated_operations_def distinct_map_filterI)
  have eq: "fd_operation_id f \<in> op_id ` set (escalated_operations d) \<longleftrightarrow> (\<exists>r. select_operation (fd_operation_id f) d = Some r \<and> op_status r = ESCALATED)" for f
    using select_operation_in [OF assms(1)] select_operation_SomeD [of "fd_operation_id f" d]
    by (force simp: escalated_operations_def)
  have m: "mset (map pf_finding ?all) = mset (filter (\<lambda>f. \<exists>r. select_operation (fd_operation_id f) d = Some r \<and> op_status r = ESCALATED) (findings d))"
    unfolding fs findings_of_def by (simp only: count [OF d] eq)
  have o: "\<forall>x \<in> set ?all. pf_operation_id x = fd_operation_id (pf_finding x)"
    by (auto simp: pending_items_def findings_of_def)
  have pages: "concat (map (\<lambda>k. take n (drop (k * n) xs)) [0..<q]) = take (q * n) xs" for xs :: "pending_item list" and n q
  proof (induction q)
    case (Suc q)
    have "take (q * n + n) xs = take (q * n) xs @ take n (drop (q * n) xs)" by (rule take_add)
    with Suc show ?case by (simp add: add.commute)
  qed simp
  show ?thesis by (rule exI [of _ ?all]) (use es m o pages in simp)
qed

section \<open>Witnesses\<close>

definition sample_finding :: "uuid \<Rightarrow> nat \<Rightarrow> finding" where
  "sample_finding i a = \<lparr>detector = ''regex'', rule_id = ''email'', span_start = a, span_end = a + 3, confidence = 1,
     severity = ''low'', explanation = [], fd_id = i, fd_operation_id = 1\<rparr>"

definition sample_escalated :: operation where
  "sample_escalated = (sample_op 1 10)\<lparr>op_status := ESCALATED\<rparr>"

definition review_db :: db where
  "review_db = (db_with [sample_escalated])\<lparr>findings := [sample_finding 20 0, sample_finding 21 5]\<rparr>"

definition reviewer_claims :: claims where
  "reviewer_claims = [(lit ''sub'', jstr (uuid_str 5))]"

definition sample_review :: "bool \<Rightarrow> review_env" where
  "sample_review b = \<lparr>rv_strict = b, rv_refresh = False, rv_sign = False, rv_seal = no_vault, rv_now = 99,
     rv_rd_id = 30, rv_commit = Inr ()\<rparr>"

lemma review_db_wf: "wf_db review_db"
  by (simp add: wf_db_def review_db_def db_with_def empty_db_def sample_tenant_def sample_escalated_def sample_finding_def
      span_key_def finding_ok_def op_ids_def severities_def sample_op_def)

lemma review_db_load: "load_escalated_finding 20 review_db = Inr (sample_finding 20 0, sample_escalated)"
  by (simp add: load_escalated_finding_def review_db_def sample_finding_def sample_escalated_def db_with_def
      scalar_one_or_none_def select_operation_def sample_op_def)

lemma review_db_tables:
  "findings_of (op_id sample_escalated) review_db = [sample_finding 20 0, sample_finding 21 5]"
  "redactions_of (op_id sample_escalated) review_db = []" "redactions review_db = []"
  by (simp_all add: findings_of_def redactions_of_def review_db_def sample_finding_def sample_escalated_def sample_op_def
      db_with_def empty_db_def)

lemma uuid_str_eq: "uuid_str a = uuid_str b \<longleftrightarrow> a = b"
  by (metis uuid_of_uuid_str sum.inject(2))

lemma jstr_eq: "jstr a = jstr b \<longleftrightarrow> a = b"
  by (metis jstr_def json.inject(4) char_of_lit)

lemma reviewer_claims_sub:
  "claim_or reviewer_claims ''sub'' (JStr []) = jstr (uuid_str 5)"
  by (simp add: claim_or_def reviewer_claims_def dict_get_def)

lemma uuid_str_nonempty: "uuid_str u \<noteq> []"
  by (simp add: uuid_str_def uuid_groups_def del: hex_fixed.simps)

lemma reviewer_claims_id: "reviewer_of reviewer_claims = Inr 5"
  by (simp add: reviewer_of_def reviewer_claims_sub jstr_def uuid_str_nonempty)

lemma reviewer_not_actor: "check_self_approval (uuid_str (op_actor_id sample_escalated)) reviewer_claims = Inr ()"
  by (simp add: no_self_decision reviewer_claims_sub jstr_eq uuid_str_eq sample_escalated_def)

lemma review_decisions_never_stored_witness:
  "reject_finding (sample_review True) reviewer_claims 20 review_db review_db = (review_db, Inl invalid_request)
   \<and> (\<exists>e. approve_finding (sample_review True) reviewer_claims 20 review_db review_db = (review_db, Inl e))"
  using review_decisions_never_stored [of "sample_review True" reviewer_claims 20 review_db review_db]
  by (simp add: review_db_load reviewer_claims_id) (simp add: sample_review_def)

lemma approve_outcome_witness:
  "\<exists>d' r'. approve_finding (sample_review False) reviewer_claims 20 review_db review_db = (d', Inr (1, ''approved''))
     \<and> select_operation 1 d' = Some r' \<and> op_status r' = ESCALATED \<and> length (redactions d') = 1 \<and> wf_db d'"
proof -
  have e: "\<not> rv_strict (sample_review False)" "rv_commit (sample_review False) = Inr ()"
    "rv_rd_id (sample_review False) \<notin> rd_id ` set (redactions review_db)"
    by (simp_all add: sample_review_def review_db_tables)
  have n: "Suc (length (redactions_of (op_id sample_escalated) review_db)) < length (findings_of (op_id sample_escalated) review_db)"
    by (simp add: review_db_tables)
  obtain d1 where d1: "approve_finding (sample_review False) reviewer_claims 20 review_db review_db = (d1, Inr (op_trace_id sample_escalated, ''approved''))"
    using partial_approval [OF review_db_load reviewer_claims_id reviewer_not_actor e n] by blast
  have i: "op_id sample_escalated = 1" "op_trace_id sample_escalated = 1" "op_status sample_escalated = ESCALATED"
    by (simp_all add: sample_escalated_def)
  have sel: "select_operation 1 review_db = Some sample_escalated"
    using load_escalatedD(4) [OF review_db_load] by (simp add: sample_finding_def)
  from approve_outcome [OF d1 review_db_wf] obtain f r y r' where
    "select_operation (fd_operation_id f) review_db = Some r" "redactions d1 = redactions review_db @ [y]"
    "f \<in> set (findings review_db)" "wf_db d1"
    "select_operation (op_id r) d1 = Some r'"
    "if length (findings_of (op_id r) review_db) \<le> Suc (length (redactions_of (op_id r) review_db))
           then op_status r' = COMPLETED \<and> op_chain_hash r' \<noteq> None else r' = r"
    by (elim exE conjE) (rule that)
  moreover from this have "fd_operation_id f = 1" by (auto simp: review_db_def sample_finding_def)
  ultimately have "r = sample_escalated" "select_operation 1 d1 = Some r'" "r' = r" "length (redactions d1) = 1" "wf_db d1"
    using sel i n by (auto simp: review_db_tables)
  with d1 i show ?thesis by auto
qed

lemma double_approval_completes_witness:
  "\<exists>d1 d2 x y z. approve_finding (sample_review False) reviewer_claims 20 review_db review_db = (d1, Inr x)
    \<and> approve_finding ((sample_review False)\<lparr>rv_rd_id := 31\<rparr>) reviewer_claims 20 d1 d1 = (d2, Inr y)
    \<and> select_operation 1 d2 = Some z \<and> op_status z = COMPLETED
    \<and> (\<forall>w \<in> set (redactions_of 1 d2). rd_finding_id w \<noteq> 21)"
proof -
  have i: "op_id sample_escalated = 1" "fd_id (sample_finding 21 5) = 21"
    by (simp_all add: sample_escalated_def sample_finding_def)
  have e: "\<not> rv_strict (sample_review False)" "\<not> rv_sign (sample_review False)" "rv_commit (sample_review False) = Inr ()"
    "rv_rd_id (sample_review False) \<notin> rd_id ` set (redactions review_db)"
    "31 \<notin> rd_id ` set (redactions review_db)" "31 \<noteq> rv_rd_id (sample_review False)"
    by (simp_all add: sample_review_def review_db_tables)
  have g: "fd_id (sample_finding 21 5) \<noteq> 20" by (simp add: sample_finding_def)
  show ?thesis
    using double_approval_completes [OF review_db_wf review_db_load review_db_tables(1) g review_db_tables(2)
        reviewer_claims_id reviewer_not_actor e] unfolding i by (elim exE conjE) (intro exI conjI)
qed

lemma pending_pages_witness:
  "\<exists>all :: pending_item list. length all = 2 \<and> mset (map pf_finding all) = {#sample_finding 20 0, sample_finding 21 5#}"
proof -
  have esc: "escalated_operations review_db = [sample_escalated]"
    by (simp add: escalated_operations_def review_db_def sample_escalated_def)
  have "load_document_previews (map op_id (escalated_operations review_db)) review_db = Inr []"
    by (simp add: load_document_previews_def review_db_def db_with_def empty_db_def)
  moreover have "length (pending_items [] review_db) = 2"
    by (simp add: pending_items_def esc review_db_tables)
  ultimately have "get_pending_reviews 20 0 review_db = Inr (2, py_slice (pending_items [] review_db) 0 20)"
    by (simp add: get_pending_reviews_def)
  from pending_pages [OF review_db_wf this] obtain all :: "pending_item list" where a: "length all = 2"
    "mset (map pf_finding all) = mset (filter (\<lambda>f. \<exists>r. select_operation (fd_operation_id f) review_db = Some r \<and> op_status r = ESCALATED) (findings review_db))"
    by (elim exE conjE) (rule that)
  have sel: "select_operation 1 review_db = Some sample_escalated" "op_status sample_escalated = ESCALATED"
    using load_escalatedD(4,6) [OF review_db_load] by (simp_all add: sample_finding_def)
  have "findings review_db = [sample_finding 20 0, sample_finding 21 5]" by (simp add: review_db_def)
  moreover have "fd_operation_id (sample_finding i n) = 1" for i n by (simp add: sample_finding_def)
  ultimately have "mset (map pf_finding all) = {#sample_finding 20 0, sample_finding 21 5#}"
    using a(2) sel by simp
  with a(1) show ?thesis by blast
qed

end
