(* ===== verification/Listing_Api.thy ===== *)
theory Listing_Api
  imports Review_Api
begin

text \<open>
  The lists of the dashboard and the waivers: \<open>GET /v1/operations\<close> with its filters, counts and
  pages (\<open>api/v1/operations.py\<close>), and the creation, listing and revocation of waivers
  (\<open>api/v1/waivers.py\<close>). \<open>datetime.fromisoformat\<close> and \<open>re.compile\<close> are parameters.
\<close>

section \<open>Operations\<close>

record list_query =
  lq_status :: "string option"
  lq_limit :: nat
  lq_offset :: nat
  lq_from :: "string option"
  lq_to :: "string option"
  lq_actor :: "string option"

record operation_item =
  oi_operation :: operation
  oi_findings_count :: nat

record operations_list =
  ol_total :: nat
  ol_items :: "operation_item list"
  ol_pending :: nat
  ol_escalated :: nat
  ol_completed :: nat
  ol_rejected :: nat

definition unprocessable :: exn where
  "unprocessable = HTTPException 422"

definition value_error :: exn where
  "value_error = PyExc ''ValueError''"

definition parse_date :: "(string \<Rightarrow> instant result) \<Rightarrow> string option \<Rightarrow> instant option result" where
  "parse_date fromiso x =
     (case x of
        None \<Rightarrow> Inr None
      | Some s \<Rightarrow> (case fromiso s of Inr t \<Rightarrow> Inr (Some t)
                  | Inl e \<Rightarrow> Inl (if e = value_error then unprocessable else e)))"

definition actor_filter :: "claims \<Rightarrow> string option \<Rightarrow> uuid option result" where
  "actor_filter p a =
     (if a = Some ''me''
      then (let sub = claim_or p ''sub'' (JStr [])
            in if json_truthy sub
               then (case uuid_of_json sub of Inr u \<Rightarrow> Inr (Some u)
                     | Inl e \<Rightarrow> if e = value_error then Inr None else Inl e)
               else Inr None)
      else (case a of
              None \<Rightarrow> Inr None
            | Some s \<Rightarrow> (case uuid_of_str s of Inr u \<Rightarrow> Inr (Some u)
                        | Inl e \<Rightarrow> Inl (if e = value_error then unprocessable else e))))"

definition matches :: "string option \<Rightarrow> instant option \<Rightarrow> instant option \<Rightarrow> uuid option \<Rightarrow> operation \<Rightarrow> bool" where
  "matches st lo hi actor r \<longleftrightarrow>
     (case st of None \<Rightarrow> True | Some s \<Rightarrow> status_str (op_status r) = s)
   \<and> (case lo of None \<Rightarrow> True | Some t \<Rightarrow> t \<le> op_created_at r)
   \<and> (case hi of None \<Rightarrow> True | Some t \<Rightarrow> op_created_at r \<le> t)
   \<and> (case actor of None \<Rightarrow> True | Some u \<Rightarrow> op_actor_id r = u)"

definition count_status :: "operation_status \<Rightarrow> operation list \<Rightarrow> nat" where
  "count_status st rs = length (filter (\<lambda>r. op_status r = st) rs)"

definition list_operations :: "(string \<Rightarrow> instant result) \<Rightarrow> claims \<Rightarrow> list_query \<Rightarrow> db \<Rightarrow> operations_list result" where
  "list_operations fromiso p q d =
     rbind (parse_date fromiso (lq_from q)) (\<lambda>lo.
     rbind (parse_date fromiso (lq_to q)) (\<lambda>hi.
     rbind (actor_filter p (lq_actor q)) (\<lambda>actor.
       let rows = filter (matches (lq_status q) lo hi actor) (operations d);
           page = take (min (lq_limit q) 100) (drop (lq_offset q) (sorted_by_desc op_created_at rows))
       in Inr \<lparr>ol_total = length rows,
            ol_items = map (\<lambda>r. \<lparr>oi_operation = r, oi_findings_count = length (findings_of (op_id r) d)\<rparr>) page,
            ol_pending = count_status PENDING rows, ol_escalated = count_status ESCALATED rows,
            ol_completed = count_status COMPLETED rows, ol_rejected = count_status REJECTED rows\<rparr>)))"

section \<open>Waivers\<close>

record waiver_create =
  wc_rule_id :: string
  wc_entity_pattern :: doc
  wc_justification :: doc
  wc_expires_at :: "instant option"

definition re_error :: exn where
  "re_error = PyExc ''error''"

definition require_privileged :: "claims \<Rightarrow> unit result" where
  "require_privileged p =
     rbind (has_role ''policy_editor'' p) (\<lambda>b. if b then Inr () else
       rbind (has_role ''admin'' p) (\<lambda>a. raise_if (\<not> a) forbidden))"

definition claim_required :: "claims \<Rightarrow> string \<Rightarrow> json result" where
  "claim_required p k = (case map_of p (lit k) of Some v \<Rightarrow> Inr v | None \<Rightarrow> Inl (PyExc ''KeyError''))"

definition insert_waiver :: "waiver \<Rightarrow> db \<Rightarrow> db result" where
  "insert_waiver w d =
     (if wv_id w \<in> wv_id ` set (waivers d) \<or> wv_tenant_id w \<notin> tn_id ` set (tenants d) then Inl integrity_error
      else Inr (d\<lparr>waivers := waivers d @ [w]\<rparr>))"

text \<open>The generated key, the database's \<open>now()\<close>, \<open>re.compile\<close> and the outcome of the commit.\<close>

record waiver_env =
  wt_id :: uuid
  wt_now :: instant
  wt_compile :: "doc \<Rightarrow> unit result"
  wt_commit :: "unit result"

definition new_waiver :: "waiver_env \<Rightarrow> waiver_create \<Rightarrow> uuid \<Rightarrow> uuid \<Rightarrow> waiver" where
  "new_waiver env b tenant u =
     \<lparr>wv_id = wt_id env, wv_tenant_id = tenant, wv_rule_id = wc_rule_id b, wv_entity_pattern = wc_entity_pattern b,
      wv_justification = wc_justification b, wv_approved_by = u, wv_status = WACTIVE,
      wv_expires_at = wc_expires_at b, wv_created_at = wt_now env, wv_metadata = JObj []\<rparr>"

definition create_waiver :: "waiver_env \<Rightarrow> claims \<Rightarrow> waiver_create \<Rightarrow> db \<Rightarrow> (db \<times> waiver) result" where
  "create_waiver env p b d =
     rbind (require_privileged p) (\<lambda>_.
     case wt_compile env (wc_entity_pattern b) of
       Inl e \<Rightarrow> Inl (if e = re_error then unprocessable else e)
     | Inr _ \<Rightarrow>
         rbind (claim_required p ''sub'') (\<lambda>sub. rbind (uuid_of_json sub) (\<lambda>u.
         rbind (tenant_of_claims p) (\<lambda>t.
           let w = new_waiver env b t u
           in rbind (insert_waiver w d) (\<lambda>d'. rbind (wt_commit env) (\<lambda>_. Inr (d', w)))))))"

definition waiver_live :: "instant \<Rightarrow> waiver \<Rightarrow> bool" where
  "waiver_live now w \<longleftrightarrow> wv_status w = WACTIVE \<and> (case wv_expires_at w of None \<Rightarrow> True | Some t \<Rightarrow> now < t)"

definition list_waivers :: "instant \<Rightarrow> db \<Rightarrow> waiver list" where
  "list_waivers now d = sorted_by_desc wv_created_at (filter (waiver_live now) (waivers d))"

definition revoke_waiver :: "waiver_env \<Rightarrow> claims \<Rightarrow> uuid \<Rightarrow> db \<Rightarrow> db result" where
  "revoke_waiver env p i d =
     rbind (require_privileged p) (\<lambda>_.
       if i \<notin> wv_id ` set (waivers d) then Inl (HTTPException 404)
       else rbind (wt_commit env) (\<lambda>_.
         Inr (d\<lparr>waivers := map (\<lambda>w. if wv_id w = i then w\<lparr>wv_status := WREVOKED\<rparr> else w) (waivers d)\<rparr>)))"

section \<open>What the lists guarantee\<close>

text \<open>
  the dashboard's list is one sorted list seen through a window. Whatever the filters, there is
  one list of the matching operations, newest first, such that the answer counts it and its
  statuses, the page is at most one hundred of its rows from the offset on, each with its number
  of findings; the four reported statuses and the approved ones, which are not reported, add up to
  the total.
\<close>
theorem operations_page:
  assumes "list_operations fromiso p q d = Inr resp"
  shows "\<exists>lo hi actor rows.
      mset rows = mset (filter (matches (lq_status q) lo hi actor) (operations d))
    \<and> sorted_wrt (\<lambda>x y. op_created_at y \<le> op_created_at x) rows
    \<and> ol_total resp = length rows
    \<and> map oi_operation (ol_items resp) = take (min (lq_limit q) 100) (drop (lq_offset q) rows)
    \<and> length (ol_items resp) \<le> 100
    \<and> (\<forall>x \<in> set (ol_items resp). oi_findings_count x = length (findings_of (op_id (oi_operation x)) d))
    \<and> ol_pending resp + ol_escalated resp + ol_completed resp + ol_rejected resp + count_status APPROVED rows = ol_total resp"
proof -
  from assms obtain lo hi actor where r: "resp =
      (let rows = filter (matches (lq_status q) lo hi actor) (operations d);
           page = take (min (lq_limit q) 100) (drop (lq_offset q) (sorted_by_desc op_created_at rows))
       in \<lparr>ol_total = length rows,
            ol_items = map (\<lambda>r. \<lparr>oi_operation = r, oi_findings_count = length (findings_of (op_id r) d)\<rparr>) page,
            ol_pending = count_status PENDING rows, ol_escalated = count_status ESCALATED rows,
            ol_completed = count_status COMPLETED rows, ol_rejected = count_status REJECTED rows\<rparr>)"
    unfolding list_operations_def rbind_Inr_iff Let_def by blast
  let ?m = "filter (matches (lq_status q) lo hi actor) (operations d)"
  let ?rows = "sorted_by_desc op_created_at ?m"
  have ms: "mset ?rows = mset ?m" by (simp add: sorted_by_desc_def)
  have c: "count_status st ?rows = count_status st ?m" for st
  proof -
    have "mset (filter (\<lambda>r. op_status r = st) ?rows) = mset (filter (\<lambda>r. op_status r = st) ?m)"
      by (metis ms mset_filter)
    then show ?thesis unfolding count_status_def by (rule mset_eq_length)
  qed
  have "count_status PENDING xs + count_status ESCALATED xs + count_status COMPLETED xs + count_status REJECTED xs
      + count_status APPROVED xs = length xs" for xs
  proof (induction xs)
    case (Cons x xs)
    then show ?case by (cases "op_status x") (simp_all add: count_status_def)
  qed (simp add: count_status_def)
  note sum = this [of ?m]
  show ?thesis
    by (rule exI [of _ lo], rule exI [of _ hi], rule exI [of _ actor], rule exI [of _ ?rows])
      (use ms sum c mset_eq_length [OF ms] sorted_by_desc_sorted [of op_created_at ?m] in \<open>simp add: r Let_def o_def\<close>)
qed

lemma insert_waiver_wf [inv_intros]: "insert_waiver w d = Inr d' \<Longrightarrow> wf_db d \<Longrightarrow> wf_db d'"
  by (auto simp: insert_waiver_def wf_db_def op_ids_def fd_ids_def finding_ok_def redaction_ok_def artifact_ok_def
      split: if_splits)

lemma create_waiver_cases:
  assumes "create_waiver env p b d = Inr (d', w)"
  shows "require_privileged p = Inr ()" and "\<exists>t u. w = new_waiver env b t u \<and> insert_waiver w d = Inr d'"
proof -
  from assms show p: "require_privileged p = Inr ()" by (cases "require_privileged p") (simp_all add: create_waiver_def)
  from assms p obtain x where x: "wt_compile env (wc_entity_pattern b) = Inr x"
    by (cases "wt_compile env (wc_entity_pattern b)") (auto simp: create_waiver_def)
  from assms p x show "\<exists>t u. w = new_waiver env b t u \<and> insert_waiver w d = Inr d'"
    unfolding create_waiver_def p x sum.case rbind.simps rbind_Inr_iff Let_def by blast
qed

lemma require_privileged_role:
  "require_privileged p = Inr () \<Longrightarrow> has_role ''policy_editor'' p = Inr True \<or> has_role ''admin'' p = Inr True"
  by (auto simp: require_privileged_def res_simps split: if_splits)

lemma revoke_waiver_cases:
  assumes "revoke_waiver env p i d = Inr d'"
  shows "require_privileged p = Inr ()" and "i \<in> wv_id ` set (waivers d)"
    and "d' = d\<lparr>waivers := map (\<lambda>w. if wv_id w = i then w\<lparr>wv_status := WREVOKED\<rparr> else w) (waivers d)\<rparr>"
  using assms by (auto simp: revoke_waiver_def res_simps split: if_splits)

text \<open>
  C28: the life of a waiver. Only a policy editor or an administrator creates one; it is then listed
  from its creation until it expires, and the tables keep their constraints. Only a policy editor or an
  administrator revokes it, and once it is revoked no list contains it any more, while every other waiver is
  listed as before and nothing but waivers has changed.
\<close>
theorem waiver_life:
  assumes "create_waiver env p b d = Inr (d1, w)" and "wf_db d"
  shows "(has_role ''policy_editor'' p = Inr True \<or> has_role ''admin'' p = Inr True) \<and> wf_db d1
    \<and> (w \<in> set (list_waivers now d1) \<longleftrightarrow> (case wc_expires_at b of None \<Rightarrow> True | Some t \<Rightarrow> now < t))
    \<and> (revoke_waiver env' p' (wv_id w) d1 = Inr d2 \<longrightarrow>
      (has_role ''policy_editor'' p' = Inr True \<or> has_role ''admin'' p' = Inr True) \<and> waivers_update (\<lambda>_. waivers d1) d2 = d1 \<and>
      set (list_waivers now d2) = set (list_waivers now d1) - {w} \<and> (\<forall>x \<in> set (list_waivers now d2). wv_id x \<noteq> wv_id w))"
proof -
  from create_waiver_cases(2) [OF assms(1)] obtain t u where w: "w = new_waiver env b t u" and i: "insert_waiver w d = Inr d1"
    by blast
  have d1: "d1 = d\<lparr>waivers := waivers d @ [w]\<rparr>" and new: "wv_id w \<notin> wv_id ` set (waivers d)"
    using i by (auto simp: insert_waiver_def split: if_splits)
  have ne: "wv_id x \<noteq> wv_id w" if "x \<in> set (waivers d)" for x using new that by (metis image_eqI)
  have priv: "has_role ''policy_editor'' p = Inr True \<or> has_role ''admin'' p = Inr True"
    using create_waiver_cases(1) [OF assms(1)] by (rule require_privileged_role)
  have wf: "wf_db d1" using i assms(2) by (rule insert_waiver_wf)
  have live: "w \<in> set (list_waivers now d1) \<longleftrightarrow> (case wc_expires_at b of None \<Rightarrow> True | Some t \<Rightarrow> now < t)"
    by (simp add: list_waivers_def waiver_live_def d1) (simp add: w new_waiver_def)
  have gone: "set (list_waivers now d2) = set (list_waivers now d1) - {w} \<and> (\<forall>x \<in> set (list_waivers now d2). wv_id x \<noteq> wv_id w)"
    if "revoke_waiver env' p' (wv_id w) d1 = Inr d2"
  proof -
    let ?g = "\<lambda>x. if wv_id x = wv_id w then x\<lparr>wv_status := WREVOKED\<rparr> else x"
    have "waivers d2 = map ?g (waivers d1)" unfolding revoke_waiver_cases(3) [OF that] by simp
    also have "\<dots> = waivers d @ [w\<lparr>wv_status := WREVOKED\<rparr>]"
    proof -
      have "map ?g (waivers d) = waivers d" using ne by (intro map_idI) simp
      then show ?thesis by (simp add: d1)
    qed
    finally have "set (list_waivers now d2) = {x \<in> set (waivers d). waiver_live now x}"
      by (auto simp: list_waivers_def waiver_live_def)
    moreover have "set (list_waivers now d1) - {w} = {x \<in> set (waivers d). waiver_live now x}"
      using new by (auto simp: list_waivers_def d1)
    ultimately show ?thesis using ne by auto
  qed
  have caller: "(has_role ''policy_editor'' p' = Inr True \<or> has_role ''admin'' p' = Inr True) \<and> waivers_update (\<lambda>_. waivers d1) d2 = d1"
    if "revoke_waiver env' p' (wv_id w) d1 = Inr d2"
    using require_privileged_role [OF revoke_waiver_cases(1) [OF that]] unfolding revoke_waiver_cases(3) [OF that] by simp
  from priv wf live gone caller show ?thesis by blast
qed

text \<open>A caller whose \<open>sub\<close> is no UUID and who asks for his own operations is shown everybody's.\<close>

lemma me_without_uuid:
  assumes "claim_or p ''sub'' (JStr []) = JStr s" and "s \<noteq> []" and "uuid_of_doc s = Inl value_error"
  shows "actor_filter p (Some ''me'') = Inr None"
  using assms by (simp add: actor_filter_def)

section \<open>Witnesses\<close>

definition everything :: list_query where
  "everything = \<lparr>lq_status = None, lq_limit = 20, lq_offset = 0, lq_from = None, lq_to = None, lq_actor = None\<rparr>"

lemma operations_page_witness:
  "\<exists>resp. list_operations fromiso [] everything (db_with [sample_op 1 10, sample_op 2 20]) = Inr resp
     \<and> ol_total resp = 2 \<and> length (ol_items resp) \<le> 100 \<and> (\<forall>x \<in> set (ol_items resp). oi_findings_count x = 0)"
proof -
  let ?d = "db_with [sample_op 1 10, sample_op 2 20]"
  obtain resp where r: "list_operations fromiso [] everything ?d = Inr resp" and n: "ol_total resp = 2"
    by (simp add: list_operations_def parse_date_def actor_filter_def everything_def matches_def Let_def)
  have "findings_of i ?d = []" for i by (simp add: findings_of_def db_with_def empty_db_def)
  with r n operations_page [OF r] show ?thesis by auto
qed

definition admin_claims :: claims where
  "admin_claims = [(lit ''sub'', jstr (uuid_str 5)), (lit ''tenant_id'', jstr (uuid_str 7)),
     (lit ''realm_access'', JObj [(lit ''roles'', JArr [jstr ''admin''])])]"

lemma admin_claims_roles [simp]:
  "has_role ''admin'' admin_claims = Inr True" "has_role ''policy_editor'' admin_claims = Inr False"
  by (simp_all add: has_role_def get_roles_def admin_claims_def claim_or_def dict_get_def jstr_def)

lemma admin_claims_ids [simp]:
  "claim_required admin_claims ''sub'' = Inr (jstr (uuid_str 5))" "tenant_of_claims admin_claims = Inr 7"
  by (simp_all add: claim_required_def tenant_of_claims_def admin_claims_def claim_or_def dict_get_def jstr_def uuid_str_nonempty)

definition sample_waiver_env :: waiver_env where
  "sample_waiver_env = \<lparr>wt_id = 40, wt_now = 50, wt_compile = (\<lambda>s. Inr ()), wt_commit = Inr ()\<rparr>"

definition sample_waiver :: waiver_create where
  "sample_waiver = \<lparr>wc_rule_id = ''email'', wc_entity_pattern = lit ''x'', wc_justification = [], wc_expires_at = Some 100\<rparr>"

lemma waiver_life_witness:
  "\<exists>d1 w d2. create_waiver sample_waiver_env admin_claims sample_waiver (db_with []) = Inr (d1, w)
     \<and> w \<in> set (list_waivers 60 d1) \<and> revoke_waiver sample_waiver_env admin_claims (wv_id w) d1 = Inr d2
     \<and> w \<notin> set (list_waivers 60 d2)"
proof -
  let ?w = "new_waiver sample_waiver_env sample_waiver 7 5"
  have uj: "uuid_of_json (jstr (uuid_str 5)) = Inr 5" by (simp add: jstr_def)
  have em: "wt_compile sample_waiver_env x = Inr ()" "wt_commit sample_waiver_env = Inr ()" for x
    by (simp_all add: sample_waiver_env_def)
  have pr: "require_privileged admin_claims = Inr ()" by (simp add: require_privileged_def raise_if_def)
  have "insert_waiver ?w (db_with []) = Inr ((db_with [])\<lparr>waivers := [?w]\<rparr>)"
    by (simp add: insert_waiver_def new_waiver_def db_with_def empty_db_def sample_tenant_def)
  then obtain d1 where c: "create_waiver sample_waiver_env admin_claims sample_waiver (db_with []) = Inr (d1, ?w)"
    and d1: "waivers d1 = [?w]"
    by (simp add: create_waiver_def pr Let_def uj em)
  obtain d2 where r: "revoke_waiver sample_waiver_env admin_claims (wv_id ?w) d1 = Inr d2"
    using pr by (simp add: revoke_waiver_def d1 em)
  have "wf_db (db_with [])" by (rule db_with_wf) simp
  from waiver_life [OF c this, of 60 sample_waiver_env admin_claims d2] r c show ?thesis
    by (auto simp: sample_waiver_def)
qed

end
