(* ===== verification/Retention.thy ===== *)
theory Retention
  imports Hmac Listing_Api
begin

text \<open>
  Deletion: the periodic job (\<open>api/v1/retention.py\<close>), the purge of a tenant with its signed
  certificate (\<open>core/retention_gdpr.py\<close>), the object store it is kept in (\<open>core/worm.py\<close>), and the
  endpoints that trigger it and read the certificates (\<open>api/v1/admin_retention.py\<close>). MinIO is a
  list of objects, with the outcome of each call a parameter.
\<close>

section \<open>The retention job\<close>

definition days_ago :: "instant \<Rightarrow> int \<Rightarrow> instant" where
  "days_ago now days = now - days * usec_per_day"

text \<open>\<open>DELETE\<close> from the outbox and the artifacts; the counts of deleted rows.\<close>

definition delete_outbox_where :: "(outbox \<Rightarrow> bool) \<Rightarrow> db \<Rightarrow> db" where
  "delete_outbox_where p d = d\<lparr>outbox_rows := filter (\<lambda>b. \<not> p b) (outbox_rows d)\<rparr>"

definition delete_artifacts_where :: "(artifact \<Rightarrow> bool) \<Rightarrow> db \<Rightarrow> db" where
  "delete_artifacts_where p d = d\<lparr>artifacts := filter (\<lambda>a. \<not> p a) (artifacts d)\<rparr>"

definition count_where :: "('a \<Rightarrow> bool) \<Rightarrow> 'a list \<Rightarrow> nat" where
  "count_where p xs = length (filter p xs)"

definition run_retention :: "child_keys \<Rightarrow> instant \<Rightarrow> int \<Rightarrow> int \<Rightarrow> db \<Rightarrow> db \<times> (nat \<times> nat \<times> nat)" where
  "run_retention k now ops_days art_days d =
     (let cutoff_ops = days_ago now ops_days; cutoff_art = days_ago now art_days;
          p_ob = (\<lambda>b. ob_processed b \<and> ob_created_at b < cutoff_ops);
          d1 = delete_outbox_where p_ob d;
          p_art = (\<lambda>a. ar_created_at a < cutoff_art);
          d2 = delete_artifacts_where p_art d1;
          p_op = (\<lambda>r. op_created_at r < cutoff_ops)
      in (delete_operations_where k p_op d2,
          count_where p_op (operations d2), count_where p_art (artifacts d1), count_where p_ob (outbox_rows d)))"

section \<open>The object store (core/worm.py)\<close>

record worm_object =
  wo_name :: doc
  wo_data :: bytes
  wo_retain_until :: instant

text \<open>Whether a client can be made, the clock, and the outcome of the call.\<close>

record worm_env =
  wm_client :: bool
  wm_now :: instant
  wm_call :: "unit result"

definition worm_retention_days :: int where
  "worm_retention_days = 2555"

definition store_with_retention :: "worm_env \<Rightarrow> doc \<Rightarrow> bytes \<Rightarrow> int option \<Rightarrow> worm_object list \<Rightarrow> worm_object list \<times> bool" where
  "store_with_retention env name data days os =
     (if \<not> wm_client env then (os, False)
      else let n = (case days of Some k \<Rightarrow> if k = 0 then worm_retention_days else k | None \<Rightarrow> worm_retention_days)
           in case wm_call env of
                Inl e \<Rightarrow> (os, False)
              | Inr u \<Rightarrow> (os @ [\<lparr>wo_name = name, wo_data = data, wo_retain_until = wm_now env + n * usec_per_day\<rparr>], True))"

definition delete_with_governance_bypass :: "worm_env \<Rightarrow> doc \<Rightarrow> worm_object list \<Rightarrow> worm_object list \<times> bool" where
  "delete_with_governance_bypass env name os =
     (if \<not> wm_client env then (os, False)
      else case wm_call env of Inl e \<Rightarrow> (os, False) | Inr u \<Rightarrow> (filter (\<lambda>w. wo_name w \<noteq> name) os, True))"

text \<open>The newest version of an object.\<close>

definition get_object :: "doc \<Rightarrow> worm_object list \<Rightarrow> worm_object option" where
  "get_object name os = find (\<lambda>w. wo_name w = name) (rev os)"

definition check_retention :: "worm_env \<Rightarrow> doc \<Rightarrow> worm_object list \<Rightarrow> instant option" where
  "check_retention env name os =
     (if \<not> wm_client env then None
      else case wm_call env of Inl e \<Rightarrow> None | Inr u \<Rightarrow> map_option wo_retain_until (get_object name os))"

section \<open>The deletion certificate\<close>

record deletion_counts =
  dc_operations :: nat
  dc_findings :: nat
  dc_redactions :: nat
  dc_artifacts :: nat

record deletion_certificate =
  ct_id :: string
  ct_tenant :: string
  ct_deleted_at :: string
  ct_retention_days :: int
  ct_cutoff :: string
  ct_counts :: deletion_counts
  ct_operation_ids :: "string list"
  ct_reason :: string
  ct_executor :: string
  ct_signature :: "string option"

definition jnat :: "nat \<Rightarrow> json" where
  "jnat n = JInt (int n)"

text \<open>\<open>to\_dict\<close> without and with the signature.\<close>

definition certificate_payload :: "deletion_certificate \<Rightarrow> (doc \<times> json) list" where
  "certificate_payload c =
     [(lit ''certificate_id'', jstr (ct_id c)), (lit ''certificate_type'', jstr ''gdpr_deletion''),
      (lit ''tenant_id'', jstr (ct_tenant c)), (lit ''deleted_at'', jstr (ct_deleted_at c)),
      (lit ''retention_policy'', JObj [(lit ''retention_days'', JInt (ct_retention_days c)), (lit ''cutoff_date'', jstr (ct_cutoff c))]),
      (lit ''deleted_records'', JObj [(lit ''operations'', jnat (dc_operations (ct_counts c))),
         (lit ''operation_ids'', JArr (map jstr (ct_operation_ids c))), (lit ''findings'', jnat (dc_findings (ct_counts c))),
         (lit ''redactions'', jnat (dc_redactions (ct_counts c))), (lit ''artifacts'', jnat (dc_artifacts (ct_counts c)))]),
      (lit ''deletion_reason'', jstr (ct_reason c)), (lit ''executor'', jstr (ct_executor c))]"

definition certificate_dict :: "deletion_certificate \<Rightarrow> json" where
  "certificate_dict c = JObj (certificate_payload c @
     [(lit ''signature'', case ct_signature c of None \<Rightarrow> JNull | Some s \<Rightarrow> jstr s)])"

definition certificate_bytes :: "deletion_certificate \<Rightarrow> bytes" where
  "certificate_bytes c = utf8_bytes (dumps_sorted (\<lambda>q. []) (JObj (certificate_payload c)))"

definition sign_certificate :: "(bytes \<Rightarrow> string) \<Rightarrow> bytes \<Rightarrow> deletion_certificate \<Rightarrow> deletion_certificate" where
  "sign_certificate sha secret c = c\<lparr>ct_signature := Some (hmac_hex sha secret (certificate_bytes c))\<rparr>"

section \<open>The purge\<close>

text \<open>
  The three readings of the clock (\<open>run\_gdpr\_purge\<close>, \<open>find\_expired\_operations\<close>,
  \<open>generate\_deletion\_certificate\<close>), the generated identifier, the digest and the secret, the
  outcome of the commit, the object store, the text \<open>json.dumps(\<dots>, indent=2)\<close> writes, and the
  foreign keys of the tables.
\<close>

record purge_env =
  pg_now1 :: instant
  pg_now2 :: instant
  pg_now3 :: instant
  pg_cert_id :: uuid
  pg_sha :: "bytes \<Rightarrow> string"
  pg_secret :: bytes
  pg_commit :: "unit result"
  pg_worm :: worm_env
  pg_dumps :: "json \<Rightarrow> bytes"
  pg_keys :: child_keys

definition expired :: "uuid \<Rightarrow> instant \<Rightarrow> operation \<Rightarrow> bool" where
  "expired t cutoff r \<longleftrightarrow> op_tenant_id r = t \<and> op_created_at r < cutoff"

definition find_expired_operations :: "instant \<Rightarrow> uuid \<Rightarrow> int \<Rightarrow> db \<Rightarrow> operation list" where
  "find_expired_operations now t days d =
     sorted_by op_created_at (filter (expired t (days_ago now days)) (operations d))"

definition delete_operations :: "child_keys \<Rightarrow> uuid \<Rightarrow> instant \<Rightarrow> db \<Rightarrow> db \<times> deletion_counts" where
  "delete_operations k t cutoff d =
     (let ids = op_id ` set (filter (expired t cutoff) (operations d))
      in (delete_operations_where k (expired t cutoff) d,
          \<lparr>dc_operations = count_where (expired t cutoff) (operations d),
           dc_findings = count_where (\<lambda>f. fd_operation_id f \<in> ids) (findings d),
           dc_redactions = count_where (\<lambda>x. rd_operation_id x \<in> ids) (redactions d),
           dc_artifacts = count_where (\<lambda>a. ar_operation_id a \<in> ids) (artifacts d)\<rparr>))"

definition generate_deletion_certificate ::
  "purge_env \<Rightarrow> uuid \<Rightarrow> int \<Rightarrow> instant \<Rightarrow> operation list \<Rightarrow> deletion_counts \<Rightarrow> string \<Rightarrow> deletion_certificate" where
  "generate_deletion_certificate env t days cutoff ops counts executor =
     sign_certificate (pg_sha env) (pg_secret env)
       \<lparr>ct_id = uuid_str (pg_cert_id env), ct_tenant = uuid_str t, ct_deleted_at = isoformat (pg_now3 env),
        ct_retention_days = days, ct_cutoff = isoformat cutoff, ct_counts = counts,
        ct_operation_ids = map (\<lambda>r. uuid_str (op_id r)) ops,
        ct_reason = ''GDPR retention policy: '' @ int_str days @ '' days'', ct_executor = executor,
        ct_signature = None\<rparr>"

definition certificate_name :: "string \<Rightarrow> string \<Rightarrow> doc" where
  "certificate_name t c = lit (t @ ''/deletion-certificates/'' @ c @ ''.json'')"

definition store_deletion_certificate :: "purge_env \<Rightarrow> deletion_certificate \<Rightarrow> worm_object list \<Rightarrow> worm_object list \<times> bool" where
  "store_deletion_certificate env c os =
     store_with_retention (pg_worm env) (certificate_name (ct_tenant c) (ct_id c)) (pg_dumps env (certificate_dict c)) (Some 2555) os"

record purge_result =
  pr_counts :: deletion_counts
  pr_certificate :: deletion_certificate
  pr_stored :: bool

definition run_gdpr_purge ::
  "purge_env \<Rightarrow> uuid \<Rightarrow> int \<Rightarrow> string \<Rightarrow> db \<times> worm_object list \<Rightarrow> (db \<times> worm_object list) \<times> purge_result option result" where
  "run_gdpr_purge env t days executor s =
     (let cutoff = days_ago (pg_now1 env) days;
          ops = find_expired_operations (pg_now2 env) t days (fst s)
      in if ops = [] then (s, Inr None)
         else let (d1, counts) = delete_operations (pg_keys env) t cutoff (fst s)
              in case pg_commit env of
                   Inl e \<Rightarrow> (s, Inl e)
                 | Inr u \<Rightarrow>
                     let c = generate_deletion_certificate env t days cutoff ops counts executor;
                         (os, stored) = store_deletion_certificate env c (snd s)
                     in ((d1, os), Inr (Some \<lparr>pr_counts = counts, pr_certificate = c, pr_stored = stored\<rparr>)))"

section \<open>The endpoints (api/v1/admin\_retention.py)\<close>

definition require_reader :: "claims \<Rightarrow> unit result" where
  "require_reader p = rbind (has_role ''admin'' p) (\<lambda>a. if a then Inr () else
     rbind (has_role ''reviewer'' p) (\<lambda>b. raise_if (\<not> b) forbidden))"

definition select_tenant :: "uuid \<Rightarrow> db \<Rightarrow> tenant option" where
  "select_tenant t d = find (\<lambda>x. tn_id x = t) (tenants d)"

text \<open>\<open>tenant.retention\_days or 365\<close>.\<close>

definition tenant_retention :: "tenant \<Rightarrow> int" where
  "tenant_retention x = (case tn_retention_days x of Some n \<Rightarrow> if n = 0 then 365 else n | None \<Rightarrow> 365)"

definition trigger_purge ::
  "purge_env \<Rightarrow> claims \<Rightarrow> uuid \<Rightarrow> db \<times> worm_object list \<Rightarrow> (db \<times> worm_object list) \<times> purge_result option result" where
  "trigger_purge env p t s =
     (case require_admin p of
        Inl e \<Rightarrow> (s, Inl e)
      | Inr u \<Rightarrow> (case select_tenant t (fst s) of
                   None \<Rightarrow> (s, Inl (HTTPException 404))
                 | Some x \<Rightarrow> run_gdpr_purge env t (tenant_retention x) ''retention-purge-job'' s))"

definition list_certificates :: "worm_env \<Rightarrow> claims \<Rightarrow> uuid \<Rightarrow> db \<Rightarrow> worm_object list \<Rightarrow> worm_object list result" where
  "list_certificates env p t d os =
     rbind (require_reader p) (\<lambda>_.
       if select_tenant t d = None then Inl (HTTPException 404)
       else if \<not> wm_client env then Inr []
       else case wm_call env of
              Inl e \<Rightarrow> Inr []
            | Inr u \<Rightarrow> Inr (filter (\<lambda>w. starts_with (lit (uuid_str t @ ''/deletion-certificates/'')) (wo_name w)) os))"

definition get_certificate ::
  "worm_env \<Rightarrow> (bytes \<Rightarrow> json result) \<Rightarrow> claims \<Rightarrow> uuid \<Rightarrow> string \<Rightarrow> db \<Rightarrow> worm_object list \<Rightarrow> json result" where
  "get_certificate env loads p t c d os =
     rbind (require_reader p) (\<lambda>_.
       if select_tenant t d = None then Inl (HTTPException 404)
       else if \<not> wm_client env then Inl (HTTPException 503)
       else case wm_call env of
              Inl e \<Rightarrow> Inl (HTTPException 404)
            | Inr u \<Rightarrow> (case get_object (certificate_name (uuid_str t) c) os of
                         None \<Rightarrow> Inl (HTTPException 404)
                       | Some w \<Rightarrow> (case loads (wo_data w) of Inl e \<Rightarrow> Inl (HTTPException 404) | Inr j \<Rightarrow> Inr j)))"

section \<open>Lemmas\<close>

lemma count_where_filter: "count_where p xs + length (filter (\<lambda>x. \<not> p x) xs) = length xs"
  by (induction xs) (simp_all add: count_where_def)

lemma sorted_filter_split:
  "sorted (map k xs) \<Longrightarrow> xs = filter (\<lambda>x. k x < c) xs @ filter (\<lambda>x. \<not> k x < c) xs"
  for k :: "'a \<Rightarrow> 'b::linorder"
proof (induction xs)
  case (Cons x xs)
  show ?case
  proof (cases "k x < c")
    case False
    with Cons.prems have "filter (\<lambda>x. k x < c) (x # xs) = []" by (auto simp: filter_empty_conv)
    moreover from this have "filter (\<lambda>x. \<not> k x < c) (x # xs) = x # xs" by (auto simp: filter_empty_conv filter_id_conv)
    ultimately show ?thesis by simp
  qed (use Cons in auto)
qed simp

text \<open>The operations that a delete takes are the difference of the tables.\<close>

lemma filtered_out: "set (filter p xs) = set xs - set (filter (\<lambda>x. \<not> p x) xs)"
  by auto

lemma delete_operations_spec:
  assumes "delete_operations k t cutoff d = (d', counts)"
  shows "d' = delete_operations_where k (expired t cutoff) d"
    and "dc_operations counts + length (operations d') = length (operations d)"
    and "counts = \<lparr>dc_operations = dc_operations counts,
       dc_findings = length (filter (\<lambda>f. fd_operation_id f \<in> op_id ` (set (operations d) - set (operations d'))) (findings d)),
       dc_redactions = length (filter (\<lambda>x. rd_operation_id x \<in> op_id ` (set (operations d) - set (operations d'))) (redactions d)),
       dc_artifacts = length (filter (\<lambda>a. ar_operation_id a \<in> op_id ` (set (operations d) - set (operations d'))) (artifacts d))\<rparr>"
proof -
  let ?p = "expired t cutoff"
  from assms show d: "d' = delete_operations_where k ?p d" by (simp add: delete_operations_def Let_def)
  from assms have c: "counts = \<lparr>dc_operations = count_where ?p (operations d),
       dc_findings = count_where (\<lambda>f. fd_operation_id f \<in> op_id ` set (filter ?p (operations d))) (findings d),
       dc_redactions = count_where (\<lambda>x. rd_operation_id x \<in> op_id ` set (filter ?p (operations d))) (redactions d),
       dc_artifacts = count_where (\<lambda>a. ar_operation_id a \<in> op_id ` set (filter ?p (operations d))) (artifacts d)\<rparr>"
    by (simp add: delete_operations_def Let_def)
  show "dc_operations counts + length (operations d') = length (operations d)"
    unfolding c d delete_operations_where_tables deletion_counts.simps by (rule count_where_filter)
  show "counts = \<lparr>dc_operations = dc_operations counts,
       dc_findings = length (filter (\<lambda>f. fd_operation_id f \<in> op_id ` (set (operations d) - set (operations d'))) (findings d)),
       dc_redactions = length (filter (\<lambda>x. rd_operation_id x \<in> op_id ` (set (operations d) - set (operations d'))) (redactions d)),
       dc_artifacts = length (filter (\<lambda>a. ar_operation_id a \<in> op_id ` (set (operations d) - set (operations d'))) (artifacts d))\<rparr>"
    unfolding c d delete_operations_where_tables filtered_out [of ?p] count_where_def deletion_counts.simps by (rule refl)
qed

text \<open>The child tables after the delete, under the foreign keys that the tables have.\<close>

lemma deleted_children:
  assumes "d' = delete_operations_where k p d" and "gone = op_id ` (set (operations d) - set (operations d'))"
  shows "findings d' = filter (\<lambda>f. \<not> (ck_findings k \<and> fd_operation_id f \<in> gone)) (findings d)"
    and "artifacts d' = filter (\<lambda>a. \<not> (ck_artifacts k \<and> ar_operation_id a \<in> gone)) (artifacts d)"
    and "redactions d' = filter (\<lambda>x. \<not> (ck_redactions k \<and> rd_operation_id x \<in> gone)
       \<and> \<not> (ck_redaction_finding k \<and> ck_findings k \<and> (\<exists>f \<in> set (findings d). fd_id f = rd_finding_id x \<and> fd_operation_id f \<in> gone))) (redactions d)"
proof -
  have g: "op_id ` set (filter p (operations d)) = gone"
    unfolding assms delete_operations_where_tables filtered_out [of p] by (rule refl)
  show "findings d' = filter (\<lambda>f. \<not> (ck_findings k \<and> fd_operation_id f \<in> gone)) (findings d)"
    and "artifacts d' = filter (\<lambda>a. \<not> (ck_artifacts k \<and> ar_operation_id a \<in> gone)) (artifacts d)"
    unfolding assms(1) delete_operations_where_children g by (rule refl)+
  have l: "x \<in> fd_id ` set (filter (\<lambda>f. ck_findings k \<and> fd_operation_id f \<in> gone) (findings d))
      \<longleftrightarrow> ck_findings k \<and> (\<exists>f \<in> set (findings d). fd_id f = x \<and> fd_operation_id f \<in> gone)" for x by auto
  show "redactions d' = filter (\<lambda>x. \<not> (ck_redactions k \<and> rd_operation_id x \<in> gone)
       \<and> \<not> (ck_redaction_finding k \<and> ck_findings k \<and> (\<exists>f \<in> set (findings d). fd_id f = rd_finding_id x \<and> fd_operation_id f \<in> gone))) (redactions d)"
    unfolding assms(1) delete_operations_where_def Let_def g l by simp
qed

lemma store_then_get:
  "store_with_retention env name data days os = (os', True) \<Longrightarrow>
     \<exists>w. get_object name os' = Some w \<and> wo_data w = data \<and> check_retention env name os' = Some (wo_retain_until w)"
  by (auto simp: store_with_retention_def get_object_def check_retention_def Let_def split: if_splits sum.splits)

lemma purge_cases:
  assumes "run_gdpr_purge env t days ex (d, os) = ((d', os'), Inr (Some res))"
  obtains counts where
    "delete_operations (pg_keys env) t (days_ago (pg_now1 env) days) d = (d', counts)" "pr_counts res = counts"
    "pr_certificate res = generate_deletion_certificate env t days (days_ago (pg_now1 env) days)
       (find_expired_operations (pg_now2 env) t days d) counts ex"
    "store_deletion_certificate env (pr_certificate res) os = (os', pr_stored res)"
    "find_expired_operations (pg_now2 env) t days d \<noteq> []"
proof -
  have ne: "find_expired_operations (pg_now2 env) t days d \<noteq> []"
    using assms by (auto simp: run_gdpr_purge_def Let_def split: if_splits)
  obtain d1 counts where del: "delete_operations (pg_keys env) t (days_ago (pg_now1 env) days) d = (d1, counts)" by fastforce
  obtain u where u: "pg_commit env = Inr u"
    using assms ne del by (cases "pg_commit env") (auto simp: run_gdpr_purge_def Let_def)
  let ?c = "generate_deletion_certificate env t days (days_ago (pg_now1 env) days) (find_expired_operations (pg_now2 env) t days d) counts ex"
  obtain os1 st where st: "store_deletion_certificate env ?c os = (os1, st)" by fastforce
  from assms ne del u st have "d' = d1" "os' = os1" "res = \<lparr>pr_counts = counts, pr_certificate = ?c, pr_stored = st\<rparr>"
    by (auto simp: run_gdpr_purge_def Let_def)
  with ne del st show ?thesis by (intro that [of counts]) simp_all
qed

lemma purge_runs:
  "find_expired_operations (pg_now2 env) t days d \<noteq> [] \<Longrightarrow> pg_commit env = Inr () \<Longrightarrow>
     \<exists>d' os' res. run_gdpr_purge env t days ex (d, os) = ((d', os'), Inr (Some res))"
  by (simp add: run_gdpr_purge_def Let_def split: prod.splits)

lemma certificate_bytes_unsigned [simp]: "certificate_bytes (ct_signature_update f c) = certificate_bytes c"
  by (simp add: certificate_bytes_def certificate_payload_def)

lemma sign_certificate_signature:
  "ct_signature (sign_certificate sha k c) = Some (hmac_hex sha k (certificate_bytes (sign_certificate sha k c)))"
  unfolding sign_certificate_def certificate_bytes_unsigned by simp

lemma certificate_fields [simp]:
  "ct_operation_ids (generate_deletion_certificate env t days cutoff ops counts ex) = map (\<lambda>r. uuid_str (op_id r)) ops"
  "ct_counts (generate_deletion_certificate env t days cutoff ops counts ex) = counts"
  "ct_tenant (generate_deletion_certificate env t days cutoff ops counts ex) = uuid_str t"
  "ct_id (generate_deletion_certificate env t days cutoff ops counts ex) = uuid_str (pg_cert_id env)"
  by (simp_all add: generate_deletion_certificate_def sign_certificate_def certificate_bytes_def certificate_payload_def)

lemma certificate_signed:
  "ct_signature (generate_deletion_certificate env t days cutoff ops counts ex) =
     Some (hmac_hex (pg_sha env) (pg_secret env) (certificate_bytes (generate_deletion_certificate env t days cutoff ops counts ex)))"
  unfolding generate_deletion_certificate_def by (rule sign_certificate_signature)

section \<open>What deletion guarantees\<close>

text \<open>
  C18: what a purge deletes and what its certificate says, for whatever foreign keys the tables have. The
  operations of the tenant older than the cutoff go and no other; a finding, artifact or redaction goes
  exactly when a cascading key leads from it to a deleted operation, so under the keys of the models all
  children of the deleted operations go and the tables keep their constraints (theory \<open>Deployed_Db\<close>
  says which keys the migrated tables have). The certificate counts the deleted operations and the findings,
  redactions and artifacts that belonged to them, lists every deleted operation, carries the HMAC of its
  payload, and when the store accepted it the object under its name is this certificate.
\<close>
theorem purge_exact:
  assumes "run_gdpr_purge env t days ex (d, os) = ((d', os'), Inr (Some res))" and "wf_db d"
    and "pg_now1 env \<le> pg_now2 env" and "gone = op_id ` (set (operations d) - set (operations d'))"
  shows "operations d' = filter (\<lambda>r. \<not> (op_tenant_id r = t \<and> op_created_at r < days_ago (pg_now1 env) days)) (operations d)
    \<and> findings d' = filter (\<lambda>f. \<not> (ck_findings (pg_keys env) \<and> fd_operation_id f \<in> gone)) (findings d)
    \<and> artifacts d' = filter (\<lambda>a. \<not> (ck_artifacts (pg_keys env) \<and> ar_operation_id a \<in> gone)) (artifacts d)
    \<and> redactions d' = filter (\<lambda>x. \<not> (ck_redactions (pg_keys env) \<and> rd_operation_id x \<in> gone)
         \<and> \<not> (ck_redaction_finding (pg_keys env) \<and> ck_findings (pg_keys env)
              \<and> (\<exists>f \<in> set (findings d). fd_id f = rd_finding_id x \<and> fd_operation_id f \<in> gone))) (redactions d)
    \<and> dc_operations (ct_counts (pr_certificate res)) + length (operations d') = length (operations d)
    \<and> dc_findings (ct_counts (pr_certificate res)) = length (filter (\<lambda>f. fd_operation_id f \<in> gone) (findings d))
    \<and> dc_redactions (ct_counts (pr_certificate res)) = length (filter (\<lambda>x. rd_operation_id x \<in> gone) (redactions d))
    \<and> dc_artifacts (ct_counts (pr_certificate res)) = length (filter (\<lambda>a. ar_operation_id a \<in> gone) (artifacts d))
    \<and> (\<forall>r \<in> set (operations d) - set (operations d'). uuid_str (op_id r) \<in> set (ct_operation_ids (pr_certificate res)))
    \<and> ct_signature (pr_certificate res) = Some (hmac_hex (pg_sha env) (pg_secret env) (certificate_bytes (pr_certificate res)))
    \<and> (pr_stored res \<longrightarrow> (\<exists>w. get_object (certificate_name (uuid_str t) (ct_id (pr_certificate res))) os' = Some w
        \<and> wo_data w = pg_dumps env (certificate_dict (pr_certificate res))))
    \<and> (pg_keys env = model_keys \<longrightarrow> wf_db d')"
  using assms(1)
proof (cases rule: purge_cases)
  case (1 counts)
  note del = delete_operations_spec [OF 1(1)]
  have ops: "operations d' = filter (\<lambda>r. \<not> (op_tenant_id r = t \<and> op_created_at r < days_ago (pg_now1 env) days)) (operations d)"
    unfolding del(1) by (simp add: expired_def)
  have le: "days_ago (pg_now1 env) days \<le> days_ago (pg_now2 env) days" using assms(3) by (simp add: days_ago_def)
  have ids: "\<forall>r \<in> set (operations d) - set (operations d'). uuid_str (op_id r) \<in> set (ct_operation_ids (pr_certificate res))"
    using le by (auto simp: ops 1(3) find_expired_operations_def expired_def)
  have wf: "pg_keys env = model_keys \<longrightarrow> wf_db d'" unfolding del(1) using delete_operations_where_wf [OF assms(2)] by simp
  have st: "pr_stored res \<longrightarrow> (\<exists>w. get_object (certificate_name (uuid_str t) (ct_id (pr_certificate res))) os' = Some w
        \<and> wo_data w = pg_dumps env (certificate_dict (pr_certificate res)))"
    using 1(4) store_then_get by (fastforce simp: store_deletion_certificate_def 1(3))
  have sg: "ct_signature (pr_certificate res) = Some (hmac_hex (pg_sha env) (pg_secret env) (certificate_bytes (pr_certificate res)))"
    unfolding 1(3) by (rule certificate_signed)
  have ct: "ct_counts (pr_certificate res) = counts" by (simp add: 1(3))
  have cs: "dc_findings counts = length (filter (\<lambda>f. fd_operation_id f \<in> gone) (findings d))"
    "dc_redactions counts = length (filter (\<lambda>x. rd_operation_id x \<in> gone) (redactions d))"
    "dc_artifacts counts = length (filter (\<lambda>a. ar_operation_id a \<in> gone) (artifacts d))"
    unfolding assms(4) by (subst del(3), simp only: deletion_counts.simps)+
  show ?thesis unfolding ct by (intro conjI ops deleted_children [OF del(1) assms(4)] del(2) cs ids sg st wf)
qed

text \<open>
  a purge leaves the documents behind. When an operation is purged under a certificate, its
  outbox rows, which hold the document as it was submitted, stay in the database.
\<close>
theorem purge_keeps_documents:
  assumes "run_gdpr_purge env t days ex (d, os) = ((d', os'), Inr (Some res))" and "wf_db d"
    and "r \<in> set (operations d)" and "op_tenant_id r = t" and "op_created_at r < days_ago (pg_now1 env) days"
  shows "select_operation (op_id r) d' = None \<and> outbox_for (uuid_str (op_id r)) d' = outbox_for (uuid_str (op_id r)) d"
  using assms(1)
proof (cases rule: purge_cases)
  case (1 counts)
  note del = delete_operations_spec [OF 1(1)]
  have e: "expired t (days_ago (pg_now1 env) days) r" using assms(4,5) by (simp add: expired_def)
  then have "op_id r \<in> op_id ` set (filter (expired t (days_ago (pg_now1 env) days)) (operations d))"
    using assms(3) by auto
  then have "op_id r \<notin> op_ids d'" unfolding del(1) op_ids_delete [OF assms(2)] by simp
  then show ?thesis by (simp add: select_operation_None outbox_for_def del(1))
qed

text \<open>
  a purge breaks the chain. Take a tenant whose chain verifies and a purge that deletes one of
  its sealed operations and keeps another: unless SHA-256 has a collision among inputs of this very
  chain, or a chain hash of all zeros, the remaining chain no longer verifies, although the deletion
  was the documented one and is certified.
\<close>
theorem purge_breaks_chain:
  assumes "cr_valid (verify_chain sha256 t n d)"
    and "length (filter (\<lambda>r. op_tenant_id r = t) (operations d)) \<le> n"
    and "x \<in> set (sealed_of t d)" and "op_created_at x < cutoff"
    and "y \<in> set (sealed_of t d)" and "cutoff \<le> op_created_at y"
  shows "\<not> cr_valid (verify_chain sha256 t n (fst (delete_operations k t cutoff d)))
    \<or> (\<exists>a \<in> set (sealed_of t d). \<exists>b \<in> set (sealed_of t d). \<exists>h. op_chain_hash a = Some h
        \<and> (h = genesis_hash \<or> collision_in sha256 {row_content b, utf8_bytes (lit (h @ op_hash sha256 b))}
             {row_content b, utf8_bytes (lit (genesis_hash @ op_hash sha256 b))}))"
proof -
  let ?S = "sort_key op_created_at (sealed_of t d)"
  let ?A = "filter (\<lambda>r. op_created_at r < cutoff) ?S" and ?B = "filter (\<lambda>r. \<not> op_created_at r < cutoff) ?S"
  let ?d = "fst (delete_operations k t cutoff d)"
  have S: "?S = ?A @ ?B" by (rule sorted_filter_split) simp
  have mem: "x \<in> set ?A" "y \<in> set ?B" using assms(3-6) by simp_all
  have "chained sha256 genesis_hash (?A @ ?B)"
    using assms(1) unfolding verify_chain_valid sealed_chain_rows [OF assms(2)] S [symmetric] .
  then have A: "chained sha256 genesis_hash ?A" and B: "chained sha256 (chain_head sha256 genesis_hash ?A) ?B"
    by (simp_all only: chained_append)
  have ops: "operations ?d = filter (\<lambda>r. \<not> expired t cutoff r) (operations d)"
    by (simp add: delete_operations_def Let_def)
  have "length (filter (\<lambda>r. op_tenant_id r = t) (operations ?d)) \<le> length (filter (\<lambda>r. op_tenant_id r = t) (operations d))"
  proof -
    have "length (filter (\<lambda>r. \<not> expired t cutoff r \<and> op_tenant_id r = t) xs) \<le> length (filter (\<lambda>r. op_tenant_id r = t) xs)" for xs
      by (induction xs) auto
    then show ?thesis unfolding ops filter_filter by (simp add: conj_commute)
  qed
  with assms(2) have len: "length (filter (\<lambda>r. op_tenant_id r = t) (operations ?d)) \<le> n" by simp
  have "sealed_of t ?d = filter (\<lambda>r. \<not> op_created_at r < cutoff) (sealed_of t d)"
    unfolding sealed_of_def ops by (auto simp: expired_def intro!: filter_cong)
  then have B': "sealed_rows (chain_rows t n ?d) = ?B"
    unfolding sealed_chain_rows [OF len] by (simp add: filter_sort_key)
  obtain b bs where b: "?B = b # bs" using mem(2) by (cases ?B) auto
  have bm: "b \<in> set (sealed_of t d)" using b by (metis filter_is_subset list.set_intros(1) set_sort subsetD)
  have ne: "?A \<noteq> []" using mem(1) by (metis list.set(1) empty_iff)
  let ?h = "chain_head sha256 genesis_hash ?A"
  have last: "op_chain_hash (last ?A) = Some ?h" using A ne by (rule chained_head)
  have lm: "last ?A \<in> set (sealed_of t d)" using last_in_set [OF ne] by simp
  show ?thesis
  proof (cases "cr_valid (verify_chain sha256 t n ?d)")
    case True
    then have "op_chain_hash b = Some (link sha256 genesis_hash b)"
      unfolding verify_chain_valid B' b by simp
    moreover have "op_chain_hash b = Some (link sha256 ?h b)" using B unfolding b by simp
    ultimately have "link sha256 ?h b = link sha256 genesis_hash b" by simp
    from sha256.link_inj [OF this] have "?h = genesis_hash \<or> collision_in sha256 {row_content b, utf8_bytes (lit (?h @ op_hash sha256 b))}
             {row_content b, utf8_bytes (lit (genesis_hash @ op_hash sha256 b))}" by blast
    with lm bm last show ?thesis by blast
  qed simp
qed

section \<open>Witnesses\<close>

definition sample_purge :: purge_env where
  "sample_purge = \<lparr>pg_now1 = 345600000000, pg_now2 = 345600000001, pg_now3 = 345600000002, pg_cert_id = 50, pg_sha = sha256,
     pg_secret = [1], pg_commit = Inr (), pg_worm = \<lparr>wm_client = True, wm_now = 0, wm_call = Inr ()\<rparr>, pg_dumps = (\<lambda>j. []),
     pg_keys = model_keys\<rparr>"

definition two_ages :: db where
  "two_ages = db_with [sample_op 1 10, sample_op 2 500000000000]"

lemma two_ages_wf: "wf_db two_ages"
  unfolding two_ages_def by (rule db_with_wf) simp

lemma sample_purge_cutoff: "days_ago (pg_now1 sample_purge) 1 = 259200000000" "pg_now1 sample_purge \<le> pg_now2 sample_purge"
  by (simp_all add: days_ago_def sample_purge_def usec_per_day_def)

lemma sample_purge_runs: "\<exists>d' os' res. run_gdpr_purge sample_purge 7 1 ''x'' (two_ages, []) = ((d', os'), Inr (Some res))"
proof -
  have "sample_op 1 10 \<in> set (find_expired_operations (pg_now2 sample_purge) 7 1 two_ages)"
    by (simp add: find_expired_operations_def two_ages_def expired_def days_ago_def sample_purge_def usec_per_day_def)
  then have ne: "find_expired_operations (pg_now2 sample_purge) 7 1 two_ages \<noteq> []" by auto
  have "pg_commit sample_purge = Inr ()" by (simp add: sample_purge_def)
  with ne show ?thesis by (rule purge_runs)
qed

lemma purge_exact_witness:
  "\<exists>d' os' res. run_gdpr_purge sample_purge 7 1 ''x'' (two_ages, []) = ((d', os'), Inr (Some res))
     \<and> operations d' = [sample_op 2 500000000000] \<and> dc_operations (ct_counts (pr_certificate res)) = 1
     \<and> uuid_str 1 \<in> set (ct_operation_ids (pr_certificate res)) \<and> wf_db d'"
proof -
  obtain d' os' res where run: "run_gdpr_purge sample_purge 7 1 ''x'' (two_ages, []) = ((d', os'), Inr (Some res))"
    using sample_purge_runs by blast
  note p = purge_exact [OF run two_ages_wf sample_purge_cutoff(2) refl, unfolded sample_purge_cutoff(1)]
  have ops: "operations two_ages = [sample_op 1 10, sample_op 2 500000000000]" by (simp add: two_ages_def)
  with p have o: "operations d' = [sample_op 2 500000000000]" by simp
  then have "sample_op 1 10 \<in> set (operations two_ages) - set (operations d')"
    by (simp add: ops) (simp add: sample_op_def)
  with p have i: "uuid_str (op_id (sample_op 1 10)) \<in> set (ct_operation_ids (pr_certificate res))" by blast
  have n: "dc_operations (ct_counts (pr_certificate res)) + length (operations d') = length (operations two_ages)" using p by blast
  have w: "wf_db d'" using p by (simp add: sample_purge_def)
  show ?thesis by (intro exI [of _ d'] exI [of _ os'] exI [of _ res] conjI run o w) (use i n in \<open>simp_all add: o ops\<close>)
qed

definition kept_row :: outbox where
  "kept_row = \<lparr>ob_id = 60, ob_event_type = ''scan_requested'',
     ob_payload = [(''operation_id'', jstr (uuid_str 1)), (''document_text'', jstr ''secret'')], ob_processed = True, ob_created_at = 10\<rparr>"

lemma purge_keeps_documents_witness:
  "\<exists>d' os' res. run_gdpr_purge sample_purge 7 1 ''x'' (two_ages\<lparr>outbox_rows := [kept_row]\<rparr>, []) = ((d', os'), Inr (Some res))
     \<and> select_operation 1 d' = None \<and> outbox_for (uuid_str 1) d' = [kept_row]"
proof -
  let ?d = "two_ages\<lparr>outbox_rows := [kept_row]\<rparr>"
  have w: "wf_db ?d" using two_ages_wf
    by (simp add: wf_db_def finding_ok_def redaction_ok_def artifact_ok_def op_ids_def fd_ids_def)
  have "find_expired_operations (pg_now2 sample_purge) 7 1 ?d \<noteq> []"
    using sample_purge_runs by (auto simp: run_gdpr_purge_def Let_def find_expired_operations_def split: if_splits)
  then obtain d' os' res where run: "run_gdpr_purge sample_purge 7 1 ''x'' (?d, []) = ((d', os'), Inr (Some res))"
    using purge_runs [of sample_purge 7 1 ?d "''x''" "[]"] by (auto simp: sample_purge_def)
  have m: "sample_op 1 10 \<in> set (operations ?d)" by (simp add: two_ages_def)
  have c: "op_created_at (sample_op 1 10) < days_ago (pg_now1 sample_purge) 1" by (simp add: sample_purge_cutoff)
  have "outbox_for (uuid_str 1) ?d = [kept_row]" by (simp add: outbox_for_def payload_is_for_def kept_row_def jstr_def)
  with purge_keeps_documents [OF run w m _ c] run show ?thesis by auto
qed

definition chain_of_two :: db where
  "chain_of_two = db_with [sealed_sample, (sample_op 2 20)\<lparr>op_chain_hash := Some (link sha256 (link sha256 genesis_hash (sample_op 1 10)) (sample_op 2 20))\<rparr>]"

lemma purge_breaks_chain_witness:
  "\<not> cr_valid (verify_chain sha256 7 1000 (fst (delete_operations model_keys 7 15 chain_of_two)))
    \<or> (\<exists>a \<in> set (sealed_of 7 chain_of_two). \<exists>b \<in> set (sealed_of 7 chain_of_two). \<exists>h. op_chain_hash a = Some h
        \<and> (h = genesis_hash \<or> collision_in sha256 {row_content b, utf8_bytes (lit (h @ op_hash sha256 b))}
             {row_content b, utf8_bytes (lit (genesis_hash @ op_hash sha256 b))}))"
proof -
  let ?b = "(sample_op 2 20)\<lparr>op_chain_hash := Some (link sha256 (link sha256 genesis_hash (sample_op 1 10)) (sample_op 2 20))\<rparr>"
  have ops: "operations chain_of_two = [sealed_sample, ?b]" by (simp add: chain_of_two_def)
  have row: "row_content (r\<lparr>op_chain_hash := h\<rparr>) = row_content r" for r h by (simp add: row_content_def)
  have lk: "link sha256 p (r\<lparr>op_chain_hash := h\<rparr>) = link sha256 p r" for p r h
    by (simp add: link_def op_hash_content row)
  have s: "op_tenant_id sealed_sample = 7" "op_created_at sealed_sample = 10"
    "op_chain_hash sealed_sample = Some (link sha256 genesis_hash (sample_op 1 10))" "link sha256 p sealed_sample = link sha256 p (sample_op 1 10)" for p
    by (simp_all add: sealed_sample_def lk)
  have sealed: "sealed_of 7 chain_of_two = [sealed_sample, ?b]" by (simp add: sealed_of_def ops s)
  have len: "length (filter (\<lambda>r. op_tenant_id r = 7) (operations chain_of_two)) \<le> 1000" by (simp add: ops s)
  have "sort_key op_created_at (sealed_of 7 chain_of_two) = [sealed_sample, ?b]" by (simp add: sealed s)
  then have "cr_valid (verify_chain sha256 7 1000 chain_of_two)"
    unfolding verify_chain_valid sealed_chain_rows [OF len] by (simp add: s lk)
  then show ?thesis by (rule purge_breaks_chain [OF _ len, where x = sealed_sample and y = ?b]) (simp_all add: sealed s)
qed

end
