(* ===== verification/Siem.thy ===== *)
theory Siem
  imports Retention
begin

text \<open>
  Export of security events (\<open>core/siem.py\<close>) and the connectivity test of an administrator
  (\<open>api/v1/admin\_siem.py\<close>). Events are written as CEF, LEEF or JSON and delivered to a webhook and
  to syslog; the answers of both and of the HTTP client are parameters. A reader of CEF is the
  specification: it recovers the fields of every event from its line. LEEF has no such reader.
\<close>

section \<open>Configuration and events\<close>

definition cef_severity_map :: "(string \<times> int) list" where
  "cef_severity_map = [(''low'', 2), (''medium'', 5), (''high'', 7), (''critical'', 10), (''info'', 1), (''warning'', 4)]"

record siem_config =
  sg_enabled :: bool
  sg_format :: string
  sg_webhook_url :: "doc option"
  sg_webhook_token :: "doc option"
  sg_syslog_host :: "doc option"
  sg_syslog_port :: int
  sg_syslog_protocol :: string

record siem_event =
  ev_type :: doc
  ev_severity :: int
  ev_trace :: doc
  ev_actor :: doc
  ev_tenant :: doc
  ev_details :: "(doc \<times> json) list"
  ev_timestamp :: doc

text \<open>\<open>\_\_post\_init\_\_\<close>: the time of creation unless one is given.\<close>

definition new_event :: "instant \<Rightarrow> siem_event \<Rightarrow> siem_event" where
  "new_event now e = (if ev_timestamp e = [] then e\<lparr>ev_timestamp := lit (isoformat now)\<rparr> else e)"

section \<open>Formats\<close>

definition cef_esc :: "doc \<Rightarrow> doc" where
  "cef_esc v = py_replace [10] [92, 110] (py_replace [61] [92, 61] (py_replace [92] [92, 92] v))"

definition cef_extensions :: "(json \<Rightarrow> doc) \<Rightarrow> siem_event \<Rightarrow> (doc \<times> doc) list" where
  "cef_extensions py_str e =
     [(lit ''trace_id'', ev_trace e), (lit ''actor_id'', ev_actor e), (lit ''tenant_id'', ev_tenant e), (lit ''rt'', ev_timestamp e)]
     @ map (\<lambda>(k, v). (lit ''cs_'' @ k, str_of_json py_str v)) (ev_details e)"

definition ext_str :: "(doc \<times> doc) list \<Rightarrow> doc" where
  "ext_str kvs = py_join [32] (map (\<lambda>(k, v). k @ [61] @ cef_esc v) kvs)"

definition format_cef :: "(json \<Rightarrow> doc) \<Rightarrow> siem_event \<Rightarrow> doc" where
  "format_cef py_str e =
     lit ''CEF:0|SafeContext|SafeContext|1.1.0|'' @ ev_type e @ [124] @ ev_type e @ [124] @ lit (int_str (ev_severity e)) @ [124]
       @ ext_str (cef_extensions py_str e)"

definition leef_pairs :: "(json \<Rightarrow> doc) \<Rightarrow> siem_event \<Rightarrow> doc list" where
  "leef_pairs py_str e =
     [lit ''devTime='' @ ev_timestamp e, lit ''cat='' @ ev_type e, lit ''sev='' @ lit (int_str (ev_severity e)),
      lit ''usrName='' @ ev_actor e, lit ''src='' @ ev_tenant e, lit ''reason='' @ ev_trace e]
     @ map (\<lambda>(k, v). k @ [61] @ str_of_json py_str v) (ev_details e)"

definition format_leef :: "(json \<Rightarrow> doc) \<Rightarrow> siem_event \<Rightarrow> doc" where
  "format_leef py_str e = lit ''LEEF:2.0|SafeContext|SafeContext|1.1.0|'' @ ev_type e @ [124] @ py_join [9] (leef_pairs py_str e)"

definition format_json_event :: "(rat \<Rightarrow> string) \<Rightarrow> siem_event \<Rightarrow> doc" where
  "format_json_event fl e = json_dumps fl False (lit '', '') (lit '': '') (JObj
     [(lit ''source'', jstr ''safecontext''), (lit ''version'', jstr ''1.1.0''), (lit ''event_type'', JStr (ev_type e)),
      (lit ''severity'', JInt (ev_severity e)), (lit ''timestamp'', JStr (ev_timestamp e)), (lit ''trace_id'', JStr (ev_trace e)),
      (lit ''actor_id'', JStr (ev_actor e)), (lit ''tenant_id'', JStr (ev_tenant e)), (lit ''details'', JObj (ev_details e))])"

definition format_event :: "(json \<Rightarrow> doc) \<Rightarrow> (rat \<Rightarrow> string) \<Rightarrow> siem_event \<Rightarrow> string \<Rightarrow> doc" where
  "format_event py_str fl e fmt =
     (if fmt = ''leef'' then format_leef py_str e else if fmt = ''json'' then format_json_event fl e else format_cef py_str e)"

section \<open>Delivery\<close>

text \<open>
  What the destinations have received: posts with their address, authorization header and body, and
  syslog messages with host, port, transport and bytes. A run has a shared client or makes one and
  closes it; the answers of the client, of the webhook and of the socket are given.
\<close>

record siem_world =
  sw_posts :: "(doc \<times> doc option \<times> doc) list"
  sw_syslog :: "(doc \<times> int \<times> bool \<times> bytes) list"

record siem_env =
  sv_str :: "json \<Rightarrow> doc"
  sv_float :: "rat \<Rightarrow> string"
  sv_shared :: bool
  sv_client :: "unit result"
  sv_post :: "nat result"
  sv_close :: "unit result"
  sv_socket :: "unit result"

text \<open>A setting that is absent or empty counts as not configured.\<close>

definition given :: "doc option \<Rightarrow> doc option" where
  "given v = (case v of Some (c # s) \<Rightarrow> Some (c # s) | _ \<Rightarrow> None)"

definition webhook_body :: "siem_env \<Rightarrow> doc \<Rightarrow> siem_config \<Rightarrow> doc" where
  "webhook_body env text cfg = json_dumps (sv_float env) False (lit '', '') (lit '': '')
     (JObj [(lit ''event'', JStr text), (lit ''format'', jstr (sg_format cfg))])"

definition send_webhook :: "siem_env \<Rightarrow> doc \<Rightarrow> siem_config \<Rightarrow> siem_world \<Rightarrow> siem_world \<times> bool" where
  "send_webhook env text cfg w =
     (case given (sg_webhook_url cfg) of
        None \<Rightarrow> (w, False)
      | Some url \<Rightarrow>
          (case (if sv_shared env then Inr () else sv_client env) of
             Inl e \<Rightarrow> (w, False)
           | Inr u \<Rightarrow>
               (let close = (if sv_shared env then Inr () else sv_close env)
                in case sv_post env of
                     Inl e \<Rightarrow> (w, False)
                   | Inr code \<Rightarrow>
                       (w\<lparr>sw_posts := sw_posts w @ [(url, map_option (\<lambda>t. lit ''Bearer '' @ t) (given (sg_webhook_token cfg)),
                            webhook_body env text cfg)]\<rparr>,
                        is_ok close \<and> code < 400))))"

definition syslog_message :: "doc \<Rightarrow> doc" where
  "syslog_message text = lit ''<134>'' @ text"

definition send_syslog :: "siem_env \<Rightarrow> doc \<Rightarrow> siem_config \<Rightarrow> siem_world \<Rightarrow> siem_world \<times> bool" where
  "send_syslog env text cfg w =
     (case given (sg_syslog_host cfg) of
        None \<Rightarrow> (w, False)
      | Some host \<Rightarrow>
          (let tcp = (sg_syslog_protocol cfg = ''tcp'')
           in case rbind (utf8_encode (syslog_message text)) (\<lambda>b. rbind (sv_socket env) (\<lambda>_. Inr b)) of
                Inl e \<Rightarrow> (w, False)
              | Inr b \<Rightarrow> (w\<lparr>sw_syslog := sw_syslog w @ [(host, sg_syslog_port cfg, tcp, if tcp then b @ [10] else b)]\<rparr>, True)))"

definition emit_siem_event :: "siem_env \<Rightarrow> siem_event \<Rightarrow> siem_config \<Rightarrow> siem_world \<Rightarrow> siem_world \<times> bool \<times> bool" where
  "emit_siem_event env e cfg w =
     (if \<not> sg_enabled cfg then (w, False, False)
      else let text = format_event (sv_str env) (sv_float env) e (sg_format cfg);
               (w1, a) = send_webhook env text cfg w;
               (w2, b) = send_syslog env text cfg w1
           in (w2, a, b))"

section \<open>Events of the program\<close>

definition severity_or :: "string \<Rightarrow> int \<Rightarrow> int" where
  "severity_or s d = dict_get cef_severity_map s d"

definition scan_completed_event :: "doc \<Rightarrow> doc \<Rightarrow> doc \<Rightarrow> int \<Rightarrow> doc \<Rightarrow> string \<Rightarrow> siem_event" where
  "scan_completed_event trace actor tenant n status sev =
     \<lparr>ev_type = lit ''scan.completed'', ev_severity = severity_or sev 1, ev_trace = trace, ev_actor = actor, ev_tenant = tenant,
      ev_details = [(lit ''findings_count'', JInt n), (lit ''status'', JStr status)], ev_timestamp = []\<rparr>"

definition finding_detected_event :: "doc \<Rightarrow> doc \<Rightarrow> doc \<Rightarrow> doc \<Rightarrow> string \<Rightarrow> rat \<Rightarrow> siem_event" where
  "finding_detected_event trace actor tenant rule sev conf =
     \<lparr>ev_type = lit ''finding.detected'', ev_severity = severity_or sev 5, ev_trace = trace, ev_actor = actor, ev_tenant = tenant,
      ev_details = [(lit ''rule_id'', JStr rule), (lit ''finding_severity'', jstr sev), (lit ''confidence'', JFloat conf)], ev_timestamp = []\<rparr>"

definition review_action_event :: "doc \<Rightarrow> doc \<Rightarrow> doc \<Rightarrow> doc \<Rightarrow> doc \<Rightarrow> siem_event" where
  "review_action_event trace actor tenant action fid =
     \<lparr>ev_type = lit ''review.'' @ action, ev_severity = severity_or ''info'' 1, ev_trace = trace, ev_actor = actor, ev_tenant = tenant,
      ev_details = [(lit ''action'', JStr action), (lit ''finding_id'', JStr fid)], ev_timestamp = []\<rparr>"

definition retention_purge_event :: "doc \<Rightarrow> int \<Rightarrow> doc \<Rightarrow> siem_event" where
  "retention_purge_event tenant n cert =
     \<lparr>ev_type = lit ''retention.purge'', ev_severity = severity_or ''warning'' 4, ev_trace = cert, ev_actor = lit ''retention-purge-job'',
      ev_tenant = tenant, ev_details = [(lit ''operations_deleted'', JInt n), (lit ''certificate_id'', JStr cert)], ev_timestamp = []\<rparr>"

section \<open>The connectivity test (api/v1/admin\_siem.py)\<close>

text \<open>
  The configuration as the tenant row keeps it. Values that are not text where text is meant do not
  occur in a stored configuration and count as absent.
\<close>

definition text_setting :: "json \<Rightarrow> string \<Rightarrow> doc option" where
  "text_setting raw k = (case json_get raw k JNull of Inr (JStr s) \<Rightarrow> Some s | _ \<Rightarrow> None)"

definition siem_config_of :: "json option \<Rightarrow> siem_config" where
  "siem_config_of c =
     (let raw = (case c of Some j \<Rightarrow> if json_truthy j then j else JObj [] | None \<Rightarrow> JObj []);
          name = (\<lambda>k d. case text_setting raw k of Some s \<Rightarrow> map char_of s | None \<Rightarrow> d)
      in \<lparr>sg_enabled = (case json_get raw ''enabled'' (JBool False) of Inr v \<Rightarrow> json_truthy v | Inl e \<Rightarrow> False),
          sg_format = name ''format'' ''cef'',
          sg_webhook_url = text_setting raw ''webhook_url'',
          sg_webhook_token = text_setting raw ''webhook_token'',
          sg_syslog_host = text_setting raw ''syslog_host'',
          sg_syslog_port = (case json_get raw ''syslog_port'' (JInt 514) of Inr (JInt n) \<Rightarrow> n | _ \<Rightarrow> 514),
          sg_syslog_protocol = name ''syslog_protocol'' ''udp''\<rparr>)"

definition test_event :: "instant \<Rightarrow> uuid \<Rightarrow> (json \<Rightarrow> doc) \<Rightarrow> claims \<Rightarrow> uuid \<Rightarrow> siem_event" where
  "test_event now tid py_str p t = new_event now
     \<lparr>ev_type = lit ''siem.test'', ev_severity = 1, ev_trace = lit ''test-'' @ lit (uuid_str tid),
      ev_actor = str_of_json py_str (claim_or p ''sub'' (jstr ''unknown'')), ev_tenant = lit (uuid_str t),
      ev_details = [(lit ''message'', jstr ''SafeContext SIEM connectivity test'')], ev_timestamp = []\<rparr>"

definition test_siem_config ::
  "siem_env \<Rightarrow> instant \<Rightarrow> uuid \<Rightarrow> claims \<Rightarrow> uuid \<Rightarrow> db \<Rightarrow> siem_world \<Rightarrow> siem_world \<times> (bool \<times> bool) result" where
  "test_siem_config env now tid p t d w =
     (case require_admin p of
        Inl e \<Rightarrow> (w, Inl e)
      | Inr u \<Rightarrow> (case select_tenant t d of
          None \<Rightarrow> (w, Inl (HTTPException 404))
        | Some x \<Rightarrow> (let (w', a, b) = emit_siem_event env (test_event now tid (sv_str env) p t) (siem_config_of (tn_siem_config x)) w
                     in (w', Inr (a, b)))))"

section \<open>The reader of CEF lines\<close>

text \<open>
  The specification of the format: a backslash takes the next character literally (\<open>\n\<close> is a line
  break), an equals sign outside an escape ends a key, and the key of a value is the last word before
  its equals sign, so that blanks in values need no escape.
\<close>

datatype cef_token = Char nat | Sep

fun cef_tokens :: "doc \<Rightarrow> cef_token list" where
  "cef_tokens [] = []"
| "cef_tokens [c] = [if c = 61 then Sep else Char c]"
| "cef_tokens (c # d # s) =
     (if c = 92 then Char (if d = 110 then 10 else d) # cef_tokens s
      else (if c = 61 then Sep else Char c) # cef_tokens (d # s))"

fun segments :: "doc \<Rightarrow> cef_token list \<Rightarrow> doc list" where
  "segments acc [] = [acc]"
| "segments acc (Char c # ts) = segments (acc @ [c]) ts"
| "segments acc (Sep # ts) = acc # segments [] ts"

definition last_word :: "doc \<Rightarrow> doc" where
  "last_word s = rev (takeWhile (\<lambda>c. c \<noteq> 32) (rev s))"

definition before_last_word :: "doc \<Rightarrow> doc" where
  "before_last_word s = rev (tl (dropWhile (\<lambda>c. c \<noteq> 32) (rev s)))"

fun ext_pairs :: "doc \<Rightarrow> doc list \<Rightarrow> (doc \<times> doc) list" where
  "ext_pairs k [] = []"
| "ext_pairs k [v] = [(k, v)]"
| "ext_pairs k (s # t # ts) = (k, before_last_word s) # ext_pairs (last_word s) (t # ts)"

definition read_ext :: "doc \<Rightarrow> (doc \<times> doc) list" where
  "read_ext s = (case segments [] (cef_tokens s) of [] \<Rightarrow> [] | k # vs \<Rightarrow> ext_pairs k vs)"

definition read_cef :: "doc \<Rightarrow> (doc \<times> doc \<times> (doc \<times> doc) list) option" where
  "read_cef line = (case py_split_max 124 7 line of [v, vendor, product, ver, ty, name, sev, ext] \<Rightarrow> Some (ty, sev, read_ext ext) | _ \<Rightarrow> None)"

definition plain_key :: "doc \<Rightarrow> bool" where
  "plain_key k \<longleftrightarrow> (\<forall>c \<in> set k. c \<noteq> 10 \<and> c \<noteq> 32 \<and> c \<noteq> 61 \<and> c \<noteq> 92)"

section \<open>Reading back what was written\<close>

definition esc_char :: "nat \<Rightarrow> doc" where
  "esc_char c = (if c = 92 then [92, 92] else if c = 61 then [92, 61] else if c = 10 then [92, 110] else [c])"

lemma py_replace_char: "py_replace [c] new s = concat (map (\<lambda>x. if x = c then new else [x]) s)"
  by (induction s) auto

lemma cef_esc_chars: "cef_esc v = concat (map esc_char v)"
  unfolding cef_esc_def py_replace_char by (induction v) (simp_all add: esc_char_def)

lemma cef_tokens_plain: "c \<noteq> 92 \<Longrightarrow> c \<noteq> 61 \<Longrightarrow> cef_tokens (c # s) = Char c # cef_tokens s"
  by (cases s) auto

lemma cef_tokens_esc: "cef_tokens (cef_esc v @ s) = map Char v @ cef_tokens s"
  unfolding cef_esc_chars by (induction v) (auto simp: esc_char_def cef_tokens_plain)

lemma cef_tokens_key: "plain_key k \<Longrightarrow> cef_tokens (k @ 61 # s) = map Char k @ Sep # cef_tokens s"
  by (induction k) (auto simp: plain_key_def cef_tokens_plain, cases s, auto)

lemma segments_chars: "segments acc (map Char v @ ts) = segments (acc @ v) ts"
  by (induction v arbitrary: acc) auto

fun value_segs :: "doc \<Rightarrow> (doc \<times> doc) list \<Rightarrow> doc list" where
  "value_segs v [] = [v]"
| "value_segs v ((k, w) # r) = (v @ 32 # k) # value_segs w r"

definition ext_tail :: "(doc \<times> doc) list \<Rightarrow> doc" where
  "ext_tail kvs = concat (map (\<lambda>(k, v). 32 # k @ 61 # cef_esc v) kvs)"

lemma ext_str_tail: "ext_str ((k, v) # r) = k @ 61 # cef_esc v @ ext_tail r"
  by (induction r arbitrary: k v) (auto simp: ext_str_def ext_tail_def)

lemma segments_tail:
  "\<forall>(k, w) \<in> set r. plain_key k \<Longrightarrow> segments acc (cef_tokens (ext_tail r)) = value_segs acc r"
proof (induction r arbitrary: acc)
  case (Cons kw r)
  obtain k w where kw: "kw = (k, w)" by (cases kw)
  have k: "plain_key k" and r: "\<forall>(k, w) \<in> set r. plain_key k" using Cons.prems kw by auto
  have "cef_tokens (ext_tail (kw # r)) = Char 32 # map Char k @ Sep # map Char w @ cef_tokens (ext_tail r)"
    by (simp add: ext_tail_def kw cef_tokens_plain cef_tokens_key [OF k] cef_tokens_esc)
  then show ?case using Cons.IH [OF r, of w] by (simp add: kw segments_chars)
qed (simp add: ext_tail_def)

lemma last_word_append: "32 \<notin> set k \<Longrightarrow> last_word (v @ 32 # k) = k"
proof -
  assume "32 \<notin> set k"
  then have "takeWhile (\<lambda>c. c \<noteq> 32) (rev k @ 32 # rev v) = rev k" by (subst takeWhile_append2) auto
  then show ?thesis by (simp add: last_word_def)
qed

lemma before_last_word_append: "32 \<notin> set k \<Longrightarrow> before_last_word (v @ 32 # k) = v"
proof -
  assume "32 \<notin> set k"
  then have "dropWhile (\<lambda>c. c \<noteq> 32) (rev k @ 32 # rev v) = 32 # rev v" by (subst dropWhile_append2) auto
  then show ?thesis by (simp add: before_last_word_def)
qed

lemma ext_pairs_segs: "\<forall>(k, w) \<in> set r. 32 \<notin> set k \<Longrightarrow> ext_pairs k (value_segs v r) = (k, v) # r"
proof (induction r arbitrary: k v)
  case (Cons kw r)
  obtain k' w where kw: "kw = (k', w)" by (cases kw)
  obtain s ss where s: "value_segs w r = s # ss" by (cases r) auto
  have "ext_pairs k' (value_segs w r) = (k', w) # r" by (rule Cons.IH) (use Cons.prems in auto)
  then show ?case using Cons.prems kw s by (simp add: last_word_append before_last_word_append)
qed simp

lemma read_ext_str: "\<forall>(k, v) \<in> set kvs. plain_key k \<Longrightarrow> read_ext (ext_str kvs) = kvs"
proof (cases kvs)
  case (Cons kv r)
  assume ok: "\<forall>(k, v) \<in> set kvs. plain_key k"
  obtain k v where kv: "kv = (k, v)" by (cases kv)
  have k: "plain_key k" and r: "\<forall>(k, w) \<in> set r. plain_key k" using ok Cons kv by auto
  then have "\<forall>(k, w) \<in> set r. 32 \<notin> set k" unfolding plain_key_def by blast
  then show ?thesis using segments_tail [OF r, of v]
    by (simp add: read_ext_def Cons kv ext_str_tail cef_tokens_key [OF k] cef_tokens_esc segments_chars ext_pairs_segs)
qed (simp add: read_ext_def ext_str_def)

lemma split_at_bar:
  assumes "c \<notin> set a"
  shows "py_split_max c (Suc n) (a @ c # s) = a # py_split_max c n s"
proof -
  have "takeWhile (\<lambda>x. x \<noteq> c) (a @ c # s) = a" using assms by (subst takeWhile_append2) auto
  moreover have "dropWhile (\<lambda>x. x \<noteq> c) (a @ c # s) = c # s" using assms by (subst dropWhile_append2) auto
  ultimately show ?thesis by simp
qed

lemma no_line_break_esc: "10 \<notin> set (cef_esc v)"
  by (auto simp: cef_esc_chars esc_char_def split: if_splits)

lemma int_str_chars: "c \<in> set (lit (int_str i)) \<Longrightarrow> c = 45 \<or> 48 \<le> c \<and> c \<le> 57"
  using digits_are_digits [of "\<bar>i\<bar>" c] by (auto simp: int_str_def split: if_splits)

lemma format_cef_split:
  assumes "124 \<notin> set (ev_type e)"
  shows "py_split_max 124 7 (format_cef py_str e) =
    [lit ''CEF:0'', lit ''SafeContext'', lit ''SafeContext'', lit ''1.1.0'', ev_type e, ev_type e, lit (int_str (ev_severity e)),
     ext_str (cef_extensions py_str e)]"
proof -
  have bar: "lit ''CEF:0|SafeContext|SafeContext|1.1.0|'' = lit ''CEF:0'' @ 124 # lit ''SafeContext'' @ 124 # lit ''SafeContext'' @ 124 # lit ''1.1.0'' @ [124]"
    by simp
  have free: "124 \<notin> set (lit ''CEF:0'')" "124 \<notin> set (lit ''SafeContext'')" "124 \<notin> set (lit ''1.1.0'')" by simp_all
  have sev: "124 \<notin> set (lit (int_str (ev_severity e)))" using int_str_chars [of 124] by auto
  have seven: "(7 :: nat) = Suc (Suc (Suc (Suc (Suc (Suc (Suc 0))))))" by simp
  show ?thesis
    unfolding format_cef_def bar seven append_Cons append_Nil append_assoc
    by (simp only: split_at_bar [OF free(1)] split_at_bar [OF free(2)] split_at_bar [OF free(3)] split_at_bar [OF assms]
        split_at_bar [OF sev] py_split_max.simps(1))
qed

text \<open>The keys the program adds around the details.\<close>

lemma cef_extensions_plain:
  "\<forall>(k, v) \<in> set (ev_details e). plain_key k \<Longrightarrow> \<forall>(k, v) \<in> set (cef_extensions py_str e). plain_key k"
  unfolding cef_extensions_def by (fastforce simp: plain_key_def)

section \<open>What the export guarantees\<close>

text \<open>
  C35: a CEF line is read back exactly. Whatever the values hold (blanks, equals signs, backslashes,
  line breaks, what an attacker wrote into them), a reader of the format recovers the event type, the
  severity and every pair, and the event stays on one line, provided the type has no bar or line
  break and the detail keys are plain words.
\<close>
theorem cef_roundtrip:
  assumes "\<forall>c \<in> set (ev_type e). c \<noteq> 124 \<and> c \<noteq> 10" and "\<forall>(k, v) \<in> set (ev_details e). plain_key k"
  shows "read_cef (format_cef py_str e) = Some (ev_type e, lit (int_str (ev_severity e)), cef_extensions py_str e)
    \<and> 10 \<notin> set (format_cef py_str e)"
proof
  have "124 \<notin> set (ev_type e)" using assms(1) by blast
  then show "read_cef (format_cef py_str e) = Some (ev_type e, lit (int_str (ev_severity e)), cef_extensions py_str e)"
    unfolding read_cef_def format_cef_split [OF \<open>124 \<notin> set (ev_type e)\<close>]
    by (simp add: read_ext_str [OF cef_extensions_plain [OF assms(2)]])
  have keys: "\<forall>(k, v) \<in> set kvs. plain_key k \<Longrightarrow> 10 \<notin> set (ext_str kvs)" for kvs
  proof (cases kvs)
    case (Cons kv r)
    assume ok: "\<forall>(k, v) \<in> set kvs. plain_key k"
    then have "10 \<notin> set (ext_tail r)" using no_line_break_esc unfolding Cons by (force simp: ext_tail_def plain_key_def)
    with ok show ?thesis using no_line_break_esc unfolding Cons by (cases kv) (auto simp: ext_str_tail plain_key_def)
  qed (simp add: ext_str_def)
  have "10 \<notin> set (lit (int_str (ev_severity e)))" using int_str_chars [of 10] by auto
  moreover have "10 \<notin> set (ev_type e)" using assms(1) by blast
  moreover note keys [OF cef_extensions_plain [OF assms(2)]]
  ultimately show "10 \<notin> set (format_cef py_str e)" unfolding format_cef_def by simp
qed

text \<open>
  A LEEF line is not: a tab and an equals sign in the trace identifier, the actor or a value are not
  escaped, and the line is that of another event.
\<close>
theorem leef_forges_pairs:
  "format_leef py_str (e\<lparr>ev_trace := tr @ 9 # k @ 61 # v, ev_details := []\<rparr>)
   = format_leef py_str (e\<lparr>ev_trace := tr, ev_details := [(k, JStr v)]\<rparr>)"
  by (simp add: format_leef_def leef_pairs_def str_of_json_def)

text \<open>
  delivery. A disabled export sends nothing. Otherwise the webhook is reported delivered
  exactly when it is configured, a client could be made, it answered below 400 and the client
  closed; the syslog message is sent exactly when it is reported, and neither it nor the report
  depends on what the webhook did.
\<close>
theorem siem_delivery:
  assumes "emit_siem_event env e cfg w = (w', a, b)"
  shows "(\<not> sg_enabled cfg \<longrightarrow> w' = w \<and> \<not> a \<and> \<not> b)
    \<and> (a \<longleftrightarrow> sg_enabled cfg \<and> given (sg_webhook_url cfg) \<noteq> None \<and> (\<exists>code < 400. sv_post env = Inr code)
         \<and> (sv_shared env \<or> is_ok (sv_client env) \<and> is_ok (sv_close env)))
    \<and> (a \<longrightarrow> (\<exists>url auth body. sw_posts w' = sw_posts w @ [(url, auth, body)] \<and> sg_webhook_url cfg = Some url))
    \<and> (\<exists>sent. sw_syslog w' = sw_syslog w @ sent \<and> (b \<longleftrightarrow> sent \<noteq> []))
    \<and> (\<exists>w2 a2. emit_siem_event (env\<lparr>sv_post := r, sv_client := c, sv_close := cl\<rparr>) e cfg w = (w2, a2, b) \<and> sw_syslog w2 = sw_syslog w')"
proof (cases "sg_enabled cfg")
  case False
  with assms show ?thesis by (auto simp: emit_siem_event_def)
next
  case True
  define line where "line = format_event (sv_str env) (sv_float env) e (sg_format cfg)"
  have hook: "sw_syslog (fst (send_webhook ev t cfg w)) = sw_syslog w" for ev t
    by (simp add: send_webhook_def Let_def split: option.splits sum.splits)
  have sys: "snd (send_syslog (env\<lparr>sv_post := r, sv_client := c, sv_close := cl\<rparr>) line cfg v2) = snd (send_syslog env line cfg v1)
      \<and> sw_syslog (fst (send_syslog (env\<lparr>sv_post := r, sv_client := c, sv_close := cl\<rparr>) line cfg v2)) = sw_syslog (fst (send_syslog env line cfg v1))"
    if "sw_syslog v1 = sw_syslog v2" for v1 v2
    using that by (simp add: send_syslog_def Let_def split: option.splits sum.splits)
  have post: "sw_posts (fst (send_syslog env line cfg v)) = sw_posts v" for v
    by (simp add: send_syslog_def Let_def split: option.splits sum.splits)
  have sent: "\<exists>x. sw_syslog (fst (send_syslog env line cfg v)) = sw_syslog v @ x \<and> (snd (send_syslog env line cfg v) \<longleftrightarrow> x \<noteq> [])" for v
    by (simp add: send_syslog_def Let_def split: option.splits sum.splits)
  have url: "given u = Some x \<Longrightarrow> u = Some x" for u x by (auto simp: given_def split: option.splits list.splits)
  obtain w1 where w1: "send_webhook env line cfg w = (w1, a)" and w': "send_syslog env line cfg w1 = (w', b)"
    using assms True by (auto simp: emit_siem_event_def Let_def line_def split: prod.splits)
  have a: "a \<longleftrightarrow> given (sg_webhook_url cfg) \<noteq> None \<and> (\<exists>code < 400. sv_post env = Inr code)
         \<and> (sv_shared env \<or> is_ok (sv_client env) \<and> is_ok (sv_close env))"
    using w1 by (auto simp: send_webhook_def Let_def split: option.splits sum.splits if_splits)
  have p: "a \<longrightarrow> (\<exists>url auth body. sw_posts w1 = sw_posts w @ [(url, auth, body)] \<and> sg_webhook_url cfg = Some url)"
    using w1 url by (auto simp: send_webhook_def Let_def split: option.splits sum.splits if_splits)
  have s1: "sw_syslog w1 = sw_syslog w" "sw_posts w' = sw_posts w1" using hook [of env line] post [of w1] w1 w' by simp_all
  let ?env = "env\<lparr>sv_post := r, sv_client := c, sv_close := cl\<rparr>"
  obtain v2 a2 where v2: "send_webhook ?env line cfg w = (v2, a2)" by fastforce
  have "sw_syslog w1 = sw_syslog v2" using hook [of ?env line] v2 s1 by simp
  note y = sys [OF this]
  obtain w2 b2 where w2: "send_syslog ?env line cfg v2 = (w2, b2)" by fastforce
  have "emit_siem_event ?env e cfg w = (w2, a2, b2)" using True v2 w2 by (simp add: emit_siem_event_def line_def)
  then have "\<exists>w2 a2. emit_siem_event ?env e cfg w = (w2, a2, b) \<and> sw_syslog w2 = sw_syslog w'"
    using y w2 w' by simp
  then show ?thesis using True a p s1 sent [of w1] w' by simp
qed

text \<open>The events of the program meet the conditions of the round trip.\<close>

lemma program_events_plain:
  "e \<in> {scan_completed_event tr ac tn n st sev, finding_detected_event tr ac tn ru sev conf, retention_purge_event tn n cert}
   \<Longrightarrow> (\<forall>c \<in> set (ev_type e). c \<noteq> 124 \<and> c \<noteq> 10) \<and> (\<forall>(k, v) \<in> set (ev_details e). plain_key k)"
  by (auto simp: scan_completed_event_def finding_detected_event_def retention_purge_event_def plain_key_def)

section \<open>Witnesses\<close>

definition hostile_actor :: doc where
  "hostile_actor = lit ''x tenant_id=other'' @ [10] @ lit ''CEF:0|''"

definition hostile_event :: siem_event where
  "hostile_event = scan_completed_event (lit ''t'') hostile_actor (lit ''mine'') 3 (lit ''escalated'') ''high''"

lemma cef_roundtrip_witness:
  "(\<exists>kvs. read_cef (format_cef (\<lambda>j. []) hostile_event) = Some (lit ''scan.completed'', lit (int_str 7), kvs)
       \<and> (lit ''actor_id'', hostile_actor) \<in> set kvs \<and> (lit ''tenant_id'', lit ''mine'') \<in> set kvs)
   \<and> 10 \<notin> set (format_cef (\<lambda>j. []) hostile_event)"
proof -
  have f: "ev_type hostile_event = lit ''scan.completed''" "ev_severity hostile_event = 7" "ev_actor hostile_event = hostile_actor"
    "ev_tenant hostile_event = lit ''mine''"
    by (simp_all add: hostile_event_def scan_completed_event_def severity_or_def cef_severity_map_def)
  have "(\<forall>c \<in> set (ev_type hostile_event). c \<noteq> 124 \<and> c \<noteq> 10) \<and> (\<forall>(k, v) \<in> set (ev_details hostile_event). plain_key k)"
    unfolding hostile_event_def by (rule program_events_plain) blast
  then have "read_cef (format_cef (\<lambda>j. []) hostile_event) = Some (ev_type hostile_event, lit (int_str (ev_severity hostile_event)),
      cef_extensions (\<lambda>j. []) hostile_event) \<and> 10 \<notin> set (format_cef (\<lambda>j. []) hostile_event)"
    by (intro cef_roundtrip) blast+
  moreover have "(lit ''actor_id'', hostile_actor) \<in> set (cef_extensions (\<lambda>j. []) hostile_event)"
    "(lit ''tenant_id'', lit ''mine'') \<in> set (cef_extensions (\<lambda>j. []) hostile_event)"
    unfolding cef_extensions_def f set_append list.set by blast+
  ultimately show ?thesis unfolding f by blast
qed

definition sample_siem :: siem_env where
  "sample_siem = \<lparr>sv_str = (\<lambda>j. []), sv_float = (\<lambda>q. []), sv_shared = False, sv_client = Inr (), sv_post = Inr 503,
     sv_close = Inr (), sv_socket = Inr ()\<rparr>"

definition sample_siem_config :: siem_config where
  "sample_siem_config = \<lparr>sg_enabled = True, sg_format = ''cef'', sg_webhook_url = Some (lit ''https://siem''), sg_webhook_token = None,
     sg_syslog_host = Some (lit ''logs''), sg_syslog_port = 514, sg_syslog_protocol = ''udp''\<rparr>"

lemma siem_delivery_witness:
  "\<exists>w' b. emit_siem_event sample_siem hostile_event sample_siem_config \<lparr>sw_posts = [], sw_syslog = []\<rparr> = (w', False, b)
     \<and> (\<exists>w2. emit_siem_event (sample_siem\<lparr>sv_post := Inl (PyExc ''TimeoutException''), sv_client := Inr (), sv_close := Inr ()\<rparr>)
          hostile_event sample_siem_config \<lparr>sw_posts = [], sw_syslog = []\<rparr> = (w2, False, b) \<and> sw_syslog w2 = sw_syslog w')"
proof -
  let ?w = "\<lparr>sw_posts = [], sw_syslog = []\<rparr>"
  obtain w' a b where run: "emit_siem_event sample_siem hostile_event sample_siem_config ?w = (w', a, b)" by (metis surj_pair)
  note d = siem_delivery [OF run, where r = "Inl (PyExc ''TimeoutException'')" and c = "Inr ()" and cl = "Inr ()"]
  then obtain w2 a2 where r2: "emit_siem_event (sample_siem\<lparr>sv_post := Inl (PyExc ''TimeoutException''), sv_client := Inr (), sv_close := Inr ()\<rparr>)
      hostile_event sample_siem_config ?w = (w2, a2, b)" "sw_syslog w2 = sw_syslog w'" by blast
  have "\<not> a" using d by (auto simp: sample_siem_def)
  moreover have "\<not> a2" using siem_delivery [OF r2(1)] by auto
  ultimately show ?thesis using run r2 by auto
qed

end
