(* ===== verification/Scan_Api.thy ===== *)
theory Scan_Api
  imports Api_Base Scan_Props
begin

text \<open>
  \<open>POST /v1/scan\<close> (\<open>api/v1/scan.py\<close>): the actor is resolved from the header, the document digested,
  an identical completed or escalated document answered from the table, and otherwise the
  operation and its outbox row stored in one transaction. The lemmas connect the endpoint to the
  relay and the detector: what it stores is what they need.
\<close>

section \<open>Model\<close>

record scan_request =
  sq_document :: doc
  sq_encoding :: string
  sq_policy_name :: string
  sq_policy_version :: "string option"

record scan_response =
  sr_trace :: uuid
  sr_digest :: string
  sr_policy_version :: string
  sr_review :: bool

definition document_max_length :: nat where
  "document_max_length = 10485760"

definition valid_scan_request :: "scan_request \<Rightarrow> bool" where
  "valid_scan_request q \<longleftrightarrow> length (sq_document q) \<le> document_max_length \<and> sq_encoding q \<in> {''text'', ''base64''}"

text \<open>
  What a request runs on: authentication, the static agent token, the answer of OPA, \<open>str()\<close>, the
  generated identifiers, the clock, the outcome of the commit and of the broker.
\<close>

record 'k scan_env =
  sc_auth :: "'k auth_env"
  sc_static :: doc
  sc_sha :: "bytes \<Rightarrow> string"
  sc_opa :: "http_resp result"
  sc_str :: "json \<Rightarrow> string"
  sc_trace :: uuid
  sc_op_id :: uuid
  sc_doc_id :: uuid
  sc_ob_id :: uuid
  sc_now :: instant
  sc_commit :: "unit result"
  sc_push :: "unit result"
  sc_float :: "rat \<Rightarrow> string"

record 'k api_world =
  aw_db :: db
  aw_broker :: broker
  aw_keys :: "'k jwks_cache"
  aw_pending :: nat

definition fallback_policy_version :: string where
  "fallback_policy_version = ''1.0.0''"

definition scan_policy_version :: "(json \<Rightarrow> string) \<Rightarrow> http_resp result \<Rightarrow> string" where
  "scan_policy_version py_str opa =
     swallow fallback_policy_version (rbind opa (\<lambda>resp.
       if h_status resp = 200
       then rbind (resp_json resp) (\<lambda>j. rbind (json_get j ''result'' (jstr fallback_policy_version)) (\<lambda>v. Inr (py_str v)))
       else Inr fallback_policy_version))"

text \<open>\<open>sub\<close> and \<open>tenant_id\<close> of a token.\<close>

definition actor_of_claims :: "claims \<Rightarrow> (uuid \<times> actor_type \<times> uuid) result" where
  "actor_of_claims p =
     (let sub = claim_or p ''sub'' (JStr [])
      in if \<not> json_truthy sub then Inl (PyExc ''ValueError'')
         else rbind (tenant_of_claims p) (\<lambda>t. rbind (uuid_of_json sub) (\<lambda>u. Inr (u, HUMAN, t))))"

definition resolve_scan_actor ::
  "'k scan_env \<Rightarrow> doc \<Rightarrow> 'k jwks_cache \<Rightarrow> 'k jwks_cache \<times> (uuid \<times> actor_type \<times> uuid) result" where
  "resolve_scan_actor env header c =
     (if \<not> starts_with (lit ''Bearer '') header then (c, Inl unauthorized)
      else let token = drop 7 header; au = sc_auth env
        in if token = sc_static env then (c, Inr (sentinel_actor_id, MCP_AGENT, default_tenant_id))
           else (case decode_token (au_jwt au) (au_client au) (au_now au) (au_fetch au) token c of
                   (c1, Inl (HTTPException n)) \<Rightarrow> (c1, Inl (HTTPException n))
                 | (c1, Inl (PyExc n)) \<Rightarrow> (c1, Inl unauthorized)
                 | (c1, Inr p) \<Rightarrow> (c1, case actor_of_claims p of Inl e \<Rightarrow> Inl unauthorized | Inr x \<Rightarrow> Inr x)))"

definition existing_operation :: "string \<Rightarrow> string \<Rightarrow> db \<Rightarrow> operation option" where
  "existing_operation digest pv d =
     latest_by op_created_at (filter (\<lambda>r. op_artifact_digest r = digest \<and> op_policy_version r = pv
       \<and> op_status r \<in> {COMPLETED, ESCALATED}) (operations d))"

definition new_operation :: "'k scan_env \<Rightarrow> uuid \<Rightarrow> actor_type \<Rightarrow> uuid \<Rightarrow> string \<Rightarrow> string \<Rightarrow> operation" where
  "new_operation env actor atype tenant digest pv =
     \<lparr>op_id = sc_op_id env, op_tenant_id = tenant, op_trace_id = sc_trace env, op_actor_id = actor,
      op_actor_type = atype, op_document_id = sc_doc_id env, op_artifact_digest = digest,
      op_policy_version = pv, op_status = PENDING, op_sanitized_text = None, op_created_at = sc_now env,
      op_completed_at = None, op_chain_hash = None, op_event_signature = None, op_event_signed_at = None,
      op_signing_key_version = None\<rparr>"

definition scan_event :: "'k scan_env \<Rightarrow> scan_request \<Rightarrow> string \<Rightarrow> string \<Rightarrow> outbox" where
  "scan_event env q digest pv =
     \<lparr>ob_id = sc_ob_id env, ob_event_type = ''scan_requested'',
      ob_payload = [(''operation_id'', jstr (uuid_str (sc_op_id env))), (''document_text'', JStr (sq_document q)),
        (''document_hash'', jstr digest), (''policy_name'', jstr (sq_policy_name q)), (''policy_version'', jstr pv),
        (''document_encoding'', jstr (sq_encoding q))],
      ob_processed = False, ob_created_at = sc_now env\<rparr>"

definition scan_message :: "'k scan_env \<Rightarrow> scan_request \<Rightarrow> string \<Rightarrow> string \<Rightarrow> json" where
  "scan_message env q digest pv = JObj [(lit ''operation_id'', jstr (uuid_str (sc_op_id env))),
     (lit ''document_hash'', jstr digest), (lit ''policy_name'', jstr (sq_policy_name q)), (lit ''policy_version'', jstr pv)]"

definition store_scan :: "'k scan_env \<Rightarrow> operation \<Rightarrow> outbox \<Rightarrow> db \<Rightarrow> db result" where
  "store_scan env r ob d =
     rbind (insert_operation r d) (\<lambda>d1. rbind (insert_outbox ob d1) (\<lambda>d2. rbind (sc_commit env) (\<lambda>_. Inr d2)))"

definition scan :: "'k scan_env \<Rightarrow> doc \<Rightarrow> scan_request \<Rightarrow> 'k api_world \<Rightarrow> 'k api_world \<times> scan_response result" where
  "scan env header q w =
     (case resolve_scan_actor env header (aw_keys w) of
        (c1, Inl e) \<Rightarrow> (w\<lparr>aw_keys := c1\<rparr>, Inl e)
      | (c1, Inr (actor, atype, tenant)) \<Rightarrow>
          (let w1 = w\<lparr>aw_keys := c1\<rparr>
           in case utf8_encode (sq_document q) of
                Inl e \<Rightarrow> (w1, Inl e)
              | Inr bs \<Rightarrow>
                  (let digest = sc_sha env bs;
                       pv = (case text_given (sq_policy_version q) of Some v \<Rightarrow> v
                             | None \<Rightarrow> scan_policy_version (sc_str env) (sc_opa env))
                   in case existing_operation digest pv (aw_db w) of
                        Some r \<Rightarrow> (w1, Inr \<lparr>sr_trace = op_trace_id r, sr_digest = digest,
                                     sr_policy_version = op_policy_version r, sr_review = (op_status r = ESCALATED)\<rparr>)
                      | None \<Rightarrow>
                          (case store_scan env (new_operation env actor atype tenant digest pv) (scan_event env q digest pv) (aw_db w) of
                             Inl e \<Rightarrow> (w1, Inl (HTTPException 500))
                           | Inr d \<Rightarrow>
                               (w1\<lparr>aw_db := d,
                                   aw_broker := (case enqueue_api (sc_float env) ''scan_requests'' (scan_message env q digest pv)
                                        (sc_push env) (aw_broker w) of Inr b \<Rightarrow> b | Inl e \<Rightarrow> aw_broker w),
                                   aw_pending := Suc (aw_pending w)\<rparr>,
                                Inr \<lparr>sr_trace = sc_trace env, sr_digest = digest, sr_policy_version = pv,
                                     sr_review = False\<rparr>)))))"

section \<open>What the endpoint guarantees\<close>

lemma store_scan_result:
  assumes "store_scan env r ob d = Inr d'"
  shows "d' = d\<lparr>operations := operations d @ [r], outbox_rows := outbox_rows d @ [ob]\<rparr>"
    and "op_id r \<notin> op_ids d" and "ob_id ob \<notin> ob_id ` set (outbox_rows d)"
  using assms by (auto simp: store_scan_def res_simps insert_operation_def insert_outbox_def split: if_splits)

lemma store_scan_wf [inv_intros]: "store_scan env r ob d = Inr d' \<Longrightarrow> wf_db d \<Longrightarrow> wf_db d'"
  by (auto simp: store_scan_def res_simps intro: inv_intros)

lemma scan_cases:
  assumes "scan env header q w = (w', Inr resp)"
  obtains (Known) actor atype tenant c bs pv r where
      "resolve_scan_actor env header (aw_keys w) = (c, Inr (actor, atype, tenant))"
      "utf8_encode (sq_document q) = Inr bs" "existing_operation (sc_sha env bs) pv (aw_db w) = Some r"
      "aw_db w' = aw_db w" "resp = \<lparr>sr_trace = op_trace_id r, sr_digest = sc_sha env bs, sr_policy_version = op_policy_version r,
         sr_review = (op_status r = ESCALATED)\<rparr>"
    | (New) actor atype tenant c bs pv where
      "resolve_scan_actor env header (aw_keys w) = (c, Inr (actor, atype, tenant))"
      "utf8_encode (sq_document q) = Inr bs" "existing_operation (sc_sha env bs) pv (aw_db w) = None"
      "store_scan env (new_operation env actor atype tenant (sc_sha env bs) pv) (scan_event env q (sc_sha env bs) pv) (aw_db w) = Inr (aw_db w')"
      "resp = \<lparr>sr_trace = sc_trace env, sr_digest = sc_sha env bs, sr_policy_version = pv, sr_review = False\<rparr>"
proof -
  obtain c a where a: "resolve_scan_actor env header (aw_keys w) = (c, a)" by fastforce
  obtain actor atype tenant where a': "a = Inr (actor, atype, tenant)"
    using assms a by (cases a) (auto simp: scan_def)
  obtain bs where bs: "utf8_encode (sq_document q) = Inr bs"
    using assms a a' by (cases "utf8_encode (sq_document q)") (auto simp: scan_def Let_def)
  define pv where "pv = (case text_given (sq_policy_version q) of Some v \<Rightarrow> v | None \<Rightarrow> scan_policy_version (sc_str env) (sc_opa env))"
  show ?thesis
  proof (cases "existing_operation (sc_sha env bs) pv (aw_db w)")
    case (Some r)
    then have "aw_db w' = aw_db w" "resp = \<lparr>sr_trace = op_trace_id r, sr_digest = sc_sha env bs,
        sr_policy_version = op_policy_version r, sr_review = (op_status r = ESCALATED)\<rparr>"
      using assms a a' bs by (auto simp: scan_def Let_def pv_def)
    with Known a a' bs Some show ?thesis by blast
  next
    case None
    then obtain d where d: "store_scan env (new_operation env actor atype tenant (sc_sha env bs) pv) (scan_event env q (sc_sha env bs) pv) (aw_db w) = Inr d"
      using assms a a' bs
      by (cases "store_scan env (new_operation env actor atype tenant (sc_sha env bs) pv) (scan_event env q (sc_sha env bs) pv) (aw_db w)")
        (auto simp: scan_def Let_def pv_def)
    with assms a a' bs None have "aw_db w' = d" "resp = \<lparr>sr_trace = sc_trace env, sr_digest = sc_sha env bs, sr_policy_version = pv, sr_review = False\<rparr>"
      by (auto simp: scan_def Let_def pv_def)
    with New a a' bs None d show ?thesis by blast
  qed
qed

lemma scan_wf [inv_intros]:
  assumes "scan env header q w = (w', r)" and "wf_db (aw_db w)"
  shows "wf_db (aw_db w')"
proof (cases r)
  case (Inr resp)
  from scan_cases [OF assms(1) [unfolded Inr]] assms(2) show ?thesis
    by (cases; auto intro: store_scan_wf)
next
  case (Inl e)
  have "aw_db w' = aw_db w"
    using assms(1) Inl
    by (auto simp: scan_def Let_def split: prod.splits sum.splits option.splits)
  with assms(2) show ?thesis by simp
qed

lemma stored_scan_awaits:
  assumes "store_scan env (new_operation env actor atype tenant digest pv) (scan_event env q digest pv) d = Inr d'"
    and "outbox_for (uuid_str (sc_op_id env)) d = []"
  shows "awaits_scan (uuid_str (sc_op_id env)) (sc_op_id env) (scan_event env q digest pv) (sq_document q) d'"
proof -
  let ?r = "new_operation env actor atype tenant digest pv"
  note r = store_scan_result [OF assms(1)]
  have "sc_op_id env \<notin> op_ids d" using r(2) by (simp add: new_operation_def)
  then have n: "find (\<lambda>x. op_id x = sc_op_id env) (operations d) = None" unfolding find_None_iff op_ids_def by force
  have "find P xs = None \<Longrightarrow> find P (xs @ ys) = find P ys" for P and xs ys :: "operation list"
    by (induction xs) auto
  from this [OF n] have "select_operation (sc_op_id env) d' = Some ?r"
    unfolding r(1) select_operation_def by (simp add: new_operation_def)
  moreover have "outbox_for (uuid_str (sc_op_id env)) d' = [scan_event env q digest pv]"
    using assms(2) unfolding r(1) outbox_for_def by (simp add: payload_is_for_def scan_event_def jstr_def)
  ultimately show ?thesis by (simp add: awaits_scan_def new_operation_def scan_event_def)
qed

lemma scan_event_relayable:
  "relayable (scan_event env q digest pv)" "message (scan_event env q digest pv) = (''process_scan'', jstr (uuid_str (sc_op_id env)))"
  by (simp_all add: relayable_def message_def actor_for_def event_arg_def scan_event_def event_to_queue_def get_actor_def)

lemma awaits_scan_mark_all:
  assumes "awaits_scan oid u ob t d"
  shows "\<exists>ob'. awaits_scan oid u ob' t (mark_all es d)"
proof -
  let ?g = "\<lambda>r. if ob_id r \<in> ob_id ` set es then r\<lparr>ob_processed := True\<rparr> else r"
  obtain obs where o: "outbox_for oid d = ob # obs" using assms by (auto simp: awaits_scan_def)
  have "payload_is_for oid (?g r) = payload_is_for oid r" for r by (simp add: payload_is_for_def)
  then have "outbox_for oid (mark_all es d) = map ?g (outbox_for oid d)"
    unfolding outbox_for_def mark_all_def by (simp add: filter_map_inside o_def)
  with o assms have "awaits_scan oid u (?g ob) t (mark_all es d)"
    by (auto simp: awaits_scan_def select_operation_def mark_all_def)
  then show ?thesis by blast
qed

text \<open>
  C7: an accepted scan reaches the detector and is detected. When the endpoint answers with a new trace,
  the next healthy turn of the relay whose batch holds every unprocessed row sends the operation to
  \<open>process_scan\<close>; and a worker that handles the message on the tables the relay leaves (with a usable answer
  of Presidio, unused keys and a broker that accepts the message) stores exactly the merged findings of the
  document in the request under the new operation, sets its status and hands it on.
\<close>
theorem scan_reaches_detector:
  assumes "scan env header q w = (w', Inr resp)" and "aw_db w' \<noteq> aw_db w" and "wf_db (aw_db w)"
    and "outbox_for (uuid_str (sc_op_id env)) (aw_db w) = []"
    and "healthy b renv" and "rl_db s = aw_db w'" and "length (unprocessed (aw_db w')) \<le> b"
    and "w_db v = rl_db (relay_turn renv s)"
    and "presidio_detect (we_presidio wenv) (sq_document q) (base_policy wenv) = Inr p"
    and "\<forall>f \<in> set p. report_wf (sq_document q) f" and "distinct (map finding_key p)"
    and "fs = merge_findings (regex_detect (pe_ucd (we_presidio wenv)) (sq_document q)) p"
    and "fresh_rows (we_ids wenv) (length fs) (aw_db w)" and "\<not> we_send_fails wenv"
  shows "(''process_scan'', jstr (uuid_str (sc_op_id env))) \<in> set (rl_sent (relay_turn renv s))
    \<and> (\<exists>v' r. process_scan wenv (uuid_str (sc_op_id env)) v = (v', Inr ())
        \<and> findings_of (sc_op_id env) (w_db v') = finding_rows (we_ids wenv) (sc_op_id env) fs
        \<and> select_operation (sc_op_id env) (w_db v') = Some r \<and> op_status r = scan_status (requires_review wenv fs)
        \<and> w_sent v' = w_sent v @ [(if requires_review wenv fs then ''safecontext_review'' else ''safecontext_sanitize'', uuid_str (sc_op_id env))])"
  using assms(1)
proof (cases rule: scan_cases)
  case Known
  with assms(2) show ?thesis by simp
next
  case (New actor atype tenant c bs pv)
  let ?e = "scan_event env q (sc_sha env bs) pv" and ?u = "sc_op_id env"
  let ?xs = "sorted_by ob_created_at (unprocessed (aw_db w'))"
  note st = store_scan_result [OF New(4)]
  have "?e \<in> set (unprocessed (aw_db w'))"
    using st(1) by (simp add: unprocessed_def) (simp add: scan_event_def)
  moreover have "take b ?xs = ?xs" using assms(7) by simp
  ultimately have e: "?e \<in> set (filter relayable (take b ?xs))" using scan_event_relayable(1) [of env q "sc_sha env bs" pv] by simp
  have "sent_part renv (due_events renv (rl_db s)) = filter relayable (take b ?xs)"
    using assms(5,6) by (simp add: sent_part_def healthy_def due_events_def)
  then have "message ?e \<in> set (rl_sent (relay_turn renv s))"
    unfolding relay_turn_spec(1) using e by simp
  then have sent: "(''process_scan'', jstr (uuid_str ?u)) \<in> set (rl_sent (relay_turn renv s))"
    using scan_event_relayable(2) [of env q "sc_sha env bs" pv] by simp
  have db: "w_db v = mark_all (filter relayable (take b ?xs)) (aw_db w')"
    using healthy_turn(1) [OF assms(5), of s] assms(6,8) by simp
  obtain ob where aw: "awaits_scan (uuid_str ?u) ?u ob (sq_document q) (w_db v)"
    using awaits_scan_mark_all [OF stored_scan_awaits [OF New(4) assms(4)]] unfolding db by blast
  have fd: "findings (w_db v) = findings (aw_db w)" unfolding db st(1) by (simp add: mark_all_def)
  have "?u \<notin> op_ids (aw_db w)" using st(2) by (simp add: new_operation_def)
  then have "findings_of ?u (aw_db w) = []"
    using assms(3) by (auto simp: findings_of_def filter_empty_conv wf_db_def finding_ok_def)
  then have nf: "findings_of ?u (w_db v) = []" by (simp add: findings_of_def fd)
  have fr: "fresh_rows (we_ids wenv) (length (merge_findings (regex_detect (pe_ucd (we_presidio wenv)) (sq_document q)) p)) (w_db v)"
    using assms(13) unfolding assms(12) fresh_rows_def fd_ids_def fd .
  from scan_first [OF aw assms(9-11) nf fr assms(14)] show ?thesis
    using sent unfolding assms(12) by (elim exE conjE) (intro conjI exI, assumption+, simp_all)
qed

text \<open>
  deduplication ignores the tenant. Whoever is authenticated, for whatever tenant, a document
  whose digest and policy version match a finished operation is answered with the trace of such an
  operation, and nothing is stored: a caller learns that another tenant has scanned the document.
\<close>
theorem dedup_crosses_tenants:
  assumes "resolve_scan_actor env header (aw_keys w) = (c, Inr (actor, atype, tenant))"
    and "utf8_encode (sq_document q) = Inr bs" and "sq_policy_version q = Some pv" and "pv \<noteq> []"
    and "r \<in> set (operations (aw_db w))" and "op_artifact_digest r = sc_sha env bs"
    and "op_policy_version r = pv" and "op_status r \<in> {COMPLETED, ESCALATED}"
  shows "\<exists>w' resp r'. scan env header q w = (w', Inr resp) \<and> aw_db w' = aw_db w
    \<and> r' \<in> set (operations (aw_db w)) \<and> sr_trace resp = op_trace_id r'
    \<and> ((\<forall>x \<in> set (operations (aw_db w)). op_artifact_digest x = sc_sha env bs \<longrightarrow> op_tenant_id x \<noteq> tenant)
        \<longrightarrow> op_tenant_id r' \<noteq> tenant)"
proof -
  have "existing_operation (sc_sha env bs) pv (aw_db w) \<noteq> None"
    using assms(5-8) by (auto simp: existing_operation_def filter_empty_conv)
  then obtain r' where r': "existing_operation (sc_sha env bs) pv (aw_db w) = Some r'" by blast
  from latest_by_SomeD(1) [OF r' [unfolded existing_operation_def]]
  have "r' \<in> set (operations (aw_db w))" "op_artifact_digest r' = sc_sha env bs" by simp_all
  moreover have "scan env header q w = (w\<lparr>aw_keys := c\<rparr>, Inr \<lparr>sr_trace = op_trace_id r', sr_digest = sc_sha env bs,
      sr_policy_version = op_policy_version r', sr_review = (op_status r' = ESCALATED)\<rparr>)"
    using assms(1-4) r' by (simp add: scan_def)
  ultimately show ?thesis by auto
qed

section \<open>Witnesses\<close>

definition sample_scan :: "nat scan_env" where
  "sample_scan = \<lparr>sc_auth = sample_auth, sc_static = lit ''agent'', sc_sha = sha256, sc_opa = Inl (PyExc ''ConnectError''),
     sc_str = (\<lambda>j. []), sc_trace = 11, sc_op_id = 12, sc_doc_id = 13, sc_ob_id = 14, sc_now = 60,
     sc_commit = Inr (), sc_push = Inl (PyExc ''ConnectionError''), sc_float = (\<lambda>q. [])\<rparr>"

definition agent_header :: doc where
  "agent_header = lit ''Bearer agent''"

definition sample_request :: scan_request where
  "sample_request = \<lparr>sq_document = lit ''hi'', sq_encoding = ''text'', sq_policy_name = ''base'', sq_policy_version = Some ''1''\<rparr>"

definition api_of :: "db \<Rightarrow> nat api_world" where
  "api_of d = \<lparr>aw_db = d, aw_broker = \<lparr>bk_client = True, bk_lists = (\<lambda>k. [])\<rparr>, aw_keys = no_keys, aw_pending = 0\<rparr>"

definition default_tenant :: tenant where
  "default_tenant = sample_tenant\<lparr>tn_id := 0\<rparr>"

lemma api_of_db [simp]: "aw_db (api_of d) = d"
  by (simp add: api_of_def)

lemma agent_resolved: "resolve_scan_actor sample_scan agent_header c = (c, Inr (1, MCP_AGENT, 0))"
  by (simp add: resolve_scan_actor_def agent_header_def sample_scan_def starts_with_def sentinel_actor_id_def default_tenant_id_def)

lemma hi_bytes: "utf8_encode (sq_document sample_request) = Inr [104, 105]"
  by (simp add: sample_request_def utf8_encode_def utf8_char_def is_surrogate_def)

lemma sample_request_version: "sq_policy_version sample_request = Some ''1''"
  by (simp add: sample_request_def)

lemma dedup_crosses_tenants_witness:
  "\<exists>w' resp. scan sample_scan agent_header sample_request
      (api_of (db_with [(sample_op 1 10)\<lparr>op_artifact_digest := sha256 [104, 105], op_policy_version := ''1'', op_status := COMPLETED\<rparr>])) = (w', Inr resp)
     \<and> sr_trace resp = op_trace_id (sample_op 1 10) \<and> op_tenant_id (sample_op 1 10) \<noteq> 0"
proof -
  let ?r = "(sample_op 1 10)\<lparr>op_artifact_digest := sha256 [104, 105], op_policy_version := ''1'', op_status := COMPLETED\<rparr>"
  have h: "?r \<in> set (operations (aw_db (api_of (db_with [?r]))))" "op_artifact_digest ?r = sc_sha sample_scan [104, 105]"
    by (simp_all add: api_of_def db_with_def sample_scan_def)
  have "operations (aw_db (api_of (db_with [?r]))) = [?r]" by (simp add: api_of_def db_with_def)
  with dedup_crosses_tenants [OF agent_resolved hi_bytes sample_request_version _ h]
  show ?thesis by (auto simp: sample_op_def)
qed

text \<open>A scan of any document on the empty database of the default tenant.\<close>

lemma default_scan_stores:
  assumes "utf8_encode (sq_document q) = Inr bs" and "sq_policy_version q = Some ''1''"
  shows "\<exists>w' resp. scan sample_scan agent_header q (api_of (empty_db\<lparr>tenants := [default_tenant]\<rparr>)) = (w', Inr resp)
     \<and> aw_db w' = empty_db\<lparr>tenants := [default_tenant], operations := [new_operation sample_scan 1 MCP_AGENT 0 (sha256 bs) ''1''],
         outbox_rows := [scan_event sample_scan q (sha256 bs) ''1'']\<rparr>"
proof -
  let ?w = "api_of (empty_db\<lparr>tenants := [default_tenant]\<rparr>)"
  let ?op = "new_operation sample_scan 1 MCP_AGENT 0 (sha256 bs) ''1''"
  let ?ev = "scan_event sample_scan q (sha256 bs) ''1''"
  have db: "aw_db ?w = empty_db\<lparr>tenants := [default_tenant]\<rparr>" by (simp add: api_of_def)
  have sh: "sc_sha sample_scan = sha256" "sc_op_id sample_scan = 12" "sc_commit sample_scan = Inr ()" by (simp_all add: sample_scan_def)
  have none: "existing_operation (sha256 bs) ''1'' (aw_db ?w) = None"
    by (simp add: existing_operation_def db empty_db_def)
  have st: "store_scan sample_scan ?op ?ev (aw_db ?w) = Inr (aw_db ?w\<lparr>operations := [?op], outbox_rows := [?ev]\<rparr>)"
    by (simp add: store_scan_def insert_operation_def insert_outbox_def op_ids_def db empty_db_def sh default_tenant_def)
      (simp add: new_operation_def)
  have "\<exists>w' resp. scan sample_scan agent_header q ?w = (w', Inr resp)
    \<and> aw_db w' = aw_db ?w\<lparr>operations := [?op], outbox_rows := [?ev]\<rparr>"
    using agent_resolved assms none st by (simp add: scan_def sh Let_def)
  then show ?thesis unfolding db .
qed

lemma default_scan_runs:
  "\<exists>w' resp. scan sample_scan agent_header sample_request (api_of (empty_db\<lparr>tenants := [default_tenant]\<rparr>)) = (w', Inr resp)
     \<and> length (operations (aw_db w')) = 1 \<and> length (outbox_rows (aw_db w')) = 1"
  using default_scan_stores [OF hi_bytes sample_request_version] by fastforce

definition amqp_request :: scan_request where
  "amqp_request = sample_request\<lparr>sq_document := amqp_doc\<rparr>"

lemma scan_reaches_detector_witness:
  "\<exists>w' resp v' f. scan sample_scan agent_header amqp_request (api_of (empty_db\<lparr>tenants := [default_tenant]\<rparr>)) = (w', Inr resp)
     \<and> (''process_scan'', jstr (uuid_str 12)) \<in> set (rl_sent (relay_turn (calm 5) (sample_relay []\<lparr>rl_db := aw_db w'\<rparr>)))
     \<and> process_scan (sample_worker False) (uuid_str 12)
         (sample_world [] pending_op\<lparr>w_db := rl_db (relay_turn (calm 5) (sample_relay []\<lparr>rl_db := aw_db w'\<rparr>))\<rparr>) = (v', Inr ())
     \<and> findings_of 12 (w_db v') = [finding_row (word_of_nat 100) 12 f]"
proof (rule amqp_findings)
  fix f assume m: "merge_findings (regex_detect ascii_ucd amqp_doc) [] = [f]"
  let ?w = "api_of (empty_db\<lparr>tenants := [default_tenant]\<rparr>)"
  have db: "aw_db ?w = empty_db\<lparr>tenants := [default_tenant]\<rparr>" by (simp add: api_of_def)
  have sh: "sc_op_id sample_scan = 12" by (simp add: sample_scan_def)
  have q: "sq_document amqp_request = amqp_doc" by (simp add: amqp_request_def)
  have bs: "utf8_encode (sq_document amqp_request) = Inr [97, 109, 113, 112, 58, 47, 47, 97]"
    by (simp add: q amqp_doc_def utf8_encode_def utf8_char_def is_surrogate_def)
  have v: "sq_policy_version amqp_request = Some ''1''" by (simp add: amqp_request_def sample_request_def)
  obtain w' resp where run: "scan sample_scan agent_header amqp_request ?w = (w', Inr resp)"
    and w': "length (operations (aw_db w')) = 1" "length (outbox_rows (aw_db w')) = 1"
    using default_scan_stores [OF bs v] by fastforce
  let ?s = "sample_relay []\<lparr>rl_db := aw_db w'\<rparr>"
  let ?v = "sample_world [] pending_op\<lparr>w_db := rl_db (relay_turn (calm 5) ?s)\<rparr>"
  have 1: "aw_db w' \<noteq> aw_db ?w" using w' unfolding db by (auto simp: empty_db_def)
  have 2: "wf_db (aw_db ?w)" unfolding db by (simp add: wf_db_def empty_db_def)
  have 3: "outbox_for (uuid_str (sc_op_id sample_scan)) (aw_db ?w) = []" by (simp add: db outbox_for_def empty_db_def)
  have 4: "length (unprocessed (aw_db w')) \<le> 5"
    using length_filter_le [of "\<lambda>b. \<not> ob_processed b" "outbox_rows (aw_db w')"] w' by (simp add: unprocessed_def)
  have 5: "fresh_rows (we_ids (sample_worker False)) (length [f]) (aw_db ?w)"
    unfolding db by (simp add: fresh_rows_def fd_ids_def empty_db_def inj_on_def)
  have 6: "[f] = merge_findings (regex_detect (pe_ucd (we_presidio (sample_worker False))) (sq_document amqp_request)) []"
    unfolding q sample_ucd m ..
  have i: "we_ids (sample_worker False) 0 = word_of_nat 100" by (simp add: sample_worker_def)
  from scan_reaches_detector [OF run 1 2 3 calm_healthy _ 4 _ sample_presidio _ _ 6 5 sample_sends(1), of ?s ?v]
  show ?thesis using run i unfolding sh by fastforce
qed

end
