(* ===== verification/Tenants.thy ===== *)
theory Tenants
  imports Siem Scan_Api
begin

text \<open>
  Tenant administration (\<open>api/v1/admin\_tenants.py\<close>): the request schemas with their validators, the
  five endpoints, and what a tenant row can hold after any sequence of them. The configurations are
  stored as JSON; a typing predicate on the stored values is kept by every step, and the readers of
  the row (the SIEM test, the purge) rely on it.
\<close>

section \<open>Schemas and validators\<close>

definition valid_entity_types :: "string list" where
  "valid_entity_types = [''EMAIL_ADDRESS'', ''PHONE_NUMBER'', ''PERSON'', ''API_KEY'', ''PASSWORD'', ''CREDIT_CARD'', ''SSN'',
     ''IBAN_CODE'', ''IP_ADDRESS'', ''MEDICAL_RECORD'']"

definition valid_severities :: "string list" where
  "valid_severities = [''low'', ''medium'', ''high'', ''critical'']"

text \<open>A field that the request does not mention is \<open>None\<close>.\<close>

record policy_config =
  pc_confidence :: "(string \<times> rat) list option"
  pc_severity :: "(string \<times> string) list option"
  pc_blocked :: "string list option"

definition validate_confidence :: "(string \<times> rat) list \<Rightarrow> bool" where
  "validate_confidence v = list_all (\<lambda>(e, q). e \<in> set valid_entity_types \<and> 0 \<le> q \<and> q \<le> 1) v"

definition validate_severity :: "(string \<times> string) list \<Rightarrow> bool" where
  "validate_severity v = list_all (\<lambda>(e, s). e \<in> set valid_entity_types \<and> s \<in> set valid_severities) v"

definition validate_blocked :: "string list \<Rightarrow> bool" where
  "validate_blocked v = list_all (\<lambda>e. e \<in> set valid_entity_types) v"

definition valid_policy :: "policy_config \<Rightarrow> bool" where
  "valid_policy c \<longleftrightarrow> pred_option validate_confidence (pc_confidence c) \<and> pred_option validate_severity (pc_severity c)
     \<and> pred_option validate_blocked (pc_blocked c)"

record siem_settings =
  si_enabled :: "bool option"
  si_format :: "string option"
  si_webhook_url :: "doc option option"
  si_webhook_token :: "doc option option"
  si_syslog_host :: "doc option option"
  si_syslog_port :: "int option"
  si_syslog_protocol :: "string option"

definition valid_siem :: "siem_settings \<Rightarrow> bool" where
  "valid_siem c \<longleftrightarrow> pred_option (\<lambda>f. f \<in> {''cef'', ''leef'', ''json''}) (si_format c)
     \<and> pred_option (\<lambda>n. 1 \<le> n \<and> n \<le> 65535) (si_syslog_port c) \<and> pred_option (\<lambda>f. f \<in> {''udp'', ''tcp''}) (si_syslog_protocol c)"

text \<open>\<open>model\_dump(exclude\_unset=True)\<close> and \<open>model\_dump()\<close>.\<close>

definition conf_json :: "(string \<times> rat) list \<Rightarrow> json" where
  "conf_json v = JObj (map (\<lambda>(e, q). (lit e, JFloat q)) v)"

definition sev_json :: "(string \<times> string) list \<Rightarrow> json" where
  "sev_json v = JObj (map (\<lambda>(e, s). (lit e, jstr s)) v)"

definition policy_keys :: "doc \<times> doc \<times> doc" where
  "policy_keys = (lit ''confidence_overrides'', lit ''severity_overrides'', lit ''blocked_entity_types'')"

definition policy_entries :: "policy_config \<Rightarrow> (doc \<times> json) list" where
  "policy_entries c =
     (case pc_confidence c of None \<Rightarrow> [] | Some v \<Rightarrow> [(fst policy_keys, conf_json v)])
     @ (case pc_severity c of None \<Rightarrow> [] | Some v \<Rightarrow> [(fst (snd policy_keys), sev_json v)])
     @ (case pc_blocked c of None \<Rightarrow> [] | Some v \<Rightarrow> [(snd (snd policy_keys), JArr (map jstr v))])"

definition filled :: "'a option \<Rightarrow> 'a \<Rightarrow> 'a option" where
  "filled v d = Some (case v of None \<Rightarrow> d | Some x \<Rightarrow> x)"

definition policy_defaults :: "policy_config \<Rightarrow> policy_config" where
  "policy_defaults c = \<lparr>pc_confidence = filled (pc_confidence c) [], pc_severity = filled (pc_severity c) [],
     pc_blocked = filled (pc_blocked c) []\<rparr>"

definition opt_text :: "doc option \<Rightarrow> json" where
  "opt_text v = (case v of None \<Rightarrow> JNull | Some s \<Rightarrow> JStr s)"

definition entry :: "string \<Rightarrow> ('a \<Rightarrow> json) \<Rightarrow> 'a option \<Rightarrow> (doc \<times> json) list" where
  "entry k f v = (case v of None \<Rightarrow> [] | Some x \<Rightarrow> [(lit k, f x)])"

definition siem_entries :: "siem_settings \<Rightarrow> (doc \<times> json) list" where
  "siem_entries c = entry ''enabled'' JBool (si_enabled c) @ entry ''format'' jstr (si_format c)
     @ entry ''webhook_url'' opt_text (si_webhook_url c) @ entry ''webhook_token'' opt_text (si_webhook_token c)
     @ entry ''syslog_host'' opt_text (si_syslog_host c) @ entry ''syslog_port'' JInt (si_syslog_port c)
     @ entry ''syslog_protocol'' jstr (si_syslog_protocol c)"

definition siem_defaults :: "siem_settings \<Rightarrow> siem_settings" where
  "siem_defaults c = \<lparr>si_enabled = filled (si_enabled c) False, si_format = filled (si_format c) ''cef'',
     si_webhook_url = filled (si_webhook_url c) None, si_webhook_token = filled (si_webhook_token c) None,
     si_syslog_host = filled (si_syslog_host c) None, si_syslog_port = filled (si_syslog_port c) 514,
     si_syslog_protocol = filled (si_syslog_protocol c) ''udp''\<rparr>"

text \<open>The slug pattern: lower-case letters, digits and hyphens, no hyphen at either end.\<close>

definition slug_char :: "char \<Rightarrow> bool" where
  "slug_char c \<longleftrightarrow> c \<in> set ''abcdefghijklmnopqrstuvwxyz0123456789''"

definition slug_pattern :: "string \<Rightarrow> bool" where
  "slug_pattern s \<longleftrightarrow> 2 \<le> length s \<and> slug_char (hd s) \<and> slug_char (last s)
     \<and> list_all (\<lambda>c. slug_char c \<or> c = CHR ''-'') s"

record tenant_create =
  tc_name :: doc
  tc_slug :: string
  tc_plan :: tenant_plan
  tc_contact_email :: "string option"
  tc_max_scans_per_day :: "int option"
  tc_max_document_size :: "int option"
  tc_max_storage_mb :: "int option"
  tc_rate_limit_rpm :: "int option"
  tc_policy :: "policy_config option"
  tc_siem :: "siem_settings option"
  tc_retention :: "int option"

definition valid_retention :: "int \<Rightarrow> bool" where
  "valid_retention n \<longleftrightarrow> 1 \<le> n \<and> n \<le> 3650"

definition valid_tenant_create :: "tenant_create \<Rightarrow> bool" where
  "valid_tenant_create b \<longleftrightarrow> 1 \<le> length (tc_name b) \<and> length (tc_name b) \<le> 255
     \<and> 1 \<le> length (tc_slug b) \<and> length (tc_slug b) \<le> 63 \<and> slug_pattern (tc_slug b)
     \<and> pred_option valid_policy (tc_policy b) \<and> pred_option valid_siem (tc_siem b) \<and> pred_option valid_retention (tc_retention b)"

text \<open>In an update a field may be absent, null or a value.\<close>

record tenant_update =
  tu_name :: "doc option option"
  tu_plan :: "tenant_plan option option"
  tu_is_active :: "bool option option"
  tu_contact_email :: "string option option"
  tu_max_scans_per_day :: "int option option"
  tu_max_document_size :: "int option option"
  tu_max_storage_mb :: "int option option"
  tu_rate_limit_rpm :: "int option option"
  tu_policy :: "policy_config option option"
  tu_siem :: "siem_settings option option"
  tu_retention :: "int option option"

definition valid_tenant_update :: "tenant_update \<Rightarrow> bool" where
  "valid_tenant_update u \<longleftrightarrow> pred_option (pred_option valid_policy) (tu_policy u)
     \<and> pred_option (pred_option valid_siem) (tu_siem u) \<and> pred_option (pred_option valid_retention) (tu_retention u)"

section \<open>The table\<close>

definition int4 :: "int \<Rightarrow> bool" where
  "int4 n \<longleftrightarrow> - (2 ^ 31) \<le> n \<and> n < 2 ^ 31"

definition tenant_columns_ok :: "tenant \<Rightarrow> bool" where
  "tenant_columns_ok x \<longleftrightarrow> length (tn_name x) \<le> 255 \<and> length (tn_slug x) \<le> 63
     \<and> pred_option int4 (tn_max_scans_per_day x) \<and> pred_option int4 (tn_max_document_size x)
     \<and> pred_option int4 (tn_max_storage_mb x) \<and> pred_option int4 (tn_rate_limit_rpm x) \<and> pred_option int4 (tn_retention_days x)"

definition insert_tenant :: "tenant \<Rightarrow> db \<Rightarrow> db result" where
  "insert_tenant x d =
     (if \<not> tenant_columns_ok x then Inl (PyExc ''DBAPIError'')
      else if tn_id x \<in> tn_id ` set (tenants d) \<or> tn_slug x \<in> tn_slug ` set (tenants d) then Inl integrity_error
      else Inr (d\<lparr>tenants := tenants d @ [x]\<rparr>))"

text \<open>The update is written, with its time, only when something changed.\<close>

definition save_tenant :: "instant \<Rightarrow> tenant \<Rightarrow> tenant \<Rightarrow> db \<Rightarrow> (db \<times> tenant) result" where
  "save_tenant now old new d =
     (if new = old then Inr (d, old)
      else if \<not> tenant_columns_ok new then Inl (PyExc ''DBAPIError'')
      else let x = new\<lparr>tn_updated_at := now\<rparr>
           in Inr (d\<lparr>tenants := map (\<lambda>y. if tn_id y = tn_id old then x else y) (tenants d)\<rparr>, x))"

section \<open>The endpoints\<close>

record tenant_env =
  te_id :: uuid
  te_now :: instant
  te_commit :: "unit result"

text \<open>\<open>retention\_days\<close> has a server default that applies when none is given.\<close>

definition new_tenant :: "tenant_env \<Rightarrow> tenant_create \<Rightarrow> tenant" where
  "new_tenant env b =
     \<lparr>tn_id = te_id env, tn_name = tc_name b, tn_slug = tc_slug b, tn_plan = tc_plan b, tn_is_active = True,
      tn_max_scans_per_day = tc_max_scans_per_day b, tn_max_document_size = tc_max_document_size b,
      tn_max_storage_mb = tc_max_storage_mb b, tn_rate_limit_rpm = tc_rate_limit_rpm b, tn_contact_email = tc_contact_email b,
      tn_policy_config = map_option (\<lambda>c. JObj (policy_entries (policy_defaults c))) (tc_policy b),
      tn_siem_config = map_option (\<lambda>c. JObj (siem_entries (siem_defaults c))) (tc_siem b),
      tn_retention_days = (case tc_retention b of None \<Rightarrow> Some 365 | Some n \<Rightarrow> Some n),
      tn_created_at = te_now env, tn_updated_at = te_now env\<rparr>"

definition list_tenants :: "claims \<Rightarrow> db \<Rightarrow> tenant list result" where
  "list_tenants p d = rbind (require_admin p) (\<lambda>_. Inr (sorted_by_desc tn_created_at (tenants d)))"

definition create_tenant :: "tenant_env \<Rightarrow> claims \<Rightarrow> tenant_create \<Rightarrow> db \<Rightarrow> (db \<times> tenant) result" where
  "create_tenant env p b d =
     (if \<not> valid_tenant_create b then Inl unprocessable
      else rbind (require_admin p) (\<lambda>_.
        rbind (scalar_one_or_none (filter (\<lambda>x. tn_slug x = tc_slug b) (tenants d))) (\<lambda>existing.
        if existing \<noteq> None then Inl (HTTPException 409)
        else rbind (insert_tenant (new_tenant env b) d) (\<lambda>d'.
             rbind (te_commit env) (\<lambda>_. Inr (d', new_tenant env b))))))"

definition get_tenant :: "claims \<Rightarrow> uuid \<Rightarrow> db \<Rightarrow> tenant result" where
  "get_tenant p t d = rbind (require_admin p) (\<lambda>_.
     case select_tenant t d of None \<Rightarrow> Inl (HTTPException 404) | Some x \<Rightarrow> Inr x)"

definition set_if :: "'a option \<Rightarrow> 'a \<Rightarrow> 'a" where
  "set_if v old = (case v of None \<Rightarrow> old | Some x \<Rightarrow> x)"

text \<open>A null in a column that must not be null is refused by the database.\<close>

definition required :: "'a option option \<Rightarrow> 'a \<Rightarrow> 'a result" where
  "required v old = (case v of None \<Rightarrow> Inr old | Some None \<Rightarrow> Inl integrity_error | Some (Some x) \<Rightarrow> Inr x)"

definition apply_update :: "tenant_update \<Rightarrow> tenant \<Rightarrow> tenant result" where
  "apply_update u x =
     rbind (required (tu_name u) (tn_name x)) (\<lambda>name. rbind (required (tu_plan u) (tn_plan x)) (\<lambda>plan.
     rbind (required (tu_is_active u) (tn_is_active x)) (\<lambda>active. Inr
       (x\<lparr>tn_name := name, tn_plan := plan, tn_is_active := active,
          tn_contact_email := set_if (tu_contact_email u) (tn_contact_email x),
          tn_max_scans_per_day := set_if (tu_max_scans_per_day u) (tn_max_scans_per_day x),
          tn_max_document_size := set_if (tu_max_document_size u) (tn_max_document_size x),
          tn_max_storage_mb := set_if (tu_max_storage_mb u) (tn_max_storage_mb x),
          tn_rate_limit_rpm := set_if (tu_rate_limit_rpm u) (tn_rate_limit_rpm x),
          tn_policy_config := set_if (map_option (map_option (\<lambda>c. JObj (policy_entries c))) (tu_policy u)) (tn_policy_config x),
          tn_siem_config := set_if (map_option (map_option (\<lambda>c. JObj (siem_entries c))) (tu_siem u)) (tn_siem_config x),
          tn_retention_days := set_if (tu_retention u) (tn_retention_days x)\<rparr>))))"

definition update_tenant :: "tenant_env \<Rightarrow> claims \<Rightarrow> uuid \<Rightarrow> tenant_update \<Rightarrow> db \<Rightarrow> (db \<times> tenant) result" where
  "update_tenant env p t u d =
     (if \<not> valid_tenant_update u then Inl unprocessable
      else rbind (get_tenant p t d) (\<lambda>x. rbind (apply_update u x) (\<lambda>x'.
           rbind (save_tenant (te_now env) x x' d) (\<lambda>r. rbind (te_commit env) (\<lambda>_. Inr r)))))"

definition deactivate_tenant :: "tenant_env \<Rightarrow> claims \<Rightarrow> uuid \<Rightarrow> db \<Rightarrow> db result" where
  "deactivate_tenant env p t d =
     rbind (get_tenant p t d) (\<lambda>x. rbind (save_tenant (te_now env) x (x\<lparr>tn_is_active := False\<rparr>) d) (\<lambda>(d', y).
     rbind (te_commit env) (\<lambda>_. Inr d')))"

section \<open>What a row can hold\<close>

text \<open>The types of the stored configurations, as the schemas promise them to their readers.\<close>

definition conf_typed :: "json \<Rightarrow> bool" where
  "conf_typed j \<longleftrightarrow> (\<exists>es. j = JObj es \<and> (\<forall>(e, v) \<in> set es. e \<in> lit ` set valid_entity_types \<and> (\<exists>q. v = JFloat q \<and> 0 \<le> q \<and> q \<le> 1)))"

definition sev_typed :: "json \<Rightarrow> bool" where
  "sev_typed j \<longleftrightarrow> (\<exists>es. j = JObj es \<and> (\<forall>(e, v) \<in> set es. e \<in> lit ` set valid_entity_types \<and> v \<in> jstr ` set valid_severities))"

definition blocked_typed :: "json \<Rightarrow> bool" where
  "blocked_typed j \<longleftrightarrow> (\<exists>es. j = JArr es \<and> set es \<subseteq> jstr ` set valid_entity_types)"

definition policy_typed :: "json \<Rightarrow> bool" where
  "policy_typed j \<longleftrightarrow> (\<exists>kvs. j = JObj kvs \<and> (\<forall>(k, v) \<in> set kvs.
     k = fst policy_keys \<and> conf_typed v \<or> k = fst (snd policy_keys) \<and> sev_typed v
     \<or> k = snd (snd policy_keys) \<and> blocked_typed v))"

definition siem_typed :: "json \<Rightarrow> bool" where
  "siem_typed j \<longleftrightarrow> (\<exists>c. j = JObj (siem_entries c) \<and> valid_siem c)"

definition tenant_typed :: "tenant \<Rightarrow> bool" where
  "tenant_typed x \<longleftrightarrow> slug_pattern (tn_slug x) \<and> tenant_columns_ok x \<and> pred_option policy_typed (tn_policy_config x)
     \<and> pred_option siem_typed (tn_siem_config x) \<and> pred_option valid_retention (tn_retention_days x)"

definition tenants_typed :: "db \<Rightarrow> bool" where
  "tenants_typed d \<longleftrightarrow> distinct (map tn_id (tenants d)) \<and> distinct (map tn_slug (tenants d)) \<and> (\<forall>x \<in> set (tenants d). tenant_typed x)"

inductive tenant_step :: "db \<Rightarrow> db \<Rightarrow> bool" where
  Create: "create_tenant env p b d = Inr (d', x) \<Longrightarrow> tenant_step d d'"
| Update: "update_tenant env p t u d = Inr (d', x) \<Longrightarrow> tenant_step d d'"
| Deactivate: "deactivate_tenant env p t d = Inr d' \<Longrightarrow> tenant_step d d'"

lemma conf_json_typed: "validate_confidence v \<Longrightarrow> conf_typed (conf_json v)"
  by (fastforce simp: conf_typed_def conf_json_def validate_confidence_def list_all_iff)

lemma sev_json_typed: "validate_severity v \<Longrightarrow> sev_typed (sev_json v)"
  by (fastforce simp: sev_typed_def sev_json_def validate_severity_def list_all_iff)

lemma blocked_json_typed: "validate_blocked v \<Longrightarrow> blocked_typed (JArr (map jstr v))"
  by (auto simp: blocked_typed_def validate_blocked_def list_all_iff)

lemma policy_entries_typed: "valid_policy c \<Longrightarrow> policy_typed (JObj (policy_entries c))"
  by (cases "pc_confidence c"; cases "pc_severity c"; cases "pc_blocked c")
    (simp_all add: policy_typed_def policy_entries_def valid_policy_def conf_json_typed sev_json_typed blocked_json_typed)

lemma policy_defaults_valid: "valid_policy c \<Longrightarrow> valid_policy (policy_defaults c)"
  by (auto simp: valid_policy_def policy_defaults_def filled_def validate_confidence_def validate_severity_def validate_blocked_def
      split: option.splits)

lemma siem_defaults_valid: "valid_siem c \<Longrightarrow> valid_siem (siem_defaults c)"
  by (auto simp: valid_siem_def siem_defaults_def filled_def split: option.splits)

lemma select_tenant_SomeD: "select_tenant t d = Some x \<Longrightarrow> x \<in> set (tenants d) \<and> tn_id x = t"
  by (auto simp: select_tenant_def find_Some_iff)

lemma get_tenant_D: "get_tenant p t d = Inr x \<Longrightarrow> x \<in> set (tenants d) \<and> tn_id x = t"
  by (auto simp: get_tenant_def res_simps split: option.splits dest: select_tenant_SomeD)

lemma insert_tenant_typed:
  assumes "insert_tenant x d = Inr d'" and "tenants_typed d" and "tenant_columns_ok x \<Longrightarrow> tenant_typed x"
  shows "tenants_typed d'"
  using assms by (auto simp: insert_tenant_def tenants_typed_def split: if_splits)

lemma save_tenant_typed:
  assumes s: "save_tenant now old new d = Inr (d', y)" and t: "tenants_typed d" and o: "old \<in> set (tenants d)"
    and n: "tn_id new = tn_id old" "tn_slug new = tn_slug old" "tenant_columns_ok new \<Longrightarrow> tenant_typed new"
  shows "tenants_typed d'"
proof (cases "new = old")
  case False
  let ?x = "new\<lparr>tn_updated_at := now\<rparr>"
  let ?f = "\<lambda>z. if tn_id z = tn_id old then ?x else z"
  from s False have d': "d' = d\<lparr>tenants := map ?f (tenants d)\<rparr>" and ok: "tenant_columns_ok new"
    by (auto simp: save_tenant_def Let_def split: if_splits)
  have u: "distinct (map tn_id (tenants d))" "distinct (map tn_slug (tenants d))" using t by (simp_all add: tenants_typed_def)
  have "z = old" if "z \<in> set (tenants d)" "tn_id z = tn_id old" for z
    using u(1) that o by (auto simp: distinct_map inj_on_def)
  then have "map tn_id (map ?f (tenants d)) = map tn_id (tenants d)" "map tn_slug (map ?f (tenants d)) = map tn_slug (tenants d)"
    using n by auto
  moreover have "tenant_typed ?x" using n(3) [OF ok] by (simp add: tenant_typed_def tenant_columns_ok_def)
  then have "\<forall>z \<in> set (map ?f (tenants d)). tenant_typed z" using t by (auto simp: tenants_typed_def)
  ultimately show ?thesis using u unfolding d' tenants_typed_def by (simp del: map_map)
qed (use s t in \<open>simp add: save_tenant_def\<close>)

lemma apply_update_typed:
  assumes a: "apply_update u x = Inr y" and v: "valid_tenant_update u" and x: "tenant_typed x"
  shows "tn_id y = tn_id x \<and> tn_slug y = tn_slug x \<and> (tenant_columns_ok y \<longrightarrow> tenant_typed y)"
proof -
  have "pred_option policy_typed (set_if (map_option (map_option (\<lambda>c. JObj (policy_entries c))) (tu_policy u)) (tn_policy_config x))"
    using v x by (auto simp: set_if_def valid_tenant_update_def tenant_typed_def option.pred_set policy_entries_typed split: option.splits)
  moreover have "pred_option siem_typed (set_if (map_option (map_option (\<lambda>c. JObj (siem_entries c))) (tu_siem u)) (tn_siem_config x))"
    using v x by (auto simp: set_if_def valid_tenant_update_def tenant_typed_def option.pred_set siem_typed_def split: option.splits)
  moreover have "pred_option valid_retention (set_if (tu_retention u) (tn_retention_days x))"
    using v x by (auto simp: set_if_def valid_tenant_update_def tenant_typed_def option.pred_set split: option.splits)
  moreover have "slug_pattern (tn_slug x)" using x by (simp add: tenant_typed_def)
  ultimately show ?thesis using a unfolding apply_update_def by (auto simp: res_simps tenant_typed_def)
qed

lemma new_tenant_typed: "valid_tenant_create b \<Longrightarrow> tenant_columns_ok (new_tenant env b) \<Longrightarrow> tenant_typed (new_tenant env b)"
  by (auto simp: tenant_typed_def new_tenant_def valid_tenant_create_def option.pred_set policy_entries_typed policy_defaults_valid
      siem_typed_def siem_defaults_valid valid_retention_def split: option.splits)

lemma tenant_step_typed: "tenant_step d d' \<Longrightarrow> tenants_typed d \<Longrightarrow> tenants_typed d'"
proof (induction rule: tenant_step.induct)
  case (Create env p b d d' x)
  then have v: "valid_tenant_create b" and "insert_tenant (new_tenant env b) d = Inr d'"
    by (auto simp: create_tenant_def res_simps split: if_splits)
  then show ?case using Create.prems new_tenant_typed [OF v] by (blast intro: insert_tenant_typed)
next
  case (Update env p t u d d' x)
  then obtain x0 y where v: "valid_tenant_update u" and g: "get_tenant p t d = Inr x0" and y: "apply_update u x0 = Inr y"
    and s: "save_tenant (te_now env) x0 y d = Inr (d', x)"
    by (auto simp: update_tenant_def res_simps split: if_splits)
  have o: "x0 \<in> set (tenants d)" using get_tenant_D [OF g] by simp
  then have "tenant_typed x0" using Update.prems by (simp add: tenants_typed_def)
  from apply_update_typed [OF y v this] save_tenant_typed [OF s Update.prems o] show ?case by blast
next
  case (Deactivate env p t d d')
  then obtain x0 y where g: "get_tenant p t d = Inr x0" and s: "save_tenant (te_now env) x0 (x0\<lparr>tn_is_active := False\<rparr>) d = Inr (d', y)"
    by (auto simp: deactivate_tenant_def res_simps)
  have o: "x0 \<in> set (tenants d)" using get_tenant_D [OF g] by simp
  then have "tenant_typed (x0\<lparr>tn_is_active := False\<rparr>)"
    using Deactivate.prems by (auto simp: tenants_typed_def tenant_typed_def tenant_columns_ok_def)
  then show ?case using save_tenant_typed [OF s Deactivate.prems o] by simp
qed

lemma tenant_steps_typed: "tenant_step\<^sup>*\<^sup>* d d' \<Longrightarrow> tenants_typed d \<Longrightarrow> tenants_typed d'"
  by (induction rule: rtranclp_induct) (auto intro: tenant_step_typed)

text \<open>Reading a typed configuration.\<close>

lemma map_of_entry: "map_of (entry k f v @ r) (lit k') = (if k' = k \<and> v \<noteq> None then map_option f v else map_of r (lit k'))"
  by (cases v) (simp_all add: entry_def lit_inj eq_commute)

lemma map_of_last_entry: "map_of (entry k f v) (lit k') = (if k' = k then map_option f v else None)"
  by (cases v) (simp_all add: entry_def lit_inj eq_commute)

lemma siem_config_of_entries:
  "sg_format (siem_config_of (Some (JObj (siem_entries c)))) = (case si_format c of None \<Rightarrow> ''cef'' | Some f \<Rightarrow> f)"
  "sg_syslog_port (siem_config_of (Some (JObj (siem_entries c)))) = (case si_syslog_port c of None \<Rightarrow> 514 | Some n \<Rightarrow> n)"
  "sg_syslog_protocol (siem_config_of (Some (JObj (siem_entries c)))) = (case si_syslog_protocol c of None \<Rightarrow> ''udp'' | Some f \<Rightarrow> f)"
proof -
  have j: "(if json_truthy (JObj kvs) then JObj kvs else JObj []) = JObj kvs" for kvs by simp
  note r = siem_config_of_def Let_def option.case j text_setting_def json_get.simps dict_get_def siem_entries_def map_of_entry map_of_last_entry
  show "sg_format (siem_config_of (Some (JObj (siem_entries c)))) = (case si_format c of None \<Rightarrow> ''cef'' | Some f \<Rightarrow> f)"
    unfolding r by (cases "si_format c") (simp_all add: jstr_def)
  show "sg_syslog_port (siem_config_of (Some (JObj (siem_entries c)))) = (case si_syslog_port c of None \<Rightarrow> 514 | Some n \<Rightarrow> n)"
    unfolding r by (cases "si_syslog_port c") simp_all
  show "sg_syslog_protocol (siem_config_of (Some (JObj (siem_entries c)))) = (case si_syslog_protocol c of None \<Rightarrow> ''udp'' | Some f \<Rightarrow> f)"
    unfolding r by (cases "si_syslog_protocol c") (simp_all add: jstr_def)
qed

definition siem_usable :: "siem_config \<Rightarrow> bool" where
  "siem_usable c \<longleftrightarrow> sg_format c \<in> {''cef'', ''leef'', ''json''} \<and> 1 \<le> sg_syslog_port c \<and> sg_syslog_port c \<le> 65535
     \<and> sg_syslog_protocol c \<in> {''udp'', ''tcp''}"

lemma siem_usable_entries:
  assumes "valid_siem c"
  shows "siem_usable (siem_config_of (Some (JObj (siem_entries c))))"
proof -
  have "(case si_format c of None \<Rightarrow> ''cef'' | Some f \<Rightarrow> f) \<in> {''cef'', ''leef'', ''json''}"
    using assms unfolding valid_siem_def by (cases "si_format c") (simp_all only: option.case option.pred_inject insert_iff simp_thms)
  moreover have "1 \<le> (case si_syslog_port c of None \<Rightarrow> 514 | Some n \<Rightarrow> n) \<and> (case si_syslog_port c of None \<Rightarrow> 514 | Some n \<Rightarrow> n) \<le> 65535"
    using assms unfolding valid_siem_def by (cases "si_syslog_port c") simp_all
  moreover have "(case si_syslog_protocol c of None \<Rightarrow> ''udp'' | Some f \<Rightarrow> f) \<in> {''udp'', ''tcp''}"
    using assms unfolding valid_siem_def by (cases "si_syslog_protocol c") (simp_all only: option.case option.pred_inject insert_iff simp_thms)
  ultimately show ?thesis unfolding siem_usable_def siem_config_of_entries by blast
qed

lemma siem_usable_typed: "siem_typed j \<Longrightarrow> siem_usable (siem_config_of (Some j))"
  unfolding siem_typed_def using siem_usable_entries by blast

lemma siem_usable_none: "siem_usable (siem_config_of None)"
proof -
  let ?c = "\<lparr>si_enabled = None, si_format = None, si_webhook_url = None, si_webhook_token = None, si_syslog_host = None,
     si_syslog_port = None, si_syslog_protocol = None\<rparr>"
  have "siem_entries ?c = []" by (simp add: siem_entries_def entry_def)
  moreover have "valid_siem ?c" by (simp add: valid_siem_def)
  ultimately have "siem_typed (JObj [])" unfolding siem_typed_def by metis
  moreover have "siem_config_of None = siem_config_of (Some (JObj []))"
    unfolding siem_config_of_def option.case if_cancel by (rule refl)
  ultimately show ?thesis using siem_usable_typed [of "JObj []"] by (simp only:)
qed

section \<open>What tenant administration guarantees\<close>

text \<open>
  C32: stored tenants stay well typed. After any sequence of creations, updates and deactivations by
  anybody, from a typed table, identifiers and slugs are unique, every stored policy has only known
  keys with confidences between 0 and 1 and known entity types and severities, the purge of a tenant
  keeps between 1 and 3650 days, and the SIEM test reads a known format, transport and port.
\<close>
theorem tenants_well_typed:
  assumes "tenant_step\<^sup>*\<^sup>* d d'" and "tenants_typed d" and "x \<in> set (tenants d')"
  shows "distinct (map tn_id (tenants d')) \<and> distinct (map tn_slug (tenants d')) \<and> slug_pattern (tn_slug x)
    \<and> pred_option policy_typed (tn_policy_config x) \<and> valid_retention (tenant_retention x)
    \<and> siem_usable (siem_config_of (tn_siem_config x))"
proof -
  have t: "tenants_typed d'" by (rule tenant_steps_typed [OF assms(1,2)])
  then have x: "tenant_typed x" using assms(3) by (simp add: tenants_typed_def)
  have "siem_usable (siem_config_of (tn_siem_config x))"
    using x siem_usable_none siem_usable_typed by (cases "tn_siem_config x") (auto simp: tenant_typed_def)
  moreover have "valid_retention (tenant_retention x)"
    using x by (auto simp: tenant_typed_def tenant_retention_def valid_retention_def split: option.splits)
  ultimately show ?thesis using t x by (simp add: tenants_typed_def tenant_typed_def)
qed

text \<open>A slug of one character passes the length check and never the pattern.\<close>

lemma short_slug_refused: "length (tc_slug b) = 1 \<Longrightarrow> create_tenant env p b d = Inl unprocessable"
  by (simp add: create_tenant_def valid_tenant_create_def slug_pattern_def)

text \<open>An update may blank the name that a creation must give.\<close>

lemma update_blanks_name: "apply_update (u\<lparr>tu_name := Some (Some []), tu_plan := None, tu_is_active := None\<rparr>) x = Inr y \<Longrightarrow> tn_name y = []"
  by (simp add: apply_update_def required_def) auto

text \<open>A scan reads nothing of a tenant but that it exists.\<close>

definition with_tenants :: "tenant list \<Rightarrow> db \<Rightarrow> db" where
  "with_tenants ts d = d\<lparr>tenants := ts\<rparr>"

lemma store_scan_tenants:
  assumes "tn_id ` set ts = tn_id ` set (tenants d)"
  shows "store_scan env r ob (with_tenants ts d) = (case store_scan env r ob d of Inl e \<Rightarrow> Inl e | Inr d' \<Rightarrow> Inr (with_tenants ts d'))"
  using assms by (cases "sc_commit env") (simp_all add: store_scan_def insert_operation_def insert_outbox_def with_tenants_def op_ids_def)

lemma scan_tenants:
  assumes ids: "tn_id ` set ts = tn_id ` set (tenants (aw_db w))" and run: "scan env h q w = (w', r)"
  shows "scan env h q (w\<lparr>aw_db := with_tenants ts (aw_db w)\<rparr>) = (w'\<lparr>aw_db := with_tenants ts (aw_db w')\<rparr>, r)"
proof -
  have e: "existing_operation g v (with_tenants ts d) = existing_operation g v d" for g v d
    by (simp add: existing_operation_def with_tenants_def)
  obtain c a where a: "resolve_scan_actor env h (aw_keys w) = (c, a)" by fastforce
  show ?thesis
  proof (cases a)
    case (Inl x)
    with run a show ?thesis by (auto simp: scan_def)
  next
    case (Inr y)
    obtain actor atype tenant where y: "a = Inr (actor, atype, tenant)" using Inr by (cases y) auto
    show ?thesis
    proof (cases "utf8_encode (sq_document q)")
      case (Inl x)
      with run a y show ?thesis by (auto simp: scan_def)
    next
      case (Inr bs)
      define pv where "pv = (case text_given (sq_policy_version q) of Some v \<Rightarrow> v | None \<Rightarrow> scan_policy_version (sc_str env) (sc_opa env))"
      let ?g = "sc_sha env bs"
      show ?thesis
      proof (cases "existing_operation ?g pv (aw_db w)")
        case (Some x)
        with run a y Inr show ?thesis by (auto simp: scan_def e Let_def pv_def [symmetric])
      next
        case None
        note st = store_scan_tenants [OF ids, of env "new_operation env actor atype tenant ?g pv" "scan_event env q ?g pv"]
        show ?thesis
          by (cases "store_scan env (new_operation env actor atype tenant ?g pv) (scan_event env q ?g pv) (aw_db w)")
            (use run in \<open>auto simp: scan_def a y Inr None e st Let_def pv_def [symmetric] split: sum.splits\<close>)
      qed
    qed
  qed
qed

lemma save_tenant_ids:
  assumes "save_tenant now old new d = Inr (d', y)" and "tn_id new = tn_id old"
  shows "\<exists>ts. d' = with_tenants ts d \<and> tn_id ` set ts = tn_id ` set (tenants d)"
proof (cases "new = old")
  case False
  let ?ts = "map (\<lambda>z. if tn_id z = tn_id old then new\<lparr>tn_updated_at := now\<rparr> else z) (tenants d)"
  have "map tn_id ?ts = map tn_id (tenants d)" using assms(2) by auto
  then have "set (map tn_id ?ts) = set (map tn_id (tenants d))" by (rule arg_cong)
  then have "tn_id ` set ?ts = tn_id ` set (tenants d)" unfolding set_map .
  moreover have "d' = with_tenants ?ts d" using assms(1) False by (auto simp: save_tenant_def Let_def with_tenants_def split: if_splits)
  ultimately show ?thesis by (intro exI [of _ ?ts] conjI)
next
  case True
  then show ?thesis using assms(1) by (intro exI [of _ "tenants d"]) (simp add: save_tenant_def with_tenants_def)
qed

text \<open>
  C38: tenant settings do not reach the scanner. Whatever an update or a deactivation changes of a tenant,
  its activity, quotas or policy, every scan afterwards ends as it would have before: the same answer,
  the same operations and outbox rows, the same messages. (The creation of a tenant is not covered: it
  does admit operations of the new tenant.)
\<close>
theorem tenant_settings_ignored:
  assumes "deactivate_tenant te p t d = Inr d' \<or> (\<exists>x. update_tenant te p t u d = Inr (d', x))"
    and "scan env h q (w\<lparr>aw_db := d\<rparr>) = (w1, r)"
  shows "\<exists>w2. scan env h q (w\<lparr>aw_db := d'\<rparr>) = (w2, r) \<and> operations (aw_db w2) = operations (aw_db w1)
    \<and> outbox_rows (aw_db w2) = outbox_rows (aw_db w1) \<and> aw_broker w2 = aw_broker w1"
proof -
  obtain ts where ts: "d' = with_tenants ts d" "tn_id ` set ts = tn_id ` set (tenants d)"
  proof -
    have up: "apply_update u x0 = Inr y \<Longrightarrow> tn_id y = tn_id x0" for x0 y
      by (auto simp: apply_update_def res_simps)
    from assms(1) show ?thesis
    proof
      assume "deactivate_tenant te p t d = Inr d'"
      then obtain x0 y where "save_tenant (te_now te) x0 (x0\<lparr>tn_is_active := False\<rparr>) d = Inr (d', y)"
        by (auto simp: deactivate_tenant_def res_simps)
      from save_tenant_ids [OF this] that show ?thesis by auto
    next
      assume "\<exists>x. update_tenant te p t u d = Inr (d', x)"
      then obtain x0 y x where "apply_update u x0 = Inr y" "save_tenant (te_now te) x0 y d = Inr (d', x)"
        by (auto simp: update_tenant_def res_simps split: if_splits)
      with save_tenant_ids [OF this(2)] up that show ?thesis by blast
    qed
  qed
  show ?thesis using scan_tenants [of ts "w\<lparr>aw_db := d\<rparr>" env h q w1 r] ts assms(2) by (simp add: with_tenants_def)
qed

section \<open>Witnesses\<close>

definition sample_tenant_env :: tenant_env where
  "sample_tenant_env = \<lparr>te_id = 90, te_now = 91, te_commit = Inr ()\<rparr>"

definition acme :: tenant_create where
  "acme = \<lparr>tc_name = lit ''Acme'', tc_slug = ''acme-1'', tc_plan = STARTER, tc_contact_email = None, tc_max_scans_per_day = Some 10,
     tc_max_document_size = None, tc_max_storage_mb = None, tc_rate_limit_rpm = None,
     tc_policy = Some \<lparr>pc_confidence = Some [(''SSN'', 1 / 2)], pc_severity = None, pc_blocked = None\<rparr>, tc_siem = None, tc_retention = None\<rparr>"

lemma admin_required [simp]: "require_admin admin_claims = Inr admin_claims"
  by (simp add: require_admin_def)

lemma acme_created: "\<exists>d' x. create_tenant sample_tenant_env admin_claims acme empty_db = Inr (d', x) \<and> tenants d' = [x] \<and> tn_policy_config x \<noteq> None"
proof -
  have v: "valid_tenant_create acme"
    by (simp add: valid_tenant_create_def acme_def slug_pattern_def slug_char_def valid_policy_def validate_confidence_def valid_entity_types_def)
  have i: "insert_tenant (new_tenant sample_tenant_env acme) empty_db = Inr (empty_db\<lparr>tenants := [new_tenant sample_tenant_env acme]\<rparr>)"
    by (simp add: insert_tenant_def tenant_columns_ok_def new_tenant_def acme_def int4_def empty_db_def)
  have none: "filter (\<lambda>x. tn_slug x = tc_slug acme) (tenants empty_db) = []" by (simp add: empty_db_def)
  have "create_tenant sample_tenant_env admin_claims acme empty_db =
      Inr (empty_db\<lparr>tenants := [new_tenant sample_tenant_env acme]\<rparr>, new_tenant sample_tenant_env acme)"
    by (simp add: create_tenant_def v i none scalar_one_or_none_def sample_tenant_env_def [THEN arg_cong, of te_commit])
  then show ?thesis by (auto simp: new_tenant_def acme_def)
qed

lemma tenants_well_typed_witness:
  "\<exists>d' x. tenant_step\<^sup>*\<^sup>* empty_db d' \<and> tenants d' = [x] \<and> (\<exists>j. tn_policy_config x = Some j \<and> policy_typed j)
     \<and> valid_retention (tenant_retention x)"
proof -
  obtain d' x where c: "create_tenant sample_tenant_env admin_claims acme empty_db = Inr (d', x)" "tenants d' = [x]" "tn_policy_config x \<noteq> None"
    using acme_created by blast
  have st: "tenant_step\<^sup>*\<^sup>* empty_db d'" using tenant_step.Create [OF c(1)] by (rule r_into_rtranclp)
  have "tenants_typed empty_db" by (simp add: tenants_typed_def empty_db_def)
  from tenants_well_typed [OF st this, of x] c st show ?thesis by auto
qed

lemma tenant_settings_ignored_witness:
  "\<exists>d' w2 resp. deactivate_tenant sample_tenant_env admin_claims 0 (empty_db\<lparr>tenants := [default_tenant]\<rparr>) = Inr d'
     \<and> map tn_is_active (tenants d') = [False]
     \<and> scan sample_scan agent_header sample_request (api_of d') = (w2, Inr resp) \<and> length (operations (aw_db w2)) = 1"
proof -
  let ?d = "empty_db\<lparr>tenants := [default_tenant]\<rparr>"
  have ten: "tn_id default_tenant = 0" "tn_is_active default_tenant" "tenant_columns_ok (default_tenant\<lparr>tn_is_active := False\<rparr>)"
    by (simp_all add: default_tenant_def sample_tenant_def tenant_columns_ok_def)
  have ne: "default_tenant\<lparr>tn_is_active := False\<rparr> \<noteq> default_tenant" using ten(2) by (metis tenant.select_convs(5) tenant.surjective tenant.update_convs(5))
  have g: "get_tenant admin_claims 0 ?d = Inr default_tenant" by (simp add: get_tenant_def select_tenant_def ten)
  have "\<exists>d'. deactivate_tenant sample_tenant_env admin_claims 0 ?d = Inr d' \<and> map tn_is_active (tenants d') = [False]"
    by (simp add: deactivate_tenant_def g save_tenant_def ne ten Let_def) (simp add: sample_tenant_env_def)
  then obtain d' where d': "deactivate_tenant sample_tenant_env admin_claims 0 ?d = Inr d'" "map tn_is_active (tenants d') = [False]"
    by (elim exE conjE) (rule that)
  obtain w1 resp where w1: "scan sample_scan agent_header sample_request (api_of ?d) = (w1, Inr resp)" "length (operations (aw_db w1)) = 1"
    using default_scan_runs by blast
  have api: "(api_of ?d)\<lparr>aw_db := d\<rparr> = api_of d" for d by (simp add: api_of_def)
  from tenant_settings_ignored [where w = "api_of ?d" and d = ?d and d' = d', unfolded api, OF disjI1 [OF d'(1)] w1(1)]
  obtain w2 where "scan sample_scan agent_header sample_request (api_of d') = (w2, Inr resp)" "operations (aw_db w2) = operations (aw_db w1)"
    by (elim exE conjE) (rule that)
  then show ?thesis using d' w1(2) by (intro exI [of _ d'] exI [of _ w2] exI [of _ resp]) simp
qed

end
