(* ===== verification/Tenant_Rls.thy ===== *)
theory Tenant_Rls
  imports Tenants
begin

text \<open>
  Row-level security (\<open>db/migrations/versions/0009\_enable\_rls.py\<close>) under a database role that it
  binds, and with the policies of this migration alone; theory \<open>Deployed\_Db\<close> shows that the older
  policies of the same tables, which it leaves in place, make them ineffective. Here: which rows a
  session sees and may write, from the setting \<open>app.current\_tenant\_id\<close>. The
  program has a dependency that sets it (\<open>core/tenant.py\<close>, theory \<open>Access\<close>); the endpoints use the
  plain session, which does not.
\<close>

section \<open>The policies\<close>

text \<open>The setting as a UUID, or the default tenant when it is missing.\<close>

definition current_tenant :: "string option \<Rightarrow> uuid result" where
  "current_tenant setting = (case setting of None \<Rightarrow> Inr default_tenant_id | Some s \<Rightarrow> uuid_of_str s)"

definition rls_operation :: "uuid \<Rightarrow> operation \<Rightarrow> bool" where
  "rls_operation t r \<longleftrightarrow> op_tenant_id r = t"

definition rls_waiver :: "uuid \<Rightarrow> waiver \<Rightarrow> bool" where
  "rls_waiver t w \<longleftrightarrow> wv_tenant_id w = t"

text \<open>Rows of the child tables are bound to the operations of the tenant.\<close>

definition rls_child :: "uuid \<Rightarrow> db \<Rightarrow> uuid \<Rightarrow> bool" where
  "rls_child t d oid \<longleftrightarrow> oid \<in> op_id ` set (filter (rls_operation t) (operations d))"

definition rls_view :: "uuid \<Rightarrow> db \<Rightarrow> db" where
  "rls_view t d = d\<lparr>operations := filter (rls_operation t) (operations d), waivers := filter (rls_waiver t) (waivers d),
     findings := filter (\<lambda>f. rls_child t d (fd_operation_id f)) (findings d),
     redactions := filter (\<lambda>r. rls_child t d (rd_operation_id r)) (redactions d),
     artifacts := filter (\<lambda>a. rls_child t d (ar_operation_id a)) (artifacts d)\<rparr>"

text \<open>The check on a written row; its failure ends the statement that flushes it.\<close>

definition rls_check :: "bool \<Rightarrow> unit result" where
  "rls_check ok = raise_if (\<not> ok) (PyExc ''DBAPIError'')"

definition scan_tenant :: "'k scan_env \<Rightarrow> doc \<Rightarrow> 'k api_world \<Rightarrow> uuid option" where
  "scan_tenant env h w = (case snd (resolve_scan_actor env h (aw_keys w)) of Inr (actor, atype, tenant) \<Rightarrow> Some tenant | Inl e \<Rightarrow> None)"

text \<open>A scan in a session of tenant \<open>t\<close>: it reads the view, and its new rows are added to the table.\<close>

definition rls_scan :: "uuid \<Rightarrow> 'k scan_env \<Rightarrow> doc \<Rightarrow> scan_request \<Rightarrow> 'k api_world \<Rightarrow> 'k api_world \<times> scan_response result" where
  "rls_scan t env h q w =
     (let commit = rbind (rls_check (scan_tenant env h w = Some t)) (\<lambda>_. sc_commit env);
          v = rls_view t (aw_db w);
          (w1, r) = scan (env\<lparr>sc_commit := commit\<rparr>) h q (w\<lparr>aw_db := v\<rparr>);
          new = drop (length (operations v)) (operations (aw_db w1))
      in (w1\<lparr>aw_db := (aw_db w)\<lparr>operations := operations (aw_db w) @ new, outbox_rows := outbox_rows (aw_db w1)\<rparr>\<rparr>, r))"

section \<open>What the policies guarantee\<close>

lemma rls_view_tables [simp]:
  "operations (rls_view t d) = filter (rls_operation t) (operations d)" "waivers (rls_view t d) = filter (rls_waiver t) (waivers d)"
  "findings (rls_view t d) = filter (\<lambda>f. rls_child t d (fd_operation_id f)) (findings d)"
  "redactions (rls_view t d) = filter (\<lambda>r. rls_child t d (rd_operation_id r)) (redactions d)"
  "artifacts (rls_view t d) = filter (\<lambda>a. rls_child t d (ar_operation_id a)) (artifacts d)"
  "outbox_rows (rls_view t d) = outbox_rows d" "tenants (rls_view t d) = tenants d"
  by (simp_all add: rls_view_def)

lemma rls_child_disjoint:
  assumes "wf_db d" and "t \<noteq> u" and "rls_child t d x"
  shows "\<not> rls_child u d x"
proof
  assume "rls_child u d x"
  then obtain r r' where "r \<in> set (operations d)" "op_id r = x" "op_tenant_id r = t"
    "r' \<in> set (operations d)" "op_id r' = x" "op_tenant_id r' = u"
    using assms(3) by (auto simp: rls_child_def rls_operation_def)
  moreover have "distinct (map op_id (operations d))" using assms(1) by (simp add: wf_db_def)
  ultimately have "r = r'" by (auto simp: distinct_map inj_on_def)
  with \<open>op_tenant_id r = t\<close> \<open>op_tenant_id r' = u\<close> assms(2) show False by simp
qed

lemma filter_view: "filter (\<lambda>r. op_tenant_id r = t) (filter (rls_operation t) rs) = filter (\<lambda>r. op_tenant_id r = t) rs"
  by (simp add: rls_operation_def)

lemma verify_chain_view: "verify_chain sha t limit (rls_view t d) = verify_chain sha t limit d"
  by (simp add: verify_chain_def chain_rows_def filter_view del: filter_filter)

lemma existing_operation_view: "existing_operation g v (rls_view t d) = Some r \<Longrightarrow> r \<in> set (operations d) \<and> op_tenant_id r = t"
  by (auto simp: existing_operation_def rls_operation_def dest: latest_by_SomeD(1))

lemma resolve_commit: "resolve_scan_actor (env\<lparr>sc_commit := x\<rparr>) h c = resolve_scan_actor env h c"
  by (simp add: resolve_scan_actor_def)

lemma scan_error_db: "scan env h q w = (w', Inl e) \<Longrightarrow> aw_db w' = aw_db w"
  by (auto simp: scan_def Let_def split: prod.splits sum.splits option.splits)

text \<open>
  with the policies of 0009 alone and the setting of the dependency, tenants are isolated. A session of tenant \<open>t\<close> sees exactly
  the operations of \<open>t\<close>; what it sees of findings, redactions and artifacts is disjoint from what any
  other tenant sees; verifying the chain of \<open>t\<close> gives the answer it gives on the whole table; and the
  deduplication of a scan finds only operations of \<open>t\<close>.
\<close>
theorem rls_isolates:
  assumes "wf_db d" and "resolve_tenant_id s = Inr t" and "tenant_setting s = Inr v" and "u \<noteq> t"
  shows "current_tenant (Some v) = Inr t
    \<and> set (operations (rls_view t d)) = {r \<in> set (operations d). op_tenant_id r = t}
    \<and> set (findings (rls_view t d)) \<inter> set (findings (rls_view u d)) = {}
    \<and> set (redactions (rls_view t d)) \<inter> set (redactions (rls_view u d)) = {}
    \<and> set (artifacts (rls_view t d)) \<inter> set (artifacts (rls_view u d)) = {}
    \<and> verify_chain sha t limit (rls_view t d) = verify_chain sha t limit d
    \<and> (\<forall>g pv r. existing_operation g pv (rls_view t d) = Some r \<longrightarrow> op_tenant_id r = t)"
proof -
  have "current_tenant (Some v) = Inr t" using assms(2,3) by (auto simp: tenant_setting_def current_tenant_def)
  moreover have "set (findings (rls_view t d)) \<inter> set (findings (rls_view u d)) = {}"
    "set (redactions (rls_view t d)) \<inter> set (redactions (rls_view u d)) = {}"
    "set (artifacts (rls_view t d)) \<inter> set (artifacts (rls_view u d)) = {}"
    using rls_child_disjoint [OF assms(1) assms(4)] by auto
  moreover have "set (operations (rls_view t d)) = {r \<in> set (operations d). op_tenant_id r = t}" by (auto simp: rls_operation_def)
  ultimately show ?thesis using verify_chain_view existing_operation_view by blast
qed

text \<open>
  without the setting, every tenant but the default one is shut out. The endpoints open plain sessions, so
  under these policies a scan of a caller of another tenant stores nothing; it ends with an error, or
  with the trace of an operation of the default tenant.
\<close>
theorem plain_session_refuses_tenants:
  assumes "resolve_scan_actor env h (aw_keys w) = (c, Inr (actor, atype, tenant))" and "tenant \<noteq> default_tenant_id"
    and "current_tenant None = Inr t" and "rls_scan t env h q w = (w', r)"
  shows "operations (aw_db w') = operations (aw_db w) \<and> outbox_rows (aw_db w') = outbox_rows (aw_db w)
    \<and> (\<forall>resp. r = Inr resp \<longrightarrow> (\<exists>x \<in> set (operations (aw_db w)). op_tenant_id x = default_tenant_id \<and> sr_trace resp = op_trace_id x))"
proof -
  have t: "t = default_tenant_id" using assms(3) by (simp add: current_tenant_def)
  let ?commit = "rbind (rls_check (scan_tenant env h w = Some t)) (\<lambda>_. sc_commit env)"
  let ?v = "rls_view t (aw_db w)"
  let ?env = "env\<lparr>sc_commit := ?commit\<rparr>" and ?w = "w\<lparr>aw_db := ?v\<rparr>"
  have "scan_tenant env h w = Some tenant" using assms(1) by (simp add: scan_tenant_def)
  with assms(2) t have no: "sc_commit ?env = Inl (PyExc ''DBAPIError'')" by (simp add: rls_check_def raise_if_def)
  obtain w1 where w1: "scan ?env h q ?w = (w1, r)"
    "w' = w1\<lparr>aw_db := (aw_db w)\<lparr>operations := operations (aw_db w) @ drop (length (operations ?v)) (operations (aw_db w1)),
       outbox_rows := outbox_rows (aw_db w1)\<rparr>\<rparr>"
    using assms(4) unfolding rls_scan_def Let_def by (auto split: prod.splits)
  have refused: "store_scan ?env x ob d \<noteq> Inr d'" for x ob d d' using no unfolding store_scan_def rbind_Inr_iff by simp
  show ?thesis
  proof (cases r)
    case (Inl e)
    with w1 scan_error_db [of ?env h q ?w w1 e] show ?thesis by simp
  next
    case (Inr resp)
    from w1(1) [unfolded Inr] show ?thesis
    proof (cases rule: scan_cases)
      case (Known actor' atype' tenant' c' bs pv x)
      with w1(2) Inr existing_operation_view [of "sc_sha ?env bs" pv t "aw_db w" x] t show ?thesis by auto
    next
      case (New actor' atype' tenant' c' bs pv)
      with refused show ?thesis by blast
    qed
  qed
qed

section \<open>Witnesses\<close>

lemma rls_isolates_witness:
  "\<exists>v. tenant_setting (Tenant_uuid 7) = Inr v \<and> current_tenant (Some v) = Inr 7
     \<and> operations (rls_view 7 (db_with [sample_op 1 10])) = [sample_op 1 10] \<and> operations (rls_view 8 (db_with [sample_op 1 10])) = []"
proof -
  have w: "wf_db (db_with [sample_op 1 10])" by (rule db_with_wf) simp
  have r: "resolve_tenant_id (Tenant_uuid 7) = Inr 7" "tenant_setting (Tenant_uuid 7) = Inr (uuid_str 7)"
    by (simp_all add: resolve_tenant_id_def tenant_setting_def)
  have "(8 :: uuid) \<noteq> 7" by simp
  from rls_isolates [OF w r this] r show ?thesis by (auto simp: rls_operation_def sample_op_def)
qed

definition foreign_claims :: claims where
  "foreign_claims = [(lit ''sub'', jstr (uuid_str 5)), (lit ''tenant_id'', jstr (uuid_str 7))]"

definition foreign_scan :: "nat scan_env" where
  "foreign_scan = sample_scan\<lparr>sc_auth := sample_auth\<lparr>au_jwt := sample_jwt\<lparr>jw_decode := (\<lambda>t k a c. Inr foreign_claims)\<rparr>\<rparr>\<rparr>"

lemma resolve_jwt:
  assumes "starts_with (lit ''Bearer '') h" and "drop 7 h \<noteq> sc_static env"
    and "decode_token (au_jwt (sc_auth env)) (au_client (sc_auth env)) (au_now (sc_auth env)) (au_fetch (sc_auth env)) (drop 7 h) k = (c, Inr p)"
    and "actor_of_claims p = Inr x"
  shows "resolve_scan_actor env h k = (c, Inr x)"
  using assms by (simp add: resolve_scan_actor_def Let_def)

lemma foreign_actor: "\<exists>c. resolve_scan_actor foreign_scan (lit ''Bearer x'') no_keys = (c, Inr (5, HUMAN, 7))"
proof -
  have a: "actor_of_claims foreign_claims = Inr (5, HUMAN, 7)"
    by (simp add: actor_of_claims_def tenant_of_claims_def foreign_claims_def claim_or_def dict_get_def jstr_def uuid_str_nonempty)
  obtain c where "decode_token (au_jwt (sc_auth foreign_scan)) (au_client (sc_auth foreign_scan)) (au_now (sc_auth foreign_scan))
      (au_fetch (sc_auth foreign_scan)) (drop 7 (lit ''Bearer x'')) no_keys = (c, Inr foreign_claims)"
    by (simp add: decode_token_def get_jwks_def decode_with_jwks_def foreign_scan_def sample_jwt_def sample_auth_def no_keys_def
        key_of_def claim_or_def jstr_def)
  moreover have "drop 7 (lit ''Bearer x'') \<noteq> sc_static foreign_scan" "starts_with (lit ''Bearer '') (lit ''Bearer x'')"
    by (simp_all add: foreign_scan_def sample_scan_def starts_with_def)
  ultimately have "resolve_scan_actor foreign_scan (lit ''Bearer x'') no_keys = (c, Inr (5, HUMAN, 7))"
    by (intro resolve_jwt [OF _ _ _ a])
  then show ?thesis by (rule exI)
qed

lemma plain_session_refuses_tenants_witness:
  "\<exists>w' r. rls_scan default_tenant_id foreign_scan (lit ''Bearer x'') sample_request (api_of (db_with [])) = (w', r)
     \<and> operations (aw_db w') = [] \<and> (\<forall>resp. r \<noteq> Inr resp)"
proof -
  let ?w = "api_of (db_with [])"
  have k: "aw_keys ?w = no_keys" by (simp add: api_of_def)
  obtain c where c: "resolve_scan_actor foreign_scan (lit ''Bearer x'') (aw_keys ?w) = (c, Inr (5, HUMAN, 7))"
    using foreign_actor unfolding k by blast
  obtain w' r where run: "rls_scan default_tenant_id foreign_scan (lit ''Bearer x'') sample_request ?w = (w', r)" by fastforce
  have "(7 :: uuid) \<noteq> default_tenant_id" "current_tenant None = Inr default_tenant_id"
    by (simp_all add: default_tenant_id_def current_tenant_def)
  from plain_session_refuses_tenants [OF c this run] run show ?thesis by auto
qed

end
