(* ===== verification/Schema_Sql.thy ===== *)
theory Schema_Sql
  imports Data_Model
begin

text \<open>
  The part of PostgreSQL that the migrations use: tables with their columns, constraints, indexes,
  row-security flags and policies, and the effect of one statement on them. A statement that
  PostgreSQL refuses raises \<open>ProgrammingError\<close>; a rename moves everything that belongs to the table.
\<close>

section \<open>Tables\<close>

datatype sql_type = Uuid | Text | Varchar nat | Integer | Float | Boolean | Timestamptz | Jsonb

record sql_column =
  cl_name :: string
  cl_type :: sql_type
  cl_nullable :: bool
  cl_default :: "string option"

datatype sql_check = One_of string "string list" | Between string int int

record foreign_key =
  fk_name :: string
  fk_column :: string
  fk_target :: string
  fk_target_column :: string
  fk_cascade :: bool

record sql_index =
  ix_name :: string
  ix_columns :: "string list"
  ix_unique :: bool
  ix_where :: "string option"

text \<open>Partitions have bounds at the first of a month, written as year and month; \<open>None\<close> is the default partition.\<close>

type_synonym month = "int \<times> int"

definition month_le :: "month \<Rightarrow> month \<Rightarrow> bool" where
  "month_le a b \<longleftrightarrow> fst a < fst b \<or> fst a = fst b \<and> snd a \<le> snd b"

text \<open>Policies are permissive unless declared otherwise; none here is.\<close>

datatype policy_using = Always | Role_in "string list" | Own_tenant | Own_operation

record policy =
  po_name :: string
  po_select_only :: bool
  po_using :: policy_using

record tbl =
  tb_columns :: "sql_column list"
  tb_key :: "string list"
  tb_checks :: "(string \<times> sql_check) list"
  tb_uniques :: "(string \<times> string list) list"
  tb_fks :: "foreign_key list"
  tb_indexes :: "sql_index list"
  tb_rls :: bool
  tb_force :: bool
  tb_policies :: "policy list"
  tb_partition_by :: "string option"
  tb_partitions :: "(month \<times> month) option list"

type_synonym schema = "(string \<times> tbl) list"

definition cl :: "string \<Rightarrow> sql_type \<Rightarrow> string option \<Rightarrow> sql_column" where
  "cl n t d = \<lparr>cl_name = n, cl_type = t, cl_nullable = False, cl_default = d\<rparr>"

definition cl_null :: "string \<Rightarrow> sql_type \<Rightarrow> sql_column" where
  "cl_null n t = \<lparr>cl_name = n, cl_type = t, cl_nullable = True, cl_default = None\<rparr>"

definition fk :: "string \<Rightarrow> string \<Rightarrow> string \<Rightarrow> string \<Rightarrow> foreign_key" where
  "fk n c t tc = \<lparr>fk_name = n, fk_column = c, fk_target = t, fk_target_column = tc, fk_cascade = True\<rparr>"

definition ix :: "string \<Rightarrow> string list \<Rightarrow> sql_index" where
  "ix n cs = \<lparr>ix_name = n, ix_columns = cs, ix_unique = False, ix_where = None\<rparr>"

definition new_table :: "sql_column list \<Rightarrow> string list \<Rightarrow> tbl" where
  "new_table cs k = \<lparr>tb_columns = cs, tb_key = k, tb_checks = [], tb_uniques = [], tb_fks = [], tb_indexes = [], tb_rls = False,
     tb_force = False, tb_policies = [], tb_partition_by = None, tb_partitions = []\<rparr>"

definition has_column :: "tbl \<Rightarrow> string \<Rightarrow> bool" where
  "has_column t c \<longleftrightarrow> c \<in> cl_name ` set (tb_columns t)"

section \<open>Statements\<close>

datatype ddl =
    Create_table string tbl
  | Create_like string string string
  | Add_primary_key string "string list"
  | Add_check string string sql_check
  | Create_partition string "(month \<times> month) option"
  | Drop_constraint_if_exists string string
  | Drop_constraint string string
  | Rename_table string string
  | Drop_table string
  | Drop_table_if_exists string
  | Add_column string sql_column
  | Drop_column string string
  | Set_not_null string string
  | Add_unique string string "string list"
  | Add_foreign_key string foreign_key
  | Create_index string sql_index
  | Drop_index string
  | Enable_rls string
  | Force_rls string
  | Disable_rls string
  | Create_policy string policy
  | Drop_policy_if_exists string string
  | Data string

definition sql_error :: exn where
  "sql_error = PyExc ''ProgrammingError''"

definition on_table :: "string \<Rightarrow> (tbl \<Rightarrow> tbl result) \<Rightarrow> schema \<Rightarrow> schema result" where
  "on_table n f s = (case map_of s n of
     None \<Rightarrow> Inl sql_error
   | Some t \<Rightarrow> rbind (f t) (\<lambda>t'. Inr (map (\<lambda>(k, u). (k, if k = n then t' else u)) s)))"

definition given_if :: "bool \<Rightarrow> 'a \<Rightarrow> 'a result" where
  "given_if b x = (if b then Inr x else Inl sql_error)"

text \<open>
  Tables, indexes and unique constraints share one name space; the name of a partition is determined
  by its bounds and none of the others has its form.
\<close>

definition relation_names :: "schema \<Rightarrow> string list" where
  "relation_names s = map fst s @ concat (map (\<lambda>(n, t). map ix_name (tb_indexes t) @ map fst (tb_uniques t)) s)"

definition constraint_names :: "tbl \<Rightarrow> string list" where
  "constraint_names t = map fst (tb_checks t) @ map fst (tb_uniques t) @ map fk_name (tb_fks t)"

definition check_column :: "sql_check \<Rightarrow> string" where
  "check_column c = (case c of One_of n vs \<Rightarrow> n | Between n a b \<Rightarrow> n)"

text \<open>A foreign key needs a unique target; a table that one refers to is not dropped.\<close>

definition unique_column :: "tbl \<Rightarrow> string \<Rightarrow> bool" where
  "unique_column t c \<longleftrightarrow> tb_key t = [c] \<or> [c] \<in> snd ` set (tb_uniques t)"

definition fk_ok :: "schema \<Rightarrow> tbl \<Rightarrow> foreign_key \<Rightarrow> bool" where
  "fk_ok s t f \<longleftrightarrow> has_column t (fk_column f) \<and> (case map_of s (fk_target f) of None \<Rightarrow> False | Some u \<Rightarrow> unique_column u (fk_target_column f))"

definition referenced :: "schema \<Rightarrow> string \<Rightarrow> bool" where
  "referenced s n \<longleftrightarrow> list_ex (\<lambda>(k, t). k \<noteq> n \<and> (n \<in> fk_target ` set (tb_fks t)
     \<or> n = ''operations'' \<and> Own_operation \<in> po_using ` set (tb_policies t))) s"

text \<open>A column that a policy reads is not dropped; indexes and constraints on a column go with it.\<close>

definition policy_reads :: "schema \<Rightarrow> string \<Rightarrow> string \<Rightarrow> bool" where
  "policy_reads s n c \<longleftrightarrow> c = ''tenant_id'' \<and> list_ex (\<lambda>(k, t).
     k = n \<and> Own_tenant \<in> po_using ` set (tb_policies t) \<or> n = ''operations'' \<and> Own_operation \<in> po_using ` set (tb_policies t)) s"

definition without_column :: "string \<Rightarrow> tbl \<Rightarrow> tbl" where
  "without_column c t = t\<lparr>tb_columns := filter (\<lambda>x. cl_name x \<noteq> c) (tb_columns t),
     tb_checks := filter (\<lambda>(n, x). check_column x \<noteq> c) (tb_checks t), tb_uniques := filter (\<lambda>(n, cs). c \<notin> set cs) (tb_uniques t),
     tb_fks := filter (\<lambda>f. fk_column f \<noteq> c) (tb_fks t), tb_indexes := filter (\<lambda>x. c \<notin> set (ix_columns x)) (tb_indexes t)\<rparr>"

definition without_constraint :: "string \<Rightarrow> tbl \<Rightarrow> tbl" where
  "without_constraint n t = t\<lparr>tb_checks := filter (\<lambda>(k, x). k \<noteq> n) (tb_checks t),
     tb_uniques := filter (\<lambda>(k, x). k \<noteq> n) (tb_uniques t), tb_fks := filter (\<lambda>f. fk_name f \<noteq> n) (tb_fks t)\<rparr>"

definition rename_targets :: "string \<Rightarrow> string \<Rightarrow> tbl \<Rightarrow> tbl" where
  "rename_targets a b t = t\<lparr>tb_fks := map (\<lambda>f. if fk_target f = a then f\<lparr>fk_target := b\<rparr> else f) (tb_fks t)\<rparr>"

definition range_free :: "tbl \<Rightarrow> (month \<times> month) option \<Rightarrow> bool" where
  "range_free t r \<longleftrightarrow> (case r of
     None \<Rightarrow> None \<notin> set (tb_partitions t)
   | Some (a, b) \<Rightarrow> \<not> month_le b a
       \<and> list_all (\<lambda>q. case q of None \<Rightarrow> True | Some (c, d) \<Rightarrow> month_le b c \<or> month_le d a) (tb_partitions t))"

fun exec_ddl :: "ddl \<Rightarrow> schema \<Rightarrow> schema result" where
  "exec_ddl (Create_table n t) s =
     given_if (n \<notin> set (relation_names s) \<and> distinct (map cl_name (tb_columns t)) \<and> list_all (\<lambda>f. fk_ok s t f) (tb_fks t)
       \<and> list_all (\<lambda>k. k \<notin> set (relation_names s)) (map ix_name (tb_indexes t) @ map fst (tb_uniques t))) (s @ [(n, t)])"
| "exec_ddl (Create_like n m p) s =
     (case map_of s m of
        None \<Rightarrow> Inl sql_error
      | Some t \<Rightarrow> given_if (n \<notin> set (relation_names s) \<and> has_column t p)
          (s @ [(n, (new_table (tb_columns t) [])\<lparr>tb_partition_by := Some p\<rparr>)]))"
| "exec_ddl (Add_primary_key n cs) s =
     on_table n (\<lambda>t. given_if (tb_key t = [] \<and> list_all (has_column t) cs
       \<and> (case tb_partition_by t of None \<Rightarrow> True | Some p \<Rightarrow> p \<in> set cs)) (t\<lparr>tb_key := cs\<rparr>)) s"
| "exec_ddl (Add_check n k c) s =
     on_table n (\<lambda>t. given_if (k \<notin> set (constraint_names t) \<and> has_column t (check_column c)) (t\<lparr>tb_checks := tb_checks t @ [(k, c)]\<rparr>)) s"
| "exec_ddl (Create_partition n r) s =
     on_table n (\<lambda>t. given_if (tb_partition_by t \<noteq> None \<and> range_free t r) (t\<lparr>tb_partitions := tb_partitions t @ [r]\<rparr>)) s"
| "exec_ddl (Drop_constraint_if_exists n k) s = on_table n (\<lambda>t. Inr (without_constraint k t)) s"
| "exec_ddl (Drop_constraint n k) s = on_table n (\<lambda>t. given_if (k \<in> set (constraint_names t)) (without_constraint k t)) s"
| "exec_ddl (Rename_table n m) s =
     given_if (n \<in> fst ` set s \<and> m \<notin> set (relation_names s)) (map (\<lambda>(k, t). (if k = n then m else k, rename_targets n m t)) s)"
| "exec_ddl (Drop_table n) s = given_if (n \<in> fst ` set s \<and> \<not> referenced s n) (filter (\<lambda>(k, t). k \<noteq> n) s)"
| "exec_ddl (Drop_table_if_exists n) s = given_if (\<not> referenced s n) (filter (\<lambda>(k, t). k \<noteq> n) s)"
| "exec_ddl (Add_column n c) s = on_table n (\<lambda>t. given_if (\<not> has_column t (cl_name c)) (t\<lparr>tb_columns := tb_columns t @ [c]\<rparr>)) s"
| "exec_ddl (Drop_column n c) s = on_table n (\<lambda>t. given_if (has_column t c \<and> \<not> policy_reads s n c) (without_column c t)) s"
| "exec_ddl (Set_not_null n c) s =
     on_table n (\<lambda>t. given_if (has_column t c)
       (t\<lparr>tb_columns := map (\<lambda>x. if cl_name x = c then x\<lparr>cl_nullable := False\<rparr> else x) (tb_columns t)\<rparr>)) s"
| "exec_ddl (Add_unique n k cs) s =
     on_table n (\<lambda>t. given_if (k \<notin> set (relation_names s) \<and> k \<notin> set (constraint_names t) \<and> list_all (has_column t) cs)
       (t\<lparr>tb_uniques := tb_uniques t @ [(k, cs)]\<rparr>)) s"
| "exec_ddl (Add_foreign_key n f) s =
     on_table n (\<lambda>t. given_if (fk_name f \<notin> set (constraint_names t) \<and> fk_ok s t f) (t\<lparr>tb_fks := tb_fks t @ [f]\<rparr>)) s"
| "exec_ddl (Create_index n x) s =
     on_table n (\<lambda>t. given_if (ix_name x \<notin> set (relation_names s)) (t\<lparr>tb_indexes := tb_indexes t @ [x]\<rparr>)) s"
| "exec_ddl (Drop_index k) s =
     given_if (list_ex (\<lambda>(n, t). k \<in> ix_name ` set (tb_indexes t)) s)
       (map (\<lambda>(n, t). (n, t\<lparr>tb_indexes := filter (\<lambda>x. ix_name x \<noteq> k) (tb_indexes t)\<rparr>)) s)"
| "exec_ddl (Enable_rls n) s = on_table n (\<lambda>t. Inr (t\<lparr>tb_rls := True\<rparr>)) s"
| "exec_ddl (Force_rls n) s = on_table n (\<lambda>t. Inr (t\<lparr>tb_force := True\<rparr>)) s"
| "exec_ddl (Disable_rls n) s = on_table n (\<lambda>t. Inr (t\<lparr>tb_rls := False\<rparr>)) s"
| "exec_ddl (Create_policy n p) s =
     on_table n (\<lambda>t. given_if (po_name p \<notin> po_name ` set (tb_policies t)) (t\<lparr>tb_policies := tb_policies t @ [p]\<rparr>)) s"
| "exec_ddl (Drop_policy_if_exists n k) s =
     on_table n (\<lambda>t. Inr (t\<lparr>tb_policies := filter (\<lambda>p. po_name p \<noteq> k) (tb_policies t)\<rparr>)) s"
| "exec_ddl (Data stmt) s = Inr s"

fun exec_all :: "ddl list \<Rightarrow> schema \<Rightarrow> schema result" where
  "exec_all [] s = Inr s"
| "exec_all (x # xs) s = rbind (exec_ddl x s) (exec_all xs)"

lemma exec_all_append: "exec_all (xs @ ys) s = rbind (exec_all xs s) (exec_all ys)"
proof (induction xs arbitrary: s)
  case (Cons x xs)
  then show ?case by (cases "exec_ddl x s") simp_all
qed simp

section \<open>Every statement keeps the schema consistent\<close>

text \<open>Table names and the columns of a table are unique, and no foreign key points to a missing table.\<close>

definition tbl_ok :: "string set \<Rightarrow> tbl \<Rightarrow> bool" where
  "tbl_ok names t \<longleftrightarrow> distinct (map cl_name (tb_columns t)) \<and> fk_target ` set (tb_fks t) \<subseteq> names"

definition schema_ok :: "schema \<Rightarrow> bool" where
  "schema_ok s \<longleftrightarrow> distinct (map fst s) \<and> (\<forall>(n, t) \<in> set s. tbl_ok (fst ` set s) t)"

lemma schema_okD: "schema_ok s \<Longrightarrow> (k, t) \<in> set s \<Longrightarrow> tbl_ok (fst ` set s) t"
  by (auto simp: schema_ok_def)

lemma schema_okI: "distinct (map fst s) \<Longrightarrow> (\<And>k t. (k, t) \<in> set s \<Longrightarrow> tbl_ok (fst ` set s) t) \<Longrightarrow> schema_ok s"
  by (auto simp: schema_ok_def)

lemma tbl_ok_target: "tbl_ok A t \<Longrightarrow> f \<in> set (tb_fks t) \<Longrightarrow> fk_target f \<in> A"
  by (auto simp: tbl_ok_def)

lemma given_if_iff [simp]: "given_if b x = Inr y \<longleftrightarrow> b \<and> y = x"
  by (auto simp: given_if_def)

lemma on_tableE:
  assumes "on_table n f s = Inr s'"
  obtains t t' where "map_of s n = Some t" and "f t = Inr t'" and "s' = map (\<lambda>(k, u). (k, if k = n then t' else u)) s"
  using assms by (auto simp: on_table_def rbind_Inr_iff split: option.splits)

lemma on_table_ok:
  assumes "on_table n f s = Inr s'" and "schema_ok s"
    and "\<And>t t'. map_of s n = Some t \<Longrightarrow> tbl_ok (fst ` set s) t \<Longrightarrow> f t = Inr t' \<Longrightarrow> tbl_ok (fst ` set s) t'"
  shows "schema_ok s'"
proof -
  from assms(1) obtain t t' where t: "map_of s n = Some t" "f t = Inr t'" "s' = map (\<lambda>(k, u). (k, if k = n then t' else u)) s"
    by (rule on_tableE)
  have names: "map fst s' = map fst s" using t(3) by auto
  then have set_names: "fst ` set s' = fst ` set s" by (metis list.set_map)
  have "tbl_ok (fst ` set s) t" using assms(2) map_of_SomeD [OF t(1)] by (auto simp: schema_ok_def)
  from assms(3) [OF t(1) this t(2)] assms(2) show ?thesis
    unfolding schema_ok_def set_names names by (auto simp: t(3))
qed

lemma tbl_ok_mono: "tbl_ok A t \<Longrightarrow> A \<subseteq> B \<Longrightarrow> tbl_ok B t"
  by (auto simp: tbl_ok_def)

lemma relation_names_tables: "fst ` set s \<subseteq> set (relation_names s)"
  by (auto simp: relation_names_def)

lemma map_filter_distinct: "distinct (map f xs) \<Longrightarrow> distinct (map f (filter p xs))"
  by (rule distinct_map_filterI)

lemma without_column_ok: "tbl_ok A t \<Longrightarrow> tbl_ok A (without_column c t)"
  by (auto simp: tbl_ok_def without_column_def map_filter_distinct)

lemma without_constraint_ok: "tbl_ok A t \<Longrightarrow> tbl_ok A (without_constraint c t)"
  by (auto simp: tbl_ok_def without_constraint_def)

lemma fk_ok_target: "fk_ok s t f \<Longrightarrow> fk_target f \<in> fst ` set s"
  by (auto simp: fk_ok_def image_iff split: option.splits dest!: map_of_SomeD intro!: bexI)

lemma rename_ok:
  assumes ok: "schema_ok s" and m: "m \<notin> fst ` set s"
  shows "schema_ok (map (\<lambda>(k, t). (if k = n then m else k, rename_targets n m t)) s)" (is "schema_ok ?s")
proof -
  let ?r = "\<lambda>k. if k = n then m else k"
  have names: "map fst ?s = map ?r (map fst s)" by auto
  have inj: "inj_on ?r (fst ` set s)" using m by (auto simp: inj_on_def)
  have "distinct (map ?r (map fst s))" using ok inj by (simp only: distinct_map set_map schema_ok_def)
  then have d: "distinct (map fst ?s)" unfolding names .
  have set_names: "fst ` set ?s = ?r ` fst ` set s" by (metis list.set_map names)
  have "tbl_ok (fst ` set ?s) (rename_targets n m t)" if "(k, t) \<in> set s" for k t
  proof -
    have "tbl_ok (fst ` set s) t" using ok that by (auto simp: schema_ok_def)
    then show ?thesis unfolding set_names by (force simp: tbl_ok_def rename_targets_def)
  qed
  then show ?thesis by (intro schema_okI [OF d]) auto
qed

lemma drop_table_ok:
  assumes ok: "schema_ok s" and free: "\<not> referenced s n"
  shows "schema_ok (filter (\<lambda>(k, t). k \<noteq> n) s)"
proof -
  let ?s = "filter (\<lambda>(k, t). k \<noteq> n) s"
  have "fk_target f \<in> fst ` set ?s" if k: "(k, t) \<in> set s" "k \<noteq> n" and f: "f \<in> set (tb_fks t)" for k t f
  proof -
    have "fk_target f \<in> fst ` set s" by (rule tbl_ok_target [OF schema_okD [OF ok k(1)] f])
    moreover have "fk_target f \<noteq> n" using free k f by (auto simp: referenced_def list_ex_iff)
    ultimately show ?thesis by (auto simp: image_iff)
  qed
  then have "tbl_ok (fst ` set ?s) t" if "(k, t) \<in> set s" "k \<noteq> n" for k t
    using that ok by (auto simp: schema_ok_def tbl_ok_def)
  moreover have "distinct (map fst ?s)" using ok by (simp add: schema_ok_def map_filter_distinct)
  ultimately show ?thesis by (auto simp: schema_ok_def)
qed

lemma add_table_ok:
  assumes "schema_ok s" and "n \<notin> fst ` set s" and "tbl_ok (fst ` set s) t"
  shows "schema_ok (s @ [(n, t)])"
  using assms by (auto simp: schema_ok_def elim!: tbl_ok_mono intro: tbl_ok_mono)

lemma drop_index_ok:
  assumes "schema_ok s" shows "schema_ok (map (\<lambda>(n, t). (n, t\<lparr>tb_indexes := f t\<rparr>)) s)" (is "schema_ok ?s")
proof (rule schema_okI)
  have n: "map fst ?s = map fst s" by auto
  then have names: "fst ` set ?s = fst ` set s" by (metis list.set_map)
  show "distinct (map fst ?s)" using assms unfolding n by (simp add: schema_ok_def)
  fix k t assume "(k, t) \<in> set ?s"
  then obtain u where "(k, u) \<in> set s" "t = u\<lparr>tb_indexes := f u\<rparr>" by auto
  with schema_okD [OF assms] show "tbl_ok (fst ` set ?s) t" unfolding names by (simp add: tbl_ok_def)
qed

lemma exec_ddl_ok: "exec_ddl x s = Inr s' \<Longrightarrow> schema_ok s \<Longrightarrow> schema_ok s'"
proof (cases x)
  case (Create_table n t)
  assume a: "exec_ddl x s = Inr s'" and ok: "schema_ok s"
  then have "n \<notin> fst ` set s" "tbl_ok (fst ` set s) t" "s' = s @ [(n, t)]"
    using relation_names_tables [of s] Create_table by (auto simp: tbl_ok_def list_all_iff fk_ok_target)
  with ok show ?thesis by (simp add: add_table_ok)
next
  case (Create_like n m p)
  assume a: "exec_ddl x s = Inr s'" and ok: "schema_ok s"
  then obtain t where t: "map_of s m = Some t" "n \<notin> set (relation_names s)"
      "s' = s @ [(n, (new_table (tb_columns t) [])\<lparr>tb_partition_by := Some p\<rparr>)]"
    using Create_like by (auto split: option.splits)
  have "tbl_ok (fst ` set s) t" using ok map_of_SomeD [OF t(1)] by (auto simp: schema_ok_def)
  then have "tbl_ok (fst ` set s) ((new_table (tb_columns t) [])\<lparr>tb_partition_by := Some p\<rparr>)" by (simp add: tbl_ok_def new_table_def)
  with ok t relation_names_tables [of s] show ?thesis by (auto intro!: add_table_ok)
next
  case (Rename_table n m)
  assume "exec_ddl x s = Inr s'" and "schema_ok s"
  with Rename_table relation_names_tables [of s] show ?thesis by (auto intro!: rename_ok)
next
  case (Drop_table n)
  assume "exec_ddl x s = Inr s'" and "schema_ok s"
  with Drop_table show ?thesis by (auto intro!: drop_table_ok)
next
  case (Drop_table_if_exists n)
  assume "exec_ddl x s = Inr s'" and "schema_ok s"
  with Drop_table_if_exists show ?thesis by (auto intro!: drop_table_ok)
next
  case (Drop_index k)
  assume "exec_ddl x s = Inr s'" and "schema_ok s"
  with Drop_index show ?thesis by (auto intro!: drop_index_ok)
next
  case (Drop_column n c)
  assume "exec_ddl x s = Inr s'" and "schema_ok s"
  with Drop_column show ?thesis by (auto elim!: on_table_ok intro: without_column_ok)
next
  case (Drop_constraint n c)
  assume "exec_ddl x s = Inr s'" and "schema_ok s"
  with Drop_constraint show ?thesis by (auto elim!: on_table_ok intro: without_constraint_ok)
next
  case (Drop_constraint_if_exists n c)
  assume "exec_ddl x s = Inr s'" and "schema_ok s"
  with Drop_constraint_if_exists show ?thesis by (auto elim!: on_table_ok intro: without_constraint_ok)
next
  case (Set_not_null n c)
  assume "exec_ddl x s = Inr s'" and "schema_ok s"
  with Set_not_null show ?thesis by (auto elim!: on_table_ok simp: tbl_ok_def comp_def if_distrib cong: if_cong)
next
  case (Add_foreign_key n f)
  assume "exec_ddl x s = Inr s'" and "schema_ok s"
  with Add_foreign_key show ?thesis by (auto elim!: on_table_ok simp: tbl_ok_def fk_ok_target)
qed (auto elim!: on_table_ok simp: tbl_ok_def has_column_def)

lemma exec_all_ok: "exec_all xs s = Inr s' \<Longrightarrow> schema_ok s \<Longrightarrow> schema_ok s'"
  by (induction xs arbitrary: s) (auto simp: rbind_Inr_iff dest: exec_ddl_ok)

end
