(* ===== verification/Migrations.thy ===== *)
theory Migrations
  imports Schema_Sql
begin

text \<open>
  The thirteen migrations (\<open>db/migrations/versions\<close>) as lists of statements, run in the order of their
  revisions on an empty database, and the schema that the models declare (\<open>db/models\<close>). The two are
  compared; each downgrade is run on what its upgrade left; the statements that change rows (removal
  of duplicate findings, backfill of the tenant) are modelled on the rows.
\<close>

section \<open>Shared columns\<close>

definition id_column :: sql_column where
  "id_column = cl ''id'' Uuid (Some ''gen_random_uuid()'')"

definition created_column :: sql_column where
  "created_column = cl ''created_at'' Timestamptz (Some ''now()'')"

definition open_policy :: policy where
  "open_policy = \<lparr>po_name = ''tenant_isolation'', po_select_only = False, po_using = Always\<rparr>"

definition role_policy :: "string \<Rightarrow> policy" where
  "role_policy n = \<lparr>po_name = n, po_select_only = True, po_using = Role_in [''viewer'', ''reviewer'', ''admin'', ''policy_editor'']\<rparr>"

definition secured :: "string \<Rightarrow> ddl list" where
  "secured n = [Enable_rls n, Force_rls n, Create_policy n open_policy]"

definition actor_types :: "string list" where
  "actor_types = [''human'', ''mcp_agent'', ''pipeline'']"

definition operation_states :: "string list" where
  "operation_states = [''pending'', ''completed'', ''escalated'', ''approved'', ''rejected'']"

section \<open>0001: the initial schema\<close>

definition operations_0001 :: tbl where
  "operations_0001 = (new_table
     [id_column, cl ''trace_id'' Uuid None, cl ''actor_id'' Uuid None, cl ''actor_type'' (Varchar 20) None, cl ''document_id'' Uuid None,
      cl ''artifact_digest'' Text None, cl ''policy_version'' (Varchar 50) None, cl ''status'' (Varchar 20) (Some ''pending''),
      created_column, cl_null ''completed_at'' Timestamptz] [''id''])
     \<lparr>tb_checks := [(''ck_operations_actor_type'', One_of ''actor_type'' actor_types), (''ck_operations_status'', One_of ''status'' operation_states)]\<rparr>"

definition findings_0001 :: tbl where
  "findings_0001 = (new_table
     [id_column, cl ''operation_id'' Uuid None, cl ''detector'' Text None, cl ''rule_id'' Text None, cl ''span_start'' Integer None,
      cl ''span_end'' Integer None, cl ''confidence'' Float None, cl ''severity'' (Varchar 20) None, cl ''explanation'' Jsonb None] [''id''])
     \<lparr>tb_checks := [(''ck_findings_severity'', One_of ''severity'' severities), (''ck_findings_confidence_range'', Between ''confidence'' 0 1)],
      tb_fks := [fk ''findings_operation_id_fkey'' ''operation_id'' ''operations'' ''id'']\<rparr>"

definition redactions_0001 :: tbl where
  "redactions_0001 = (new_table
     [id_column, cl ''finding_id'' Uuid None, cl ''operation_id'' Uuid None, cl ''redaction_type'' (Varchar 20) None,
      cl ''policy_version'' (Varchar 50) None, cl ''applied_at'' Timestamptz (Some ''now()''), cl_null ''approved_by'' Uuid,
      cl_null ''approval_trace_id'' Uuid] [''id''])
     \<lparr>tb_checks := [(''ck_redactions_type'', One_of ''redaction_type'' redaction_types)],
      tb_fks := [fk ''redactions_finding_id_fkey'' ''finding_id'' ''findings'' ''id'', fk ''redactions_operation_id_fkey'' ''operation_id'' ''operations'' ''id'']\<rparr>"

definition artifacts_0001 :: tbl where
  "artifacts_0001 = (new_table
     [id_column, cl ''operation_id'' Uuid None, cl ''artifact_type'' (Varchar 20) None, cl ''minio_key'' Text None, cl ''digest'' Text None,
      cl ''worm_locked'' Boolean (Some ''false''), created_column] [''id''])
     \<lparr>tb_checks := [(''ck_artifacts_type'', One_of ''artifact_type'' artifact_types)],
      tb_fks := [fk ''artifacts_operation_id_fkey'' ''operation_id'' ''operations'' ''id'']\<rparr>"

definition outbox_0001 :: tbl where
  "outbox_0001 = new_table
     [id_column, cl ''event_type'' Text None, cl ''payload'' Jsonb None, cl ''processed'' Boolean (Some ''false''), created_column] [''id'']"

definition indexes_0001 :: "ddl list" where
  "indexes_0001 =
     [Create_index ''operations'' (ix ''idx_operations_trace_id'' [''trace_id'']), Create_index ''operations'' (ix ''idx_operations_actor_id'' [''actor_id'']),
      Create_index ''findings'' (ix ''idx_findings_operation_id'' [''operation_id'']), Create_index ''artifacts'' (ix ''idx_artifacts_operation_id'' [''operation_id'']),
      Create_index ''outbox'' ((ix ''idx_outbox_processed'' [''processed''])\<lparr>ix_where := Some ''processed = false''\<rparr>)]"

definition upgrade_0001 :: "ddl list" where
  "upgrade_0001 =
     Create_table ''operations'' operations_0001 # secured ''operations'' @ [Create_policy ''operations'' (role_policy ''viewer_readonly'')]
     @ Create_table ''findings'' findings_0001 # secured ''findings'' @ Create_table ''redactions'' redactions_0001 # secured ''redactions''
     @ Create_table ''artifacts'' artifacts_0001 # secured ''artifacts'' @ Create_table ''outbox'' outbox_0001 # secured ''outbox''
     @ indexes_0001"

definition downgrade_0001 :: "ddl list" where
  "downgrade_0001 = map Drop_table [''outbox'', ''artifacts'', ''redactions'', ''findings'', ''operations'']"

section \<open>0002 to 0004\<close>

definition upgrade_0002 :: "ddl list" where
  "upgrade_0002 = [Add_column ''redactions'' (cl_null ''approved_by_agent_id'' Uuid), Data ''COMMENT ON COLUMN redactions.approved_by_agent_id'']"

definition downgrade_0002 :: "ddl list" where
  "downgrade_0002 = [Drop_column ''redactions'' ''approved_by_agent_id'']"

definition upgrade_0003 :: "ddl list" where
  "upgrade_0003 = [Create_index ''outbox'' (ix ''idx_outbox_payload_operation_id'' [''payload->>operation_id''])]"

definition downgrade_0003 :: "ddl list" where
  "downgrade_0003 = [Drop_index ''idx_outbox_payload_operation_id'']"

definition upgrade_0004 :: "ddl list" where
  "upgrade_0004 = [Add_column ''operations'' (cl_null ''sanitized_text'' Text),
     Create_index ''operations'' (ix ''idx_operations_artifact_digest'' [''artifact_digest''])]"

definition downgrade_0004 :: "ddl list" where
  "downgrade_0004 = [Drop_index ''idx_operations_artifact_digest'', Drop_column ''operations'' ''sanitized_text'']"

section \<open>0005: partitions\<close>

definition months :: "(month \<times> month) list" where
  "months =
    [((2025, 1), (2025, 2)), ((2025, 2), (2025, 3)), ((2025, 3), (2025, 4)), ((2025, 4), (2025, 5)),
     ((2025, 5), (2025, 6)), ((2025, 6), (2025, 7)), ((2025, 7), (2025, 8)), ((2025, 8), (2025, 9)),
     ((2025, 9), (2025, 10)), ((2025, 10), (2025, 11)), ((2025, 11), (2025, 12)), ((2025, 12), (2026, 1)),
     ((2026, 1), (2026, 2)), ((2026, 2), (2026, 3)), ((2026, 3), (2026, 4)), ((2026, 4), (2026, 5)),
     ((2026, 5), (2026, 6)), ((2026, 6), (2026, 7)), ((2026, 7), (2026, 8)), ((2026, 8), (2026, 9)),
     ((2026, 9), (2026, 10)), ((2026, 10), (2026, 11)), ((2026, 11), (2026, 12)), ((2026, 12), (2027, 1))]"

definition upgrade_0005 :: "ddl list" where
  "upgrade_0005 =
     [Create_like ''operations_partitioned'' ''operations'' ''created_at'', Add_primary_key ''operations_partitioned'' [''id'', ''created_at''],
      Add_check ''operations_partitioned'' ''ck_operations_part_actor_type'' (One_of ''actor_type'' actor_types),
      Add_check ''operations_partitioned'' ''ck_operations_part_status'' (One_of ''status'' operation_states)]
     @ map (\<lambda>r. Create_partition ''operations_partitioned'' (Some r)) months
     @ [Create_partition ''operations_partitioned'' None,
        Data ''INSERT INTO operations_partitioned SELECT * FROM operations'',
        Drop_constraint_if_exists ''findings'' ''findings_operation_id_fkey'',
        Drop_constraint_if_exists ''redactions'' ''redactions_operation_id_fkey'',
        Drop_constraint_if_exists ''artifacts'' ''artifacts_operation_id_fkey'',
        Rename_table ''operations'' ''operations_old'', Rename_table ''operations_partitioned'' ''operations'']
     @ secured ''operations'' @ [Create_policy ''operations'' (role_policy ''viewer_readonly''), Drop_table ''operations_old'']"

text \<open>The downgrade raises \<open>NotImplementedError\<close>.\<close>

definition downgrade_0005 :: "ddl list option" where
  "downgrade_0005 = None"

section \<open>0006 to 0008\<close>

definition waivers_0006 :: tbl where
  "waivers_0006 = (new_table
     [id_column, cl ''rule_id'' (Varchar 128) None, cl ''entity_pattern'' Text None, cl ''justification'' Text None, cl ''approved_by'' Uuid None,
      cl ''status'' (Varchar 32) (Some ''active''), cl_null ''expires_at'' Timestamptz, created_column, cl ''metadata'' Jsonb (Some ''{}'')] [''id''])
     \<lparr>tb_checks := [(''waivers_status_check'', One_of ''status'' [''active'', ''expired'', ''revoked''])]\<rparr>"

definition upgrade_0006 :: "ddl list" where
  "upgrade_0006 =
     [Create_table ''waivers'' waivers_0006, Create_index ''waivers'' (ix ''ix_waivers_rule_id'' [''rule_id'']),
      Create_index ''waivers'' (ix ''ix_waivers_status'' [''status'']),
      Create_index ''waivers'' ((ix ''ix_waivers_expires_at'' [''expires_at''])\<lparr>ix_where := Some ''expires_at IS NOT NULL''\<rparr>)]
     @ secured ''waivers'' @ [Create_policy ''waivers'' (role_policy ''waiver_readonly'')]"

definition downgrade_0006 :: "ddl list" where
  "downgrade_0006 = [Drop_table_if_exists ''waivers'']"

definition upgrade_0007 :: "ddl list" where
  "upgrade_0007 = [Data ''DELETE FROM findings f1 USING findings f2'',
     Add_unique ''findings'' ''uq_finding_operation_rule_span'' [''operation_id'', ''rule_id'', ''span_start'', ''span_end'']]"

definition downgrade_0007 :: "ddl list" where
  "downgrade_0007 = [Drop_constraint ''findings'' ''uq_finding_operation_rule_span'']"

definition tenants_0008 :: tbl where
  "tenants_0008 = (new_table
     [cl ''id'' Uuid None, cl ''name'' (Varchar 255) None, cl ''slug'' (Varchar 63) None, cl ''plan'' (Varchar 20) (Some ''free''),
      cl ''is_active'' Boolean (Some ''true''), cl_null ''max_scans_per_day'' Integer, cl_null ''max_document_size'' Integer,
      cl_null ''max_storage_mb'' Integer, cl_null ''rate_limit_rpm'' Integer, cl_null ''contact_email'' Text, created_column,
      cl ''updated_at'' Timestamptz (Some ''now()'')] [''id''])
     \<lparr>tb_checks := [(''ck_tenants_plan'', One_of ''plan'' [''free'', ''starter'', ''enterprise''])], tb_uniques := [(''tenants_slug_key'', [''slug''])]\<rparr>"

text \<open>The column is nullable until the backfill is done.\<close>

definition tenant_column :: "string \<Rightarrow> string \<Rightarrow> string \<Rightarrow> ddl list" where
  "tenant_column n fkname ixname =
     [Add_column n (cl_null ''tenant_id'' Uuid), Data (''UPDATE '' @ n @ '' SET tenant_id''), Set_not_null n ''tenant_id'',
      Add_foreign_key n (fk fkname ''tenant_id'' ''tenants'' ''id''), Create_index n (ix ixname [''tenant_id''])]"

definition upgrade_0008 :: "ddl list" where
  "upgrade_0008 =
     [Create_table ''tenants'' tenants_0008, Create_index ''tenants'' ((ix ''ix_tenants_slug'' [''slug''])\<lparr>ix_unique := True\<rparr>), Data ''INSERT INTO tenants'']
     @ tenant_column ''operations'' ''fk_operations_tenant_id'' ''ix_operations_tenant_id''
     @ tenant_column ''waivers'' ''fk_waivers_tenant_id'' ''ix_waivers_tenant_id''"

definition downgrade_0008 :: "ddl list" where
  "downgrade_0008 =
     [Drop_index ''ix_waivers_tenant_id'', Drop_constraint ''waivers'' ''fk_waivers_tenant_id'', Drop_column ''waivers'' ''tenant_id'',
      Drop_index ''ix_operations_tenant_id'', Drop_constraint ''operations'' ''fk_operations_tenant_id'', Drop_column ''operations'' ''tenant_id'',
      Drop_index ''ix_tenants_slug'', Drop_table ''tenants'']"

section \<open>0009: row-level security\<close>

definition tenant_tables :: "string list" where
  "tenant_tables = [''operations'', ''waivers'']"

definition child_tables :: "string list" where
  "child_tables = [''findings'', ''redactions'', ''artifacts'']"

definition isolation :: "policy_using \<Rightarrow> string \<Rightarrow> ddl list" where
  "isolation u n = [Enable_rls n, Force_rls n,
     Create_policy n \<lparr>po_name = ''tenant_isolation_'' @ n, po_select_only = False, po_using = u\<rparr>]"

definition upgrade_0009 :: "ddl list" where
  "upgrade_0009 = concat (map (isolation Own_tenant) tenant_tables) @ concat (map (isolation Own_operation) child_tables)
     @ Data ''CREATE ROLE safecontext_app LOGIN''
     # map (\<lambda>n. Data (''GRANT SELECT, INSERT, UPDATE, DELETE ON '' @ n)) (tenant_tables @ child_tables @ [''outbox'', ''tenants''])"

definition downgrade_0009 :: "ddl list" where
  "downgrade_0009 = concat (map (\<lambda>n. [Drop_policy_if_exists n (''tenant_isolation_'' @ n), Disable_rls n]) (child_tables @ tenant_tables))"

section \<open>0010 to 0013\<close>

definition upgrade_0010 :: "ddl list" where
  "upgrade_0010 = [Add_column ''operations'' (cl_null ''chain_hash'' Text), Create_index ''operations'' (ix ''ix_operations_chain_hash'' [''chain_hash''])]"

definition downgrade_0010 :: "ddl list" where
  "downgrade_0010 = [Drop_index ''ix_operations_chain_hash'', Drop_column ''operations'' ''chain_hash'']"

definition upgrade_0011 :: "ddl list" where
  "upgrade_0011 = [Add_column ''tenants'' ((cl_null ''policy_config'' Jsonb)\<lparr>cl_default := Some ''{}''\<rparr>),
     Add_column ''tenants'' ((cl_null ''siem_config'' Jsonb)\<lparr>cl_default := Some ''{}''\<rparr>),
     Add_column ''tenants'' ((cl_null ''retention_days'' Integer)\<lparr>cl_default := Some ''365''\<rparr>)]"

definition downgrade_0011 :: "ddl list" where
  "downgrade_0011 = map (Drop_column ''tenants'') [''retention_days'', ''siem_config'', ''policy_config'']"

definition anchors_0012 :: tbl where
  "anchors_0012 = (new_table
     [id_column, cl ''tenant_id'' Uuid None, cl ''chain_head_hash'' Text None, cl ''operations_count'' Integer (Some ''0''), cl ''signature'' Text None,
      cl_null ''signing_key_version'' Integer, cl_null ''tsa_token'' Text, cl_null ''created_by'' Uuid, created_column] [''id''])
     \<lparr>tb_fks := [fk ''chain_anchors_tenant_id_fkey'' ''tenant_id'' ''tenants'' ''id''],
      tb_indexes := [ix ''ix_chain_anchors_tenant_id'' [''tenant_id'']]\<rparr>"

definition upgrade_0012 :: "ddl list" where
  "upgrade_0012 =
     [Add_column ''operations'' (cl_null ''event_signature'' Text), Add_column ''operations'' (cl_null ''event_signed_at'' Timestamptz),
      Add_column ''operations'' (cl_null ''signing_key_version'' Integer), Create_table ''chain_anchors'' anchors_0012,
      Create_index ''chain_anchors'' (ix ''ix_chain_anchors_tenant_created'' [''tenant_id'', ''created_at''])]"

definition downgrade_0012 :: "ddl list" where
  "downgrade_0012 = Drop_index ''ix_chain_anchors_tenant_created'' # Drop_table ''chain_anchors''
     # map (Drop_column ''operations'') [''signing_key_version'', ''event_signed_at'', ''event_signature'']"

definition signing_keys_0013 :: tbl where
  "signing_keys_0013 = new_table
     [cl ''key_version'' Integer None, cl ''public_key_pem'' Text None, cl_null ''algorithm'' Text, created_column] [''key_version'']"

definition upgrade_0013 :: "ddl list" where
  "upgrade_0013 = [Create_table ''signing_keys'' signing_keys_0013, Add_column ''chain_anchors'' (cl_null ''signing_public_key_pem'' Text)]"

definition downgrade_0013 :: "ddl list" where
  "downgrade_0013 = [Drop_column ''chain_anchors'' ''signing_public_key_pem'', Drop_table ''signing_keys'']"

section \<open>The chain of revisions\<close>

text \<open>A downgrade that is \<open>None\<close> raises \<open>NotImplementedError\<close>.\<close>

record migration =
  mg_revision :: string
  mg_down_revision :: "string option"
  mg_upgrade :: "ddl list"
  mg_downgrade :: "ddl list option"

definition mig :: "string \<Rightarrow> string option \<Rightarrow> ddl list \<Rightarrow> ddl list option \<Rightarrow> migration" where
  "mig r d up down = \<lparr>mg_revision = r, mg_down_revision = d, mg_upgrade = up, mg_downgrade = down\<rparr>"

definition migrations :: "migration list" where
  "migrations =
     [mig ''0001'' None upgrade_0001 (Some downgrade_0001), mig ''0002'' (Some ''0001'') upgrade_0002 (Some downgrade_0002),
      mig ''0003'' (Some ''0002'') upgrade_0003 (Some downgrade_0003), mig ''0004'' (Some ''0003'') upgrade_0004 (Some downgrade_0004),
      mig ''3f8a1c9d2e47'' (Some ''0004'') upgrade_0005 downgrade_0005, mig ''b2c3d4e5f6a7'' (Some ''3f8a1c9d2e47'') upgrade_0006 (Some downgrade_0006),
      mig ''c3d4e5f6a7b8'' (Some ''b2c3d4e5f6a7'') upgrade_0007 (Some downgrade_0007),
      mig ''d4e5f6a7b8c9'' (Some ''c3d4e5f6a7b8'') upgrade_0008 (Some downgrade_0008),
      mig ''e5f6a7b8c9d0'' (Some ''d4e5f6a7b8c9'') upgrade_0009 (Some downgrade_0009),
      mig ''f6a7b8c9d0e1'' (Some ''e5f6a7b8c9d0'') upgrade_0010 (Some downgrade_0010),
      mig ''a1b2c3d4e5f6'' (Some ''f6a7b8c9d0e1'') upgrade_0011 (Some downgrade_0011),
      mig ''a2b3c4d5e6f7'' (Some ''a1b2c3d4e5f6'') upgrade_0012 (Some downgrade_0012),
      mig ''f7a8b9c0d1e2'' (Some ''a2b3c4d5e6f7'') upgrade_0013 (Some downgrade_0013)]"

definition schema_at :: "nat \<Rightarrow> schema result" where
  "schema_at n = exec_all (concat (map mg_upgrade (take n migrations))) []"

definition migrated :: schema where
  "migrated = (case schema_at 13 of Inr s \<Rightarrow> s | Inl e \<Rightarrow> [])"

text \<open>What the downgrade of the migration number \<open>n\<close> makes of the schema its upgrade left.\<close>

definition undo :: "nat \<Rightarrow> schema result" where
  "undo n = (case mg_downgrade (migrations ! (n - 1)) of
     None \<Rightarrow> Inl (PyExc ''NotImplementedError'')
   | Some ds \<Rightarrow> rbind (schema_at n) (exec_all ds))"

section \<open>The schema of the models (db/models)\<close>

text \<open>\<open>index=True\<close> and \<open>unique=True\<close> make indexes; defaults are left out, the program fills them in.\<close>

definition indexed :: "string \<Rightarrow> string list \<Rightarrow> sql_index list" where
  "indexed t cs = map (\<lambda>c. ix (''ix_'' @ t @ ''_'' @ c) [c]) cs"

definition to_operation :: foreign_key where
  "to_operation = fk ''operation_id'' ''operation_id'' ''operations'' ''id''"

definition to_tenant :: foreign_key where
  "to_tenant = fk ''tenant_id'' ''tenant_id'' ''tenants'' ''id''"

definition operations_model :: tbl where
  "operations_model = (new_table
     [cl ''id'' Uuid None, cl ''tenant_id'' Uuid None, cl ''trace_id'' Uuid None, cl ''actor_id'' Uuid None, cl ''actor_type'' (Varchar 20) None,
      cl ''document_id'' Uuid None, cl ''artifact_digest'' Text None, cl ''policy_version'' (Varchar 50) None, cl ''status'' (Varchar 20) None,
      cl_null ''sanitized_text'' Text, cl ''created_at'' Timestamptz None, cl_null ''completed_at'' Timestamptz, cl_null ''chain_hash'' Text,
      cl_null ''event_signature'' Text, cl_null ''event_signed_at'' Timestamptz, cl_null ''signing_key_version'' Integer] [''id''])
     \<lparr>tb_checks := [(''ck_operations_actor_type'', One_of ''actor_type'' actor_types), (''ck_operations_status'', One_of ''status'' operation_states)],
      tb_fks := [to_tenant], tb_indexes := indexed ''operations'' [''tenant_id'', ''trace_id'', ''actor_id'', ''artifact_digest'', ''chain_hash'']\<rparr>"

definition findings_model :: tbl where
  "findings_model = (new_table
     [cl ''id'' Uuid None, cl ''operation_id'' Uuid None, cl ''detector'' Text None, cl ''rule_id'' Text None, cl ''span_start'' Integer None,
      cl ''span_end'' Integer None, cl ''confidence'' Float None, cl ''severity'' (Varchar 20) None, cl ''explanation'' Jsonb None] [''id''])
     \<lparr>tb_checks := [(''ck_findings_severity'', One_of ''severity'' severities), (''ck_findings_confidence_range'', Between ''confidence'' 0 1)],
      tb_uniques := [(''uq_finding_operation_rule_span'', [''operation_id'', ''rule_id'', ''span_start'', ''span_end''])],
      tb_fks := [to_operation], tb_indexes := indexed ''findings'' [''operation_id'']\<rparr>"

definition redactions_model :: tbl where
  "redactions_model = (new_table
     [cl ''id'' Uuid None, cl ''finding_id'' Uuid None, cl ''operation_id'' Uuid None, cl ''redaction_type'' (Varchar 20) None,
      cl ''policy_version'' (Varchar 50) None, cl ''applied_at'' Timestamptz None, cl_null ''approved_by'' Uuid, cl_null ''approval_trace_id'' Uuid,
      cl_null ''approved_by_agent_id'' Uuid] [''id''])
     \<lparr>tb_checks := [(''ck_redactions_type'', One_of ''redaction_type'' redaction_types)],
      tb_fks := [fk ''finding_id'' ''finding_id'' ''findings'' ''id'', to_operation]\<rparr>"

definition artifacts_model :: tbl where
  "artifacts_model = (new_table
     [cl ''id'' Uuid None, cl ''operation_id'' Uuid None, cl ''artifact_type'' (Varchar 20) None, cl ''minio_key'' Text None, cl ''digest'' Text None,
      cl ''worm_locked'' Boolean None, cl ''created_at'' Timestamptz None] [''id''])
     \<lparr>tb_checks := [(''ck_artifacts_type'', One_of ''artifact_type'' artifact_types)],
      tb_fks := [to_operation], tb_indexes := indexed ''artifacts'' [''operation_id'']\<rparr>"

definition outbox_model :: tbl where
  "outbox_model = (new_table
     [cl ''id'' Uuid None, cl ''event_type'' Text None, cl ''payload'' Jsonb None, cl ''processed'' Boolean None, cl ''created_at'' Timestamptz None] [''id''])
     \<lparr>tb_indexes := [(ix ''idx_outbox_processed'' [''processed''])\<lparr>ix_where := Some ''processed = false''\<rparr>]\<rparr>"

definition waivers_model :: tbl where
  "waivers_model = (new_table
     [cl ''id'' Uuid None, cl ''tenant_id'' Uuid None, cl ''rule_id'' (Varchar 128) None, cl ''entity_pattern'' Text None, cl ''justification'' Text None,
      cl ''approved_by'' Uuid None, cl ''status'' (Varchar 32) None, cl_null ''expires_at'' Timestamptz, cl ''created_at'' Timestamptz None,
      cl ''metadata'' Jsonb None] [''id''])
     \<lparr>tb_checks := [(''waivers_status_check'', One_of ''status'' [''active'', ''expired'', ''revoked''])],
      tb_fks := [to_tenant], tb_indexes := indexed ''waivers'' [''tenant_id'', ''rule_id'', ''status'']\<rparr>"

definition tenants_model :: tbl where
  "tenants_model = (new_table
     [cl ''id'' Uuid None, cl ''name'' (Varchar 255) None, cl ''slug'' (Varchar 63) None, cl ''plan'' (Varchar 20) None, cl ''is_active'' Boolean None,
      cl_null ''max_scans_per_day'' Integer, cl_null ''max_document_size'' Integer, cl_null ''max_storage_mb'' Integer, cl_null ''rate_limit_rpm'' Integer,
      cl_null ''contact_email'' Text, cl_null ''policy_config'' Jsonb, cl_null ''siem_config'' Jsonb, cl_null ''retention_days'' Integer,
      cl ''created_at'' Timestamptz None, cl ''updated_at'' Timestamptz None] [''id''])
     \<lparr>tb_checks := [(''ck_tenants_plan'', One_of ''plan'' [''free'', ''starter'', ''enterprise''])],
      tb_indexes := [(ix ''ix_tenants_slug'' [''slug''])\<lparr>ix_unique := True\<rparr>]\<rparr>"

definition chain_anchors_model :: tbl where
  "chain_anchors_model = (new_table
     [cl ''id'' Uuid None, cl ''tenant_id'' Uuid None, cl ''chain_head_hash'' Text None, cl ''operations_count'' Integer None, cl ''signature'' Text None,
      cl_null ''signing_key_version'' Integer, cl_null ''signing_public_key_pem'' Text, cl_null ''tsa_token'' Text, cl_null ''created_by'' Uuid,
      cl ''created_at'' Timestamptz None] [''id''])
     \<lparr>tb_fks := [to_tenant], tb_indexes := indexed ''chain_anchors'' [''tenant_id'']\<rparr>"

definition signing_keys_model :: tbl where
  "signing_keys_model = new_table
     [cl ''key_version'' Integer None, cl ''public_key_pem'' Text None, cl_null ''algorithm'' Text, cl ''created_at'' Timestamptz None] [''key_version'']"

definition declared :: schema where
  "declared = [(''operations'', operations_model), (''findings'', findings_model), (''redactions'', redactions_model), (''artifacts'', artifacts_model),
     (''outbox'', outbox_model), (''waivers'', waivers_model), (''tenants'', tenants_model), (''chain_anchors'', chain_anchors_model),
     (''signing_keys'', signing_keys_model)]"

section \<open>Comparison\<close>

text \<open>Columns agree when names, types and nullability do, in whatever order; names of constraints are ignored.\<close>

definition signature_of :: "tbl \<Rightarrow> (string \<times> sql_type \<times> bool) list" where
  "signature_of t = map (\<lambda>c. (cl_name c, cl_type c, cl_nullable c)) (tb_columns t)"

definition same_members :: "'a list \<Rightarrow> 'a list \<Rightarrow> bool" where
  "same_members xs ys \<longleftrightarrow> list_all (\<lambda>x. List.member ys x) xs \<and> list_all (\<lambda>y. List.member xs y) ys"

definition fk_shape :: "foreign_key \<Rightarrow> string \<times> string \<times> string \<times> bool" where
  "fk_shape f = (fk_column f, fk_target f, fk_target_column f, fk_cascade f)"

definition index_shape :: "sql_index \<Rightarrow> string list \<times> bool \<times> string option" where
  "index_shape x = (ix_columns x, ix_unique x, ix_where x)"

text \<open>What the models declare and the database does not have, table by table.\<close>

definition lacking :: "(tbl \<Rightarrow> 'a list) \<Rightarrow> schema \<Rightarrow> schema \<Rightarrow> (string \<times> 'a) list" where
  "lacking f s u = concat (map (\<lambda>(n, t). map (Pair n) (filter (\<lambda>x. \<not> List.member (case map_of u n of None \<Rightarrow> [] | Some v \<Rightarrow> f v) x) (f t))) s)"

definition tables_where :: "(tbl \<Rightarrow> tbl \<Rightarrow> bool) \<Rightarrow> schema \<Rightarrow> schema \<Rightarrow> string list" where
  "tables_where p s u = map fst (filter (\<lambda>(n, t). case map_of u n of None \<Rightarrow> True | Some v \<Rightarrow> p t v) s)"

text \<open>The revisions whose downgrade does not give back the schema before the upgrade, in the order of the chain.\<close>

fun not_undone :: "migration list \<Rightarrow> schema \<Rightarrow> string list result" where
  "not_undone [] s = Inr []"
| "not_undone (m # ms) s = rbind (exec_all (mg_upgrade m) s) (\<lambda>s'. rbind (not_undone ms s') (\<lambda>rs.
     Inr (if (case mg_downgrade m of None \<Rightarrow> False | Some ds \<Rightarrow> exec_all ds s' = Inr s) then rs else mg_revision m # rs)))"

section \<open>Rows\<close>

text \<open>0007 deletes a finding when an older one, by its identifier, has the same span.\<close>

definition dedup_findings :: "finding list \<Rightarrow> finding list" where
  "dedup_findings fs = filter (\<lambda>f. \<not> list_ex (\<lambda>g. span_key f = span_key g \<and> fd_id f > fd_id g) fs) fs"

section \<open>What the migrations build\<close>

definition policies_of :: "schema \<Rightarrow> string \<Rightarrow> policy list" where
  "policies_of s n = (case map_of s n of None \<Rightarrow> [] | Some t \<Rightarrow> tb_policies t)"

definition rls_forced :: "schema \<Rightarrow> string \<Rightarrow> bool" where
  "rls_forced s n = (case map_of s n of None \<Rightarrow> False | Some t \<Rightarrow> tb_rls t \<and> tb_force t)"

definition readers :: policy_using where
  "readers = Role_in [''viewer'', ''reviewer'', ''admin'', ''policy_editor'']"

lemma migrated_evaluated:
  "case schema_at 13 of Inl e \<Rightarrow> False | Inr s \<Rightarrow>
     tables_where (\<lambda>t v. \<not> same_members (signature_of t) (signature_of v)) declared s = []
     \<and> tables_where (\<lambda>t v. \<not> same_members (map snd (tb_checks t)) (map snd (tb_checks v))) declared s = []
     \<and> tables_where (\<lambda>t v. tb_key t \<noteq> tb_key v) declared s = [''operations'']
     \<and> lacking (\<lambda>t. map fk_shape (tb_fks t)) declared s = map (\<lambda>n. (n, fk_shape to_operation)) child_tables
     \<and> lacking (\<lambda>t. map fk_shape (tb_fks t)) s declared = []
     \<and> lacking (\<lambda>t. map index_shape (tb_indexes t)) declared s
         = map (\<lambda>c. (''operations'', index_shape (ix c [c]))) [''trace_id'', ''actor_id'', ''artifact_digest'']
     \<and> list_all (rls_forced s) (tenant_tables @ child_tables)
     \<and> map (\<lambda>n. map po_using (policies_of s n)) tenant_tables = [[Always, readers, Own_tenant], [Always, readers, Own_tenant]]
     \<and> map (\<lambda>n. map po_using (policies_of s n)) child_tables = [[Always, Own_operation], [Always, Own_operation], [Always, Own_operation]]
     \<and> map (\<lambda>n. map po_select_only (policies_of s n)) tenant_tables = [[False, True, False], [False, True, False]]
     \<and> map (\<lambda>n. map po_select_only (policies_of s n)) child_tables = [[False, False], [False, False], [False, False]]
     \<and> map (\<lambda>n. case map_of s n of None \<Rightarrow> [] | Some t \<Rightarrow> map fk_shape (tb_fks t)) child_tables
         = [[], [(''finding_id'', ''findings'', ''id'', True)], []]"
  by code_simp

lemma migrated_run: "schema_at 13 = Inr migrated"
  using migrated_evaluated by (auto simp: migrated_def split: sum.splits)

lemmas migrated_facts = migrated_evaluated [unfolded migrated_run sum.case]

text \<open>
  the migrations run on an empty database without an error, and the database they leave has
  the columns, with types and nullability, and the checks that the models declare. It differs in
  the key of the operations, which 0005 extends by the partition column; it lacks every foreign key
  to the operations, which 0005 drops and cannot restore, and the indexes on the trace, the actor and
  the digest.
\<close>
theorem migrated_matches_models:
  "schema_at 13 = Inr migrated
   \<and> tables_where (\<lambda>t v. \<not> same_members (signature_of t) (signature_of v)) declared migrated = []
   \<and> tables_where (\<lambda>t v. \<not> same_members (map snd (tb_checks t)) (map snd (tb_checks v))) declared migrated = []
   \<and> tables_where (\<lambda>t v. tb_key t \<noteq> tb_key v) declared migrated = [''operations'']
   \<and> lacking (\<lambda>t. map fk_shape (tb_fks t)) declared migrated = map (\<lambda>n. (n, fk_shape to_operation)) child_tables
   \<and> lacking (\<lambda>t. map fk_shape (tb_fks t)) migrated declared = []
   \<and> lacking (\<lambda>t. map index_shape (tb_indexes t)) declared migrated
       = map (\<lambda>c. (''operations'', index_shape (ix c [c]))) [''trace_id'', ''actor_id'', ''artifact_digest'']"
  using migrated_run migrated_facts by blast

text \<open>
  every downgrade gives back exactly the schema before its upgrade, except that of 0005, which
  refuses, and that of 0009, which switches row-level security off where 0001 and 0006 had
  switched it on.
\<close>
theorem downgrades_undo:
  "not_undone migrations [] = Inr [''3f8a1c9d2e47'', ''e5f6a7b8c9d0'']"
  by code_simp

text \<open>The order in which the revisions refer to each other is the order of the list, and none occurs twice.\<close>

lemma revisions_linear:
  "map mg_down_revision migrations = None # map (Some \<circ> mg_revision) (butlast migrations) \<and> distinct (map mg_revision migrations)"
  by code_simp

text \<open>
  whatever statements run without an error, the schema stays consistent. Names of tables and of
  columns stay unique and no foreign key points to a missing table; so it is after any number of
  migrations.
\<close>
theorem migrations_keep_schema_ok:
  assumes "schema_at n = Inr s"
  shows "schema_ok s"
  using exec_all_ok [of _ "[]" s] assms by (auto simp: schema_at_def schema_ok_def)

lemma migrations_keep_schema_ok_witness: "schema_ok migrated"
  by (rule migrations_keep_schema_ok [OF migrated_run])

section \<open>Removal of duplicates\<close>

text \<open>
  C36: after the deletion of 0007 the unique constraint holds, no span of an operation is lost, and
  what remains of a span is its finding with the least identifier.
\<close>
theorem dedup_keeps_spans:
  assumes "distinct (map fd_id fs)"
  shows "distinct (map span_key (dedup_findings fs)) \<and> span_key ` set (dedup_findings fs) = span_key ` set fs
    \<and> (\<forall>f \<in> set (dedup_findings fs). \<forall>g \<in> set fs. span_key g = span_key f \<longrightarrow> fd_id f \<le> fd_id g)"
proof -
  have least: "fd_id f \<le> fd_id g" if "f \<in> set (dedup_findings fs)" "g \<in> set fs" "span_key g = span_key f" for f g
    using that by (auto simp: dedup_findings_def list_ex_iff not_less)
  have inj: "f = g" if "f \<in> set fs" "g \<in> set fs" "fd_id f = fd_id g" for f g
    using assms that by (auto simp: distinct_map inj_on_def)
  have "inj_on span_key (set (dedup_findings fs))"
  proof (rule inj_onI)
    fix f g assume fg: "f \<in> set (dedup_findings fs)" "g \<in> set (dedup_findings fs)" "span_key f = span_key g"
    then have in_fs: "f \<in> set fs" "g \<in> set fs" by (auto simp: dedup_findings_def)
    with fg least have "fd_id f = fd_id g" by (simp add: order.antisym)
    with in_fs inj show "f = g" by blast
  qed
  moreover have "distinct (dedup_findings fs)" using assms by (simp add: dedup_findings_def distinct_map)
  moreover have "span_key f \<in> span_key ` set (dedup_findings fs)" if f: "f \<in> set fs" for f
  proof -
    let ?same = "{g \<in> set fs. span_key g = span_key f}"
    have ne: "fd_id ` ?same \<noteq> {}" and fin: "finite (fd_id ` ?same)" using f by auto
    from Min_in [OF fin ne] obtain g where g: "g \<in> ?same" "fd_id g = Min (fd_id ` ?same)" by auto
    have "fd_id g \<le> fd_id h" if "h \<in> set fs" "span_key h = span_key g" for h
      using g that Min_le [OF fin] by auto
    with g have "g \<in> set (dedup_findings fs)" by (auto simp: dedup_findings_def list_ex_iff not_less)
    with g show ?thesis by (auto intro: rev_image_eqI)
  qed
  ultimately show ?thesis using least by (auto simp: distinct_map dedup_findings_def)
qed

definition plain_finding :: "uuid \<Rightarrow> finding" where
  "plain_finding i = \<lparr>detector = ''regex'', rule_id = ''x'', span_start = 0, span_end = 1, confidence = 1, severity = ''high'', explanation = [],
     fd_id = i, fd_operation_id = 1\<rparr>"

lemma dedup_keeps_spans_witness:
  "dedup_findings [plain_finding 2, plain_finding 1] = [plain_finding 1] \<and> distinct (map span_key (dedup_findings [plain_finding 2, plain_finding 1]))"
proof -
  have "distinct (map fd_id [plain_finding 2, plain_finding 1])" by (simp add: plain_finding_def)
  from dedup_keeps_spans [OF this] show ?thesis by (simp add: dedup_findings_def plain_finding_def span_key_def)
qed

end
