(* ===== verification/Deployed_Db.thy ===== *)
theory Deployed_Db
  imports Tenant_Rls Migrations
begin

text \<open>
  What the migrated schema (theory \<open>Migrations\<close>) means for the program: which rows a delete of
  operations takes with it, and which rows a session sees and writes under all policies of a table
  together. The rest of the development assumes the schema of the models; here the two are compared.
\<close>

section \<open>Deletes under the foreign keys of a schema\<close>

definition cascades :: "schema \<Rightarrow> string \<Rightarrow> string \<Rightarrow> string \<Rightarrow> bool" where
  "cascades s child c parent = (case map_of s child of None \<Rightarrow> False
     | Some t \<Rightarrow> List.member (map fk_shape (tb_fks t)) (c, parent, ''id'', True))"

text \<open>The keys to and among the children of an operation that cascade in the schema \<open>s\<close>.\<close>

definition keys_of :: "schema \<Rightarrow> child_keys" where
  "keys_of s = \<lparr>ck_findings = cascades s ''findings'' ''operation_id'' ''operations'',
     ck_redactions = cascades s ''redactions'' ''operation_id'' ''operations'',
     ck_artifacts = cascades s ''artifacts'' ''operation_id'' ''operations'',
     ck_redaction_finding = cascades s ''redactions'' ''finding_id'' ''findings''\<rparr>"

section \<open>Sessions under the policies of a schema\<close>

record db_session =
  ds_setting :: "string option"
  ds_role :: "string option"

text \<open>
  A permissive policy suffices. The database folds \<open>true OR p\<close> before it evaluates \<open>p\<close>, so the setting is
  converted only when no policy is always true. \<open>own\<close> says of which tenants the row is.
\<close>

fun grants :: "db_session \<Rightarrow> uuid \<Rightarrow> (uuid \<Rightarrow> bool) \<Rightarrow> policy_using \<Rightarrow> bool" where
  "grants x c own Always \<longleftrightarrow> True"
| "grants x c own (Role_in rs) \<longleftrightarrow> (case ds_role x of None \<Rightarrow> False | Some r \<Rightarrow> r \<in> set rs)"
| "grants x c own Own_tenant \<longleftrightarrow> own c"
| "grants x c own Own_operation \<longleftrightarrow> own c"

definition allowed :: "policy list \<Rightarrow> db_session \<Rightarrow> (uuid \<Rightarrow> bool) \<Rightarrow> bool result" where
  "allowed ps x own = (if list_ex (\<lambda>p. po_using p = Always) ps then Inr True
     else rbind (current_tenant (ds_setting x)) (\<lambda>c. Inr (list_ex (\<lambda>p. grants x c own (po_using p)) ps)))"

definition may_read :: "schema \<Rightarrow> string \<Rightarrow> db_session \<Rightarrow> (uuid \<Rightarrow> bool) \<Rightarrow> bool result" where
  "may_read s n x own = (if rls_forced s n then allowed (policies_of s n) x own else Inr True)"

definition may_write :: "schema \<Rightarrow> string \<Rightarrow> db_session \<Rightarrow> (uuid \<Rightarrow> bool) \<Rightarrow> bool result" where
  "may_write s n x own = (if rls_forced s n then allowed (filter (\<lambda>p. \<not> po_select_only p) (policies_of s n)) x own else Inr True)"

text \<open>The schema with the policies that are always true removed, as 0009 would need it.\<close>

definition closed_policies :: "schema \<Rightarrow> schema" where
  "closed_policies s = map (\<lambda>(n, t). (n, t\<lparr>tb_policies := filter (\<lambda>p. po_using p \<noteq> Always) (tb_policies t)\<rparr>)) s"

section \<open>The purge\<close>

lemma declared_cascades:
  "cascades declared ''findings'' ''operation_id'' ''operations''" "cascades declared ''redactions'' ''operation_id'' ''operations''"
  "cascades declared ''artifacts'' ''operation_id'' ''operations''" "cascades declared ''redactions'' ''finding_id'' ''findings''"
  by code_simp+

lemma migrated_fks: "n \<in> set child_tables \<Longrightarrow> (case map_of migrated n of None \<Rightarrow> [] | Some t \<Rightarrow> map fk_shape (tb_fks t))
     = (if n = ''redactions'' then [(''finding_id'', ''findings'', ''id'', True)] else [])"
  using migrated_facts by (auto simp: child_tables_def)

lemma migrated_keeps: "n \<in> set child_tables \<Longrightarrow> \<not> cascades migrated n ''operation_id'' ''operations''"
  using migrated_fks [of n] by (auto simp: cascades_def split: option.splits if_splits)

lemma keys_of_declared: "keys_of declared = model_keys"
  by (simp add: keys_of_def declared_cascades model_keys_def)

lemma keys_of_migrated: "\<not> ck_findings (keys_of migrated)" "\<not> ck_redactions (keys_of migrated)" "\<not> ck_artifacts (keys_of migrated)"
  by (simp_all add: keys_of_def migrated_keeps child_tables_def)

lemma purge_result_keys:
  assumes "run_gdpr_purge env t days ex (d, os) = ((d', os'), Inr (Some res))"
  shows "\<exists>d2. run_gdpr_purge (env\<lparr>pg_keys := k\<rparr>) t days ex (d, os) = ((d2, os'), Inr (Some res))"
proof -
  have c: "snd (delete_operations k t c d) = snd (delete_operations (pg_keys env) t c d)" for c
    by (simp add: delete_operations_def Let_def)
  from assms show ?thesis
    by (cases "pg_commit env") (auto simp: run_gdpr_purge_def Let_def c split_def generate_deletion_certificate_def
        store_deletion_certificate_def split: if_splits)
qed

text \<open>
  C31: on the migrated database the purge erases the operations only. When \<open>run\_gdpr\_purge\<close> succeeds on
  tables with the foreign keys that the migrations leave, no operation of the tenant older than the cutoff
  is left, but every finding, redaction and artifact stays, those of the erased operations too, and the
  signed certificate counts these findings as deleted. The same call on tables with the foreign keys of the
  models gives the same result and the same certificate, and there no finding of an erased operation stays.
\<close>
theorem purge_leaves_children:
  assumes "run_gdpr_purge env t days ex (d, os) = ((d', os'), Inr (Some res))" and "pg_keys env = keys_of migrated"
  shows "(\<forall>r \<in> set (operations d'). \<not> (op_tenant_id r = t \<and> op_created_at r < days_ago (pg_now1 env) days))
    \<and> findings d' = findings d \<and> redactions d' = redactions d \<and> artifacts d' = artifacts d
    \<and> dc_findings (ct_counts (pr_certificate res)) =
        length (filter (\<lambda>f. fd_operation_id f \<in> op_id ` (set (operations d) - set (operations d'))) (findings d'))
    \<and> (\<exists>d2. run_gdpr_purge (env\<lparr>pg_keys := keys_of declared\<rparr>) t days ex (d, os) = ((d2, os'), Inr (Some res))
        \<and> operations d2 = operations d'
        \<and> (\<forall>f \<in> set (findings d2). fd_operation_id f \<notin> op_id ` (set (operations d) - set (operations d'))))"
proof -
  from purge_result_keys [OF assms(1)] obtain d2 where
    run2: "run_gdpr_purge (env\<lparr>pg_keys := keys_of declared\<rparr>) t days ex (d, os) = ((d2, os'), Inr (Some res))" by blast
  obtain c1 where del1: "delete_operations (pg_keys env) t (days_ago (pg_now1 env) days) d = (d', c1)"
    and ct: "ct_counts (pr_certificate res) = c1"
    using assms(1) by (cases rule: purge_cases) simp
  obtain c2 where del2: "delete_operations (keys_of declared) t (days_ago (pg_now1 env) days) d = (d2, c2)"
    using run2 by (cases rule: purge_cases) simp
  note s1 = delete_operations_spec [OF del1] and s2 = delete_operations_spec [OF del2]
  have ops: "operations d2 = operations d'" unfolding s1(1) s2(1) by simp
  have "\<forall>r \<in> set (operations d'). \<not> (op_tenant_id r = t \<and> op_created_at r < days_ago (pg_now1 env) days)"
    unfolding s1(1) by (simp add: expired_def)
  moreover have keep: "findings d' = findings d" "redactions d' = redactions d" "artifacts d' = artifacts d"
    using deleted_children [OF s1(1) refl] by (simp_all add: assms(2) keys_of_migrated)
  moreover have "dc_findings (ct_counts (pr_certificate res)) =
      length (filter (\<lambda>f. fd_operation_id f \<in> op_id ` (set (operations d) - set (operations d'))) (findings d'))"
    unfolding ct keep by (subst s1(3)) (simp only: deletion_counts.simps)
  moreover have "\<forall>f \<in> set (findings d2). fd_operation_id f \<notin> op_id ` (set (operations d) - set (operations d'))"
    using deleted_children(1) [OF s2(1) refl] by (simp add: keys_of_declared model_keys_def ops)
  ultimately show ?thesis using run2 ops by blast
qed

section \<open>Isolation\<close>

lemma migrated_policies:
  assumes "n \<in> set (tenant_tables @ child_tables)"
  shows "rls_forced migrated n"
    and "n \<in> set tenant_tables \<Longrightarrow> map po_using (policies_of migrated n) = [Always, readers, Own_tenant]
      \<and> map po_select_only (policies_of migrated n) = [False, True, False]"
    and "n \<notin> set tenant_tables \<Longrightarrow> map po_using (policies_of migrated n) = [Always, Own_operation]
      \<and> map po_select_only (policies_of migrated n) = [False, False]"
proof -
  have "list_all (rls_forced migrated) (tenant_tables @ child_tables)" using migrated_facts by blast
  with assms show "rls_forced migrated n" unfolding list_all_iff by blast
  show "map po_using (policies_of migrated n) = [Always, readers, Own_tenant] \<and> map po_select_only (policies_of migrated n) = [False, True, False]"
    if "n \<in> set tenant_tables"
  proof -
    have "map (\<lambda>n. map po_using (policies_of migrated n)) tenant_tables = [[Always, readers, Own_tenant], [Always, readers, Own_tenant]]"
      "map (\<lambda>n. map po_select_only (policies_of migrated n)) tenant_tables = [[False, True, False], [False, True, False]]"
      using migrated_facts by blast+
    with that show ?thesis by (auto simp: tenant_tables_def simp del: map_eq_Cons_conv)
  qed
  show "map po_using (policies_of migrated n) = [Always, Own_operation] \<and> map po_select_only (policies_of migrated n) = [False, False]"
    if "n \<notin> set tenant_tables"
  proof -
    have "map (\<lambda>n. map po_using (policies_of migrated n)) child_tables = [[Always, Own_operation], [Always, Own_operation], [Always, Own_operation]]"
      "map (\<lambda>n. map po_select_only (policies_of migrated n)) child_tables = [[False, False], [False, False], [False, False]]"
      using migrated_facts by blast+
    moreover have "n \<in> set child_tables" using that assms by simp
    ultimately show ?thesis by (auto simp: child_tables_def simp del: map_eq_Cons_conv)
  qed
qed

lemma policies_of_closed: "policies_of (closed_policies s) n = filter (\<lambda>p. po_using p \<noteq> Always) (policies_of s n)"
  by (induction s) (auto simp: policies_of_def closed_policies_def)

lemma rls_forced_closed: "rls_forced (closed_policies s) n = rls_forced s n"
  by (induction s) (auto simp: rls_forced_def closed_policies_def)

lemma three_list: "map f xs = [a, b, c] \<longleftrightarrow> (\<exists>x y z. xs = [x, y, z] \<and> f x = a \<and> f y = b \<and> f z = c)"
  by (auto simp: map_eq_Cons_conv)

lemma two_list: "map f xs = [a, b] \<longleftrightarrow> (\<exists>x y. xs = [x, y] \<and> f x = a \<and> f y = b)"
  by (auto simp: map_eq_Cons_conv)

lemma migrated_open:
  assumes "n \<in> set (tenant_tables @ child_tables)"
  shows "may_read migrated n x own = Inr True" and "may_write migrated n x own = Inr True"
proof -
  have "\<exists>p \<in> set (policies_of migrated n). po_using p = Always \<and> \<not> po_select_only p"
    using migrated_policies(2,3) [OF assms] by (cases "n \<in> set tenant_tables") (auto simp: three_list two_list)
  then show "may_read migrated n x own = Inr True" "may_write migrated n x own = Inr True"
    by (auto simp: may_read_def may_write_def allowed_def list_ex_iff)
qed

lemma closed_access:
  assumes "n \<in> set (tenant_tables @ child_tables)"
  shows "ds_role x = None \<Longrightarrow> may_read (closed_policies migrated) n x own = rbind (current_tenant (ds_setting x)) (\<lambda>c. Inr (own c))"
    and "may_write (closed_policies migrated) n x own = rbind (current_tenant (ds_setting x)) (\<lambda>c. Inr (own c))"
proof -
  have f: "rls_forced (closed_policies migrated) n" using migrated_policies(1) [OF assms] by (simp add: rls_forced_closed)
  have "(ds_role x = None \<longrightarrow> may_read (closed_policies migrated) n x own = rbind (current_tenant (ds_setting x)) (\<lambda>c. Inr (own c)))
    \<and> may_write (closed_policies migrated) n x own = rbind (current_tenant (ds_setting x)) (\<lambda>c. Inr (own c))"
  proof (cases "n \<in> set tenant_tables")
    case True
    with migrated_policies(2) [OF assms] obtain p q r where "policies_of migrated n = [p, q, r]" "po_using p = Always" "po_using q = readers"
      "po_using r = Own_tenant" "\<not> po_select_only p" "po_select_only q" "\<not> po_select_only r"
      by (auto simp: three_list)
    with f show ?thesis by (simp add: may_read_def may_write_def allowed_def policies_of_closed readers_def)
  next
    case False
    with migrated_policies(3) [OF assms] obtain p q where "policies_of migrated n = [p, q]" "po_using p = Always" "po_using q = Own_operation"
      "\<not> po_select_only p" "\<not> po_select_only q"
      by (auto simp: two_list)
    with f show ?thesis by (simp add: may_read_def may_write_def allowed_def policies_of_closed)
  qed
  then show "ds_role x = None \<Longrightarrow> may_read (closed_policies migrated) n x own = rbind (current_tenant (ds_setting x)) (\<lambda>c. Inr (own c))"
    "may_write (closed_policies migrated) n x own = rbind (current_tenant (ds_setting x)) (\<lambda>c. Inr (own c))" by simp_all
qed

text \<open>
  C30: the policies of 0009 isolate nothing. The older policies \<open>USING (true)\<close> of the same tables are still there
  and permissive policies are alternatives, so every session reads and writes the rows of every
  tenant, whatever its setting is, also none or one that is no UUID. Without the older policies a session
  without a role would read and write exactly the rows of the tenant of its setting.
\<close>
theorem policies_isolate_nothing:
  assumes "n \<in> set (tenant_tables @ child_tables)"
  shows "may_read migrated n x own = Inr True \<and> may_write migrated n x own = Inr True
    \<and> (ds_role x = None \<longrightarrow> may_read (closed_policies migrated) n x own = rbind (current_tenant (ds_setting x)) (\<lambda>c. Inr (own c)))
    \<and> may_write (closed_policies migrated) n x own = rbind (current_tenant (ds_setting x)) (\<lambda>c. Inr (own c))"
  using migrated_open [OF assms] closed_access [OF assms] by blast

text \<open>Under the closed policies the operations that a session reads are those of \<open>rls\_view\<close>.\<close>

lemma closed_policies_view:
  assumes "ds_role x = None" and "current_tenant (ds_setting x) = Inr t"
  shows "filter (\<lambda>r. may_read (closed_policies migrated) ''operations'' x (\<lambda>c. op_tenant_id r = c) = Inr True) (operations d) = operations (rls_view t d)"
proof -
  have "''operations'' \<in> set (tenant_tables @ child_tables)" by (simp add: tenant_tables_def)
  from closed_access(1) [OF this assms(1)] assms(2) show ?thesis by (auto simp: rls_operation_def intro: filter_cong)
qed

section \<open>Witnesses\<close>

definition purgeable :: db where
  "purgeable = (db_with [sample_op 1 10])\<lparr>findings := [plain_finding 3]\<rparr>"

lemma purge_leaves_children_witness:
  "\<exists>d' os' res. run_gdpr_purge (sample_purge\<lparr>pg_keys := keys_of migrated\<rparr>) 7 1 ''x'' (purgeable, []) = ((d', os'), Inr (Some res))
     \<and> operations d' = [] \<and> findings d' = [plain_finding 3] \<and> dc_findings (ct_counts (pr_certificate res)) = 1
     \<and> (\<exists>d2. run_gdpr_purge (sample_purge\<lparr>pg_keys := keys_of declared\<rparr>) 7 1 ''x'' (purgeable, []) = ((d2, os'), Inr (Some res))
        \<and> plain_finding 3 \<notin> set (findings d2))"
proof -
  let ?env = "sample_purge\<lparr>pg_keys := keys_of migrated\<rparr>"
  have ops: "operations purgeable = [sample_op 1 10]" and fds: "findings purgeable = [plain_finding 3]"
    and ids: "op_id (sample_op 1 10) = 1" "fd_operation_id (plain_finding 3) = 1"
    by (simp_all add: purgeable_def sample_op_def plain_finding_def)
  have now: "days_ago (pg_now1 ?env) 1 = 259200000000" "op_tenant_id (sample_op 1 10) = 7" "op_created_at (sample_op 1 10) = 10"
    by (simp_all add: days_ago_def sample_purge_def usec_per_day_def)
  have "sample_op 1 10 \<in> set (find_expired_operations (pg_now2 ?env) 7 1 purgeable)"
    by (simp add: find_expired_operations_def ops expired_def days_ago_def sample_purge_def usec_per_day_def)
  then have ne: "find_expired_operations (pg_now2 ?env) 7 1 purgeable \<noteq> []" by auto
  have "pg_commit ?env = Inr ()" by (simp add: sample_purge_def)
  with ne obtain d' os' res where run: "run_gdpr_purge ?env 7 1 ''x'' (purgeable, []) = ((d', os'), Inr (Some res))"
    using purge_runs by blast
  note p = purge_leaves_children [OF run, simplified now(1)]
  have o: "operations d' = []"
  proof -
    from run have "set (operations d') \<subseteq> set (operations purgeable)"
      by (cases rule: purge_cases) (auto dest!: delete_operations_spec(1))
    moreover have "sample_op 1 10 \<notin> set (operations d')" using p now by auto
    ultimately show ?thesis unfolding ops by (cases "operations d'") auto
  qed
  from p obtain d2 where d2: "run_gdpr_purge (?env\<lparr>pg_keys := keys_of declared\<rparr>) 7 1 ''x'' (purgeable, []) = ((d2, os'), Inr (Some res))"
    and f2: "\<forall>f \<in> set (findings d2). fd_operation_id f \<notin> op_id ` (set (operations purgeable) - set (operations d'))" by auto
  have "plain_finding 3 \<notin> set (findings d2)" using f2 by (auto simp: o ops ids)
  moreover have "findings d' = [plain_finding 3]" "dc_findings (ct_counts (pr_certificate res)) = 1"
    using p by (simp_all add: o ops fds ids)
  ultimately show ?thesis using run d2 o by auto
qed

lemma policies_isolate_nothing_witness:
  "may_read migrated ''findings'' \<lparr>ds_setting = Some ''None'', ds_role = None\<rparr> (\<lambda>c. False) = Inr True
   \<and> may_read (closed_policies migrated) ''findings'' \<lparr>ds_setting = None, ds_role = None\<rparr> (\<lambda>c. False) = Inr False"
proof -
  have n: "''findings'' \<in> set (tenant_tables @ child_tables)" by (simp add: tenant_tables_def child_tables_def)
  show ?thesis
    using policies_isolate_nothing [OF n, of "\<lparr>ds_setting = Some ''None'', ds_role = None\<rparr>" "\<lambda>c. False"]
      policies_isolate_nothing [OF n, of "\<lparr>ds_setting = None, ds_role = None\<rparr>" "\<lambda>c. False"]
    by (simp add: current_tenant_def)
qed

end
