(* ===== verification/Audit_Api.thy ===== *)
theory Audit_Api
  imports Retention Vault_Tsa
begin

text \<open>
  Audit exports and chain anchors (\<open>api/v1/audit.py\<close>, \<open>schemas/audit.py\<close>, \<open>schemas/sarif.py\<close>): the
  signed export of an operation and who may read it, the verification of the chain against its
  latest signed anchor, and the creation of an anchor. Pydantic's text of a datetime is a parameter.
\<close>

section \<open>The export\<close>

record audit_env =
  ax_sha :: "bytes \<Rightarrow> string"
  ax_secret :: bytes
  ax_float :: "rat \<Rightarrow> string"
  ax_dt :: "instant \<Rightarrow> string"
  ax_str :: "json \<Rightarrow> doc"
  ax_now :: instant
  ax_tsa_enabled :: bool
  ax_tsa_post :: "string \<Rightarrow> bytes \<Rightarrow> (nat \<times> bytes) result"
  ax_tsa_url :: string
  ax_vault :: vault_transit
  ax_require_signature :: bool

definition compute_hmac :: "audit_env \<Rightarrow> json \<Rightarrow> string" where
  "compute_hmac env payload =
     hmac_hex (ax_sha env) (ax_secret env) (utf8_bytes (dumps_sorted (ax_float env) payload))"

definition jopt :: "('a \<Rightarrow> json) \<Rightarrow> 'a option \<Rightarrow> json" where
  "jopt f x = (case x of None \<Rightarrow> JNull | Some v \<Rightarrow> f v)"

definition juuid :: "uuid \<Rightarrow> json" where
  "juuid u = jstr (uuid_str u)"

definition operation_dict :: "operation \<Rightarrow> (doc \<times> json) list" where
  "operation_dict r =
     [(lit ''id'', juuid (op_id r)), (lit ''trace_id'', juuid (op_trace_id r)), (lit ''actor_id'', juuid (op_actor_id r)),
      (lit ''actor_type'', jstr (actor_type_str (op_actor_type r))), (lit ''document_id'', juuid (op_document_id r)),
      (lit ''artifact_digest'', jstr (op_artifact_digest r)), (lit ''policy_version'', jstr (op_policy_version r)),
      (lit ''status'', jstr (status_str (op_status r))), (lit ''created_at'', jstr (isoformat (op_created_at r))),
      (lit ''completed_at'', jopt (\<lambda>t. jstr (isoformat t)) (op_completed_at r))]"

definition finding_dict :: "finding \<Rightarrow> json" where
  "finding_dict f = JObj
     [(lit ''id'', juuid (fd_id f)), (lit ''detector'', jstr (detector f)), (lit ''rule_id'', jstr (rule_id f)),
      (lit ''span_start'', jnat (span_start f)), (lit ''span_end'', jnat (span_end f)),
      (lit ''confidence'', JFloat (confidence f)), (lit ''severity'', jstr (severity f)),
      (lit ''explanation'', JObj (map (\<lambda>(k, v). (lit k, v)) (explanation f)))]"

definition redaction_dict :: "(instant \<Rightarrow> string) \<Rightarrow> redaction \<Rightarrow> json" where
  "redaction_dict dt x = JObj
     [(lit ''id'', juuid (rd_id x)), (lit ''finding_id'', juuid (rd_finding_id x)), (lit ''redaction_type'', jstr (rd_type x)),
      (lit ''policy_version'', jstr (rd_policy_version x)), (lit ''applied_at'', jstr (dt (rd_applied_at x))),
      (lit ''approved_by'', jopt juuid (rd_approved_by x)), (lit ''approval_trace_id'', jopt juuid (rd_approval_trace_id x))]"

definition artifact_dict :: "(instant \<Rightarrow> string) \<Rightarrow> artifact \<Rightarrow> json" where
  "artifact_dict dt a = JObj
     [(lit ''id'', juuid (ar_id a)), (lit ''artifact_type'', jstr (ar_type a)), (lit ''minio_key'', jstr (ar_minio_key a)),
      (lit ''digest'', jstr (ar_digest a)), (lit ''worm_locked'', JBool (ar_worm_locked a)),
      (lit ''created_at'', jstr (dt (ar_created_at a)))]"

definition signable :: "audit_env \<Rightarrow> uuid \<Rightarrow> operation \<Rightarrow> db \<Rightarrow> json" where
  "signable env trace r d = JObj
     [(lit ''trace_id'', juuid trace), (lit ''exported_at'', jstr (isoformat (ax_now env))),
      (lit ''operation'', JObj (operation_dict r)),
      (lit ''findings'', JArr (map finding_dict (findings_of (op_id r) d))),
      (lit ''redactions'', JArr (map (redaction_dict (ax_dt env)) (redactions_of (op_id r) d))),
      (lit ''artifacts'', JArr (map (artifact_dict (ax_dt env)) (artifacts_of (op_id r) d)))]"

definition signable_bytes :: "audit_env \<Rightarrow> uuid \<Rightarrow> operation \<Rightarrow> db \<Rightarrow> bytes" where
  "signable_bytes env trace r d = utf8_bytes (dumps_sorted (ax_float env) (signable env trace r d))"

text \<open>The archived key of a version if its text is not empty, else what Vault gives now.\<close>

definition resolve_public_key :: "audit_env \<Rightarrow> int option \<Rightarrow> db \<Rightarrow> json \<times> json" where
  "resolve_public_key env ver d =
     (let live = (case get_public_key (ax_vault env) None of None \<Rightarrow> (JNull, JNull) | Some i \<Rightarrow> (pk_pem i, pk_algorithm i))
      in case ver of
           None \<Rightarrow> live
         | Some v \<Rightarrow> (case find (\<lambda>k. sk_key_version k = v) (signing_keys d) of
                       None \<Rightarrow> live
                     | Some k \<Rightarrow> if sk_public_key_pem k = [] then live
                                else (JStr (sk_public_key_pem k), jopt JStr (sk_algorithm k))))"

text \<open>A field declared \<open>str | None\<close>.\<close>

fun opt_str :: "string \<Rightarrow> json \<Rightarrow> doc option result" where
  "opt_str exc JNull = Inr None"
| "opt_str exc (JStr s) = Inr (Some s)"
| "opt_str exc _ = Inl (PyExc exc)"

record audit_export =
  ae_trace :: uuid
  ae_exported_at :: instant
  ae_operation :: "(doc \<times> json) list"
  ae_findings :: "finding list"
  ae_redactions :: "redaction list"
  ae_artifacts :: "artifact list"
  ae_hmac :: string
  ae_sanitized :: "doc option"
  ae_tsa :: "doc option"
  ae_chain_hash :: "string option"
  ae_signature :: "doc option"
  ae_at_write_time :: bool
  ae_signed_at :: "instant option"
  ae_key_version :: "int option"
  ae_pem :: "doc option"
  ae_algorithm :: "doc option"

definition tsa_for :: "audit_env \<Rightarrow> bytes \<Rightarrow> doc option result" where
  "tsa_for env data =
     (if \<not> ax_tsa_enabled env then Inr None
      else rbind (request_tsa_token (\<lambda>b. digest_bytes (ax_sha env b)) (ax_tsa_post env) (ax_now env) (ax_tsa_url env) data None)
             (\<lambda>t. Inr (map_option token_b64 t)))"

definition export_signature :: "audit_env \<Rightarrow> operation \<Rightarrow> bytes \<Rightarrow> doc option \<times> bool" where
  "export_signature env r data =
     (case op_event_signature r of Some s \<Rightarrow> (Some s, True) | None \<Rightarrow> (sign_data (ax_vault env) data None, False))"

definition export_key :: "audit_env \<Rightarrow> operation \<Rightarrow> db \<Rightarrow> doc option \<Rightarrow> json \<times> json" where
  "export_key env r d sig = (if sig = None then (JNull, JNull) else resolve_public_key env (op_signing_key_version r) d)"

definition export_of ::
  "audit_env \<Rightarrow> uuid \<Rightarrow> operation \<Rightarrow> db \<Rightarrow> doc option \<Rightarrow> doc option \<times> bool \<Rightarrow> doc option \<Rightarrow> doc option \<Rightarrow> audit_export" where
  "export_of env trace r d tsa sg pem alg =
     \<lparr>ae_trace = trace, ae_exported_at = ax_now env, ae_operation = operation_dict r,
      ae_findings = findings_of (op_id r) d, ae_redactions = redactions_of (op_id r) d,
      ae_artifacts = artifacts_of (op_id r) d, ae_hmac = compute_hmac env (signable env trace r d),
      ae_sanitized = op_sanitized_text r, ae_tsa = tsa, ae_chain_hash = op_chain_hash r,
      ae_signature = fst sg, ae_at_write_time = snd sg, ae_signed_at = op_event_signed_at r,
      ae_key_version = op_signing_key_version r, ae_pem = pem, ae_algorithm = alg\<rparr>"

definition get_audit_export :: "audit_env \<Rightarrow> uuid \<Rightarrow> db \<Rightarrow> audit_export option result" where
  "get_audit_export env trace d =
     (case filter (\<lambda>r. op_trace_id r = trace) (operations d) of
        [] \<Rightarrow> Inr None
      | r # _ \<Rightarrow>
          let data = signable_bytes env trace r d
          in rbind (tsa_for env data) (\<lambda>tsa.
             let sg = export_signature env r data; key = export_key env r d (fst sg)
             in if ax_require_signature env \<and> fst sg = None then Inl (HTTPException 503)
                else rbind (opt_str ''ValidationError'' (fst key)) (\<lambda>pem. rbind (opt_str ''ValidationError'' (snd key)) (\<lambda>alg.
                       Inr (Some (export_of env trace r d tsa sg pem alg))))))"

section \<open>SARIF\<close>

record sarif_result =
  sf_rule :: string
  sf_level :: string
  sf_text :: string
  sf_start_column :: nat
  sf_end_column :: nat
  sf_confidence :: rat
  sf_explanation :: "(string \<times> json) list"

record sarif_output =
  so_results :: "sarif_result list"
  so_hmac :: string
  so_trace :: string

definition severity_map :: "(string \<times> string) list" where
  "severity_map = [(''critical'', ''error''), (''high'', ''warning''), (''medium'', ''note''), (''low'', ''none'')]"

definition audit_to_sarif :: "audit_export \<Rightarrow> sarif_output" where
  "audit_to_sarif e =
     \<lparr>so_results = map (\<lambda>f. \<lparr>sf_rule = detector f,
          sf_level = (case map_of severity_map (severity f) of Some l \<Rightarrow> l | None \<Rightarrow> ''note''),
          sf_text = rule_id f, sf_start_column = span_start f, sf_end_column = span_end f,
          sf_confidence = confidence f, sf_explanation = explanation f\<rparr>) (ae_findings e),
      so_hmac = ae_hmac e, so_trace = uuid_str (ae_trace e)\<rparr>"

section \<open>The endpoints\<close>

datatype audit_answer = Json_export audit_export | Sarif_export sarif_output

definition actor_text :: "(json \<Rightarrow> doc) \<Rightarrow> claims \<Rightarrow> doc" where
  "actor_text py_str p = str_of_json py_str (claim_or p ''sub'' (jstr ''unknown''))"

definition audit_export_endpoint :: "audit_env \<Rightarrow> claims \<Rightarrow> uuid \<Rightarrow> string \<Rightarrow> db \<Rightarrow> audit_answer result" where
  "audit_export_endpoint env p trace fmt d =
     rbind (get_audit_export env trace d) (\<lambda>x.
       case x of
         None \<Rightarrow> Inl (HTTPException 404)
       | Some e \<Rightarrow>
           rbind (has_role ''reviewer'' p) (\<lambda>rv. rbind (if rv then Inr True else has_role ''admin'' p) (\<lambda>priv.
             if dict_get (ae_operation e) (lit ''actor_id'') JNull \<noteq> JStr (actor_text (ax_str env) p) \<and> \<not> priv
             then Inl forbidden
             else Inr (if fmt = ''sarif'' then Sarif_export (audit_to_sarif e) else Json_export e))))"

definition verification_key :: "audit_env \<Rightarrow> doc \<Rightarrow> doc \<times> json \<times> json" where
  "verification_key env secret =
     (take 8 secret @ lit ''...'',
      case get_public_key (ax_vault env) None of None \<Rightarrow> (JNull, JNull) | Some i \<Rightarrow> (pk_pem i, pk_algorithm i))"

record anchor_status =
  as_anchored :: bool
  as_valid :: "bool option"
  as_head_matches :: "bool option"

definition verify_latest_anchor :: "audit_env \<Rightarrow> uuid \<Rightarrow> db \<Rightarrow> anchor_status" where
  "verify_latest_anchor env t d =
     (case latest_by an_created_at (filter (\<lambda>a. an_tenant_id a = t) (anchors d)) of
        None \<Rightarrow> \<lparr>as_anchored = False, as_valid = None, as_head_matches = None\<rparr>
      | Some a \<Rightarrow>
          let ver = (case an_signing_key_version a of Some v \<Rightarrow> if v = 0 then 1 else v | None \<Rightarrow> 1);
              ok = swallow False (rbind (fromhex (lit (an_chain_head_hash a))) (\<lambda>raw.
                     Inr (json_truthy (verify_signature (ax_vault env) raw (an_signature a) None ver))))
          in \<lparr>as_anchored = True, as_valid = Some ok,
               as_head_matches = Some (get_latest_chain_hash d t = an_chain_head_hash a)\<rparr>)"

text \<open>The caller must have one of the roles.\<close>

fun require_any :: "string list \<Rightarrow> claims \<Rightarrow> unit result" where
  "require_any [] p = Inl forbidden"
| "require_any (role # roles) p = rbind (has_role role p) (\<lambda>b. if b then Inr () else require_any roles p)"

definition verify_chain_endpoint :: "audit_env \<Rightarrow> claims \<Rightarrow> db \<Rightarrow> (chain_report \<times> anchor_status) result" where
  "verify_chain_endpoint env p d =
     rbind (require_any [''admin'', ''reviewer''] p) (\<lambda>_.
     rbind (tenant_of_claims p) (\<lambda>t. Inr (verify_chain (ax_sha env) t 1000 d, verify_latest_anchor env t d)))"

definition insert_anchor :: "chain_anchor \<Rightarrow> db \<Rightarrow> db result" where
  "insert_anchor a d =
     (if an_id a \<in> an_id ` set (anchors d) \<or> an_tenant_id a \<notin> tn_id ` set (tenants d) then Inl integrity_error
      else Inr (d\<lparr>anchors := anchors d @ [a]\<rparr>))"

definition creator_of :: "(json \<Rightarrow> doc) \<Rightarrow> claims \<Rightarrow> uuid option" where
  "creator_of py_str p =
     (let s = claim_or p ''sub'' JNull
      in if json_truthy s then (case uuid_of_doc (str_of_json py_str s) of Inr u \<Rightarrow> Some u | Inl e \<Rightarrow> None) else None)"

definition archive_version :: "audit_env \<Rightarrow> int option \<Rightarrow> db \<Rightarrow> db" where
  "archive_version env ver d =
     (let vt = ax_vault env in case ver of None \<Rightarrow> d
      | Some v \<Rightarrow> archive_public_key_if_needed (ax_str env) (vt_http vt) (vt_addr vt) (vt_key vt) v d)"

text \<open>The tables to commit and the anchor; nothing is stored when a step raises.\<close>

definition create_chain_anchor :: "audit_env \<Rightarrow> claims \<Rightarrow> uuid \<Rightarrow> unit result \<Rightarrow> db \<Rightarrow> (db \<times> chain_anchor) result" where
  "create_chain_anchor env p new_id committed d =
     rbind (require_any [''admin''] p) (\<lambda>_.
     rbind (tenant_of_claims p) (\<lambda>t.
       let head = get_latest_chain_hash d t; vt = ax_vault env
       in if head = genesis_hash then Inl (HTTPException 409)
          else rbind (sign_operation_hash (vt_http vt) (vt_addr vt) (vt_key vt) head) (\<lambda>(sig, ver).
            case sig of
              None \<Rightarrow> Inl (HTTPException 503)
            | Some s \<Rightarrow>
                let pem = fst (get_transit_public_key (ax_str env) (vt_http vt) (vt_addr vt) (vt_key vt) ver);
                    d1 = archive_version env ver d
                in rbind (fromhex (lit head)) (\<lambda>raw. rbind (tsa_for env raw) (\<lambda>tsa.
                   rbind (opt_str ''StatementError'' pem) (\<lambda>pem'.
                     let a = \<lparr>an_id = new_id, an_tenant_id = t, an_chain_head_hash = head,
                              an_operations_count = length (sealed_of t d), an_signature = s, an_signing_key_version = ver,
                              an_signing_public_key_pem = pem', an_tsa_token = tsa,
                              an_created_by = creator_of (ax_str env) p, an_created_at = ax_now env\<rparr>
                     in rbind (insert_anchor a d1) (\<lambda>d2. rbind committed (\<lambda>_. Inr (d2, a)))))))))"

section \<open>Lemmas\<close>

lemma require_any_role: "require_any roles p = Inr u \<Longrightarrow> \<exists>role \<in> set roles. has_role role p = Inr True"
  by (induction roles) (auto simp: res_simps split: if_splits)

lemma seal_operation_anchors: "seal_operation se r d = Inr (d', s) \<Longrightarrow> anchors d' = anchors d"
proof -
  have "anchors (archive_public_key_if_needed py_str vh addr key ver d) = anchors d" for py_str vh addr key ver d
    by (auto simp: archive_public_key_if_needed_def split: prod.splits json.splits)
  then show "seal_operation se r d = Inr (d', s) \<Longrightarrow> anchors d' = anchors d"
    by (auto simp: seal_operation_def Let_def res_simps split: option.splits)
qed

lemma archive_more_tables [simp]:
  "anchors (archive_public_key_if_needed py_str vh addr key ver d) = anchors d"
  "tenants (archive_public_key_if_needed py_str vh addr key ver d) = tenants d"
  by (auto simp: archive_public_key_if_needed_def split: prod.splits json.splits)

lemma insert_anchor_wf [inv_intros]: "insert_anchor a d = Inr d' \<Longrightarrow> wf_db d \<Longrightarrow> wf_db d'"
  by (auto simp: insert_anchor_def wf_db_def op_ids_def fd_ids_def finding_ok_def redaction_ok_def artifact_ok_def
      split: if_splits)

lemma latest_chain_hash_cong: "operations d' = operations d \<Longrightarrow> get_latest_chain_hash d' t = get_latest_chain_hash d t"
  by (simp add: get_latest_chain_hash_def sealed_of_def)

lemma get_audit_export_iff:
  "get_audit_export env trace d = Inr (Some e) \<longleftrightarrow>
    (\<exists>r rs tsa pem alg. filter (\<lambda>r. op_trace_id r = trace) (operations d) = r # rs
     \<and> tsa_for env (signable_bytes env trace r d) = Inr tsa
     \<and> \<not> (ax_require_signature env \<and> fst (export_signature env r (signable_bytes env trace r d)) = None)
     \<and> opt_str ''ValidationError'' (fst (export_key env r d (fst (export_signature env r (signable_bytes env trace r d))))) = Inr pem
     \<and> opt_str ''ValidationError'' (snd (export_key env r d (fst (export_signature env r (signable_bytes env trace r d))))) = Inr alg
     \<and> e = export_of env trace r d tsa (export_signature env r (signable_bytes env trace r d)) pem alg)"
  by (auto simp: get_audit_export_def Let_def res_simps split: list.splits if_splits)

text \<open>What the signed text covers does not include the sanitized text, nor any later field of the row.\<close>

lemma signable_sanitized:
  "signable env trace (r\<lparr>op_sanitized_text := t\<rparr>) (update_operation i f d) = signable env trace r d"
  by (simp add: signable_def operation_dict_def findings_of_def redactions_of_def artifacts_of_def)

lemma resolve_archived:
  assumes "wf_db d" and "k \<in> set (signing_keys d)" and "sk_key_version k = v" and "sk_public_key_pem k \<noteq> []"
  shows "resolve_public_key env (Some v) d = (JStr (sk_public_key_pem k), jopt JStr (sk_algorithm k))"
proof -
  have "distinct (map sk_key_version (signing_keys d))" using assms(1) by (simp add: wf_db_def)
  then have "find (\<lambda>x. sk_key_version x = v) (signing_keys d) = Some k"
    using assms(2,3) scalar_unique [of sk_key_version "signing_keys d" v] filter_key_unique [of sk_key_version "signing_keys d" k]
    by (simp add: scalar_one_or_none_def)
  then show ?thesis using assms(4) by (simp add: resolve_public_key_def Let_def)
qed

text \<open>The version named by the token is the one recorded.\<close>

lemma sign_operation_token:
  assumes "fromhex (lit h) = Inr raw" and "0 \<le> n" and "vault_signs vt (vt_key vt) raw (vault_token (version_doc n) b)"
  shows "sign_operation_hash (vt_http vt) (vt_addr vt) (vt_key vt) h = Inr (Some (vault_token (version_doc n) b), Some n)"
proof -
  have "sign_key_version (vault_token (version_doc n) b) = n"
    using vault_token_roundtrip [OF assms(2), of b] assms(2) by (simp add: version_doc_def int_str_def)
  with assms(1,3) show ?thesis
    by (auto simp: sign_operation_hash_def vault_contract sign_payload_def swallow_def)
qed

section \<open>What audit guarantees\<close>

text \<open>
  C17: who gets an export from the audit endpoint and what is in it, as JSON and as SARIF. The endpoint
  answers only for an existing operation with this trace and only to its actor, a reviewer or an
  administrator; the SARIF answer is the rendering of the same export. The HMAC is that of the signed view;
  the export carries a signature when one is required, the one stored at completion whenever there is one
  and says so; and the public key in it is the archived key of the version that signed, when that version
  is archived. (The MCP tool \<open>tool\_audit\<close> hands out the same exports without this check of the caller.)
\<close>
theorem audit_export_guarantees:
  assumes "audit_export_endpoint env p trace fmt d = Inr ans" and "wf_db d"
  shows "\<exists>e. ans = (if fmt = ''sarif'' then Sarif_export (audit_to_sarif e) else Json_export e) \<and> (\<exists>r \<in> set (operations d). op_trace_id r = trace
    \<and> (actor_text (ax_str env) p = lit (uuid_str (op_actor_id r)) \<or> has_role ''reviewer'' p = Inr True \<or> has_role ''admin'' p = Inr True)
    \<and> ae_trace e = trace \<and> ae_findings e = findings_of (op_id r) d
    \<and> ae_hmac e = compute_hmac env (signable env trace r d) \<and> ae_operation e = operation_dict r
    \<and> (ax_require_signature env \<longrightarrow> ae_signature e \<noteq> None)
    \<and> (ae_at_write_time e \<longleftrightarrow> op_event_signature r \<noteq> None)
    \<and> (\<forall>sg. op_event_signature r = Some sg \<longrightarrow> ae_signature e = Some sg)
    \<and> (\<forall>k \<in> set (signing_keys d). op_signing_key_version r = Some (sk_key_version k) \<and> sk_public_key_pem k \<noteq> []
          \<and> ae_signature e \<noteq> None \<longrightarrow> ae_pem e = Some (sk_public_key_pem k)))"
proof -
  from assms(1) obtain e where g: "get_audit_export env trace d = Inr (Some e)"
    and ans: "ans = (if fmt = ''sarif'' then Sarif_export (audit_to_sarif e) else Json_export e)"
    and acc: "dict_get (ae_operation e) (lit ''actor_id'') JNull = JStr (actor_text (ax_str env) p)
       \<or> has_role ''reviewer'' p = Inr True \<or> has_role ''admin'' p = Inr True"
    unfolding audit_export_endpoint_def rbind_Inr_iff by (auto simp: res_simps split: option.splits if_splits)
  from g [unfolded get_audit_export_iff] obtain r rs tsa pem alg where
    r: "filter (\<lambda>r. op_trace_id r = trace) (operations d) = r # rs"
    and q: "\<not> (ax_require_signature env \<and> fst (export_signature env r (signable_bytes env trace r d)) = None)"
    and k: "opt_str ''ValidationError'' (fst (export_key env r d (fst (export_signature env r (signable_bytes env trace r d))))) = Inr pem"
    and e: "e = export_of env trace r d tsa (export_signature env r (signable_bytes env trace r d)) pem alg"
    by (elim exE conjE) (rule that)
  have "r \<in> set (filter (\<lambda>r. op_trace_id r = trace) (operations d))" by (simp add: r)
  then have m: "r \<in> set (operations d)" "op_trace_id r = trace" by simp_all
  have ac: "dict_get (operation_dict r) (lit ''actor_id'') JNull = JStr (lit (uuid_str (op_actor_id r)))"
    by (simp add: operation_dict_def dict_get_def juuid_def jstr_def)
  have sg: "ae_signature e = fst (export_signature env r (signable_bytes env trace r d))" "ae_operation e = operation_dict r"
    "ae_at_write_time e = snd (export_signature env r (signable_bytes env trace r d))" "ae_pem e = pem"
    "ae_hmac e = compute_hmac env (signable env trace r d)" "ae_trace e = trace" "ae_findings e = findings_of (op_id r) d"
    by (simp_all add: e export_of_def)
  have acc': "actor_text (ax_str env) p = lit (uuid_str (op_actor_id r)) \<or> has_role ''reviewer'' p = Inr True \<or> has_role ''admin'' p = Inr True"
    using acc unfolding sg(2) ac by auto
  have key: "\<forall>k \<in> set (signing_keys d). op_signing_key_version r = Some (sk_key_version k) \<and> sk_public_key_pem k \<noteq> []
          \<and> ae_signature e \<noteq> None \<longrightarrow> ae_pem e = Some (sk_public_key_pem k)"
    using k resolve_archived [OF assms(2)] by (auto simp: sg export_key_def)
  show ?thesis
    using m acc' q key ans by (intro exI [of _ e] conjI bexI [of _ r]) (auto simp: sg export_signature_def split: option.splits)
qed

text \<open>
  the sanitized document of an export is not signed. Whoever replaces the sanitized text of an
  operation in the database gets an export with that text, the same HMAC, the same chain hash, the
  same signature and the same key as before.
\<close>
theorem sanitized_document_unsigned:
  assumes "get_audit_export env trace d = Inr (Some e)" and "wf_db d"
  shows "\<exists>r \<in> set (operations d). \<exists>e'. get_audit_export env trace (update_operation (op_id r) (\<lambda>x. x\<lparr>op_sanitized_text := t\<rparr>) d) = Inr (Some e')
    \<and> ae_sanitized e' = t \<and> ae_hmac e' = ae_hmac e \<and> ae_chain_hash e' = ae_chain_hash e
    \<and> ae_signature e' = ae_signature e \<and> ae_pem e' = ae_pem e \<and> ae_tsa e' = ae_tsa e"
proof -
  from assms(1) [unfolded get_audit_export_iff] obtain r rs tsa pem alg where
    r: "filter (\<lambda>r. op_trace_id r = trace) (operations d) = r # rs"
    and ts: "tsa_for env (signable_bytes env trace r d) = Inr tsa"
    and q: "\<not> (ax_require_signature env \<and> fst (export_signature env r (signable_bytes env trace r d)) = None)"
    and k: "opt_str ''ValidationError'' (fst (export_key env r d (fst (export_signature env r (signable_bytes env trace r d))))) = Inr pem"
      "opt_str ''ValidationError'' (snd (export_key env r d (fst (export_signature env r (signable_bytes env trace r d))))) = Inr alg"
    and e: "e = export_of env trace r d tsa (export_signature env r (signable_bytes env trace r d)) pem alg"
    by (elim exE conjE) (rule that)
  let ?f = "\<lambda>x. x\<lparr>op_sanitized_text := t\<rparr>"
  let ?d = "update_operation (op_id r) ?f d" and ?r = "?f r"
  have "r \<in> set (filter (\<lambda>r. op_trace_id r = trace) (operations d))" by (simp add: r)
  then have m: "r \<in> set (operations d)" by simp
  have "filter (\<lambda>x. op_trace_id x = trace) (operations ?d)
      = map (\<lambda>x. if op_id x = op_id r then ?f x else x) (filter (\<lambda>x. op_trace_id x = trace) (operations d))"
    unfolding update_operation_def by (simp add: filter_map o_def if_distrib cong: filter_cong)
  then have r': "filter (\<lambda>x. op_trace_id x = trace) (operations ?d) = ?r # map (\<lambda>x. if op_id x = op_id r then ?f x else x) rs"
    by (simp add: r)
  have sb: "signable_bytes env trace ?r ?d = signable_bytes env trace r d"
    by (simp only: signable_bytes_def signable_sanitized)
  have es: "export_signature env ?r x = export_signature env r x" for x by (simp add: export_signature_def)
  have ek: "export_key env ?r ?d x = export_key env r d x" for x
    unfolding export_key_def resolve_public_key_def update_operation_tables by simp
  have "get_audit_export env trace ?d = Inr (Some (export_of env trace ?r ?d tsa (export_signature env r (signable_bytes env trace r d)) pem alg))"
    unfolding get_audit_export_iff
    by (rule exI [of _ ?r], rule exI, rule exI [of _ tsa], rule exI [of _ pem], rule exI [of _ alg], intro conjI)
      (rule r' | simp only: sb es ek ts q k not_False_eq_True)+
  with m show ?thesis
    by (intro bexI [of _ r] exI conjI) (assumption | simp add: e export_of_def signable_sanitized)+
qed

text \<open>
  C21: an anchor pins the head it was made for. Only an administrator anchors; the anchor holds the
  latest chain hash of the tenant of the token, which is not the genesis hash, a signature made in
  this call, and the number of sealed operations; and as long as nothing is sealed afterwards the
  verification of the same tenant finds it and reports that the head matches. When Vault answered the
  signing with a token for the bytes of the head and accepts this token for these bytes, the verification
  also reports the signature as valid, and as invalid when Vault refuses it.
\<close>
theorem anchor_roundtrip:
  assumes "create_chain_anchor env p new_id committed d = Inr (d', a)" and "wf_db d"
    and "\<forall>b \<in> set (anchors d). an_tenant_id b = an_tenant_id a \<longrightarrow> an_created_at b < ax_now env"
  shows "has_role ''admin'' p = Inr True \<and> tenant_of_claims p = Inr (an_tenant_id a) \<and> wf_db d'
    \<and> an_chain_head_hash a = get_latest_chain_hash d (an_tenant_id a) \<and> an_chain_head_hash a \<noteq> genesis_hash
    \<and> an_operations_count a = length (sealed_of (an_tenant_id a) d)
    \<and> sign_operation_hash (vt_http (ax_vault env)) (vt_addr (ax_vault env)) (vt_key (ax_vault env)) (an_chain_head_hash a)
        = Inr (Some (an_signature a), an_signing_key_version a)
    \<and> operations d' = operations d
    \<and> as_anchored (verify_latest_anchor env2 (an_tenant_id a) d') \<and> as_head_matches (verify_latest_anchor env2 (an_tenant_id a) d') = Some True
    \<and> (\<forall>raw n b. fromhex (lit (an_chain_head_hash a)) = Inr raw \<and> 0 \<le> n
        \<and> vault_signs (ax_vault env) (vt_key (ax_vault env)) raw (vault_token (version_doc n) b) \<longrightarrow>
          an_signature a = vault_token (version_doc n) b \<and> an_signing_key_version a = Some n
        \<and> (vault_accepts (ax_vault env2) (vt_key (ax_vault env2)) raw (vault_token (version_doc n) b) \<longrightarrow>
             as_valid (verify_latest_anchor env2 (an_tenant_id a) d') = Some True)
        \<and> (vault_refuses (ax_vault env2) (vt_key (ax_vault env2)) raw (vault_token (version_doc n) b) \<longrightarrow>
             as_valid (verify_latest_anchor env2 (an_tenant_id a) d') = Some False))"
proof -
  let ?vt = "ax_vault env"
  from assms(1) obtain t sig ver where role: "require_any [''admin''] p = Inr ()" and t: "tenant_of_claims p = Inr t"
    and gen: "get_latest_chain_hash d t \<noteq> genesis_hash"
    and sg: "sign_operation_hash (vt_http ?vt) (vt_addr ?vt) (vt_key ?vt) (get_latest_chain_hash d t) = Inr (Some sig, ver)"
    and d1: "insert_anchor a (archive_version env ver d) = Inr d'"
    and a: "an_tenant_id a = t" "an_chain_head_hash a = get_latest_chain_hash d t" "an_operations_count a = length (sealed_of t d)"
      "an_signature a = sig" "an_signing_key_version a = ver" "an_created_at a = ax_now env"
    unfolding create_chain_anchor_def Let_def rbind_Inr_iff by (auto simp: res_simps split: option.splits if_splits)
  have d1t: "operations (archive_version env ver d) = operations d" "anchors (archive_version env ver d) = anchors d"
    "wf_db (archive_version env ver d)"
    using assms(2) by (auto simp: archive_version_def Let_def intro: archive_wf split: option.splits)
  have d': "d' = (archive_version env ver d)\<lparr>anchors := anchors d @ [a]\<rparr>" using d1 d1t by (auto simp: insert_anchor_def split: if_splits)
  have ops: "operations d' = operations d" by (simp add: d' d1t)
  have latest: "latest_by an_created_at (filter (\<lambda>b. an_tenant_id b = t) (anchors d')) = Some a"
    using assms(3) a by (intro latest_by_unique) (auto simp: d')
  then have v: "as_anchored (verify_latest_anchor env2 t d')" "as_head_matches (verify_latest_anchor env2 t d') = Some True"
    using a latest_chain_hash_cong [OF ops, of t] by (simp_all add: verify_latest_anchor_def Let_def)
  have valid: "sig = vault_token (version_doc n) b \<and> ver = Some n
      \<and> (vault_accepts (ax_vault env2) (vt_key (ax_vault env2)) raw (vault_token (version_doc n) b) \<longrightarrow>
           as_valid (verify_latest_anchor env2 t d') = Some True)
      \<and> (vault_refuses (ax_vault env2) (vt_key (ax_vault env2)) raw (vault_token (version_doc n) b) \<longrightarrow>
           as_valid (verify_latest_anchor env2 t d') = Some False)"
    if "fromhex (lit (get_latest_chain_hash d t)) = Inr raw" "0 \<le> n"
      "vault_signs ?vt (vt_key ?vt) raw (vault_token (version_doc n) b)" for raw n b
  proof -
    have s: "sig = vault_token (version_doc n) b" "ver = Some n"
      using sign_operation_token [OF that] sg by simp_all
    have k: "key_for vt None = vt_key vt" for vt by (simp add: key_for_def)
    have av: "as_valid (verify_latest_anchor env2 t d') =
        Some (json_truthy (verify_signature (ax_vault env2) raw sig None (case ver of Some v \<Rightarrow> if v = 0 then 1 else v | None \<Rightarrow> 1)))"
      using latest a that(1) by (simp add: verify_latest_anchor_def Let_def swallow_def)
    have "full_token sig m = sig" for m
      unfolding s by (simp add: full_token_def vault_token_def starts_with_def)
    then show ?thesis
      using verify_accepted [of "ax_vault env2" None raw sig] verify_refused [of "ax_vault env2" None raw sig]
      unfolding av by (simp add: k s(1)) (simp add: s(2))
  qed
  have "has_role ''admin'' p = Inr True" using require_any_role [OF role] by simp
  moreover have "wf_db d'" using d1 d1t(3) by (rule insert_anchor_wf)
  moreover have "\<forall>raw n b. fromhex (lit (get_latest_chain_hash d t)) = Inr raw \<and> 0 \<le> n
      \<and> vault_signs ?vt (vt_key ?vt) raw (vault_token (version_doc n) b) \<longrightarrow>
        sig = vault_token (version_doc n) b \<and> ver = Some n
      \<and> (vault_accepts (ax_vault env2) (vt_key (ax_vault env2)) raw (vault_token (version_doc n) b) \<longrightarrow>
           as_valid (verify_latest_anchor env2 t d') = Some True)
      \<and> (vault_refuses (ax_vault env2) (vt_key (ax_vault env2)) raw (vault_token (version_doc n) b) \<longrightarrow>
           as_valid (verify_latest_anchor env2 t d') = Some False)"
    using valid by blast
  ultimately show ?thesis unfolding a using t gen sg ops v by (intro conjI) simp_all
qed

text \<open>
  an anchor cries wolf. After an anchor that matches, sealing one more operation in the ordinary
  way makes the verification report that the head no longer matches, which it documents as the mark
  of a rewritten chain.
\<close>
theorem anchor_flags_honest_append:
  assumes "as_head_matches (verify_latest_anchor env t d) = Some True"
    and "seal_operation se r d = Inr (d', s)" and "op_tenant_id r = t" and "r \<in> set (operations d)" and "wf_db d"
    and "\<forall>x \<in> set (sealed_of t d). op_id x \<noteq> op_id r \<and> op_created_at x < op_created_at r"
    and "sl_chain_hash s \<noteq> get_latest_chain_hash d t" and "sl_chain_hash s \<noteq> []"
  shows "as_head_matches (verify_latest_anchor env t d') = Some False \<and> as_anchored (verify_latest_anchor env t d')"
proof -
  obtain sk where "operations d' = map (\<lambda>x. if op_id x = op_id r
      then seal_row se (compute_chain_hash (se_sha se) (get_latest_chain_hash d (op_tenant_id r)) (op_hash (se_sha se) r)) sk x
      else x) (operations d)"
    and "sl_chain_hash s = compute_chain_hash (se_sha se) (get_latest_chain_hash d (op_tenant_id r)) (op_hash (se_sha se) r)"
    using seal_operation_rows [OF assms(2)] by blast
  then have ops: "operations d' = map (\<lambda>x. if op_id x = op_id r then seal_row se (sl_chain_hash s) sk x else x) (operations d)"
    by simp
  let ?r = "seal_row se (sl_chain_hash s) sk r"
  have rr: "x = r" if "x \<in> set (operations d)" "op_id x = op_id r" for x
    using that assms(4,5) by (auto simp: wf_db_def distinct_map dest: inj_onD)
  have in': "?r \<in> set (sealed_of t d')" using assms(3,4) by (auto simp: sealed_of_def ops)
  have others: "y \<in> set (sealed_of t d)" if "y \<in> set (sealed_of t d')" "y \<noteq> ?r" for y
    using that rr by (auto simp: sealed_of_def ops split: if_splits)
  have "latest_by op_created_at (sealed_of t d') = Some ?r"
    using in' others assms(6) by (intro latest_by_unique) auto
  then have h: "get_latest_chain_hash d' t = sl_chain_hash s" using assms(8) by (simp add: get_latest_chain_hash_def)
  have an: "anchors d' = anchors d" using assms(2) by (rule seal_operation_anchors)
  show ?thesis
    using assms(1,7) h
    by (cases "latest_by an_created_at (filter (\<lambda>a. an_tenant_id a = t) (anchors d))")
      (simp_all add: verify_latest_anchor_def an Let_def del: latest_by_None)
qed

text \<open>
  A SARIF result names the detector as its rule and starts at the offset of the finding, so a
  finding at the start of the document is in column 0, which SARIF numbers from 1.
\<close>

lemma sarif_results:
  "map sf_rule (so_results (audit_to_sarif e)) = map detector (ae_findings e)"
  "map sf_start_column (so_results (audit_to_sarif e)) = map span_start (ae_findings e)"
  by (simp_all add: audit_to_sarif_def)

section \<open>Witnesses\<close>

definition sample_audit :: audit_env where
  "sample_audit = \<lparr>ax_sha = sha256, ax_secret = [1], ax_float = (\<lambda>q. []), ax_dt = isoformat, ax_str = (\<lambda>j. []), ax_now = 100,
     ax_tsa_enabled = False, ax_tsa_post = (\<lambda>u b. Inl (PyExc ''ConnectError'')), ax_tsa_url = [],
     ax_vault = sample_transit, ax_require_signature = True\<rparr>"

definition signed_op :: operation where
  "signed_op = sealed_sample\<lparr>op_event_signature := Some [65], op_signing_key_version := Some 2\<rparr>"

definition signed_db :: db where
  "signed_db = (db_with [signed_op])\<lparr>signing_keys := [\<lparr>sk_key_version = 2, sk_public_key_pem = [80], sk_algorithm = None\<rparr>]\<rparr>"

lemma signed_db_wf: "wf_db signed_db"
  by (simp add: wf_db_def signed_db_def db_with_def empty_db_def sample_tenant_def)

lemma signed_db_row: "filter (\<lambda>r. op_trace_id r = 1) (operations signed_db) = [signed_op]"
  by (simp add: signed_db_def signed_op_def sealed_sample_def)

lemma sample_audit_export:
  "\<exists>e. get_audit_export sample_audit 1 signed_db = Inr (Some e)"
proof -
  have x: "export_signature sample_audit signed_op b = (Some [65], True)" for b
    by (simp add: export_signature_def signed_op_def)
  have k: "export_key sample_audit signed_op signed_db (Some [65]) = (JStr [80], JNull)"
    by (simp add: export_key_def signed_op_def resolve_public_key_def signed_db_def jopt_def)
  have t: "tsa_for sample_audit b = Inr None" for b by (simp add: tsa_for_def sample_audit_def)
  show ?thesis
    unfolding get_audit_export_iff signed_db_row
    by (intro exI conjI, rule refl, rule t) (simp_all add: x k)
qed

lemma audit_export_guarantees_witness:
  "\<exists>e. audit_export_endpoint sample_audit admin_claims 1 ''sarif'' signed_db = Inr (Sarif_export (audit_to_sarif e))
     \<and> audit_export_endpoint sample_audit admin_claims 1 ''json'' signed_db = Inr (Json_export e)
     \<and> ae_at_write_time e \<and> ae_signature e = Some [65] \<and> ae_pem e = Some [80]"
proof -
  obtain e where g: "get_audit_export sample_audit 1 signed_db = Inr (Some e)" using sample_audit_export by blast
  have rv: "has_role ''reviewer'' admin_claims = Inr False"
    by (simp add: has_role_def get_roles_def admin_claims_def claim_or_def dict_get_def jstr_def)
  then have a: "audit_export_endpoint sample_audit admin_claims 1 ''json'' signed_db = Inr (Json_export e)"
    and b: "audit_export_endpoint sample_audit admin_claims 1 ''sarif'' signed_db = Inr (Sarif_export (audit_to_sarif e))"
    by (simp_all add: audit_export_endpoint_def g)
  obtain e' where "Json_export e = (if ''json'' = ''sarif'' then Sarif_export (audit_to_sarif e') else Json_export e')"
    and rs: "\<exists>r \<in> set (operations signed_db). (ae_at_write_time e' \<longleftrightarrow> op_event_signature r \<noteq> None) \<and> (\<forall>sg. op_event_signature r = Some sg \<longrightarrow> ae_signature e' = Some sg)
    \<and> (\<forall>k \<in> set (signing_keys signed_db). op_signing_key_version r = Some (sk_key_version k) \<and> sk_public_key_pem k \<noteq> []
          \<and> ae_signature e' \<noteq> None \<longrightarrow> ae_pem e' = Some (sk_public_key_pem k))"
    using audit_export_guarantees [OF a signed_db_wf] by blast
  then have "e' = e" by simp
  from rs [unfolded this] obtain r where r: "r \<in> set (operations signed_db)"
    "ae_at_write_time e \<longleftrightarrow> op_event_signature r \<noteq> None" "\<forall>sg. op_event_signature r = Some sg \<longrightarrow> ae_signature e = Some sg"
    "\<forall>k \<in> set (signing_keys signed_db). op_signing_key_version r = Some (sk_key_version k) \<and> sk_public_key_pem k \<noteq> []
          \<and> ae_signature e \<noteq> None \<longrightarrow> ae_pem e = Some (sk_public_key_pem k)"
    by (elim bexE conjE) (rule that)
  then have ro: "r = signed_op" by (simp add: signed_db_def)
  have f: "op_event_signature signed_op = Some [65]" "op_signing_key_version signed_op = Some 2" by (simp_all add: signed_op_def)
  have "ae_signature e = Some [65]" using r(3) ro f by simp
  with r ro f a b show ?thesis by (auto simp: signed_db_def)
qed

lemma sanitized_document_unsigned_witness:
  "\<exists>e e'. get_audit_export sample_audit 1 signed_db = Inr (Some e)
     \<and> get_audit_export sample_audit 1 (update_operation (op_id signed_op) (\<lambda>x. x\<lparr>op_sanitized_text := Some [66]\<rparr>) signed_db) = Inr (Some e')
     \<and> ae_sanitized e' = Some [66] \<and> ae_hmac e' = ae_hmac e \<and> ae_signature e' = ae_signature e"
proof -
  obtain e where g: "get_audit_export sample_audit 1 signed_db = Inr (Some e)" using sample_audit_export by blast
  have ops: "set (operations signed_db) = {signed_op}" by (simp add: signed_db_def)
  from sanitized_document_unsigned [OF g signed_db_wf, of "Some [66]"] g show ?thesis unfolding ops by blast
qed

definition anchored_op :: operation where
  "anchored_op = (sample_op 1 10)\<lparr>op_chain_hash := Some ''ab''\<rparr>"

lemma anchored_op_simps [simp]:
  "op_id anchored_op = 1" "op_tenant_id anchored_op = 7" "op_created_at anchored_op = 10" "op_chain_hash anchored_op = Some ''ab''"
  by (simp_all add: anchored_op_def)

lemma anchored_head: "operations d = anchored_op # rs \<Longrightarrow> \<forall>r \<in> set rs. op_chain_hash r = None \<Longrightarrow>
    sealed_of 7 d = [anchored_op] \<and> get_latest_chain_hash d 7 = ''ab''"
  by (simp add: sealed_of_def get_latest_chain_hash_def latest_by_def sorted_by_desc_def)

lemma sample_transit_answers:
  "\<exists>s v. sign_operation_hash (vt_http sample_transit) (vt_addr sample_transit) (vt_key sample_transit) ''ab'' = Inr (Some s, Some v)"
  "get_transit_public_key f (vt_http sample_transit) (vt_addr sample_transit) (vt_key sample_transit) v = (JNull, JNull)"
  by (simp_all add: sign_operation_hash_def get_transit_public_key_def sample_transit_def starts_with_def resp_json_def dict_get_def
      swallow_def hex_value_def hex_blank_def)

lemma sample_anchor_made:
  "\<exists>d' a. create_chain_anchor sample_audit admin_claims 70 (Inr ()) (db_with [anchored_op]) = Inr (d', a) \<and> an_tenant_id a = 7"
proof -
  have h: "get_latest_chain_hash (db_with [anchored_op]) 7 = ''ab''" using anchored_head [of "db_with [anchored_op]" "[]"] by simp
  have "length genesis_hash \<noteq> length ''ab''" by (simp add: genesis_hash_def)
  then have g: "genesis_hash \<noteq> ''ab''" by metis
  have role: "require_any [''admin''] admin_claims = Inr ()" by simp
  have v: "ax_vault sample_audit = sample_transit" by (simp add: sample_audit_def)
  obtain sg ver where sign: "sign_operation_hash (vt_http sample_transit) (vt_addr sample_transit) (vt_key sample_transit) ''ab'' = Inr (Some sg, Some ver)"
    using sample_transit_answers(1) by blast
  have arch: "archive_version sample_audit x (db_with [anchored_op]) = db_with [anchored_op]" for x
    by (simp add: archive_version_def archive_public_key_if_needed_def v sample_transit_answers(2) split: option.splits)
  have ts: "tsa_for sample_audit b = Inr None" for b by (simp add: tsa_for_def sample_audit_def)
  have raw: "fromhex [97, 98] = Inr [171]" by (simp add: hex_value_def hex_blank_def)
  have ins: "an_tenant_id a = 7 \<Longrightarrow> \<exists>d'. insert_anchor a (db_with [anchored_op]) = Inr d'" for a
    by (simp add: insert_anchor_def db_with_def empty_db_def sample_tenant_def)
  show ?thesis
    unfolding create_chain_anchor_def role admin_claims_ids(2) rbind.simps Let_def h v sign
    using g ins by (simp add: raw ts arch sample_transit_answers(2) split_beta res_simps del: fromhex.simps)
qed

lemma anchor_roundtrip_witness:
  "\<exists>d' a. create_chain_anchor sample_audit admin_claims 70 (Inr ()) (db_with [anchored_op]) = Inr (d', a)
     \<and> an_chain_head_hash a = ''ab'' \<and> an_operations_count a = 1 \<and> an_signing_key_version a = Some 2
     \<and> verify_latest_anchor sample_audit 7 d' = \<lparr>as_anchored = True, as_valid = Some True, as_head_matches = Some True\<rparr>"
proof -
  obtain d' a where c: "create_chain_anchor sample_audit admin_claims 70 (Inr ()) (db_with [anchored_op]) = Inr (d', a)"
    and t: "an_tenant_id a = 7" using sample_anchor_made by blast
  have w: "wf_db (db_with [anchored_op])" by (rule db_with_wf) simp
  have n: "\<forall>b \<in> set (anchors (db_with [anchored_op])). an_tenant_id b = an_tenant_id a \<longrightarrow> an_created_at b < ax_now sample_audit"
    by (simp add: db_with_def empty_db_def)
  have h: "sealed_of 7 (db_with [anchored_op]) = [anchored_op]" "get_latest_chain_hash (db_with [anchored_op]) 7 = ''ab''"
    using anchored_head [of "db_with [anchored_op]" "[]"] by simp_all
  note p = anchor_roundtrip [OF c w n, of sample_audit, unfolded t h]
  have head: "an_chain_head_hash a = ''ab''" using p by blast
  have raw: "fromhex (lit (an_chain_head_hash a)) = Inr [171]" by (simp add: head hex_value_def hex_blank_def)
  have x: "ax_vault sample_audit = sample_transit" "key_for sample_transit None = vt_key sample_transit"
    by (simp_all add: sample_audit_def key_for_def)
  have vault: "vault_signs (ax_vault sample_audit) (vt_key (ax_vault sample_audit)) [171] (vault_token (version_doc 2) [65, 66])"
    "vault_accepts (ax_vault sample_audit) (vt_key (ax_vault sample_audit)) [171] (vault_token (version_doc 2) [65, 66])"
    using sample_transit_contract [of "[171]"] unfolding x by (simp_all add: transit_answers_def)
  have "an_signing_key_version a = Some 2 \<and> as_valid (verify_latest_anchor sample_audit 7 d') = Some True"
    using p raw vault zero_le_numeral by blast
  moreover have "as_anchored (verify_latest_anchor sample_audit 7 d')" "as_head_matches (verify_latest_anchor sample_audit 7 d') = Some True"
    "an_operations_count a = 1" using p by simp_all
  ultimately show ?thesis using c head by (intro exI [of _ d'] exI [of _ a]) simp
qed

definition sample_anchor :: chain_anchor where
  "sample_anchor = \<lparr>an_id = 70, an_tenant_id = 7, an_chain_head_hash = ''ab'', an_operations_count = 1, an_signature = [65],
     an_signing_key_version = Some 2, an_signing_public_key_pem = None, an_tsa_token = None, an_created_by = None,
     an_created_at = 15\<rparr>"

definition anchored_db :: db where
  "anchored_db = (db_with [anchored_op, sample_op 2 20])\<lparr>anchors := [sample_anchor]\<rparr>"

lemma anchor_flags_honest_append_witness:
  "as_head_matches (verify_latest_anchor sample_audit 7 anchored_db) = Some True
   \<and> (\<exists>d' s. seal_operation no_vault (sample_op 2 20) anchored_db = Inr (d', s)
        \<and> as_head_matches (verify_latest_anchor sample_audit 7 d') = Some False)"
proof -
  have ops: "operations anchored_db = [anchored_op, sample_op 2 20]" by (simp add: anchored_db_def)
  have h: "sealed_of 7 anchored_db = [anchored_op]" "get_latest_chain_hash anchored_db 7 = ''ab''"
    using anchored_head [OF ops] by simp_all
  have "latest_by an_created_at (filter (\<lambda>a. an_tenant_id a = 7) (anchors anchored_db)) = Some sample_anchor"
    by (simp add: anchored_db_def sample_anchor_def latest_by_def sorted_by_desc_def)
  then have m: "as_head_matches (verify_latest_anchor sample_audit 7 anchored_db) = Some True"
    using h by (simp add: verify_latest_anchor_def Let_def sample_anchor_def)
  obtain d' s where s: "seal_operation no_vault (sample_op 2 20) anchored_db = Inr (d', s)" using no_vault_seals by blast
  have w: "wf_db anchored_db" using db_with_wf [of "[anchored_op, sample_op 2 20]"]
    by (simp add: anchored_db_def wf_db_def finding_ok_def redaction_ok_def artifact_ok_def op_ids_def fd_ids_def)
  obtain x where "sl_chain_hash s = sha256 x"
    using seal_operation_rows [OF s] by (auto simp: compute_chain_hash_def no_vault_def)
  then have l: "length (sl_chain_hash s) = 64" by (simp add: length_sha256)
  then have ne: "sl_chain_hash s \<noteq> get_latest_chain_hash anchored_db 7" "sl_chain_hash s \<noteq> []" using h by auto
  from anchor_flags_honest_append [OF m s _ _ w _ ne] m s h ops show ?thesis by auto
qed

end
