(* ===== verification/Compliance.thy ===== *)
theory Compliance
  imports Audit_Api
begin

text \<open>
  Compliance reports (\<open>api/v1/compliance.py\<close>, \<open>schemas/compliance.py\<close>): the controls of three
  frameworks, the statements of evidence built from the settings and from counts of operations, the
  evaluation of a control and the report with its score. A dash in one statement is written as a hyphen.
\<close>

section \<open>Frameworks\<close>

datatype framework = Soc2 | Iso27001 | Gdpr

record control_template =
  ct_id :: string
  ct_name :: string
  ct_description :: string
  ct_keys :: "string list"

definition control :: "string \<Rightarrow> string \<Rightarrow> string \<Rightarrow> string list \<Rightarrow> control_template" where
  "control i n d ks = \<lparr>ct_id = i, ct_name = n, ct_description = d, ct_keys = ks\<rparr>"

definition soc2_controls :: "control_template list" where
  "soc2_controls =
    [control ''CC6.1'' ''Logical and Physical Access Controls''
       ''The entity implements logical access security software, infrastructure, and architectures over protected information assets.''
       [''auth_oidc'', ''mfa_enforced'', ''rbac_roles''],
     control ''CC6.6'' ''System Boundary Protection''
       ''The entity implements logical access security measures to protect against threats from sources outside its system boundaries.''
       [''rate_limiting'', ''input_validation'', ''opa_policies''],
     control ''CC7.2'' ''Security Event Monitoring''
       ''The entity monitors system components for anomalies indicative of malicious acts and natural disasters.''
       [''structured_logging'', ''audit_trail'', ''siem_integration''],
     control ''CC8.1'' ''Change Management''
       ''The entity authorizes, designs, develops, configures, documents, tests, approves, and implements changes.''
       [''ci_pipeline'', ''sbom_signed'', ''policy_versioning''],
     control ''CC9.1'' ''Risk Mitigation''
       ''The entity identifies, selects, and develops risk mitigation activities.''
       [''pii_detection'', ''sanitization'', ''segregation_of_duties'']]"

definition iso27001_controls :: "control_template list" where
  "iso27001_controls =
    [control ''A.8.2'' ''Information Classification''
       ''Information shall be classified in terms of legal requirements, value, criticality and sensitivity.''
       [''severity_classification'', ''finding_categories'', ''opa_policies''],
     control ''A.8.11'' ''Data Masking''
       (''Data masking shall be applied in accordance with the organization'' @ CHR 0x27 # ''s topic-specific policy on access control.'')
       [''sanitization'', ''redaction_types'', ''pii_detection''],
     control ''A.8.15'' ''Logging''
       ''Logs that record activities, exceptions, faults and other relevant events shall be produced, stored, protected and analysed.''
       [''structured_logging'', ''audit_trail'', ''worm_retention''],
     control ''A.8.24'' ''Use of Cryptography''
       ''Rules for the effective use of cryptography shall be defined and implemented.''
       [''hmac_signing'', ''vault_transit'', ''tsa_timestamps'', ''chain_hash''],
     control ''A.5.34'' ''Privacy and Protection of PII''
       ''The organization shall identify and meet the requirements regarding the preservation of privacy and protection of PII.''
       [''pii_detection'', ''gdpr_retention'', ''deletion_certificates'']]"

definition gdpr_controls :: "control_template list" where
  "gdpr_controls =
    [control ''Art.5.1.b'' ''Purpose Limitation''
       ''Personal data collected for specified, explicit and legitimate purposes.''
       [''trace_id_tracking'', ''actor_id_attribution'', ''policy_versioning''],
     control ''Art.5.1.e'' ''Storage Limitation''
       ''Personal data kept in a form which permits identification for no longer than necessary.''
       [''retention_policy'', ''gdpr_retention'', ''deletion_certificates''],
     control ''Art.25'' ''Data Protection by Design''
       ''Implementation of appropriate technical and organisational measures for data protection.''
       [''pii_detection'', ''sanitization'', ''opa_policies'', ''encryption''],
     control ''Art.30'' ''Records of Processing Activities''
       ''Each controller shall maintain a record of processing activities.''
       [''audit_trail'', ''operation_records'', ''tenant_isolation''],
     control ''Art.32'' ''Security of Processing''
       ''Implement appropriate technical and organisational measures to ensure security.''
       [''auth_oidc'', ''mfa_enforced'', ''vault_transit'', ''rls_isolation'']]"

fun framework_template :: "framework \<Rightarrow> control_template list" where
  "framework_template Soc2 = soc2_controls"
| "framework_template Iso27001 = iso27001_controls"
| "framework_template Gdpr = gdpr_controls"

fun framework_version :: "framework \<Rightarrow> string" where
  "framework_version Soc2 = ''SOC 2 Type II (2017)''"
| "framework_version Iso27001 = ''ISO/IEC 27001:2022''"
| "framework_version Gdpr = ''GDPR (EU 2016/679)''"

section \<open>Evidence\<close>

record compliance_settings =
  cs_realm :: string
  cs_mfa :: bool
  cs_rpm :: int
  cs_policy_path :: string
  cs_transit_key :: string
  cs_tsa :: bool

record operation_counts =
  oc_ops :: nat
  oc_completed :: nat
  oc_chained :: nat

definition count_operations :: "uuid \<Rightarrow> instant \<Rightarrow> db \<Rightarrow> operation_counts" where
  "count_operations t cutoff d =
     (let recent = (\<lambda>r. op_tenant_id r = t \<and> op_created_at r \<ge> cutoff)
      in \<lparr>oc_ops = length (filter recent (operations d)),
          oc_completed = length (filter (\<lambda>r. recent r \<and> op_status r \<in> {COMPLETED, APPROVED}) (operations d)),
          oc_chained = length (filter (\<lambda>r. op_tenant_id r = t \<and> op_chain_hash r \<noteq> None) (operations d))\<rparr>)"

definition evidence_statements :: "compliance_settings \<Rightarrow> operation_counts \<Rightarrow> (string \<times> string list) list" where
  "evidence_statements s n =
     [(''auth_oidc'',
       [''OIDC authentication via Keycloak JWT validation'',
        ''Keycloak realm: '' @ cs_realm s]),
      (''mfa_enforced'',
       [''MFA enforcement: '' @ (if cs_mfa s then ''enabled'' else ''disabled''),
        ''MFA method: TOTP (amr claim verification)'']),
      (''rbac_roles'',
       [''Role-based access control via JWT realm_access.roles'',
        ''Roles: admin, reviewer, viewer (enforced per endpoint)'',
        ''Segregation of duties: self-approval prohibited'']),
      (''rate_limiting'',
       [''MCP rate limit: '' @ int_str (cs_rpm s) @ '' RPM per client'',
        ''Redis-backed sliding window rate limiter'',
        ''Per-tenant document size and daily scan quotas'']),
      (''input_validation'',
       [''Pydantic schema validation on all API inputs'',
        ''Max document size: '' @ int_str 10 @ '' MB'']),
      (''opa_policies'',
       [''OPA/Rego policy evaluation for every scan decision'',
        ''Policy-versioned decisions with full audit trail'',
        ''OPA endpoint: configured (path: '' @ cs_policy_path s @ '')'']),
      (''structured_logging'',
       [''Structured JSON logging via structlog'',
        ''All operations include trace_id, actor_id, policy_version'']),
      (''audit_trail'',
       [''Total operations in period: '' @ nat_str (int (oc_ops n)),
        ''Completed operations with full audit: '' @ nat_str (int (oc_completed n)),
        ''HMAC-SHA256 signed audit exports'',
        ''Immutable PostgreSQL records (source of truth per ADR-001)'']),
      (''siem_integration'',
       [''CEF-format event export for SIEM integration'',
        ''Configurable webhook destinations per tenant'']),
      (''ci_pipeline'',
       [''GitHub Actions CI with lint, test, OPA policy, and recall gates'',
        ''Mandatory secret scanning in CI pipeline'']),
      (''sbom_signed'',
       [''CycloneDX SBOM generated for API and UI on every release'',
        ''SBOMs signed with cosign (keyless OIDC)'']),
      (''policy_versioning'',
       [''OPA policy versioned and tracked in audit records'',
        ''Policy changes tracked via git and CI tests'']),
      (''pii_detection'',
       [''Multi-engine PII detection (regex + spaCy NER + Presidio)'',
        ''Operations processed: '' @ nat_str (int (oc_ops n))]),
      (''sanitization'',
       [''Automated redaction with span-merging to prevent corruption'',
        ''Redaction types: mask, remove, replace'']),
      (''redaction_types'',
       [''Three redaction modes: mask ([REDACTED]), remove, replace'',
        ''Each redaction linked to finding with full provenance'']),
      (''segregation_of_duties'',
       [''Self-approval prohibited (check_self_approval enforcement)'',
        ''Reviewer role required for finding approval'']),
      (''hmac_signing'',
       [''HMAC-SHA256 signing of all audit exports'',
        ''Verification key hint exposed via /v1/audit/verification-key'']),
      (''vault_transit'',
       [''OpenBao Transit engine key: '' @ cs_transit_key s,
        ''ECDSA-P256 digital signatures on audit evidence'']),
      (''tsa_timestamps'',
       [''RFC 3161 TSA: '' @ (if cs_tsa s then ''enabled'' else ''disabled''),
        ''Non-repudiation timestamps on audit exports'']),
      (''chain_hash'',
       [''Operations with chain hash: '' @ nat_str (int (oc_chained n)),
        ''SHA-256 linked chain for tamper detection'',
        ''Chain verification endpoint: GET /v1/audit/chain/verify'']),
      (''encryption'',
       [''TLS in transit (Ingress TLS termination)'',
        ''OpenBao Transit for signing at rest'']),
      (''severity_classification'',
       [''Four severity levels: low, medium, high, critical'',
        ''Configurable per-tenant severity overrides via OPA'']),
      (''finding_categories'',
       [''Entity types: API_KEY, JWT, PASSWORD, SSN, EMAIL, PHONE, etc.'',
        ''Confidence scores (0.0-1.0) per finding'']),
      (''retention_policy'',
       [''Configurable retention periods per tenant'',
        ''Automated purge job for expired operations'']),
      (''gdpr_retention'',
       [''GDPR-compliant retention with automatic purge'',
        ''Signed deletion certificates for audit trail'']),
      (''deletion_certificates'',
       [''HMAC-signed deletion certificates generated on purge'',
        ''Certificates stored in WORM storage for 7 years'']),
      (''worm_retention'',
       [''MinIO Object Lock (GOVERNANCE mode) for audit evidence'',
        ''Default retention: 2555 days (7 years)'']),
      (''tenant_isolation'',
       [''PostgreSQL Row-Level Security per tenant'',
        ''SET LOCAL app.current_tenant_id (transaction-scoped)'']),
      (''rls_isolation'',
       [''RLS policies on operations, findings, redactions, artifacts, waivers'',
        ''Force RLS enabled - bypassed only by superuser'']),
      (''operation_records'',
       [''Total processing records in period: '' @ nat_str (int (oc_ops n)),
        ''Each record includes: actor, timestamp, policy, decision, trace_id'']),
      (''trace_id_tracking'',
       [''UUID trace_id on every operation'',
        ''Full audit export by trace_id: GET /v1/audit/{trace_id}'']),
      (''actor_id_attribution'',
       [''JWT sub claim extracted as actor_id'',
        ''Actor type classification: human, mcp_agent, pipeline''])]"

definition gather_evidence :: "compliance_settings \<Rightarrow> instant \<Rightarrow> uuid \<Rightarrow> int \<Rightarrow> db \<Rightarrow> (string \<times> string list) list" where
  "gather_evidence s now t days d = evidence_statements s (count_operations t (now - days * usec_per_day) d)"

section \<open>Evaluation\<close>

datatype control_status = Met | Partial | Not_met | Not_applicable

record control_evidence =
  ce_id :: string
  ce_name :: string
  ce_description :: string
  ce_status :: control_status
  ce_evidence :: "string list"

text \<open>The loop over the keys counts those with evidence and collects the statements.\<close>

fun collect_evidence :: "(string \<times> string list) list \<Rightarrow> string list \<Rightarrow> nat \<times> string list \<Rightarrow> nat \<times> string list" where
  "collect_evidence ev [] acc = acc"
| "collect_evidence ev (k # ks) acc =
     (let items = dict_get ev k []
      in collect_evidence ev ks (if items \<noteq> [] then (fst acc + 1, snd acc @ items) else acc))"

definition evaluate_control :: "(string \<times> string list) list \<Rightarrow> control_template \<Rightarrow> control_evidence" where
  "evaluate_control ev c =
     (let (n, all) = collect_evidence ev (ct_keys c) (0, [])
      in \<lparr>ce_id = ct_id c, ce_name = ct_name c, ce_description = ct_description c,
          ce_status = (if n = length (ct_keys c) then Met else if n > 0 then Partial else Not_met), ce_evidence = all\<rparr>)"

record compliance_summary =
  su_total :: nat
  su_met :: nat
  su_partial :: nat
  su_not_met :: nat
  su_not_applicable :: nat
  su_score :: rat

record compliance_report =
  rp_report_id :: uuid
  rp_framework :: framework
  rp_version :: string
  rp_generated :: instant
  rp_tenant :: string
  rp_period_start :: instant
  rp_period_end :: instant
  rp_controls :: "control_evidence list"
  rp_summary :: compliance_summary
  rp_metadata :: "(doc \<times> json) list"

text \<open>\<open>round(score, 3)\<close>: half to even.\<close>

definition round3 :: "rat \<Rightarrow> rat" where
  "round3 x = (let y = x * 1000; n = \<lfloor>y\<rfloor>; r = y - of_int n
     in of_int (if r < 1 / 2 then n else if r > 1 / 2 then n + 1 else if even n then n else n + 1) / 1000)"

definition summarize :: "control_evidence list \<Rightarrow> compliance_summary" where
  "summarize cs =
     (let count = (\<lambda>v. length (filter (\<lambda>c. ce_status c = v) cs));
          score = (of_nat (count Met) + of_nat (count Partial) * (1 / 2)) / of_int (max (int (length cs) - int (count Not_applicable)) 1)
      in \<lparr>su_total = length cs, su_met = count Met, su_partial = count Partial, su_not_met = count Not_met,
          su_not_applicable = count Not_applicable, su_score = round3 score\<rparr>)"

definition generate_compliance_report ::
  "compliance_settings \<Rightarrow> instant \<Rightarrow> instant \<Rightarrow> uuid \<Rightarrow> framework \<Rightarrow> uuid \<Rightarrow> int \<Rightarrow> db \<Rightarrow> compliance_report" where
  "generate_compliance_report s gathered now new_id fw t days d =
     (let controls = map (evaluate_control (gather_evidence s gathered t days d)) (framework_template fw)
      in \<lparr>rp_report_id = new_id, rp_framework = fw, rp_version = framework_version fw, rp_generated = now, rp_tenant = uuid_str t,
          rp_period_start = now - days * usec_per_day, rp_period_end = now, rp_controls = controls, rp_summary = summarize controls,
          rp_metadata = [(lit ''safecontext_version'', jstr ''1.1.0''), (lit ''period_days'', JInt days)]\<rparr>)"

definition compliance_report_endpoint ::
  "compliance_settings \<Rightarrow> instant \<Rightarrow> instant \<Rightarrow> uuid \<Rightarrow> claims \<Rightarrow> framework \<Rightarrow> int \<Rightarrow> db \<Rightarrow> compliance_report result" where
  "compliance_report_endpoint s gathered now new_id p fw days d =
     (if \<not> (1 \<le> days \<and> days \<le> 365) then Inl unprocessable
      else rbind (require_any [''admin'', ''reviewer''] p) (\<lambda>_.
           rbind (tenant_of_claims p) (\<lambda>t. Inr (generate_compliance_report s gathered now new_id fw t days d))))"

section \<open>What a report says\<close>

definition evidenced :: "(string \<times> string list) list \<Rightarrow> string \<Rightarrow> bool" where
  "evidenced ev k \<longleftrightarrow> dict_get ev k [] \<noteq> []"

lemma collect_evidence_spec:
  "collect_evidence ev ks (n, es) = (n + length (filter (evidenced ev) ks), es @ concat (map (\<lambda>k. dict_get ev k []) ks))"
  by (induction ks arbitrary: n es) (auto simp: Let_def evidenced_def)

lemma evaluate_control_status: "list_all (evidenced ev) (ct_keys c) \<Longrightarrow> ce_status (evaluate_control ev c) = Met"
  by (simp add: evaluate_control_def collect_evidence_spec list_all_iff)

text \<open>
  a control is met exactly when every key of its template has evidence, partly met when some have and
  some have not, not met when none has; its evidence is that of all its keys in their order.
\<close>
theorem evaluate_control_spec:
  "(ce_status (evaluate_control ev c) = Met \<longleftrightarrow> list_all (evidenced ev) (ct_keys c))
   \<and> (ce_status (evaluate_control ev c) = Partial \<longleftrightarrow> list_ex (evidenced ev) (ct_keys c) \<and> \<not> list_all (evidenced ev) (ct_keys c))
   \<and> (ce_status (evaluate_control ev c) = Not_met \<longleftrightarrow> \<not> list_ex (evidenced ev) (ct_keys c) \<and> ct_keys c \<noteq> [])
   \<and> ce_status (evaluate_control ev c) \<noteq> Not_applicable
   \<and> ce_evidence (evaluate_control ev c) = concat (map (\<lambda>k. dict_get ev k []) (ct_keys c))"
proof -
  let ?n = "length (filter (evidenced ev) (ct_keys c))"
  have all: "?n = length (ct_keys c) \<longleftrightarrow> list_all (evidenced ev) (ct_keys c)"
    by (simp add: list_all_iff) (metis filter_True filter_id_conv length_filter_less less_irrefl)
  have ex: "?n > 0 \<longleftrightarrow> list_ex (evidenced ev) (ct_keys c)"
    by (simp add: list_ex_iff) (metis filter_empty_conv)
  have e: "evaluate_control ev c = \<lparr>ce_id = ct_id c, ce_name = ct_name c, ce_description = ct_description c,
      ce_status = (if ?n = length (ct_keys c) then Met else if ?n > 0 then Partial else Not_met),
      ce_evidence = concat (map (\<lambda>k. dict_get ev k []) (ct_keys c))\<rparr>"
    by (simp add: evaluate_control_def collect_evidence_spec)
  show ?thesis unfolding e using all ex by (auto simp: list_all_iff list_ex_iff)
qed

lemma round_range:
  fixes r :: rat
  assumes "0 \<le> n" and "n \<le> (1000 :: int)" and "n = 1000 \<Longrightarrow> r < 1 / 2"
  shows "(if r < 1 / 2 then n else if r > 1 / 2 then n + 1 else if even n then n else n + 1) \<in> {0..1000}"
  using assms by (cases "n = 1000") auto

lemma round3_range:
  assumes "0 \<le> x" and "x \<le> 1" shows "0 \<le> round3 x \<and> round3 x \<le> 1"
proof -
  let ?n = "\<lfloor>x * 1000\<rfloor>" and ?r = "x * 1000 - of_int \<lfloor>x * 1000\<rfloor>"
  have "0 \<le> ?n" "?n \<le> 1000" using assms by (simp_all add: floor_le_iff)
  moreover have "?r < 1 / 2" if "?n = 1000" using that assms(2) by simp
  ultimately have m: "(if ?r < 1 / 2 then ?n else if ?r > 1 / 2 then ?n + 1 else if even ?n then ?n else ?n + 1) \<in> {0..1000}"
    by (rule round_range)
  have "0 \<le> of_int k / (1000 :: rat) \<and> of_int k / (1000 :: rat) \<le> 1" if "k \<in> {0..1000}" for k
  proof -
    have "(of_int k :: rat) \<le> of_int 1000" using that by (intro of_int_le_iff [THEN iffD2]) simp
    with that show ?thesis by simp
  qed
  from this [OF m] show ?thesis unfolding round3_def Let_def .
qed

lemma round3_one [simp]: "round3 1 = 1"
  by (simp add: round3_def)

lemma evaluated_status: "ce_status (evaluate_control ev c) \<in> {Met, Partial, Not_met}"
  by (auto simp: evaluate_control_def split: prod.splits)

lemma status_counts:
  assumes "\<forall>c \<in> set cs. ce_status c \<in> {Met, Partial, Not_met}"
  shows "length (filter (\<lambda>c. ce_status c = Met) cs) + length (filter (\<lambda>c. ce_status c = Partial) cs)
     + length (filter (\<lambda>c. ce_status c = Not_met) cs) = length cs"
    and "filter (\<lambda>c. ce_status c = Not_applicable) cs = []"
  using assms by (induction cs) auto

lemma score_range:
  assumes "m + p \<le> (t :: nat)"
  shows "0 \<le> (of_nat m + of_nat p * (1 / 2)) / (of_int (max (int t) 1) :: rat) \<and> (of_nat m + of_nat p * (1 / 2)) / (of_int (max (int t) 1) :: rat) \<le> 1"
proof -
  have "of_nat m + of_nat p * (1 / 2) \<le> (of_nat (m + p) :: rat)" by simp
  also have "\<dots> \<le> of_nat t" using assms of_nat_le_iff by blast
  also have "\<dots> \<le> of_int (max (int t) 1)" by simp
  finally show ?thesis by (simp add: divide_le_eq)
qed

lemma summarize_range:
  assumes s: "\<forall>c \<in> set cs. ce_status c \<in> {Met, Partial, Not_met}"
  shows "0 \<le> su_score (summarize cs)" and "su_score (summarize cs) \<le> 1"
    and "cs \<noteq> [] \<Longrightarrow> \<forall>c \<in> set cs. ce_status c = Met \<Longrightarrow> su_score (summarize cs) = 1"
    and "su_met (summarize cs) + su_partial (summarize cs) + su_not_met (summarize cs) = length cs"
proof -
  let ?n = "\<lambda>v. length (filter (\<lambda>c. ce_status c = v) cs)"
  note c = status_counts [OF s]
  have sum: "summarize cs = \<lparr>su_total = length cs, su_met = ?n Met, su_partial = ?n Partial, su_not_met = ?n Not_met, su_not_applicable = 0,
      su_score = round3 ((of_nat (?n Met) + of_nat (?n Partial) * (1 / 2)) / of_int (max (int (length cs)) 1))\<rparr>"
    using c(2) by (simp add: summarize_def Let_def)
  have "?n Met + ?n Partial \<le> length cs" using c(1) by linarith
  from round3_range [OF conjunct1 conjunct2, OF score_range score_range, OF this this]
  show "0 \<le> su_score (summarize cs)" "su_score (summarize cs) \<le> 1" unfolding sum by simp_all
  show "su_score (summarize cs) = 1" if "cs \<noteq> []" and all: "\<forall>c \<in> set cs. ce_status c = Met"
  proof -
    have "filter (\<lambda>c. ce_status c = Met) cs = cs" "filter (\<lambda>c. ce_status c = Partial) cs = []" using all by (auto simp: filter_id_conv)
    moreover have "(of_nat (length cs) :: rat) / of_int (max (int (length cs)) 1) = 1" using that(1) by (cases cs) auto
    ultimately show ?thesis using that(1) unfolding sum by simp
  qed
  show "su_met (summarize cs) + su_partial (summarize cs) + su_not_met (summarize cs) = length cs" using c(1) unfolding sum by simp
qed

text \<open>
  the score of any list of controls lies between zero and one, it is one when all are met, and the
  four counts add up to the total.
\<close>
theorem compliance_score_bounds:
  "0 \<le> su_score (summarize (map (evaluate_control ev) ts)) \<and> su_score (summarize (map (evaluate_control ev) ts)) \<le> 1
   \<and> (ts \<noteq> [] \<and> list_all (\<lambda>c. list_all (evidenced ev) (ct_keys c)) ts \<longrightarrow> su_score (summarize (map (evaluate_control ev) ts)) = 1)
   \<and> su_met (summarize (map (evaluate_control ev) ts)) + su_partial (summarize (map (evaluate_control ev) ts))
      + su_not_met (summarize (map (evaluate_control ev) ts)) = length ts"
proof -
  have s: "\<forall>c \<in> set (map (evaluate_control ev) ts). ce_status c \<in> {Met, Partial, Not_met}" using evaluated_status by auto
  have "su_score (summarize (map (evaluate_control ev) ts)) = 1" if "ts \<noteq> []" "list_all (\<lambda>c. list_all (evidenced ev) (ct_keys c)) ts"
    using summarize_range(3) [OF s] that evaluate_control_status by (auto simp: list_all_iff)
  with summarize_range(1,2,4) [OF s] show ?thesis by auto
qed

section \<open>The evidence is always there\<close>

lemma evidence_present:
  "list_all (\<lambda>fw. list_all (\<lambda>c. list_all (evidenced (evidence_statements s n)) (ct_keys c)) (framework_template fw)) [Soc2, Iso27001, Gdpr]"
  by code_simp

text \<open>
  C37: a report never finds a gap. Whatever the settings are, with MFA and the time-stamp authority disabled,
  and whatever the database holds, no operation at all included, every control of every framework is
  met and the score is one. Only a caller with the role admin or reviewer gets it.
\<close>
theorem compliance_always_full:
  assumes "compliance_report_endpoint s gathered now i p fw days d = Inr r"
  shows "list_all (\<lambda>c. ce_status c = Met) (rp_controls r) \<and> su_score (rp_summary r) = 1 \<and> rp_framework r = fw
    \<and> length (rp_controls r) = 5 \<and> (\<exists>role \<in> {''admin'', ''reviewer''}. has_role role p = Inr True)"
proof -
  from assms obtain t u where role: "require_any [''admin'', ''reviewer''] p = Inr u"
    and r: "r = generate_compliance_report s gathered now i fw t days d"
    by (auto simp: compliance_report_endpoint_def res_simps split: if_splits)
  let ?ev = "gather_evidence s gathered t days d" and ?ts = "framework_template fw"
  have len: "length ?ts = 5" by (cases fw) (simp_all add: soc2_controls_def iso27001_controls_def gdpr_controls_def)
  have "list_all (\<lambda>c. list_all (evidenced ?ev) (ct_keys c)) ?ts"
    using evidence_present by (cases fw) (simp_all add: gather_evidence_def)
  then have all: "list_all (\<lambda>c. ce_status c = Met) (map (evaluate_control ?ev) ?ts)"
    using evaluate_control_status by (auto simp: list_all_iff)
  moreover have "su_score (summarize (map (evaluate_control ?ev) ?ts)) = 1"
    using all len by (intro summarize_range(3)) (auto simp: list_all_iff)
  moreover have "\<exists>role \<in> {''admin'', ''reviewer''}. has_role role p = Inr True" using require_any_role [OF role] by auto
  ultimately show ?thesis using len by (simp add: r generate_compliance_report_def Let_def)
qed

definition lax_settings :: compliance_settings where
  "lax_settings = \<lparr>cs_realm = ''safecontext'', cs_mfa = False, cs_rpm = 0, cs_policy_path = [], cs_transit_key = [], cs_tsa = False\<rparr>"

lemma compliance_always_full_witness:
  "\<exists>r. compliance_report_endpoint lax_settings 0 0 1 admin_claims Gdpr 90 empty_db = Inr r \<and> su_score (rp_summary r) = 1
     \<and> length (rp_controls r) = 5"
proof -
  have "require_any [''admin'', ''reviewer''] admin_claims = Inr ()"
    by (simp add: has_role_def get_roles_def admin_claims_def claim_or_def dict_get_def jstr_def)
  moreover have "tenant_of_claims admin_claims = Inr 7 \<or> (\<exists>t. tenant_of_claims admin_claims = Inr t)"
    by (simp add: tenant_of_claims_def admin_claims_def claim_or_def dict_get_def jstr_def)
  ultimately obtain r where "compliance_report_endpoint lax_settings 0 0 1 admin_claims Gdpr 90 empty_db = Inr r"
    by (auto simp: compliance_report_endpoint_def)
  from compliance_always_full [OF this] this show ?thesis by auto
qed

end
