(* ===== verification/Json_Read.thy ===== *)
theory Json_Read
  imports Py_Text
begin

text \<open>
  \<open>json.loads\<close> on text: white space, strings with their escapes and surrogate pairs, numbers, arrays and
  objects, of which a repeated key keeps its place and takes the last value. A numeral that is not an
  integer is read by a parameter (Python's \<open>float\<close>). The reader has fuel; the amount \<open>json\_loads\<close> gives
  it is always enough, and it reads back what \<open>json.dumps\<close> writes. The limit on the depth of recursion is
  not modelled.
\<close>

section \<open>Strings\<close>

definition json_ws :: "nat \<Rightarrow> bool" where
  "json_ws c \<longleftrightarrow> c = 32 \<or> c = 9 \<or> c = 10 \<or> c = 13"

definition skip_ws :: "doc \<Rightarrow> doc" where
  "skip_ws = dropWhile json_ws"

definition decode_error :: exn where
  "decode_error = PyExc ''JSONDecodeError''"

definition no_fuel :: exn where
  "no_fuel = PyExc ''fuel''"

definition hex_val :: "nat \<Rightarrow> nat option" where
  "hex_val c = (if 48 \<le> c \<and> c \<le> 57 then Some (c - 48) else if 97 \<le> c \<and> c \<le> 102 then Some (c - 87)
     else if 65 \<le> c \<and> c \<le> 70 then Some (c - 55) else None)"

fun read_hex :: "nat \<Rightarrow> nat \<Rightarrow> doc \<Rightarrow> (nat \<times> doc) option" where
  "read_hex 0 a s = Some (a, s)"
| "read_hex (Suc k) a [] = None"
| "read_hex (Suc k) a (c # s) = (case hex_val c of None \<Rightarrow> None | Some v \<Rightarrow> read_hex k (a * 16 + v) s)"

text \<open>After \<open>\u\<close>: a high surrogate joins with an escaped low one that follows.\<close>

definition read_u :: "doc \<Rightarrow> (nat \<times> doc) option" where
  "read_u s = (case read_hex 4 0 s of
     None \<Rightarrow> None
   | Some (u, r) \<Rightarrow>
       if 55296 \<le> u \<and> u \<le> 56319 \<and> take 2 r = [92, 117] then
         (case read_hex 4 0 (drop 2 r) of
            None \<Rightarrow> None
          | Some (v, r2) \<Rightarrow> if 56320 \<le> v \<and> v \<le> 57343 then Some (65536 + (u - 55296) * 1024 + (v - 56320), r2) else Some (u, r))
       else Some (u, r))"

definition unescape :: "nat \<Rightarrow> nat option" where
  "unescape e = map_of [(34, 34), (92, 92), (47, 47), (98, 8), (102, 12), (110, 10), (114, 13), (116, 9)] e"

lemma read_hex_length: "read_hex k a s = Some (u, r) \<Longrightarrow> length s = length r + k"
  by (induction k a s rule: read_hex.induct) (auto split: option.splits)

lemma read_u_length: "read_u s = Some (u, r) \<Longrightarrow> length r < length s"
  by (auto simp: read_u_def split: option.splits prod.splits if_splits dest!: read_hex_length)

function scan_string :: "doc \<Rightarrow> (doc \<times> doc) result" where
  "scan_string [] = Inl decode_error"
| "scan_string (c # s) =
     (if c = 34 then Inr ([], s)
      else if c = 92 then
        (case s of
           [] \<Rightarrow> Inl decode_error
         | e # r \<Rightarrow>
             if e = 117 then
               (case read_u r of None \<Rightarrow> Inl decode_error | Some (u, r') \<Rightarrow> rbind (scan_string r') (\<lambda>(t, z). Inr (u # t, z)))
             else (case unescape e of None \<Rightarrow> Inl decode_error | Some u \<Rightarrow> rbind (scan_string r) (\<lambda>(t, z). Inr (u # t, z))))
      else if c < 32 then Inl decode_error
      else rbind (scan_string s) (\<lambda>(t, z). Inr (c # t, z)))"
  by pat_completeness auto
termination
  by (relation "measure length") (auto dest: read_u_length)

section \<open>Numbers\<close>

definition json_digit :: "nat \<Rightarrow> bool" where
  "json_digit c \<longleftrightarrow> 48 \<le> c \<and> c \<le> 57"

definition dec_value :: "doc \<Rightarrow> int" where
  "dec_value ds = foldl (\<lambda>a d. a * 10 + (int d - 48)) 0 ds"

definition sign_part :: "doc \<Rightarrow> doc" where
  "sign_part s = (if starts_with [45] s then [45] else [])"

definition int_part :: "doc \<Rightarrow> doc" where
  "int_part s = (if starts_with [48] s then [48] else takeWhile json_digit s)"

definition frac_part :: "doc \<Rightarrow> doc" where
  "frac_part s = (let ds = takeWhile json_digit (tl s) in if starts_with [46] s \<and> ds \<noteq> [] then 46 # ds else [])"

definition exp_part :: "doc \<Rightarrow> doc" where
  "exp_part s =
     (let r = tl s; sg = (if starts_with [43] r \<or> starts_with [45] r then take 1 r else []); ds = takeWhile json_digit (drop (length sg) r)
      in if (starts_with [101] s \<or> starts_with [69] s) \<and> ds \<noteq> [] then take 1 s @ sg @ ds else [])"

definition scan_number :: "(doc \<Rightarrow> json) \<Rightarrow> doc \<Rightarrow> (json \<times> doc) result" where
  "scan_number num s =
     (let sg = sign_part s; s1 = drop (length sg) s; ip = int_part s1; s2 = drop (length ip) s1;
          fr = frac_part s2; s3 = drop (length fr) s2; ex = exp_part s3; s4 = drop (length ex) s3
      in if ip = [] then Inl decode_error
         else if fr = [] \<and> ex = [] then Inr (JInt (if sg = [] then dec_value ip else - dec_value ip), s4)
         else Inr (num (sg @ ip @ fr @ ex), s4))"

definition scan_atom :: "(doc \<Rightarrow> json) \<Rightarrow> doc \<Rightarrow> (json \<times> doc) result" where
  "scan_atom num s =
     (if starts_with (lit ''null'') s then Inr (JNull, drop 4 s)
      else if starts_with (lit ''true'') s then Inr (JBool True, drop 4 s)
      else if starts_with (lit ''false'') s then Inr (JBool False, drop 5 s)
      else if starts_with (lit ''NaN'') s then Inr (num (lit ''NaN''), drop 3 s)
      else if starts_with (lit ''Infinity'') s then Inr (num (lit ''Infinity''), drop 8 s)
      else if starts_with (lit ''-Infinity'') s then Inr (num (lit ''-Infinity''), drop 9 s)
      else scan_number num s)"

section \<open>Values\<close>

fun dict_put :: "('k \<times> 'v) list \<Rightarrow> 'k \<Rightarrow> 'v \<Rightarrow> ('k \<times> 'v) list" where
  "dict_put [] k v = [(k, v)]"
| "dict_put ((a, b) # d) k v = (if a = k then (a, v) # d else (a, b) # dict_put d k v)"

definition dict_of :: "('k \<times> 'v) list \<Rightarrow> ('k \<times> 'v) list" where
  "dict_of kvs = foldl (\<lambda>d (k, v). dict_put d k v) [] kvs"

fun scan_value :: "(doc \<Rightarrow> json) \<Rightarrow> nat \<Rightarrow> doc \<Rightarrow> (json \<times> doc) result"
and scan_items :: "(doc \<Rightarrow> json) \<Rightarrow> nat \<Rightarrow> json list \<Rightarrow> doc \<Rightarrow> (json \<times> doc) result"
and scan_members :: "(doc \<Rightarrow> json) \<Rightarrow> nat \<Rightarrow> (doc \<times> json) list \<Rightarrow> doc \<Rightarrow> (json \<times> doc) result" where
  "scan_value num 0 s = Inl no_fuel"
| "scan_value num (Suc n) [] = Inl decode_error"
| "scan_value num (Suc n) (c # s) =
     (if c = 34 then rbind (scan_string s) (\<lambda>(t, r). Inr (JStr t, r))
      else if c = 123 then (if starts_with [125] (skip_ws s) then Inr (JObj [], tl (skip_ws s)) else scan_members num n [] (skip_ws s))
      else if c = 91 then (if starts_with [93] (skip_ws s) then Inr (JArr [], tl (skip_ws s)) else scan_items num n [] (skip_ws s))
      else scan_atom num (c # s))"
| "scan_items num 0 acc s = Inl no_fuel"
| "scan_items num (Suc n) acc s =
     rbind (scan_value num n s) (\<lambda>(v, r).
       if starts_with [93] (skip_ws r) then Inr (JArr (acc @ [v]), tl (skip_ws r))
       else if starts_with [44] (skip_ws r) then scan_items num n (acc @ [v]) (skip_ws (tl (skip_ws r)))
       else Inl decode_error)"
| "scan_members num 0 acc s = Inl no_fuel"
| "scan_members num (Suc n) acc s =
     (if \<not> starts_with [34] s then Inl decode_error
      else rbind (scan_string (tl s)) (\<lambda>(k, r).
        if \<not> starts_with [58] (skip_ws r) then Inl decode_error
        else rbind (scan_value num n (skip_ws (tl (skip_ws r)))) (\<lambda>(v, z).
          if starts_with [125] (skip_ws z) then Inr (JObj (dict_of (acc @ [(k, v)])), tl (skip_ws z))
          else if starts_with [44] (skip_ws z) then scan_members num n (acc @ [(k, v)]) (skip_ws (tl (skip_ws z)))
          else Inl decode_error)))"

definition json_loads :: "(doc \<Rightarrow> json) \<Rightarrow> doc \<Rightarrow> json result" where
  "json_loads num s =
     rbind (scan_value num (2 * length (skip_ws s) + 1) (skip_ws s)) (\<lambda>(v, r). if skip_ws r = [] then Inr v else Inl decode_error)"

section \<open>Reading consumes input\<close>

lemma skip_ws_length: "length (skip_ws s) \<le> length s"
  by (simp add: skip_ws_def length_dropWhile_le)

lemma starts_with_one: "starts_with [c] s \<longleftrightarrow> (\<exists>r. s = c # r)"
  by (cases s) (auto simp: starts_with_def)

lemma scan_string_length: "scan_string s = Inr (t, r) \<Longrightarrow> length r < length s"
proof (induction s arbitrary: t r rule: scan_string.induct)
  case (2 c s)
  show ?case
  proof (cases "c = 92")
    case True
    with 2(4) obtain e q where s: "s = e # q" by (cases s) auto
    from True 2(4) s show ?thesis
      using 2(1) [OF _ True s] 2(2) [OF _ True s] read_u_length [of q]
      by (fastforce simp: rbind_Inr_iff split: if_splits option.splits)
  qed (use 2(3,4) in \<open>fastforce simp: rbind_Inr_iff split: if_splits\<close>)
qed simp

lemma sign_part_length: "length (drop (length (sign_part s)) s) \<le> length s"
  by simp

lemma int_part_le: "length (int_part s) \<le> length s"
  by (cases s) (auto simp: int_part_def starts_with_def length_takeWhile_le)

lemma scan_number_length: "scan_number num s = Inr (v, r) \<Longrightarrow> length r < length s"
proof -
  assume a: "scan_number num s = Inr (v, r)"
  let ?s1 = "drop (length (sign_part s)) s"
  from a have ip: "int_part ?s1 \<noteq> []" by (auto simp: scan_number_def Let_def split: if_splits)
  from a have "length r \<le> length (drop (length (int_part ?s1)) ?s1)" by (auto simp: scan_number_def Let_def split: if_splits)
  moreover have "0 < length (int_part ?s1)" "length (int_part ?s1) \<le> length ?s1" using ip int_part_le by blast+
  ultimately show ?thesis unfolding length_drop by linarith
qed

lemma starts_with_length: "starts_with p s \<Longrightarrow> length p \<le> length s"
  by (auto simp: starts_with_def dest: arg_cong [where f = length])

lemma scan_atom_length: "scan_atom num s = Inr (v, r) \<Longrightarrow> length r < length s"
  by (auto simp: scan_atom_def dest: scan_number_length starts_with_length split: if_splits)

lemma scan_length:
  "scan_value num n s = Inr (v, r) \<Longrightarrow> length r < length s"
  "scan_items num n acc s = Inr (v, r) \<Longrightarrow> length r < length s"
  "scan_members num n mem s = Inr (v, r) \<Longrightarrow> length r < length s"
proof (induction num n s and num n acc s and num n mem s arbitrary: v r and v r and v r
    rule: scan_value_scan_items_scan_members.induct)
  case (3 num n c s)
  have t: "length (tl (skip_ws s)) < length (c # s)" using skip_ws_length [of s] by simp
  from 3 t skip_ws_length [of s] show ?case
    by (fastforce simp: rbind_Inr_iff dest: scan_string_length scan_atom_length split: if_splits)
next
  case (5 num n acc s)
  then obtain w z where v: "scan_value num n s = Inr (w, z)"
    and r: "(if starts_with [93] (skip_ws z) then Inr (JArr (acc @ [w]), tl (skip_ws z))
       else if starts_with [44] (skip_ws z) then scan_items num n (acc @ [w]) (skip_ws (tl (skip_ws z)))
       else Inl decode_error) = Inr (v, r)"
    by (auto simp: rbind_Inr_iff)
  have l: "length z < length s" by (rule 5(1) [OF v])
  have "length (skip_ws (tl (skip_ws z))) \<le> length z" using skip_ws_length [of z] skip_ws_length [of "tl (skip_ws z)"] by simp
  with 5(2) [of z w] v r l skip_ws_length [of z] show ?case by (fastforce split: if_splits)
next
  case (7 num n mem s)
  then obtain k q w z where st: "starts_with [34] s" "scan_string (tl s) = Inr (k, q)"
    and v: "scan_value num n (skip_ws (tl (skip_ws q))) = Inr (w, z)" and c: "starts_with [58] (skip_ws q)"
    and r: "(if starts_with [125] (skip_ws z) then Inr (JObj (dict_of (mem @ [(k, w)])), tl (skip_ws z))
          else if starts_with [44] (skip_ws z) then scan_members num n (mem @ [(k, w)]) (skip_ws (tl (skip_ws z)))
          else Inl decode_error) = Inr (v, r)"
    by (auto simp: rbind_Inr_iff split: if_splits)
  have "length q < length s" using st(1) scan_string_length [OF st(2)] by (auto simp: starts_with_one)
  moreover have "length z < length (skip_ws (tl (skip_ws q)))" by (rule 7(1)) (use st c v in auto)
  ultimately have l: "length z < length s" using skip_ws_length [of q] skip_ws_length [of "tl (skip_ws q)"] by simp
  have "length (skip_ws (tl (skip_ws z))) \<le> length z" using skip_ws_length [of z] skip_ws_length [of "tl (skip_ws z)"] by simp
  with 7(2) [of q z k w] st v c r l skip_ws_length [of z] show ?case by (fastforce split: if_splits)
qed auto

section \<open>The fuel is enough\<close>

lemma decode_not_fuel [simp]: "decode_error \<noteq> no_fuel" "no_fuel \<noteq> decode_error"
  by (simp_all add: decode_error_def no_fuel_def)

lemma scan_string_fuel: "scan_string s \<noteq> Inl no_fuel"
proof (induction s rule: scan_string.induct)
  case (2 c s)
  then show ?case
    by (cases s) (fastforce simp: rbind_Inl_iff split: if_splits option.splits prod.splits)+
qed simp

lemma scan_atom_fuel: "scan_atom num s \<noteq> Inl no_fuel"
  by (auto simp: scan_atom_def scan_number_def Let_def)

lemma scan_fuel:
  "2 * length s < n \<Longrightarrow> scan_value num n s \<noteq> Inl no_fuel"
  "2 * length s + 1 < n \<Longrightarrow> scan_items num n acc s \<noteq> Inl no_fuel"
  "2 * length s + 1 < n \<Longrightarrow> scan_members num n mem s \<noteq> Inl no_fuel"
proof (induction num n s and num n acc s and num n mem s rule: scan_value_scan_items_scan_members.induct)
  case (3 num n c s)
  then show ?case using skip_ws_length [of s]
    by (auto simp: rbind_Inl_iff scan_string_fuel scan_atom_fuel split: prod.splits)
next
  case (5 num n acc s)
  have v: "scan_value num n s \<noteq> Inl no_fuel" by (rule 5(1)) (use 5(3) in simp)
  have "scan_items num n (acc @ [w]) (skip_ws (tl (skip_ws z))) \<noteq> Inl no_fuel"
    if sv: "scan_value num n s = Inr (w, z)" "\<not> starts_with [93] (skip_ws z)" "starts_with [44] (skip_ws z)" for w z
  proof (rule 5(2))
    obtain r where "skip_ws z = 44 # r" using sv(3) by (auto simp: starts_with_one)
    then have "length (skip_ws (tl (skip_ws z))) < length z"
      using skip_ws_length [of z] skip_ws_length [of r] by simp
    with scan_length(1) [OF sv(1)] 5(3) show "2 * length (skip_ws (tl (skip_ws z))) + 1 < n" by simp
  qed (use sv in auto)
  with v show ?case by (auto simp: rbind_Inl_iff split: if_splits)
next
  case (7 num n mem s)
  have q: "length q < length s" if "starts_with [34] s" "scan_string (tl s) = Inr (k, q)" for k q
    using that scan_string_length [OF that(2)] by (auto simp: starts_with_one)
  have w: "length (skip_ws (tl (skip_ws x))) \<le> length x" for x
    using skip_ws_length [of x] skip_ws_length [of "tl (skip_ws x)"] by simp
  have v: "scan_value num n (skip_ws (tl (skip_ws r))) \<noteq> Inl no_fuel"
    if "starts_with [34] s" "scan_string (tl s) = Inr (k, r)" "starts_with [58] (skip_ws r)" for k r
    by (rule 7(1)) (use that q [OF that(1,2)] w [of r] 7(3) in auto)
  have "scan_members num n (mem @ [(k, x)]) (skip_ws (tl (skip_ws z))) \<noteq> Inl no_fuel"
    if "starts_with [34] s" "scan_string (tl s) = Inr (k, r)" "starts_with [58] (skip_ws r)"
      "scan_value num n (skip_ws (tl (skip_ws r))) = Inr (x, z)" "\<not> starts_with [125] (skip_ws z)" "starts_with [44] (skip_ws z)" for k r x z
    by (rule 7(2))
      (use that q [OF that(1,2)] w [of r] w [of z] scan_length(1) [OF that(4)] 7(3) in auto)
  with v show ?case
    by (auto simp: rbind_Inl_iff scan_string_fuel split: if_splits prod.splits)
qed auto

text \<open>
  reading a text always ends with a value or a decoding error; the fuel, twice the length of the text
  and one, never runs out.
\<close>
theorem json_loads_total: "json_loads num s \<noteq> Inl no_fuel"
  using scan_fuel(1) [of "skip_ws s" "2 * length (skip_ws s) + 1" num]
  by (auto simp: json_loads_def rbind_Inl_iff split: if_splits)

section \<open>Reading back what was written: strings\<close>

definition scalar :: "nat \<Rightarrow> bool" where
  "scalar c \<longleftrightarrow> c < 55296 \<or> 57344 \<le> c \<and> c < 1114112"

lemma hex_val_hexd: "0 \<le> d \<Longrightarrow> d < 16 \<Longrightarrow> hex_val (of_char (hexd d)) = Some (nat d)"
proof -
  assume d: "0 \<le> d" "d < 16"
  have "int (of_char (hexd d)) = (if d < 10 then 48 + d else 87 + d)" using of_char_hexd [OF d] by (simp add: of_nat_of_char)
  then have "of_char (hexd d) = (if d < 10 then 48 + nat d else 87 + nat d)" using d by (auto split: if_splits)
  with d show ?thesis by (auto simp: hex_val_def)
qed

lemma four: "(4 :: nat) = Suc (Suc (Suc (Suc 0)))"
  by simp

lemma hex_digit_at: "hex_val (of_char (hexd (int m mod 16))) = Some (m mod 16)"
proof -
  have "int m mod 16 = int (m mod 16)" by (simp add: zmod_int)
  then show ?thesis using hex_val_hexd [of "int (m mod 16)"] by (simp only:) simp
qed

lemma read_hex4:
  assumes "n < 65536" shows "read_hex 4 0 (hex4 n @ r) = Some (n, r)"
proof -
  have d: "int n div 16 = int (n div 16)" for n :: nat by (simp add: zdiv_int)
  have h: "hex4 n = [of_char (hexd (int (n div 16 div 16 div 16) mod 16)), of_char (hexd (int (n div 16 div 16) mod 16)),
      of_char (hexd (int (n div 16) mod 16)), of_char (hexd (int n mod 16))]"
    unfolding hex4_def four hex_fixed.simps d by simp
  have "n div 16 div 16 div 16 < 16" using assms by (simp add: div_mult2_eq [symmetric])
  then have "n div 16 div 16 div 16 mod 16 = n div 16 div 16 div 16" by simp
  then have "((n div 16 div 16 div 16 mod 16 * 16 + n div 16 div 16 mod 16) * 16 + n div 16 mod 16) * 16 + n mod 16 = n"
    by (simp only: div_mult_mod_eq)
  then show ?thesis unfolding h four by (simp only: append.simps read_hex.simps hex_digit_at option.case) simp
qed

lemma unescape_short: "map_of json_short c = Some e \<Longrightarrow> unescape e = Some c \<and> e \<noteq> 117"
  by (auto simp: json_short_def unescape_def split: if_splits)

lemma scan_escaped:
  assumes "scalar c"
  shows "scan_string (json_esc c @ s) = rbind (scan_string s) (\<lambda>(t, z). Inr (c # t, z))"
proof (cases "map_of json_short c")
  case (Some e)
  then show ?thesis using unescape_short [OF Some] by (simp add: json_esc_def)
next
  case None
  from json_short_NoneD [OF None] have n: "c \<noteq> 34" "c \<noteq> 92" by simp_all
  consider (plain) "32 \<le> c" "c \<le> 126" | (bmp) "\<not> (32 \<le> c \<and> c \<le> 126)" "c < 65536" | (high) "65536 \<le> c" by linarith
  then show ?thesis
  proof cases
    case plain
    with None n show ?thesis by (simp add: json_esc_def)
  next
    case bmp
    have "read_u (hex4 c @ s) = Some (c, s)" using assms bmp by (auto simp: read_u_def read_hex4 scalar_def)
    with bmp None n show ?thesis by (simp add: json_esc_def)
  next
    case high
    let ?u = "55296 + (c - 65536) div 1024" and ?v = "56320 + (c - 65536) mod 1024"
    have b: "55296 \<le> ?u" "?u \<le> 56319" "56320 \<le> ?v" "?v \<le> 57343" "?u < 65536" "?v < 65536"
      and e: "65536 + (?u - 55296) * 1024 + (?v - 56320) = c"
      using assms high by (auto simp: scalar_def)
    have "read_u (hex4 ?u @ 92 # 117 # hex4 ?v @ s) = Some (c, s)"
      using b e by (simp add: read_u_def read_hex4)
    with high None n show ?thesis by (simp add: json_esc_def)
  qed
qed

lemma scan_quoted: "\<forall>c \<in> set t. scalar c \<Longrightarrow> scan_string (concat (map json_esc t) @ 34 # r) = Inr (t, r)"
  by (induction t) (simp_all add: scan_escaped)

section \<open>Integers\<close>

definition number_ends :: "doc \<Rightarrow> bool" where
  "number_ends s \<longleftrightarrow> (\<forall>c r. s = c # r \<longrightarrow> \<not> json_digit c \<and> c \<noteq> 46 \<and> c \<noteq> 101 \<and> c \<noteq> 69)"

lemma digit_char: "0 \<le> d \<Longrightarrow> d < 10 \<Longrightarrow> of_char (char_of (48 + d) :: char) = (48 + nat d :: nat)"
proof -
  assume d: "0 \<le> d" "d < 10"
  have "(of_char (char_of (48 + d) :: char) :: int) = (48 + d) mod 256" by (rule of_char_of)
  then have "int (of_char (char_of (48 + d) :: char)) = 48 + d" using d by (simp add: of_nat_of_char)
  then show ?thesis using d by linarith
qed

lemma nat_str_digits:
  "0 \<le> n \<Longrightarrow> (\<forall>c \<in> set (lit (nat_str n)). json_digit c) \<and> nat_str n \<noteq> [] \<and> dec_value (lit (nat_str n)) = n
    \<and> (n \<noteq> 0 \<longrightarrow> hd (lit (nat_str n)) \<noteq> 48)"
proof (induction n rule: nat_str.induct)
  case (1 n)
  show ?case
  proof (cases "n < 10")
    case True
    then show ?thesis using 1(2) by (subst (1 2 3 4) nat_str.simps) (simp add: json_digit_def dec_value_def digit_char)
  next
    case False
    with 1 have ih: "(\<forall>c \<in> set (lit (nat_str (n div 10))). json_digit c) \<and> nat_str (n div 10) \<noteq> [] \<and> dec_value (lit (nat_str (n div 10))) = n div 10
      \<and> (n div 10 \<noteq> 0 \<longrightarrow> hd (lit (nat_str (n div 10))) \<noteq> 48)" by simp
    have s: "nat_str n = nat_str (n div 10) @ [char_of (48 + n mod 10)]" using False by (subst nat_str.simps) simp
    have "n div 10 \<noteq> 0" using False 1(2) by presburger
    with ih show ?thesis unfolding s by (simp add: json_digit_def dec_value_def digit_char hd_append)
  qed
qed

lemma takeWhile_digits: "\<forall>c \<in> set ds. json_digit c \<Longrightarrow> number_ends r \<Longrightarrow> takeWhile json_digit (ds @ r) = ds"
  by (cases r) (auto simp: number_ends_def takeWhile_append2 takeWhile_eq_all_conv)

lemma starts_with_Cons [simp]: "starts_with (a # p) (b # s) \<longleftrightarrow> a = b \<and> starts_with p s" "\<not> starts_with (a # p) []" "starts_with [] s"
  by (auto simp: starts_with_def)

lemma scan_digits:
  assumes "json_digit c" and "int_part (c # t @ r) = c # t" and "number_ends r"
  shows "scan_atom num (c # t @ r) = Inr (JInt (dec_value (c # t)), r)" and "scan_atom num (45 # c # t @ r) = Inr (JInt (- dec_value (c # t)), r)"
proof -
  have e: "frac_part r = []" "exp_part r = []" using assms(3) by (cases r; auto simp: frac_part_def exp_part_def number_ends_def Let_def)+
  have c: "48 \<le> c" "c \<le> 57" using assms(1) by (simp_all add: json_digit_def)
  then have "scan_number num (c # t @ r) = Inr (JInt (dec_value (c # t)), r)" "scan_number num (45 # c # t @ r) = Inr (JInt (- dec_value (c # t)), r)"
    using e assms(2) by (simp_all add: scan_number_def sign_part_def)
  with c show "scan_atom num (c # t @ r) = Inr (JInt (dec_value (c # t)), r)" "scan_atom num (45 # c # t @ r) = Inr (JInt (- dec_value (c # t)), r)"
    by (auto simp: scan_atom_def)
qed

lemma int_part_digits:
  assumes "0 \<le> n" and "number_ends r" shows "int_part (lit (nat_str n) @ r) = lit (nat_str n)"
proof (cases "n = 0")
  case True
  then show ?thesis using digit_char [of 0] by (simp add: int_part_def nat_str.simps)
next
  case False
  from nat_str_digits [OF assms(1)] False have d: "\<forall>c \<in> set (lit (nat_str n)). json_digit c" "hd (lit (nat_str n)) \<noteq> 48" "lit (nat_str n) \<noteq> []"
    by auto
  then have "\<not> starts_with [48] (lit (nat_str n) @ r)" by (cases "lit (nat_str n)") auto
  then show ?thesis by (simp add: int_part_def takeWhile_digits [OF d(1) assms(2)])
qed

lemma scan_int:
  assumes "number_ends r" shows "scan_atom num (lit (int_str i) @ r) = Inr (JInt i, r)"
proof -
  have s: "scan_atom num (lit (nat_str n) @ r) = Inr (JInt n, r) \<and> scan_atom num (45 # lit (nat_str n) @ r) = Inr (JInt (- n), r)" if "0 \<le> n" for n
  proof -
    from nat_str_digits [OF that] have v: "dec_value (lit (nat_str n)) = n" "\<forall>c \<in> set (lit (nat_str n)). json_digit c" "lit (nat_str n) \<noteq> []" by auto
    then obtain c t where ct: "lit (nat_str n) = c # t" "json_digit c" by (cases "lit (nat_str n)") auto
    from int_part_digits [OF that assms] v(1) show ?thesis using scan_digits [OF ct(2) _ assms, of t num] unfolding ct(1) by simp
  qed
  show ?thesis
  proof (cases "i < 0")
    case True
    then have "lit (int_str i) = 45 # lit (nat_str (- i))" by (simp add: int_str_def)
    with s [of "- i"] True show ?thesis by simp
  qed (use s [of i] in \<open>simp add: int_str_def\<close>)
qed

section \<open>Reading back what was written: values\<close>

text \<open>No floats, no surrogates, no repeated keys.\<close>

fun plain :: "json \<Rightarrow> bool" where
  "plain JNull \<longleftrightarrow> True"
| "plain (JBool b) \<longleftrightarrow> True"
| "plain (JInt i) \<longleftrightarrow> True"
| "plain (JFloat q) \<longleftrightarrow> False"
| "plain (JStr s) \<longleftrightarrow> (\<forall>c \<in> set s. scalar c)"
| "plain (JArr js) \<longleftrightarrow> (\<forall>j \<in> set js. plain j)"
| "plain (JObj kvs) \<longleftrightarrow> distinct (map fst kvs) \<and> (\<forall>(k, v) \<in> set kvs. (\<forall>c \<in> set k. scalar c) \<and> plain v)"

definition separator :: "nat \<Rightarrow> doc \<Rightarrow> bool" where
  "separator c s \<longleftrightarrow> (\<exists>w. s = c # w \<and> (\<forall>x \<in> set w. json_ws x))"

definition member_text :: "(json \<Rightarrow> doc) \<Rightarrow> doc \<Rightarrow> doc \<times> json \<Rightarrow> doc" where
  "member_text f ksep = (\<lambda>(k, v). json_quote k @ ksep @ f v)"

lemma dict_put_new: "k \<notin> fst ` set d \<Longrightarrow> dict_put d k v = d @ [(k, v)]"
  by (induction d k v rule: dict_put.induct) auto

lemma dict_of_distinct: "distinct (map fst kvs) \<Longrightarrow> dict_of kvs = kvs"
proof -
  have "foldl (\<lambda>d (k, v). dict_put d k v) d kvs = d @ kvs" if "distinct (map fst (d @ kvs))" for d
    using that by (induction kvs arbitrary: d) (auto simp: dict_put_new)
  then show "distinct (map fst kvs) \<Longrightarrow> dict_of kvs = kvs" by (simp add: dict_of_def)
qed

lemma skip_ws_start [simp]: "\<not> json_ws c \<Longrightarrow> skip_ws (c # s) = c # s"
  by (simp add: skip_ws_def)

lemma skip_ws_append: "\<forall>x \<in> set w. json_ws x \<Longrightarrow> skip_ws (w @ s) = skip_ws s"
  by (simp add: skip_ws_def dropWhile_append2)

lemma punctuation [simp]: "\<not> json_ws 34" "\<not> json_ws 44" "\<not> json_ws 58" "\<not> json_ws 91" "\<not> json_ws 93" "\<not> json_ws 123" "\<not> json_ws 125"
  by (simp_all add: json_ws_def)

lemma number_ends_punct [simp]: "number_ends (44 # s)" "number_ends (93 # s)" "number_ends (125 # s)" "number_ends []"
  by (simp_all add: number_ends_def json_digit_def)

lemma py_join_Cons: "xs \<noteq> [] \<Longrightarrow> py_join sep (x # xs) = x @ sep @ py_join sep xs"
  by (cases xs) auto

text \<open>A format of \<open>json.dumps\<close>: its separators are a comma and a colon with white space after them.\<close>

locale json_format =
  fixes isep ksep :: doc
  assumes isep: "separator 44 isep" and ksep: "separator 58 ksep"
begin

lemma sep_skip:
  "skip_ws (isep @ s) = isep @ s" "starts_with [44] (isep @ s)" "\<not> starts_with [93] (isep @ s)" "\<not> starts_with [125] (isep @ s)"
  "skip_ws (tl (isep @ s)) = skip_ws s" "number_ends (isep @ s)"
  "skip_ws (ksep @ s) = ksep @ s" "starts_with [58] (ksep @ s)" "skip_ws (tl (ksep @ s)) = skip_ws s"
  using isep ksep by (auto simp: separator_def skip_ws_append)

lemma dumps_start:
  "plain j \<Longrightarrow> \<exists>c t. json_dumps fl False isep ksep j = c # t \<and> \<not> json_ws c \<and> c \<noteq> 93 \<and> c \<noteq> 125"
proof (cases j)
  case (JInt i)
  have d: "\<forall>c \<in> set (lit (nat_str \<bar>i\<bar>)). json_digit c" "lit (nat_str \<bar>i\<bar>) \<noteq> []" using nat_str_digits [of "\<bar>i\<bar>"] by auto
  then obtain c t where "lit (nat_str \<bar>i\<bar>) = c # t" "json_digit c" by (cases "lit (nat_str \<bar>i\<bar>)") auto
  with JInt show ?thesis by (cases "i < 0") (auto simp: int_str_def json_digit_def json_ws_def)
qed (auto simp: json_quote_def json_ws_def Let_def)

lemma skip_dumps: "plain j \<Longrightarrow> skip_ws (json_dumps fl False isep ksep j @ s) = json_dumps fl False isep ksep j @ s"
proof -
  assume "plain j"
  from dumps_start [OF this, of fl] obtain c t where "json_dumps fl False isep ksep j = c # t" "\<not> json_ws c" by blast
  then show ?thesis by simp
qed

definition reads :: "(rat \<Rightarrow> string) \<Rightarrow> (doc \<Rightarrow> json) \<Rightarrow> json \<Rightarrow> bool" where
  "reads fl num j \<longleftrightarrow> (\<forall>n r. number_ends r \<longrightarrow> 2 * length (json_dumps fl False isep ksep j) < n \<longrightarrow>
     scan_value num n (json_dumps fl False isep ksep j @ r) = Inr (j, r))"

lemma readsD:
  "reads fl num j \<Longrightarrow> number_ends r \<Longrightarrow> 2 * length (json_dumps fl False isep ksep j) < n \<Longrightarrow>
     scan_value num n (json_dumps fl False isep ksep j @ r) = Inr (j, r)"
  by (simp add: reads_def)

lemma scan_items_dumps:
  assumes "js \<noteq> []" and "\<forall>j \<in> set js. plain j \<and> reads fl num j"
    and "2 * length (py_join isep (map (json_dumps fl False isep ksep) js)) + 1 < n"
  shows "scan_items num n acc (py_join isep (map (json_dumps fl False isep ksep) js) @ 93 # r) = Inr (JArr (acc @ js), r)"
  using assms
proof (induction js arbitrary: n acc)
  case (Cons j js)
  let ?d = "json_dumps fl False isep ksep"
  from Cons.prems obtain m where n: "n = Suc m" by (cases n) auto
  have j: "reads fl num j" using Cons.prems by simp
  show ?case
  proof (cases js)
    case Nil
    with Cons.prems n have "scan_value num m (?d j @ 93 # r) = Inr (j, 93 # r)" by (intro readsD [OF j]) auto
    with Nil n show ?thesis by simp
  next
    case (Cons k ks)
    then have ne: "js \<noteq> []" by simp
    let ?t = "py_join isep (map ?d js)"
    have t: "py_join isep (map ?d (j # js)) = ?d j @ isep @ ?t" using ne by (simp add: py_join_Cons)
    have sep: "length isep \<ge> 1" using isep by (auto simp: separator_def)
    have "scan_value num m (?d j @ isep @ ?t @ 93 # r) = Inr (j, isep @ ?t @ 93 # r)"
      using Cons.prems n t by (intro readsD [OF j]) (auto simp: sep_skip)
    moreover have "skip_ws (?t @ 93 # r) = ?t @ 93 # r"
      using Cons.prems \<open>js = k # ks\<close> skip_dumps [of k] by (cases ks) (auto simp: py_join_Cons)
    moreover have "scan_items num m (acc @ [j]) (?t @ 93 # r) = Inr (JArr ((acc @ [j]) @ js), r)"
      using Cons.prems n t sep by (intro Cons.IH [OF ne]) auto
    ultimately show ?thesis unfolding t n by (simp add: sep_skip)
  qed
qed simp

lemma scan_members_dumps:
  assumes "kvs \<noteq> []" and "\<forall>(k, v) \<in> set kvs. (\<forall>c \<in> set k. scalar c) \<and> plain v \<and> reads fl num v" and "distinct (map fst (mem @ kvs))"
    and "2 * length (py_join isep (map (member_text (json_dumps fl False isep ksep) ksep) kvs)) + 1 < n"
  shows "scan_members num n mem (py_join isep (map (member_text (json_dumps fl False isep ksep) ksep) kvs) @ 125 # r) = Inr (JObj (mem @ kvs), r)"
  using assms
proof (induction kvs arbitrary: n mem)
  case (Cons kv kvs)
  let ?d = "json_dumps fl False isep ksep" and ?m = "member_text (json_dumps fl False isep ksep) ksep"
  obtain k v where kv: "kv = (k, v)" by fastforce
  from Cons.prems obtain m where n: "n = Suc m" by (cases n) auto
  from Cons.prems kv have v: "reads fl num v" "plain v" "\<forall>c \<in> set k. scalar c" by auto
  have key: "scan_string (tl (?m kv @ s)) = Inr (k, ksep @ ?d v @ s)" "starts_with [34] (?m kv @ s)" for s
    using scan_quoted [OF v(3)] by (simp_all add: member_text_def kv json_quote_def)
  have sep: "length ksep \<ge> 1" "length isep \<ge> 1" using ksep isep by (auto simp: separator_def)
  show ?case
  proof (cases "kvs = []")
    case True
    with Cons.prems n have "scan_value num m (?d v @ 125 # r) = Inr (v, 125 # r)"
      by (intro readsD [OF v(1)]) (auto simp: member_text_def kv)
    with True n kv Cons.prems(3) show ?thesis
      using key [of "125 # r"] v(2) by (simp add: sep_skip skip_dumps dict_of_distinct)
  next
    case ne: False
    let ?t = "py_join isep (map ?m kvs)"
    have t: "py_join isep (map ?m (kv # kvs)) = ?m kv @ isep @ ?t" using ne by (simp add: py_join_Cons)
    have "length (?m kv) \<ge> length (?d v)" by (simp add: member_text_def kv)
    then have val: "scan_value num m (?d v @ isep @ ?t @ 125 # r) = Inr (v, isep @ ?t @ 125 # r)"
      using Cons.prems n t by (intro readsD [OF v(1)]) (auto simp: sep_skip)
    obtain a b where "kvs = a # b" using ne by (cases kvs) auto
    then have "skip_ws (?t @ 125 # r) = ?t @ 125 # r"
      by (cases b) (auto simp: py_join_Cons member_text_def json_quote_def split: prod.splits)
    moreover have "scan_members num m (mem @ [(k, v)]) (?t @ 125 # r) = Inr (JObj ((mem @ [(k, v)]) @ kvs), r)"
      using Cons.prems n t sep kv by (intro Cons.IH [OF ne]) auto
    ultimately show ?thesis unfolding t n
      using key [of "isep @ ?t @ 125 # r"] v(2) val kv by (simp add: sep_skip skip_dumps)
  qed
qed simp

lemma scan_value_atom: "0 < n \<Longrightarrow> c \<noteq> 34 \<Longrightarrow> c \<noteq> 123 \<Longrightarrow> c \<noteq> 91 \<Longrightarrow> scan_value num n (c # s) = scan_atom num (c # s)"
  by (cases n) auto

lemma reads_plain: "plain j \<Longrightarrow> reads fl num j"
proof (induction j)
  case (JStr s)
  show ?case unfolding reads_def
  proof (intro allI impI)
    fix n r assume "2 * length (json_dumps fl False isep ksep (JStr s)) < n"
    then obtain m where "n = Suc m" by (cases n) auto
    with JStr scan_quoted [of s r] show "scan_value num n (json_dumps fl False isep ksep (JStr s) @ r) = Inr (JStr s, r)"
      by (simp add: json_quote_def)
  qed
next
  case (JInt i)
  show ?case unfolding reads_def
  proof (intro allI impI)
    fix n r assume r: "number_ends r" and "2 * length (json_dumps fl False isep ksep (JInt i)) < n"
    then obtain m where n: "n = Suc m" by (cases n) auto
    obtain c t where ct: "lit (int_str i) = c # t" "c = 45 \<or> json_digit c"
    proof -
      have d: "\<forall>c \<in> set (lit (nat_str \<bar>i\<bar>)). json_digit c" "lit (nat_str \<bar>i\<bar>) \<noteq> []" using nat_str_digits [of "\<bar>i\<bar>"] by auto
      then obtain c t where "lit (nat_str \<bar>i\<bar>) = c # t" "json_digit c" by (cases "lit (nat_str \<bar>i\<bar>)") auto
      then show ?thesis by (cases "i < 0") (auto simp: int_str_def intro: that)
    qed
    then have "c \<noteq> 34" "c \<noteq> 123" "c \<noteq> 91" by (auto simp: json_digit_def)
    with scan_int [OF r, of num i] show "scan_value num n (json_dumps fl False isep ksep (JInt i) @ r) = Inr (JInt i, r)"
      unfolding n json_dumps.simps ct(1) by simp
  qed
next
  case (JArr js)
  show ?case unfolding reads_def
  proof (intro allI impI)
    fix n r assume f: "2 * length (json_dumps fl False isep ksep (JArr js)) < n"
    then obtain m where n: "n = Suc m" by (cases n) auto
    show "scan_value num n (json_dumps fl False isep ksep (JArr js) @ r) = Inr (JArr js, r)"
    proof (cases js)
      case Nil
      then show ?thesis by (simp add: n)
    next
      case (Cons j ks)
      have p: "\<forall>j \<in> set js. plain j \<and> reads fl num j" using JArr by auto
      have "skip_ws (py_join isep (map (json_dumps fl False isep ksep) js) @ 93 # r) = py_join isep (map (json_dumps fl False isep ksep) js) @ 93 # r"
        using Cons p skip_dumps [of j] by (cases ks) (auto simp: py_join_Cons)
      moreover have "\<not> starts_with [93] (py_join isep (map (json_dumps fl False isep ksep) js) @ 93 # r)"
        using Cons p dumps_start [of j fl] by (cases ks) (auto simp: py_join_Cons)
      ultimately show ?thesis using scan_items_dumps [of js fl num m "[]" r] Cons p f by (simp add: n)
    qed
  qed
next
  case (JObj kvs)
  have t: "json_dumps fl False isep ksep (JObj kvs) = 123 # py_join isep (map (member_text (json_dumps fl False isep ksep) ksep) kvs) @ [125]"
    by (simp add: Let_def member_text_def comp_def split_def)
  show ?case unfolding reads_def
  proof (intro allI impI)
    fix n r assume f: "2 * length (json_dumps fl False isep ksep (JObj kvs)) < n"
    then obtain m where n: "n = Suc m" by (cases n) auto
    show "scan_value num n (json_dumps fl False isep ksep (JObj kvs) @ r) = Inr (JObj kvs, r)"
    proof (cases kvs)
      case Nil
      then show ?thesis by (simp add: n)
    next
      case (Cons a b)
      have p: "\<forall>(k, v) \<in> set kvs. (\<forall>c \<in> set k. scalar c) \<and> plain v \<and> reads fl num v" and d: "distinct (map fst kvs)"
        using JObj by fastforce+
      let ?t = "py_join isep (map (member_text (json_dumps fl False isep ksep) ksep) kvs) @ 125 # r"
      have "\<exists>s. ?t = 34 # s" using Cons by (cases b) (auto simp: py_join_Cons member_text_def json_quote_def split: prod.splits)
      then have "skip_ws ?t = ?t" "\<not> starts_with [125] ?t" by auto
      then show ?thesis using scan_members_dumps [of kvs fl num "[]" m r] Cons p d f unfolding t n by simp
    qed
  qed
qed (auto simp: reads_def scan_value_atom scan_atom_def)

lemma loads_dumps: "plain j \<Longrightarrow> json_loads num (json_dumps fl False isep ksep j) = Inr j"
proof -
  assume p: "plain j"
  let ?s = "json_dumps fl False isep ksep j"
  have "skip_ws ?s = ?s" using skip_dumps [OF p, of fl "[]"] by simp
  moreover have "scan_value num (2 * length ?s + 1) ?s = Inr (j, [])"
    using readsD [OF reads_plain [OF p], of "[]" fl "2 * length ?s + 1" num] by simp
  ultimately show ?thesis by (simp add: json_loads_def skip_ws_def)
qed

end

interpretation spaced: json_format "lit '', ''" "lit '': ''"
  by unfold_locales (simp_all add: separator_def json_ws_def)

interpretation compact: json_format "lit '',''" "lit '':''"
  by unfold_locales (simp_all add: separator_def)

text \<open>
  whatever \<open>json.dumps\<close> writes, with its default separators or with compact ones, \<open>json.loads\<close>
  reads back, for values without floats, surrogates and repeated keys.
\<close>
theorem json_roundtrip:
  assumes "plain j"
  shows "json_loads num (json_dumps fl False (lit '', '') (lit '': '') j) = Inr j
    \<and> json_loads num (json_dumps fl False (lit '','') (lit '':'') j) = Inr j"
  using spaced.loads_dumps [OF assms] compact.loads_dumps [OF assms] by simp

lemma json_roundtrip_witness:
  "json_loads JStr (json_dumps (\<lambda>q. []) False (lit '', '') (lit '': '') (JObj [(lit ''a'', JArr [JInt (- 12), JNull, JStr [128512]])]))
     = Inr (JObj [(lit ''a'', JArr [JInt (- 12), JNull, JStr [128512]])])"
proof -
  have "plain (JObj [(lit ''a'', JArr [JInt (- 12), JNull, JStr [128512]])])" by (simp add: scalar_def)
  from json_roundtrip [OF this] show ?thesis by blast
qed

end
