(* ===== verification/Internal_Auth.thy ===== *)
theory Internal_Auth
  imports Hmac Json_Read Codec
begin

text \<open>
  Internal tokens between the API and the workers (\<open>core/internal\_auth.py\<close>): a JSON payload in
  URL-safe Base64 without padding, a dot, and the HMAC of the payload. The digest function, the decoding of
  bytes that are not ASCII and the reading of numerals that are no integers are parameters; bytes, Base64 and JSON
  are computed. No module of the program calls these functions.
\<close>

section \<open>URL-safe Base64\<close>

definition to_url :: "nat \<Rightarrow> nat" where
  "to_url c = (if c = 43 then 45 else if c = 47 then 95 else c)"

definition from_url :: "nat \<Rightarrow> nat" where
  "from_url c = (if c = 45 then 43 else if c = 95 then 47 else c)"

definition urlsafe_b64encode :: "bytes \<Rightarrow> doc" where
  "urlsafe_b64encode bs = map to_url (b64encode bs)"

definition urlsafe_b64decode :: "doc \<Rightarrow> bytes result" where
  "urlsafe_b64decode s = (if \<not> is_ascii s then Inl (PyExc ''ValueError'') else b64decode (map from_url s))"

text \<open>\<open>rstrip("=")\<close>.\<close>

definition strip_padding :: "doc \<Rightarrow> doc" where
  "strip_padding s = rev (dropWhile (\<lambda>c. c = 61) (rev s))"

section \<open>Tokens\<close>

record token_env =
  ie_sha :: "bytes \<Rightarrow> string"
  ie_secret :: bytes
  ie_decode :: "bytes \<Rightarrow> doc result"
  ie_num :: "doc \<Rightarrow> json"

definition token_ttl :: int where
  "token_ttl = 300"

definition token_payload :: "doc \<Rightarrow> int \<Rightarrow> int \<Rightarrow> uuid \<Rightarrow> json" where
  "token_payload service iat now jti =
     JObj [(lit ''iss'', JStr service), (lit ''iat'', JInt iat), (lit ''exp'', JInt (now + token_ttl)), (lit ''jti'', jstr (uuid_str jti))]"

text \<open>The clock is read twice; the printed payload is ASCII, so that its bytes are its characters.\<close>

definition generate_internal_token :: "token_env \<Rightarrow> doc \<Rightarrow> int \<Rightarrow> int \<Rightarrow> uuid \<Rightarrow> doc result" where
  "generate_internal_token env service iat now jti =
     rbind (utf8_encode (json_dumps (\<lambda>q. []) False (lit '','') (lit '':'') (token_payload service iat now jti))) (\<lambda>b.
       Inr (strip_padding (urlsafe_b64encode b) @ 46 # lit (hmac_hex (ie_sha env) (ie_secret env) b)))"

text \<open>\<open>payload.get("exp", 0) < now\<close> raises for values that are no numbers; an exception is a refusal.\<close>

definition unexpired :: "json \<Rightarrow> int \<Rightarrow> bool" where
  "unexpired v now = (case v of JInt n \<Rightarrow> now \<le> n | JBool b \<Rightarrow> now \<le> (if b then 1 else 0) | JFloat q \<Rightarrow> of_int now \<le> q | _ \<Rightarrow> False)"

definition token_bytes :: "doc \<Rightarrow> bytes result" where
  "token_bytes encoded = urlsafe_b64decode (encoded @ replicate (4 - length encoded mod 4) 61)"

definition verify_internal_token :: "token_env \<Rightarrow> int \<Rightarrow> doc \<Rightarrow> bool" where
  "verify_internal_token env now token =
     (case py_split_max 46 1 token of
        [encoded, sig] \<Rightarrow>
          (case token_bytes encoded of
             Inl e \<Rightarrow> False
           | Inr b \<Rightarrow>
               if sig \<noteq> lit (hmac_hex (ie_sha env) (ie_secret env) b) then False
               else case rbind (ie_decode env b) (json_loads (ie_num env)) of
                      Inr (JObj kvs) \<Rightarrow> unexpired (dict_get kvs (lit ''exp'') (JInt 0)) now
                    | _ \<Rightarrow> False)
      | _ \<Rightarrow> False)"

section \<open>Base64 without its padding\<close>

definition b64_safe :: "nat \<Rightarrow> bool" where
  "b64_safe c \<longleftrightarrow> c < 128 \<and> c \<noteq> 45 \<and> c \<noteq> 46 \<and> c \<noteq> 61 \<and> c \<noteq> 95"

lemma b64_char_safe: "n < 64 \<Longrightarrow> b64_safe (b64_char n)"
  by (auto simp: b64_safe_def b64_char_def)

lemma from_to_url: "b64_safe c \<Longrightarrow> from_url (to_url c) = c \<and> to_url c \<noteq> 61 \<and> to_url c \<noteq> 46 \<and> to_url c < 128"
  by (auto simp: b64_safe_def from_url_def to_url_def)

lemma b64_body:
  "is_bytes bs \<Longrightarrow> \<exists>body k. b64encode bs = body @ replicate k 61 \<and> (\<forall>c \<in> set body. b64_safe c)
     \<and> (length body mod 4 = 0 \<and> k = 0 \<and> length bs mod 3 = 0 \<or> length body mod 4 = 4 - k \<and> k \<in> {1, 2})"
proof (induction bs rule: b64encode.induct)
  case (2 a)
  have "a div 4 < 64" "a mod 4 * 16 < 64" using 2 by auto
  then show ?case
    by (intro exI [of _ "[b64_char (a div 4), b64_char (a mod 4 * 16)]"] exI [of _ 2]) (simp add: b64_char_safe numeral_2_eq_2)
next
  case (3 a b)
  have "a div 4 < 64" "a mod 4 * 16 + b div 16 < 64" "b mod 16 * 4 < 64" using 3 by auto
  then show ?case
    by (intro exI [of _ "[b64_char (a div 4), b64_char (a mod 4 * 16 + b div 16), b64_char (b mod 16 * 4)]"] exI [of _ 1]) (simp add: b64_char_safe)
next
  case (4 a b c s)
  from 4(2) have "is_bytes s" by simp
  from 4(1) [OF this] obtain body k where ih: "b64encode s = body @ replicate k 61" "\<forall>c \<in> set body. b64_safe c"
    "length body mod 4 = 0 \<and> k = 0 \<and> length s mod 3 = 0 \<or> length body mod 4 = 4 - k \<and> k \<in> {1, 2}"
    by (elim exE conjE) (rule that)
  have "a div 4 < 64" "a mod 4 * 16 + b div 16 < 64" "b mod 16 * 4 + c div 64 < 64" "c mod 64 < 64" using 4 by auto
  with ih show ?case
    by (intro exI [of _ "[b64_char (a div 4), b64_char (a mod 4 * 16 + b div 16), b64_char (b mod 16 * 4 + c div 64), b64_char (c mod 64)] @ body"]
        exI [of _ k]) (auto simp: b64_char_safe)
qed simp

text \<open>A group of padding at the end of complete groups is ignored.\<close>

lemma b64_loop_pads: "b64_loop 0 l p (replicate m 61) = Inr []"
  by (induction m arbitrary: p) auto

lemma b64_extra_padding: "is_bytes bs \<Longrightarrow> length bs mod 3 = 0 \<Longrightarrow> b64decode (b64encode bs @ replicate m 61) = Inr bs"
proof (induction bs rule: b64encode.induct)
  case (4 a b c s)
  have l: "a mod 4 * 16 + b div 16 < 64" "b mod 16 * 4 + c div 64 < 64" "a div 4 < 64" "c mod 64 < 64"
    using 4 by auto
  have m: "(a mod 4 * 16 + b div 16) div 16 = a mod 4" "(a mod 4 * 16 + b div 16) mod 16 = b div 16"
    "(b mod 16 * 4 + c div 64) div 4 = b mod 16" "(b mod 16 * 4 + c div 64) mod 4 = c div 64"
    using 4 by auto
  have "length s mod 3 = 0" using 4(3) by simp
  then have "b64_loop 0 0 0 (b64encode s @ replicate m 61) = Inr s" using 4 by (simp add: b64decode_def)
  with l m show ?case by (simp add: b64decode_def mult.commute)
qed (simp_all add: b64decode_def b64_loop_pads)

lemma strip_padding_body: "\<forall>c \<in> set body. c \<noteq> 61 \<Longrightarrow> strip_padding (body @ replicate k 61) = body"
proof -
  assume b: "\<forall>c \<in> set body. c \<noteq> 61"
  then have "dropWhile (\<lambda>c. c = 61) (rev body) = rev body" by (cases body rule: rev_cases) auto
  then show ?thesis by (simp add: strip_padding_def dropWhile_append)
qed

lemma token_bytes_encode:
  assumes "is_bytes bs" shows "token_bytes (strip_padding (urlsafe_b64encode bs)) = Inr bs" and "46 \<notin> set (strip_padding (urlsafe_b64encode bs))"
proof -
  from b64_body [OF assms] obtain body k where b: "b64encode bs = body @ replicate k 61" "\<forall>c \<in> set body. b64_safe c"
    "length body mod 4 = 0 \<and> k = 0 \<and> length bs mod 3 = 0 \<or> length body mod 4 = 4 - k \<and> k \<in> {1, 2}"
    by (elim exE conjE) (rule that)
  have url: "urlsafe_b64encode bs = map to_url body @ replicate k 61"
    by (simp add: urlsafe_b64encode_def b(1) to_url_def)
  have "\<forall>c \<in> set (map to_url body). c \<noteq> 61" using b(2) from_to_url by auto
  then have st: "strip_padding (urlsafe_b64encode bs) = map to_url body" unfolding url by (rule strip_padding_body)
  have decoded: "map from_url (map to_url body @ replicate m 61) = body @ replicate m 61" for m
    using b(2) from_to_url by (auto simp: from_url_def intro: map_idI)
  have ascii: "is_ascii (map to_url body @ replicate m 61)" for m using b(2) from_to_url by (auto simp: is_ascii_def)
  have "b64decode (body @ replicate (4 - length body mod 4) 61) = Inr bs"
  proof (cases "k = 0")
    case True
    with b b64_extra_padding [OF assms, of 4] show ?thesis by auto
  next
    case False
    with b(3) have "4 - length body mod 4 = k" by auto
    with b64_roundtrip [OF assms] b(1) show ?thesis by simp
  qed
  then show "token_bytes (strip_padding (urlsafe_b64encode bs)) = Inr bs"
    unfolding st token_bytes_def urlsafe_b64decode_def length_map decoded using ascii by simp
  show "46 \<notin> set (strip_padding (urlsafe_b64encode bs))" unfolding st using b(2) from_to_url by auto
qed

section \<open>What a token proves\<close>

lemma dumps_ascii_object:
  "is_ascii (json_dumps fl False (lit '','') (lit '':'') (token_payload service iat now jti))"
proof -
  have q: "is_ascii (json_quote s)" for s by (rule json_quote_ascii)
  have n: "is_ascii (lit (int_str i))" for i
    using nat_str_digits [of "\<bar>i\<bar>"] by (cases "i < 0") (auto simp: is_ascii_def int_str_def json_digit_def)
  show ?thesis using q n by (auto simp: token_payload_def Let_def jstr_def is_ascii_def)
qed

lemma is_ascii_bytes: "is_ascii s \<Longrightarrow> is_bytes s"
  by (auto simp: is_ascii_def is_bytes_def)

lemma token_payload_plain: "\<forall>c \<in> set service. scalar c \<Longrightarrow> plain (token_payload service iat now jti)"
  using of_char_bound by (auto simp: token_payload_def jstr_def scalar_def)

lemma token_exp: "token_payload service iat now jti = JObj kvs \<Longrightarrow> dict_get kvs (lit ''exp'') (JInt 0) = JInt (now + token_ttl)"
  by (auto simp: token_payload_def)

text \<open>
  C34: a token that the API makes is accepted up to five minutes after it was made, whatever its service
  and identifier are, and refused from then on; the bytes pass through the Base64 without padding,
  the HMAC and the JSON reader unchanged. It relies on ASCII bytes being decoded to their characters.
\<close>
theorem internal_token_roundtrip:
  assumes "generate_internal_token env service iat now jti = Inr token" and "\<forall>c \<in> set service. scalar c"
    and "\<And>b. is_ascii b \<Longrightarrow> ie_decode env b = Inr b"
  shows "verify_internal_token env now' token \<longleftrightarrow> now' \<le> now + 300"
proof -
  let ?j = "token_payload service iat now jti" and ?b = "json_dumps (\<lambda>q. []) False (lit '','') (lit '':'') (token_payload service iat now jti)"
  have a: "is_ascii ?b" by (rule dumps_ascii_object)
  let ?enc = "strip_padding (urlsafe_b64encode ?b)" and ?sig = "lit (hmac_hex (ie_sha env) (ie_secret env) ?b)"
  have t: "token = ?enc @ 46 # ?sig" using assms(1) utf8_encode_ascii [OF a] by (simp add: generate_internal_token_def)
  note e = token_bytes_encode [OF is_ascii_bytes [OF a]]
  have "py_split_max 46 1 token = [?enc, ?sig]" using split_at_first [OF e(2), of 0 ?sig] by (simp add: t)
  moreover have "json_loads (ie_num env) ?b = Inr ?j" by (rule compact.loads_dumps [OF token_payload_plain [OF assms(2)]])
  moreover obtain kvs where kvs: "?j = JObj kvs" by (simp add: token_payload_def)
  ultimately have "verify_internal_token env now' token = unexpired (dict_get kvs (lit ''exp'') (JInt 0)) now'"
    using e(1) assms(3) [OF a] by (simp add: verify_internal_token_def)
  with token_exp [OF kvs] show ?thesis by (simp add: unexpired_def token_ttl_def)
qed

text \<open>
  the signature of an accepted token pins its payload. Two accepted tokens with the same part after the dot
  have the same payload bytes, or they are an explicit collision of the digest function; and the
  time of both is not past the expiry that this payload states.
\<close>
theorem internal_token_signature:
  assumes "ie_sha env = sha256" and "verify_internal_token env now (enc1 @ 46 # sig)" and "verify_internal_token env now (enc2 @ 46 # sig)"
    and "46 \<notin> set enc1" and "46 \<notin> set enc2"
  shows "\<exists>b1 b2. token_bytes enc1 = Inr b1 \<and> token_bytes enc2 = Inr b2 \<and> sig = lit (hmac_hex sha256 (ie_secret env) b1)
    \<and> (b1 = b2 \<or> (\<exists>x \<in> {hmac_inner sha256 (ie_secret env) b1, hmac_outer sha256 (ie_secret env) b1}.
         \<exists>y \<in> {hmac_inner sha256 (ie_secret env) b2, hmac_outer sha256 (ie_secret env) b2}. x \<noteq> y \<and> sha256 x = sha256 y))"
proof -
  have acc: "\<exists>b. token_bytes enc = Inr b \<and> sig = lit (hmac_hex sha256 (ie_secret env) b)"
    if "verify_internal_token env now (enc @ 46 # sig)" "46 \<notin> set enc" for enc
    using that(1) split_at_first [OF that(2), of 0 sig] assms(1)
    by (auto simp: verify_internal_token_def split: sum.splits if_splits)
  from acc [OF assms(2,4)] acc [OF assms(3,5)] obtain b1 b2 where b: "token_bytes enc1 = Inr b1" "sig = lit (hmac_hex sha256 (ie_secret env) b1)"
    "token_bytes enc2 = Inr b2" "sig = lit (hmac_hex sha256 (ie_secret env) b2)" by blast
  then have "hmac_hex sha256 (ie_secret env) b1 = hmac_hex sha256 (ie_secret env) b2" by (simp add: lit_inj)
  from sha256.hmac_inj [OF this] b show ?thesis by blast
qed

section \<open>Witnesses\<close>

definition sample_tokens :: token_env where
  "sample_tokens = \<lparr>ie_sha = sha256, ie_secret = [], ie_decode = Inr, ie_num = JStr\<rparr>"

lemma generates:
  "\<exists>enc sig. generate_internal_token env service iat now jti = Inr (enc @ 46 # sig) \<and> 46 \<notin> set enc"
  using utf8_encode_ascii [OF dumps_ascii_object] token_bytes_encode(2) [OF is_ascii_bytes [OF dumps_ascii_object]]
  by (simp add: generate_internal_token_def) blast

lemma internal_token_roundtrip_witness:
  "\<exists>token. generate_internal_token sample_tokens (lit ''api'') 0 1 7 = Inr token
     \<and> verify_internal_token sample_tokens 301 token \<and> \<not> verify_internal_token sample_tokens 302 token"
proof -
  obtain enc sig where g: "generate_internal_token sample_tokens (lit ''api'') 0 1 7 = Inr (enc @ 46 # sig)" using generates by blast
  have "\<forall>c \<in> set (lit ''api''). scalar c" by (simp add: scalar_def)
  from internal_token_roundtrip [OF g this] have "verify_internal_token sample_tokens t (enc @ 46 # sig) \<longleftrightarrow> t \<le> 1 + 300" for t
    by (simp add: sample_tokens_def)
  with g show ?thesis by auto
qed

lemma sample_token_accepted:
  "\<exists>enc sig. 46 \<notin> set enc \<and> verify_internal_token sample_tokens 0 (enc @ 46 # sig)"
proof -
  let ?b = "json_dumps (\<lambda>q. []) False (lit '','') (lit '':'') (token_payload [] 0 1 7)"
  have a: "is_ascii ?b" by (rule dumps_ascii_object)
  let ?enc = "strip_padding (urlsafe_b64encode ?b)" and ?sig = "lit (hmac_hex sha256 [] ?b)"
  note e = token_bytes_encode [OF is_ascii_bytes [OF a]]
  have "token_payload [] 0 1 7 = JObj kvs \<Longrightarrow> unexpired (dict_get kvs (lit ''exp'') (JInt 0)) 0" for kvs
    using token_exp by (simp add: unexpired_def token_ttl_def)
  moreover have "json_loads JStr ?b = Inr (token_payload [] 0 1 7)" by (rule compact.loads_dumps [OF token_payload_plain]) simp
  moreover obtain kvs where "token_payload [] 0 1 7 = JObj kvs" by (simp add: token_payload_def)
  ultimately have "verify_internal_token sample_tokens 0 (?enc @ 46 # ?sig)"
    using e(1) split_at_first [OF e(2), of 0 ?sig] by (simp add: verify_internal_token_def sample_tokens_def)
  with e(2) show ?thesis by blast
qed

lemma internal_token_signature_witness:
  "\<exists>enc b sig. token_bytes enc = Inr b \<and> verify_internal_token sample_tokens 0 (enc @ 46 # sig) \<and> sig = lit (hmac_hex sha256 [] b)"
proof -
  obtain enc sig where v: "46 \<notin> set enc" "verify_internal_token sample_tokens 0 (enc @ 46 # sig)" using sample_token_accepted by blast
  have s: "ie_sha sample_tokens = sha256" "ie_secret sample_tokens = []" by (simp_all add: sample_tokens_def)
  from internal_token_signature [OF s(1) v(2,2,1,1)] v(2) s(2) show ?thesis by metis
qed

end
