(* ===== verification/Recall.thy ===== *)
theory Recall
  imports Presidio_Detector "HOL-Library.Sublist" "HOL-Library.List_Lexorder" "HOL-Library.Char_ord"
begin

text \<open>
  The recall gauge (\<open>workers/ml/recall\_evaluator.py\<close>): the detector runs on a labelled corpus, a label
  counts as found when a finding of its class overlaps it by half, and the share of the found
  labels of a class goes to a Prometheus gauge. The corpus file is a parameter with the keys its
  entries have or lack; quotients are exact, which agrees with the floating-point comparison for
  spans below \<open>2 ^ 53\<close>.
\<close>

section \<open>The evaluator\<close>

definition iou :: "int \<times> int \<Rightarrow> int \<times> int \<Rightarrow> rat" where
  "iou a b =
     (let inter_start = max (fst a) (fst b); inter_end = min (snd a) (snd b) in
      if inter_end \<le> inter_start then 0
      else let inter = inter_end - inter_start; union = (snd a - fst a) + (snd b - fst b) - inter in
        if 0 < union then of_int inter / of_int union else 0)"

record expectation =
  ex_type :: "string option"
  ex_start :: "int option"
  ex_end :: "int option"

record corpus_sample =
  cs_text :: "doc option"
  cs_expected :: "expectation list"

definition of_class :: "string \<Rightarrow> corpus_sample \<Rightarrow> expectation list" where
  "of_class cls s = filter (\<lambda>e. ex_type e = Some cls) (cs_expected s)"

definition detected_spans :: "string \<Rightarrow> finding_data list \<Rightarrow> (int \<times> int) list" where
  "detected_spans cls fs = map (\<lambda>f. (int (span_start f), int (span_end f))) (filter (\<lambda>f. sublist cls (detector f)) fs)"

text \<open>\<open>exp["span_start"]\<close> raises when the key is missing.\<close>

definition exp_span :: "expectation \<Rightarrow> (int \<times> int) result" where
  "exp_span e = (case (ex_start e, ex_end e) of (Some a, Some b) \<Rightarrow> Inr (a, b) | _ \<Rightarrow> Inl (PyExc ''KeyError''))"

fun count_hits :: "(int \<times> int) list \<Rightarrow> expectation list \<Rightarrow> nat \<times> nat \<Rightarrow> (nat \<times> nat) result" where
  "count_hits spans [] n = Inr n"
| "count_hits spans (e # es) n =
     rbind (exp_span e) (\<lambda>x.
       count_hits spans es (if list_ex (\<lambda>d. 1 / 2 \<le> iou x d) spans then (Suc (fst n), snd n) else (fst n, Suc (snd n))))"

fun recall_counts ::
  "(doc \<Rightarrow> finding_data list result) \<Rightarrow> string \<Rightarrow> corpus_sample list \<Rightarrow> nat \<times> nat \<Rightarrow> (nat \<times> nat) result" where
  "recall_counts detect cls [] n = Inr n"
| "recall_counts detect cls (s # ss) n =
     (if of_class cls s = [] then recall_counts detect cls ss n
      else rbind (case cs_text s of None \<Rightarrow> Inl (PyExc ''KeyError'') | Some t \<Rightarrow> detect t) (\<lambda>fs.
        rbind (count_hits (detected_spans cls fs) (of_class cls s) n) (recall_counts detect cls ss)))"

definition compute_recall ::
  "(doc \<Rightarrow> finding_data list result) \<Rightarrow> corpus_sample list \<Rightarrow> string \<Rightarrow> rat result" where
  "compute_recall detect samples cls =
     rbind (recall_counts detect cls samples (0, 0)) (\<lambda>(true_positive, false_negative).
       let n = true_positive + false_negative in
       Inr (if 0 < n then of_nat true_positive / of_nat n else 0))"

datatype corpus_file = Corpus_Missing | Corpus_Unreadable | Corpus "corpus_sample list"

type_synonym gauge = "string \<Rightarrow> rat option"

text \<open>The classes of the corpus; \<open>e["entity_type"]\<close> raises outside every \<open>try\<close>.\<close>

definition corpus_classes :: "corpus_sample list \<Rightarrow> string list result" where
  "corpus_classes samples =
     (let types = map ex_type (concat (map cs_expected samples)) in
      if None \<in> set types then Inl (PyExc ''KeyError'') else Inr (sort (remdups (map the types))))"

text \<open>One class; an exception is logged and leaves the gauge and the results as they are.\<close>

definition update_class ::
  "(doc \<Rightarrow> finding_data list result) \<Rightarrow> corpus_sample list \<Rightarrow> gauge \<times> (string \<times> rat) list \<Rightarrow> string \<Rightarrow> gauge \<times> (string \<times> rat) list" where
  "update_class detect samples s cls =
     (case compute_recall detect samples cls of
        Inl e \<Rightarrow> s
      | Inr r \<Rightarrow> ((fst s)(cls \<mapsto> r), snd s @ [(cls, r)]))"

definition evaluate_and_update_gauge ::
  "(doc \<Rightarrow> finding_data list result) \<Rightarrow> corpus_file \<Rightarrow> gauge \<Rightarrow> gauge \<times> (string \<times> rat) list result" where
  "evaluate_and_update_gauge detect file g =
     (case file of
        Corpus samples \<Rightarrow>
          if samples = [] then (g, Inr [])
          else (case corpus_classes samples of
                  Inl e \<Rightarrow> (g, Inl e)
                | Inr classes \<Rightarrow> (case foldl (update_class detect samples) (g, []) classes of (g', rs) \<Rightarrow> (g', Inr rs)))
      | _ \<Rightarrow> (g, Inr []))"

text \<open>The turns of the loop, with the corpus file and the detector's answers at each; exceptions are swallowed.\<close>

definition run_recall_loop :: "((doc \<Rightarrow> finding_data list result) \<times> corpus_file) list \<Rightarrow> gauge \<Rightarrow> gauge" where
  "run_recall_loop turns g = foldl (\<lambda>g (detect, file). fst (evaluate_and_update_gauge detect file g)) g turns"

section \<open>Overlap\<close>

lemma iou_sym: "iou a b = iou b a"
  by (simp add: iou_def Let_def max.commute min.commute add.commute [of "snd a - fst a"])

lemma iou_bounds: "0 \<le> iou a b \<and> iou a b \<le> 1"
proof (cases "min (snd a) (snd b) \<le> max (fst a) (fst b)")
  case False
  let ?i = "min (snd a) (snd b) - max (fst a) (fst b)" and ?u = "snd a - fst a + (snd b - fst b) - (min (snd a) (snd b) - max (fst a) (fst b))"
  have "0 < ?i" "?i \<le> ?u" using False by linarith+
  then have "0 \<le> (of_int ?i :: rat)" "(of_int ?i :: rat) \<le> of_int ?u" "0 < (of_int ?u :: rat)" by (simp_all only: of_int_0_le_iff of_int_le_iff of_int_0_less_iff)
  then have "0 \<le> (of_int ?i / of_int ?u :: rat)" "(of_int ?i / of_int ?u :: rat) \<le> 1" by (simp_all only: divide_nonneg_pos divide_le_eq_1_pos)
  with False show ?thesis by (simp add: iou_def Let_def)
qed (simp add: iou_def Let_def)

lemma iou_same: "s < e \<Longrightarrow> iou (s, e) (s, e) = 1"
  by (simp add: iou_def Let_def)

section \<open>Counting\<close>

text \<open>The labels of a class with the findings on their text, and when such a label is found.\<close>

definition hit :: "string \<Rightarrow> finding_data list \<times> expectation \<Rightarrow> bool" where
  "hit cls p \<longleftrightarrow> (\<exists>a b d. ex_start (snd p) = Some a \<and> ex_end (snd p) = Some b \<and> d \<in> set (detected_spans cls (fst p)) \<and> 1 / 2 \<le> iou (a, b) d)"

definition sample_findings :: "(doc \<Rightarrow> finding_data list result) \<Rightarrow> corpus_sample \<Rightarrow> finding_data list" where
  "sample_findings detect s = (case cs_text s of None \<Rightarrow> [] | Some t \<Rightarrow> (case detect t of Inl e \<Rightarrow> [] | Inr fs \<Rightarrow> fs))"

definition labels :: "(doc \<Rightarrow> finding_data list result) \<Rightarrow> string \<Rightarrow> corpus_sample list \<Rightarrow> (finding_data list \<times> expectation) list" where
  "labels detect cls samples =
     concat (map (\<lambda>s. map (Pair (sample_findings detect s)) (of_class cls s)) samples)"

lemma count_hits_eq:
  "count_hits (detected_spans cls fs) es n = Inr m \<Longrightarrow>
     m = (fst n + length (filter (hit cls) (map (Pair fs) es)), snd n + length (filter (\<lambda>p. \<not> hit cls p) (map (Pair fs) es)))"
proof (induction es arbitrary: n)
  case (Cons e es)
  from Cons.prems obtain a b where x: "ex_start e = Some a" "ex_end e = Some b" "exp_span e = Inr (a, b)"
    by (auto simp: exp_span_def rbind_Inr_iff split: option.splits)
  have h: "list_ex (\<lambda>d. 1 / 2 \<le> iou (a, b) d) (detected_spans cls fs) = hit cls (fs, e)"
    by (auto simp: hit_def x list_ex_iff)
  have "count_hits (detected_spans cls fs) es (if hit cls (fs, e) then (Suc (fst n), snd n) else (fst n, Suc (snd n))) = Inr m"
    using Cons.prems by (simp only: count_hits.simps x(3) rbind.simps h)
  from Cons.IH [OF this] show ?case by auto
qed simp

lemma recall_counts_eq:
  "recall_counts detect cls ss n = Inr m \<Longrightarrow>
     m = (fst n + length (filter (hit cls) (labels detect cls ss)), snd n + length (filter (\<lambda>p. \<not> hit cls p) (labels detect cls ss)))"
proof (induction ss arbitrary: n)
  case (Cons s ss)
  show ?case
  proof (cases "of_class cls s = []")
    case True
    with Cons show ?thesis by (simp add: labels_def)
  next
    case False
    with Cons.prems obtain t fs k where d: "cs_text s = Some t" "detect t = Inr fs"
      "count_hits (detected_spans cls fs) (of_class cls s) n = Inr k" "recall_counts detect cls ss k = Inr m"
      by (auto simp: rbind_Inr_iff split: option.splits)
    from Cons.IH [OF d(4)] count_hits_eq [OF d(3)] show ?thesis
      by (simp add: labels_def sample_findings_def d(1,2))
  qed
qed (simp add: labels_def)

lemma compute_recall_eq:
  assumes "compute_recall detect samples cls = Inr r"
  defines "ls \<equiv> labels detect cls samples"
  shows "r = (if ls = [] then 0 else of_nat (length (filter (hit cls) ls)) / of_nat (length ls))"
proof -
  from assms(1) obtain m where m: "recall_counts detect cls samples (0, 0) = Inr m"
    "r = (let n = fst m + snd m in if 0 < n then of_nat (fst m) / of_nat n else 0)"
    by (auto simp: compute_recall_def rbind_Inr_iff)
  from recall_counts_eq [OF m(1)] have "fst m = length (filter (hit cls) ls)" "snd m = length (filter (\<lambda>p. \<not> hit cls p) ls)"
    by (simp_all add: ls_def)
  moreover from this have "fst m + snd m = length ls" using sum_length_filter_compl [of "hit cls" ls] by simp
  ultimately show ?thesis using m(2) by (simp add: Let_def)
qed

lemma compute_recall_bounds: "compute_recall detect samples cls = Inr r \<Longrightarrow> 0 \<le> r \<and> r \<le> 1"
  by (drule compute_recall_eq) (auto simp: divide_le_eq_1 length_filter_le)

lemma filter_length_eq: "length (filter P xs) = length xs \<longleftrightarrow> (\<forall>x \<in> set xs. P x)"
  by (metis filter_True length_filter_less linorder_neq_iff)

text \<open>
  the recall of a class is a proportion. It lies between zero and one; it is one exactly when the
  class has labels and every one is overlapped by half by a finding whose detector
  name contains the class, and zero exactly when none is.
\<close>
theorem recall_is_proportion:
  assumes "compute_recall detect samples cls = Inr r"
  shows "0 \<le> r \<and> r \<le> 1
    \<and> (r = 1 \<longleftrightarrow> labels detect cls samples \<noteq> [] \<and> (\<forall>p \<in> set (labels detect cls samples). hit cls p))
    \<and> (r = 0 \<longleftrightarrow> (\<forall>p \<in> set (labels detect cls samples). \<not> hit cls p))"
proof (cases "labels detect cls samples = []")
  case True
  with compute_recall_eq [OF assms] show ?thesis by simp
next
  case False
  let ?ls = "labels detect cls samples"
  have r: "r = of_nat (length (filter (hit cls) ?ls)) / of_nat (length ?ls)" using False compute_recall_eq [OF assms] by simp
  have n: "(of_nat (length ?ls) :: rat) \<noteq> 0" using False by simp
  have "r = 1 \<longleftrightarrow> of_nat (length (filter (hit cls) ?ls)) = (of_nat (length ?ls) :: rat)" unfolding r by (rule right_inverse_eq [OF n])
  then have "r = 1 \<longleftrightarrow> length (filter (hit cls) ?ls) = length ?ls" unfolding of_nat_eq_iff .
  moreover have "r = 0 \<longleftrightarrow> filter (hit cls) ?ls = []" unfolding r using n by simp
  ultimately show ?thesis using compute_recall_bounds [OF assms] False unfolding filter_length_eq filter_empty_conv by blast
qed

lemma recall_is_proportion_witness:
  "compute_recall (\<lambda>t. Inr []) [\<lparr>cs_text = Some [], cs_expected = [\<lparr>ex_type = Some ''SSN'', ex_start = Some 0, ex_end = Some 9\<rparr>]\<rparr>] ''SSN'' = Inr 0
   \<and> 0 \<le> (0 :: rat) \<and> (0 :: rat) \<le> 1"
proof -
  have run: "compute_recall (\<lambda>t. Inr []) [\<lparr>cs_text = Some [], cs_expected = [\<lparr>ex_type = Some ''SSN'', ex_start = Some 0, ex_end = Some 9\<rparr>]\<rparr>] ''SSN'' = Inr 0"
    by (simp add: compute_recall_def of_class_def detected_spans_def exp_span_def)
  from recall_is_proportion [OF this] run show ?thesis by blast
qed

section \<open>The gauge\<close>

lemma update_class_fold:
  "distinct classes \<Longrightarrow> fst (foldl (update_class detect samples) s classes) c =
     (if c \<in> set classes then (case compute_recall detect samples c of Inl e \<Rightarrow> fst s c | Inr r \<Rightarrow> Some r) else fst s c)"
proof (induction classes arbitrary: s)
  case (Cons d ds)
  then show ?case by (cases "compute_recall detect samples d") (auto simp: update_class_def split: sum.splits)
qed simp

lemma corpus_classes_distinct: "corpus_classes samples = Inr cs \<Longrightarrow> distinct cs \<and> sorted cs \<and>
   (c \<in> set cs \<longleftrightarrow> (\<exists>s \<in> set samples. \<exists>e \<in> set (cs_expected s). ex_type e = Some c))"
  by (auto simp: corpus_classes_def Let_def image_iff split: if_splits) force+

lemma evaluate_gauge:
  "fst (evaluate_and_update_gauge detect corpus g) c =
     (case corpus of
        Corpus samples \<Rightarrow> (case corpus_classes samples of
            Inl e \<Rightarrow> g c
          | Inr cs \<Rightarrow> if c \<in> set cs then (case compute_recall detect samples c of Inl e \<Rightarrow> g c | Inr r \<Rightarrow> Some r) else g c)
      | _ \<Rightarrow> g c)"
proof (cases corpus)
  case (Corpus samples)
  have nil: "corpus_classes [] = Inr []" by (simp add: corpus_classes_def)
  show ?thesis
  proof (cases "corpus_classes samples")
    case (Inl e)
    with Corpus nil show ?thesis by (auto simp: evaluate_and_update_gauge_def)
  next
    case (Inr cs)
    with corpus_classes_distinct have "distinct cs" by blast
    from update_class_fold [OF this, of detect samples "(g, [])" c] Corpus Inr nil show ?thesis
      by (cases "samples = []"; cases "compute_recall detect samples c") (auto simp: evaluate_and_update_gauge_def split: prod.splits)
  qed
qed (simp_all add: evaluate_and_update_gauge_def)

text \<open>
  whatever the corpus file holds at each turn and whatever the detector answers or raises, every value
  of the recall gauge stays between zero and one.
\<close>
theorem recall_gauge_bounded:
  assumes "\<And>c r. g c = Some r \<Longrightarrow> 0 \<le> r \<and> r \<le> 1" and "run_recall_loop turns g c = Some r"
  shows "0 \<le> r \<and> r \<le> 1"
proof -
  have "\<forall>c r. run_recall_loop turns g c = Some r \<longrightarrow> 0 \<le> r \<and> r \<le> 1"
  proof (induction turns rule: rev_induct)
    case (snoc t ts)
    then show ?case using compute_recall_bounds
      by (auto simp: run_recall_loop_def evaluate_gauge split: prod.splits corpus_file.splits sum.splits if_splits)
  qed (use assms(1) in \<open>auto simp: run_recall_loop_def\<close>)
  with assms(2) show ?thesis by blast
qed

lemma recall_gauge_bounded_witness: "\<exists>r. run_recall_loop [(\<lambda>t. Inr [], Corpus [\<lparr>cs_text = Some [],
    cs_expected = [\<lparr>ex_type = Some ''SSN'', ex_start = Some 0, ex_end = Some 9\<rparr>]\<rparr>])] Map.empty ''SSN'' = Some r \<and> 0 \<le> r \<and> r \<le> 1"
proof -
  let ?turns = "[(\<lambda>t :: doc. Inr [] :: finding_data list result, Corpus [\<lparr>cs_text = Some [],
    cs_expected = [\<lparr>ex_type = Some ''SSN'', ex_start = Some 0, ex_end = Some 9\<rparr>]\<rparr>])]"
  have run: "run_recall_loop ?turns Map.empty ''SSN'' = Some 0"
    by (simp add: run_recall_loop_def evaluate_gauge corpus_classes_def compute_recall_def of_class_def detected_spans_def exp_span_def)
  have "0 \<le> (0 :: rat) \<and> (0 :: rat) \<le> 1"
    by (rule recall_gauge_bounded [of Map.empty, OF _ run]) simp
  with run show ?thesis by blast
qed

section \<open>Classes of the other detector\<close>

lemma presidio_loop_names:
  "presidio_loop pe t rs fs = Inr gs \<Longrightarrow> set gs \<subseteq> set fs \<union> presidio_finding ` set rs"
  by (induction rs arbitrary: fs) (force simp: Let_def split: if_splits)+

definition default_types :: "string list" where
  "default_types = [''EMAIL_ADDRESS'', ''PHONE_NUMBER'', ''PERSON'', ''CREDIT_CARD'', ''IBAN_CODE'', ''IP_ADDRESS'', ''SSN'', ''API_KEY'']"

lemma default_names_not_regex: "ty \<in> set default_types \<Longrightarrow> \<not> sublist ''REGEX'' (''presidio.'' @ ty)"
proof -
  have "list_all (\<lambda>ty. \<not> sublist ''REGEX'' (''presidio.'' @ ty)) default_types" by code_simp
  then show "ty \<in> set default_types \<Longrightarrow> \<not> sublist ''REGEX'' (''presidio.'' @ ty)" by (simp add: list_all_iff)
qed

text \<open>
  the gauge says nothing about the regex detector. The evaluator runs the Presidio detector only, so for a class
  of the corpus that the regex rules detect, whose name starts with \<open>REGEX\<close>, the recall is zero
  whatever the regex rules find. It relies on Presidio reporting only entity types that were asked for.
\<close>
theorem regex_classes_score_zero:
  assumes "\<And>t th rs r. analyze pe t default_entities th = Inr rs \<Longrightarrow> r \<in> set rs \<Longrightarrow> entity_type r \<in> set default_types"
    and "compute_recall (\<lambda>t. presidio_detect pe t (JObj [])) samples (''REGEX'' @ cls) = Inr r"
  shows "r = 0"
proof -
  have none: "detected_spans (''REGEX'' @ cls) fs = []" if d: "presidio_detect pe t (JObj []) = Inr fs" for t fs
  proof -
    have "\<not> sublist (''REGEX'' @ cls) (detector f)" if "f \<in> set fs" for f
    proof -
      from d \<open>f \<in> set fs\<close> obtain th rs x where x: "analyze pe t default_entities th = Inr rs" "x \<in> set rs" "f = presidio_finding x"
        using presidio_loop_names [of pe t _ "[]" fs] by (auto simp: presidio_detect_def rbind_Inr_iff split: sum.splits) blast
      have "detector f = ''presidio.'' @ entity_type x" by (simp add: x(3) presidio_finding_def)
      with default_names_not_regex [OF assms(1) [OF x(1,2)]] show ?thesis
        by (metis prefixI prefix_imp_sublist sublist_order.order_trans)
    qed
    then show ?thesis by (simp add: detected_spans_def filter_empty_conv)
  qed
  have "\<not> hit (''REGEX'' @ cls) p" if "p \<in> set (labels (\<lambda>t. presidio_detect pe t (JObj [])) (''REGEX'' @ cls) samples)" for p
  proof -
    from that obtain s where s: "fst p = sample_findings (\<lambda>t. presidio_detect pe t (JObj [])) s"
      unfolding labels_def by auto
    have "detected_spans (''REGEX'' @ cls) (fst p) = []"
    proof (cases "\<exists>t fs. cs_text s = Some t \<and> presidio_detect pe t (JObj []) = Inr fs")
      case True
      then obtain t fs where "cs_text s = Some t" "presidio_detect pe t (JObj []) = Inr fs" by blast
      with none [OF this(2)] s show ?thesis by (simp add: sample_findings_def)
    next
      case False
      then have "fst p = []" unfolding s sample_findings_def by (auto split: option.splits sum.splits)
      then show ?thesis by (simp add: detected_spans_def)
    qed
    then show ?thesis by (simp add: hit_def)
  qed
  with compute_recall_eq [OF assms(2)] show ?thesis by (auto simp: filter_empty_conv)
qed

definition quiet_env :: presidio_env where
  "quiet_env = \<lparr>analyze = (\<lambda>t ents th. Inr []), float_of_str = (\<lambda>s. Inl (PyExc ''ValueError'')), pe_ucd = ascii_ucd, debug_enabled = False\<rparr>"

lemma regex_classes_score_zero_witness:
  "\<exists>pe. compute_recall (\<lambda>t. presidio_detect pe t (JObj [])) [\<lparr>cs_text = Some [],
     cs_expected = [\<lparr>ex_type = Some ''REGEX_JWT_TOKEN'', ex_start = Some 0, ex_end = Some 9\<rparr>]\<rparr>] ''REGEX_JWT_TOKEN'' = Inr 0"
proof -
  let ?pe = "quiet_env" and ?s = "[\<lparr>cs_text = Some [], cs_expected = [\<lparr>ex_type = Some ''REGEX_JWT_TOKEN'', ex_start = Some 0, ex_end = Some 9\<rparr>]\<rparr>]"
  have "\<exists>r. compute_recall (\<lambda>t. presidio_detect ?pe t (JObj [])) ?s (''REGEX'' @ ''_JWT_TOKEN'') = Inr r"
    by (simp add: compute_recall_def of_class_def exp_span_def quiet_env_def presidio_detect_def detected_spans_def)
  then obtain r where r: "compute_recall (\<lambda>t. presidio_detect ?pe t (JObj [])) ?s (''REGEX'' @ ''_JWT_TOKEN'') = Inr r" by blast
  have "r = 0" by (rule regex_classes_score_zero [OF _ r]) (simp add: quiet_env_def)
  with r show ?thesis by auto
qed

end
