(* ===== verification/Bulk_Users.thy ===== *)
theory Bulk_Users
  imports Opa_Client Regex_Detector "HOL-Library.Sublist"
begin

text \<open>
  The script that creates Keycloak users from a CSV file (\<open>infra/scripts/bulk-create-users.py\<close>). Keycloak
  is a parameter: a function from its state and a request to an answer and the next state. The rows
  are those of \<open>csv.DictReader\<close>, a map from the header's columns to values, where a short row has \<open>None\<close>; printed
  lines and the parsing of the command line are not modelled.
\<close>

section \<open>Requests\<close>

record kc_request =
  rq_method :: string
  rq_url :: doc
  rq_body :: "json option"

text \<open>An answer with its decoded body (none when it is empty), an \<open>HTTPError\<close> with its code and body, or another exception.\<close>

datatype kc_answer = Kc_Ok "json option" | Kc_Http_Error nat doc | Kc_Exc exn

datatype kc_error = RuntimeErr doc | OtherErr exn

type_synonym 's keycloak = "'s \<Rightarrow> kc_request \<Rightarrow> kc_answer \<times> 's"

definition kc_text :: "nat \<Rightarrow> doc \<Rightarrow> doc" where
  "kc_text code body = lit ''HTTP '' @ lit (int_str (int code)) @ lit '': '' @ body"

definition api_request :: "'s keycloak \<Rightarrow> string \<Rightarrow> doc \<Rightarrow> json option \<Rightarrow> 's \<Rightarrow> (kc_error + json option) \<times> 's" where
  "api_request kc meth url body s =
     (case kc s \<lparr>rq_method = meth, rq_url = url, rq_body = body\<rparr> of
        (Kc_Ok j, s') \<Rightarrow> (Inr j, s')
      | (Kc_Http_Error code text, s') \<Rightarrow> (Inl (RuntimeErr (kc_text code text)), s')
      | (Kc_Exc e, s') \<Rightarrow> (Inl (OtherErr e), s'))"

definition kc_bind :: "(kc_error + 'a) \<times> 's \<Rightarrow> ('a \<Rightarrow> 's \<Rightarrow> (kc_error + 'b) \<times> 's) \<Rightarrow> (kc_error + 'b) \<times> 's" where
  "kc_bind r f = (case r of (Inl e, s) \<Rightarrow> (Inl e, s) | (Inr x, s) \<Rightarrow> f x s)"

text \<open>\<open>urllib.parse.quote\<close>: unreserved characters and the slash stay, every other byte is written in hex.\<close>

definition unreserved :: "nat \<Rightarrow> bool" where
  "unreserved c \<longleftrightarrow> 48 \<le> c \<and> c \<le> 57 \<or> 65 \<le> c \<and> c \<le> 90 \<or> 97 \<le> c \<and> c \<le> 122 \<or> c \<in> {45, 46, 47, 95, 126}"

definition upper_hex :: "nat \<Rightarrow> nat" where
  "upper_hex n = (if n < 10 then 48 + n else 55 + n)"

definition py_quote :: "doc \<Rightarrow> doc result" where
  "py_quote s = rbind (utf8_encode s)
     (\<lambda>bs. Inr (concat (map (\<lambda>b. if unreserved b then [b] else [37, upper_hex (b div 16), upper_hex (b mod 16)]) bs)))"

section \<open>One row\<close>

type_synonym csv_row = "string \<Rightarrow> doc option option"

text \<open>\<open>row[key].strip()\<close>.\<close>

definition row_field :: "csv_row \<Rightarrow> string \<Rightarrow> doc result" where
  "row_field row key =
     (case row key of
        None \<Rightarrow> Inl (PyExc ''KeyError'')
      | Some None \<Rightarrow> Inl (PyExc ''AttributeError'')
      | Some (Some v) \<Rightarrow> Inr (strip_by is_space v))"

record new_user =
  nu_username :: doc
  nu_email :: doc
  nu_first :: doc
  nu_last :: doc
  nu_role :: doc

definition valid_roles :: "doc list" where
  "valid_roles = [lit ''viewer'', lit ''reviewer'', lit ''policy_editor'', lit ''admin'']"

definition read_row :: "ucd \<Rightarrow> csv_row \<Rightarrow> new_user result" where
  "read_row u row =
     rbind (row_field row ''username'') (\<lambda>username.
     rbind (row_field row ''email'') (\<lambda>email.
     rbind (row_field row ''first_name'') (\<lambda>first_name.
     rbind (row_field row ''last_name'') (\<lambda>last_name.
     rbind (row_field row ''role'') (\<lambda>r.
       let role = py_lower u r in
       if role \<notin> set valid_roles then Inl (PyExc ''ValueError'')
       else Inr \<lparr>nu_username = username, nu_email = email, nu_first = first_name, nu_last = last_name, nu_role = role\<rparr>)))))"

definition user_payload :: "new_user \<Rightarrow> json" where
  "user_payload n =
     JObj [(lit ''username'', JStr (nu_username n)), (lit ''email'', JStr (nu_email n)), (lit ''firstName'', JStr (nu_first n)),
       (lit ''lastName'', JStr (nu_last n)), (lit ''enabled'', JBool True), (lit ''emailVerified'', JBool True),
       (lit ''credentials'', JArr [JObj [(lit ''type'', jstr ''password''), (lit ''value'', JStr (nu_username n @ lit ''@Sc1!'')),
          (lit ''temporary'', JBool True)]]),
       (lit ''requiredActions'', JArr [jstr ''UPDATE_PASSWORD''])]"

definition users_url :: "doc \<Rightarrow> doc \<Rightarrow> doc" where
  "users_url base realm = base @ lit ''/admin/realms/'' @ realm @ lit ''/users''"

definition role_url :: "doc \<Rightarrow> doc \<Rightarrow> doc \<Rightarrow> doc" where
  "role_url base realm role = base @ lit ''/admin/realms/'' @ realm @ lit ''/roles/'' @ role"

text \<open>
  \<open>users[0]["id"]\<close> on what the search gave, after \<open>if not users: raise\<close>; \<open>str\<close> of the identifier is a parameter.
\<close>

definition first_id :: "(json \<Rightarrow> doc) \<Rightarrow> json option \<Rightarrow> kc_error + doc" where
  "first_id py_str users =
     (case users of
        None \<Rightarrow> Inl (OtherErr (PyExc ''RuntimeError''))
      | Some j \<Rightarrow>
          if \<not> json_truthy j then Inl (OtherErr (PyExc ''RuntimeError''))
          else (case j of
                  JArr (JObj kvs # js) \<Rightarrow>
                    (case map_of kvs (lit ''id'') of None \<Rightarrow> Inl (OtherErr (PyExc ''KeyError'')) | Some i \<Rightarrow> Inr (py_str i))
                | JObj kvs \<Rightarrow> Inl (OtherErr (PyExc ''KeyError''))
                | _ \<Rightarrow> Inl (OtherErr (PyExc ''TypeError''))))"

definition assign_role :: "(json \<Rightarrow> doc) \<Rightarrow> 's keycloak \<Rightarrow> doc \<Rightarrow> doc \<Rightarrow> new_user \<Rightarrow> 's \<Rightarrow> (kc_error + doc) \<times> 's" where
  "assign_role py_str kc base realm n s =
     (case py_quote (nu_username n) of
        Inl e \<Rightarrow> (Inl (OtherErr e), s)
      | Inr quoted \<Rightarrow>
          kc_bind (api_request kc ''GET'' (users_url base realm @ lit ''?username='' @ quoted @ lit ''&exact=true'') None s) (\<lambda>users s.
          case first_id py_str users of
            Inl e \<Rightarrow> (Inl e, s)
          | Inr user_id \<Rightarrow>
              kc_bind (api_request kc ''GET'' (role_url base realm (nu_role n)) None s) (\<lambda>role_data s.
              kc_bind (api_request kc ''POST'' (users_url base realm @ 47 # user_id @ lit ''/role-mappings/realm'')
                  (Some (JArr [case role_data of None \<Rightarrow> JNull | Some j \<Rightarrow> j])) s) (\<lambda>ignored s. (Inr (nu_username n), s)))))"

definition create_user :: "ucd \<Rightarrow> (json \<Rightarrow> doc) \<Rightarrow> 's keycloak \<Rightarrow> doc \<Rightarrow> doc \<Rightarrow> bool \<Rightarrow> csv_row \<Rightarrow> 's \<Rightarrow> (kc_error + doc) \<times> 's" where
  "create_user u py_str kc base realm dry_run row s =
     (case read_row u row of
        Inl e \<Rightarrow> (Inl (OtherErr e), s)
      | Inr n \<Rightarrow>
          if dry_run then (Inr (nu_username n), s)
          else (case api_request kc ''POST'' (users_url base realm) (Some (user_payload n)) s of
                  (Inl (RuntimeErr text), s') \<Rightarrow> if sublist (lit ''409'') text then (Inr (nu_username n), s') else (Inl (RuntimeErr text), s')
                | (Inl e, s') \<Rightarrow> (Inl e, s')
                | (Inr ignored, s') \<Rightarrow> assign_role py_str kc base realm n s'))"

section \<open>The whole file\<close>

text \<open>\<open>main\<close> after the arguments: without a token it exits with 1; an unreadable file raises.\<close>

definition count_row ::
  "ucd \<Rightarrow> (json \<Rightarrow> doc) \<Rightarrow> 's keycloak \<Rightarrow> doc \<Rightarrow> doc \<Rightarrow> bool \<Rightarrow> (nat \<times> nat) \<times> 's \<Rightarrow> csv_row \<Rightarrow> (nat \<times> nat) \<times> 's" where
  "count_row u py_str kc base realm dry_run st row =
     (case create_user u py_str kc base realm dry_run row (snd st) of
        (Inr name, s) \<Rightarrow> ((Suc (fst (fst st)), snd (fst st)), s)
      | (Inl e, s) \<Rightarrow> ((fst (fst st), Suc (snd (fst st))), s))"

record bulk_outcome =
  bk_ok :: nat
  bk_errors :: nat
  bk_exit :: nat

definition bulk_main ::
  "ucd \<Rightarrow> (json \<Rightarrow> doc) \<Rightarrow> 's keycloak \<Rightarrow> doc \<Rightarrow> doc \<Rightarrow> bool \<Rightarrow> unit result \<Rightarrow> csv_row list result \<Rightarrow> 's \<Rightarrow> bulk_outcome result \<times> 's" where
  "bulk_main u py_str kc base realm dry_run token file s =
     (case token of
        Inl e \<Rightarrow> (Inr \<lparr>bk_ok = 0, bk_errors = 0, bk_exit = 1\<rparr>, s)
      | Inr t \<Rightarrow>
          (case file of
             Inl e \<Rightarrow> (Inl e, s)
           | Inr rows \<Rightarrow>
               (case foldl (count_row u py_str kc base realm dry_run) ((0, 0), s) rows of
                  ((n, errors), s') \<Rightarrow> (Inr \<lparr>bk_ok = n, bk_errors = errors, bk_exit = (if errors = 0 then 0 else 1)\<rparr>, s'))))"

section \<open>What a row does\<close>

lemma kc_bind_Inr: "kc_bind r f = (Inr y, s'') \<longleftrightarrow> (\<exists>x s. r = (Inr x, s) \<and> f x s = (Inr y, s''))"
  by (auto simp: kc_bind_def split: prod.splits sum.splits)

lemma api_request_Inr:
  "api_request kc meth url body s = (Inr j, s') \<longleftrightarrow> kc s \<lparr>rq_method = meth, rq_url = url, rq_body = body\<rparr> = (Kc_Ok j, s')"
  by (auto simp: api_request_def split: prod.splits kc_answer.splits)

lemma assign_role_Inr:
  assumes "assign_role py_str kc base realm n s = (Inr name, s')"
  shows "name = nu_username n \<and> (\<exists>s1 user_id role_data j.
     kc s1 \<lparr>rq_method = ''POST'', rq_url = users_url base realm @ 47 # user_id @ lit ''/role-mappings/realm'', rq_body = Some (JArr [role_data])\<rparr> = (Kc_Ok j, s'))"
proof -
  from assms obtain quoted where q: "py_quote (nu_username n) = Inr quoted" by (auto simp: assign_role_def split: sum.splits)
  from assms q obtain users s1 where u: "(case first_id py_str users of Inl e \<Rightarrow> (Inl e, s1)
      | Inr user_id \<Rightarrow> kc_bind (api_request kc ''GET'' (role_url base realm (nu_role n)) None s1) (\<lambda>role_data s.
          kc_bind (api_request kc ''POST'' (users_url base realm @ 47 # user_id @ lit ''/role-mappings/realm'')
            (Some (JArr [case role_data of None \<Rightarrow> JNull | Some j \<Rightarrow> j])) s) (\<lambda>ignored s. (Inr (nu_username n), s)))) = (Inr name, s')"
    unfolding assign_role_def q sum.case kc_bind_Inr [of _ _ name] by (elim exE conjE) (rule that)
  then obtain user_id where i: "first_id py_str users = Inr user_id" by (auto split: sum.splits)
  from u [unfolded i sum.case kc_bind_Inr api_request_Inr] show ?thesis by auto
qed

lemma counts_fold:
  "foldl (count_row u py_str kc base realm dry_run) ((n, e), s) rows = ((n', e'), s') \<Longrightarrow> n' + e' = n + e + length rows"
proof (induction rows arbitrary: n e s)
  case (Cons r rs)
  obtain c t where ct: "count_row u py_str kc base realm dry_run ((n, e), s) r = (c, t)" by fastforce
  then have "fst c + snd c = Suc (n + e)" by (auto simp: count_row_def split: prod.splits sum.splits)
  with ct Cons show ?case by (cases c) fastforce
qed simp

lemma create_user_dry: "create_user u py_str kc base realm True row s = (r, s') \<Longrightarrow> s' = s"
  by (auto simp: create_user_def split: sum.splits)

lemma dry_fold: "snd (foldl (count_row u py_str kc base realm True) st rows) = snd st"
  by (induction rows arbitrary: st) (auto simp: count_row_def dest: create_user_dry split: prod.splits sum.splits)

text \<open>
  the script counts every row once, as created or as an error, and exits with zero exactly when no row
  failed; a dry run sends no request to Keycloak, whatever the rows hold.
\<close>
theorem bulk_counts_rows:
  "(case bulk_main u py_str kc base realm dry_run (Inr ()) (Inr rows) s of
      (Inl e, s') \<Rightarrow> False
    | (Inr b, s') \<Rightarrow> bk_ok b + bk_errors b = length rows \<and> (bk_exit b = 0 \<longleftrightarrow> bk_errors b = 0)
        \<and> (s' = s \<or> \<not> dry_run))"
proof -
  obtain n e s' where f: "foldl (count_row u py_str kc base realm dry_run) ((0, 0), s) rows = ((n, e), s')" by (metis prod.collapse)
  from counts_fold [OF f] have "n + e = length rows" by simp
  moreover have "s' = s \<or> \<not> dry_run" using f dry_fold [of u py_str kc base realm "((0, 0), s)" rows] by (cases dry_run) simp_all
  ultimately show ?thesis by (simp add: bulk_main_def f)
qed

text \<open>
  a row that counts as created has its role assigned, or Keycloak refused the user with a message
  that contains 409 and nothing more was sent: then the user keeps the roles it has, so a run that failed
  between the creation and the role leaves a user without its role, which every later run skips and
  reports as a success.
\<close>
theorem created_row_has_role_or_is_skipped:
  assumes "create_user u py_str kc base realm False row s = (Inr name, s')" and "read_row u row = Inr n"
  shows "(\<exists>code text. kc s \<lparr>rq_method = ''POST'', rq_url = users_url base realm, rq_body = Some (user_payload n)\<rparr> = (Kc_Http_Error code text, s')
        \<and> sublist (lit ''409'') (kc_text code text))
    \<or> (\<exists>s1 user_id role_data j. kc s1 \<lparr>rq_method = ''POST'', rq_url = users_url base realm @ 47 # user_id @ lit ''/role-mappings/realm'',
          rq_body = Some (JArr [role_data])\<rparr> = (Kc_Ok j, s'))"
proof -
  obtain a t where k: "kc s \<lparr>rq_method = ''POST'', rq_url = users_url base realm, rq_body = Some (user_payload n)\<rparr> = (a, t)" by fastforce
  show ?thesis
  proof (cases a)
    case (Kc_Ok j)
    with assms k have "assign_role py_str kc base realm n t = (Inr name, s')" by (simp add: create_user_def api_request_def)
    from assign_role_Inr [OF this] show ?thesis by blast
  next
    case (Kc_Http_Error code msg)
    with assms k show ?thesis by (auto simp: create_user_def api_request_def split: if_splits)
  next
    case (Kc_Exc e)
    with assms k show ?thesis by (simp add: create_user_def api_request_def)
  qed
qed

section \<open>A small Keycloak\<close>

text \<open>A server that knows its users and refuses a second creation; it refuses every role mapping while it is down.\<close>

definition small_kc :: "bool \<Rightarrow> doc list keycloak" where
  "small_kc roles_up users q =
     (case rq_body q of
        Some (JObj ((k, JStr name) # kvs)) \<Rightarrow> if name \<in> set users then (Kc_Http_Error 409 [], users) else (Kc_Ok None, users @ [name])
      | Some j \<Rightarrow> (if roles_up then Kc_Ok None else Kc_Http_Error 503 [], users)
      | None \<Rightarrow> (Kc_Ok (Some (JArr [JObj [(lit ''id'', JStr (lit ''1''))]])), users))"

definition sample_row :: csv_row where
  "sample_row key = Some (Some (if key = ''role'' then lit ''reviewer'' else lit ''ana''))"

definition str_of :: "json \<Rightarrow> doc" where
  "str_of j = (case j of JStr s \<Rightarrow> s | _ \<Rightarrow> [])"

lemmas bulk_eval = create_user_def assign_role_def api_request_def kc_bind_def read_row_def row_field_def sample_row_def
  user_payload_def small_kc_def valid_roles_def ascii_ucd_def strip_by_def is_space_def kc_text_def first_id_def str_of_def
  sublist_code ascii_lower_def in_range_c_def count_row_def bulk_main_def users_url_def role_url_def jstr_def

lemma int_str_409: "int_str 409 = ''409''"
  by code_simp

lemma quote_ana: "py_quote [97, 110, 97] = Inr [97, 110, 97]"
  by (simp add: py_quote_def utf8_encode_ascii is_ascii_def unreserved_def)

lemma sample_reads: "read_row ascii_ucd sample_row = Inr \<lparr>nu_username = lit ''ana'', nu_email = lit ''ana'', nu_first = lit ''ana'',
    nu_last = lit ''ana'', nu_role = lit ''reviewer''\<rparr>"
  by (simp add: bulk_eval int_str_409 quote_ana)

lemma rerun_skips:
  "create_user ascii_ucd str_of (small_kc True) [] [] False sample_row [lit ''ana''] = (Inr (lit ''ana''), [lit ''ana''])"
  by (simp add: bulk_eval int_str_409 quote_ana)

lemma created_row_has_role_or_is_skipped_witness:
  "fst (bulk_main ascii_ucd str_of (small_kc False) [] [] False (Inr ()) (Inr [sample_row]) []) = Inr \<lparr>bk_ok = 0, bk_errors = 1, bk_exit = 1\<rparr>
   \<and> fst (bulk_main ascii_ucd str_of (small_kc True) [] [] False (Inr ()) (Inr [sample_row]) [lit ''ana'']) = Inr \<lparr>bk_ok = 1, bk_errors = 0, bk_exit = 0\<rparr>
   \<and> (\<exists>q code text. small_kc True [lit ''ana''] q = (Kc_Http_Error code text, [lit ''ana'']) \<and> sublist (lit ''409'') (kc_text code text))"
proof -
  have first: "fst (bulk_main ascii_ucd str_of (small_kc False) [] [] False (Inr ()) (Inr [sample_row]) []) = Inr \<lparr>bk_ok = 0, bk_errors = 1, bk_exit = 1\<rparr>"
    by (simp add: bulk_eval int_str_409 quote_ana)
  have second: "fst (bulk_main ascii_ucd str_of (small_kc True) [] [] False (Inr ()) (Inr [sample_row]) [lit ''ana'']) = Inr \<lparr>bk_ok = 1, bk_errors = 0, bk_exit = 0\<rparr>"
    by (simp add: bulk_eval int_str_409 quote_ana)
  have "snd (small_kc True us \<lparr>rq_method = m, rq_url = x, rq_body = Some (JArr [j])\<rparr>) = us" for us m x j by (simp add: small_kc_def)
  have no_role: "\<exists>q code text. small_kc True [lit ''ana''] q = (Kc_Http_Error code text, [lit ''ana'']) \<and> sublist (lit ''409'') (kc_text code text)"
    using created_row_has_role_or_is_skipped [OF rerun_skips sample_reads]
  proof
    assume "\<exists>code text. small_kc True [lit ''ana''] \<lparr>rq_method = ''POST'', rq_url = users_url [] [], rq_body = Some (user_payload \<lparr>nu_username = lit ''ana'',
        nu_email = lit ''ana'', nu_first = lit ''ana'', nu_last = lit ''ana'', nu_role = lit ''reviewer''\<rparr>)\<rparr> = (Kc_Http_Error code text, [lit ''ana''])
        \<and> sublist (lit ''409'') (kc_text code text)"
    then show ?thesis by blast
  next
    have "small_kc True [lit ''ana''] \<lparr>rq_method = ''POST'', rq_url = users_url [] [], rq_body = Some (user_payload \<lparr>nu_username = lit ''ana'',
        nu_email = lit ''ana'', nu_first = lit ''ana'', nu_last = lit ''ana'', nu_role = lit ''reviewer''\<rparr>)\<rparr> = (Kc_Http_Error 409 [], [lit ''ana''])" by (simp add: bulk_eval int_str_409 quote_ana)
    moreover have "sublist (lit ''409'') (kc_text 409 [])" by (simp add: bulk_eval int_str_409 quote_ana)
    ultimately show ?thesis by blast
  qed
  from first second no_role show ?thesis by blast
qed

end
