(* ===== verification/Mcp_Api.thy ===== *)
theory Mcp_Api
  imports Audit_Api Scan_Api
begin

text \<open>
  The MCP server (\<open>mcp/router.py\<close>): the tools as functions of the tables, and the versioned
  dispatcher with its rate limit, version table and scope check. A tool is also a route of its
  own, which only authenticates. Spans and headers are left out.
\<close>

section \<open>Requests\<close>

record mcp_scan_request =
  mq_document :: doc
  mq_policy_name :: doc
  mq_policy_version :: "string option"

record sanitize_request =
  zq_trace :: uuid
  zq_redaction_type :: string
  zq_replacement :: "doc option"

datatype mcp_decision = Approve | Reject

record approve_request =
  aq_finding :: uuid
  aq_decision :: mcp_decision
  aq_agent :: doc

text \<open>
  What a tool runs on: the digest, generated identifiers, \<open>str.lower\<close>, \<open>uuid5\<close>, and the session
  (\<open>me\_review\<close>). \<open>me\_assigned\<close> is what \<open>operation.id\<close> reads before the flush; SQLAlchemy gives a
  column its Python default only then, so it is \<open>None\<close>.
\<close>

record mcp_env =
  me_sha :: "bytes \<Rightarrow> string"
  me_trace :: uuid
  me_op_id :: uuid
  me_assigned :: "uuid option"
  me_doc_id :: uuid
  me_ob_id :: uuid
  me_lower :: "doc \<Rightarrow> doc"
  me_uuid5 :: "doc \<Rightarrow> uuid"
  me_review :: review_env

definition str_of_id :: "uuid option \<Rightarrow> string" where
  "str_of_id x = (case x of None \<Rightarrow> ''None'' | Some u \<Rightarrow> uuid_str u)"

definition mcp_actor :: "(bytes \<Rightarrow> string) \<Rightarrow> claims \<Rightarrow> uuid result" where
  "mcp_actor sha p =
     (let raw = claim_or p ''_raw_token'' JNull
      in case (if json_truthy raw then raw else claim_or p ''sub'' (jstr ''unknown'')) of
           JStr t \<Rightarrow> rbind (utf8_encode t) (\<lambda>bs. uuid_of_str (take 32 (sha bs)))
         | _ \<Rightarrow> Inl (PyExc ''AttributeError''))"

definition mcp_operation :: "mcp_env \<Rightarrow> uuid \<Rightarrow> uuid \<Rightarrow> string \<Rightarrow> string \<Rightarrow> operation_status \<Rightarrow> operation" where
  "mcp_operation env tenant actor digest pv st =
     \<lparr>op_id = me_op_id env, op_tenant_id = tenant, op_trace_id = me_trace env, op_actor_id = actor,
      op_actor_type = MCP_AGENT, op_document_id = me_doc_id env, op_artifact_digest = digest,
      op_policy_version = pv, op_status = st, op_sanitized_text = None, op_created_at = rv_now (me_review env),
      op_completed_at = None, op_chain_hash = None, op_event_signature = None, op_event_signed_at = None,
      op_signing_key_version = None\<rparr>"

section \<open>safecontext.scan\<close>

definition mcp_scan_event :: "mcp_env \<Rightarrow> mcp_scan_request \<Rightarrow> string \<Rightarrow> outbox" where
  "mcp_scan_event env q digest =
     \<lparr>ob_id = me_ob_id env, ob_event_type = ''scan_requested'',
      ob_payload = [(''operation_id'', jstr (str_of_id (me_assigned env))), (''document_text'', JStr (mq_document q)),
        (''document_hash'', jstr digest), (''policy_name'', JStr (mq_policy_name q)), (''source'', jstr ''mcp'')],
      ob_processed = False, ob_created_at = rv_now (me_review env)\<rparr>"

record mcp_scan_result =
  mr_trace :: uuid
  mr_digest :: string
  mr_policy_version :: string

definition tool_scan :: "mcp_env \<Rightarrow> claims \<Rightarrow> mcp_scan_request \<Rightarrow> db \<Rightarrow> db \<times> mcp_scan_result result" where
  "tool_scan env p q d =
     (case rbind (utf8_encode (mq_document q)) (\<lambda>bs. rbind (tenant_of_claims p) (\<lambda>t. rbind (mcp_actor (me_sha env) p)
             (\<lambda>a. Inr (me_sha env bs, t, a)))) of
        Inl e \<Rightarrow> (d, Inl e)
      | Inr (digest, t, a) \<Rightarrow>
          let pv = (case text_given (mq_policy_version q) of Some v \<Rightarrow> v | None \<Rightarrow> ''1.0.0'')
          in case in_block (rv_strict (me_review env)) (open_session d) (\<lambda>d0.
                 rbind (insert_operation (mcp_operation env t a digest pv PENDING) d0) (\<lambda>d1.
                 rbind (insert_outbox (mcp_scan_event env q digest) d1) (\<lambda>d2.
                 rbind (rv_commit (me_review env)) (\<lambda>_. Inr (d2, ()))))) of
               (d', Inl e) \<Rightarrow> (d', Inl (HTTPException 500))
             | (d', Inr u) \<Rightarrow> (d', Inr \<lparr>mr_trace = me_trace env, mr_digest = digest, mr_policy_version = pv\<rparr>))"

section \<open>safecontext.sanitize\<close>

record sanitize_result =
  sz_trace :: uuid
  sz_document :: doc
  sz_digest :: string
  sz_map :: "map_entry list"

text \<open>The document of the one outbox row of the operation; an empty one counts as gone.\<close>

definition original_document :: "uuid \<Rightarrow> db \<Rightarrow> doc result" where
  "original_document u d =
     rbind (scalar_one_or_none (outbox_for (uuid_str u) d)) (\<lambda>b.
       case b of
         None \<Rightarrow> Inl (HTTPException 410)
       | Some ob \<Rightarrow>
           (case map_of (ob_payload ob) ''document_text'' of
              None \<Rightarrow> Inl (HTTPException 410)
            | Some j \<Rightarrow> if \<not> json_truthy j then Inl (HTTPException 410)
                       else (case j of JStr t \<Rightarrow> Inr t | _ \<Rightarrow> Inl (PyExc ''TypeError''))))"

definition tool_sanitize :: "mcp_env \<Rightarrow> sanitize_request \<Rightarrow> db \<Rightarrow> sanitize_result result" where
  "tool_sanitize env q d =
     rbind (scalar_one_or_none (filter (\<lambda>r. op_trace_id r = zq_trace q) (operations d))) (\<lambda>x.
       case x of
         None \<Rightarrow> Inl (HTTPException 404)
       | Some r \<Rightarrow>
           if op_status r = ESCALATED then Inl (HTTPException 409)
           else rbind (original_document (op_id r) d) (\<lambda>t.
             let fs = findings_of (op_id r) d;
                 s = mcp_redact t fs (mcp_replacement (zq_redaction_type q) (zq_replacement q))
             in rbind (utf8_encode s) (\<lambda>bs. Inr \<lparr>sz_trace = zq_trace q, sz_document = s, sz_digest = me_sha env bs,
                  sz_map = mcp_redaction_map fs (zq_redaction_type q) (op_policy_version r)\<rparr>)))"

section \<open>safecontext.classify\<close>

text \<open>\<open>s.split("\n\n")\<close>, the stripped paragraphs that are not empty, or the whole document.\<close>

fun split_paragraphs :: "doc \<Rightarrow> doc \<Rightarrow> doc list" where
  "split_paragraphs acc [] = [acc]"
| "split_paragraphs acc [c] = [acc @ [c]]"
| "split_paragraphs acc (c # d # s) =
     (if c = 10 \<and> d = 10 then acc # split_paragraphs [] s else split_paragraphs (acc @ [c]) (d # s))"

definition paragraphs_of :: "doc \<Rightarrow> doc list" where
  "paragraphs_of t = (let ps = filter (\<lambda>x. x \<noteq> []) (map (strip_by is_space) (split_paragraphs [] t))
     in if ps = [] then [t] else ps)"

datatype section_level = Public | Internal | Confidential | Restricted

fun level_order :: "section_level \<Rightarrow> nat" where
  "level_order Public = 0"
| "level_order Internal = 1"
| "level_order Confidential = 2"
| "level_order Restricted = 3"

definition credential_keys :: "string list" where
  "credential_keys = [''password'', ''secret'', ''api_key'', ''token'', ''ssn'', ''credit card'']"

definition confidential_keys :: "string list" where
  "confidential_keys = [''confidential'', ''internal only'', ''do not share'', ''pii'', ''personal'']"

definition internal_keys :: "string list" where
  "internal_keys = [''internal'', ''draft'', ''not for distribution'']"

definition paragraph_level :: "(doc \<Rightarrow> doc) \<Rightarrow> doc \<Rightarrow> section_level" where
  "paragraph_level low t =
     (let has = (\<lambda>ks. \<exists>k \<in> set ks. is_infix (lit k) (low t))
      in if has credential_keys then Restricted else if has confidential_keys then Confidential
         else if has internal_keys then Internal else Public)"

fun classify_loop :: "(doc \<Rightarrow> doc) \<Rightarrow> section_level \<Rightarrow> doc list \<Rightarrow> section_level \<times> section_level list" where
  "classify_loop low m [] = (m, [])"
| "classify_loop low m (t # ts) =
     (let l = paragraph_level low t; (m', ls) = classify_loop low (if level_order m < level_order l then l else m) ts
      in (m', l # ls))"

definition tool_classify :: "mcp_env \<Rightarrow> claims \<Rightarrow> doc \<Rightarrow> db \<Rightarrow> db \<times> (uuid \<times> section_level \<times> section_level list) result" where
  "tool_classify env p t d =
     (case rbind (tenant_of_claims p) (\<lambda>tn. rbind (mcp_actor (me_sha env) p) (\<lambda>a. rbind (utf8_encode t) (\<lambda>bs. Inr (tn, a, me_sha env bs)))) of
        Inl e \<Rightarrow> (d, Inl e)
      | Inr (tn, a, digest) \<Rightarrow>
          let r = mcp_operation env tn a digest ''1.0.0'' COMPLETED; rv = me_review env
          in case in_block (rv_strict rv) (open_session d) (\<lambda>d0.
                 rbind (insert_operation r d0) (\<lambda>d1.
                 rbind (seal_operation_with_settings (rv_sign rv) (rv_seal rv) r d1) (\<lambda>(d2, s).
                 rbind (rv_commit rv) (\<lambda>_. Inr (d2, ()))))) of
               (d', Inl e) \<Rightarrow> (d', Inl e)
             | (d', Inr u) \<Rightarrow> (d', Inr (me_trace env, classify_loop (me_lower env) Public (paragraphs_of t))))"

section \<open>safecontext.audit and safecontext.policy.get\<close>

definition tool_audit :: "audit_env \<Rightarrow> uuid \<Rightarrow> db \<Rightarrow> audit_export result" where
  "tool_audit env trace d =
     rbind (get_audit_export env trace d) (\<lambda>x. case x of None \<Rightarrow> Inl (HTTPException 404) | Some e \<Rightarrow> Inr e)"

definition tool_policy_get :: "(json \<Rightarrow> doc) \<Rightarrow> http_resp result \<Rightarrow> http_resp result \<Rightarrow> (json \<times> doc) result" where
  "tool_policy_get py_str policy version =
     rbind policy (\<lambda>resp.
       if h_status resp \<noteq> 200 then Inl (HTTPException 502)
       else rbind (rbind (resp_json resp) (\<lambda>j. json_get j ''result'' (JObj []))) (\<lambda>data.
         rbind version (\<lambda>vr.
           if h_status vr = 200
           then rbind (rbind (resp_json vr) (\<lambda>j. json_get j ''result'' (jstr ''1.0.0''))) (\<lambda>v. Inr (data, str_of_json py_str v))
           else Inr (data, lit ''1.0.0''))))"

section \<open>safecontext.approve\<close>

definition agent_redaction :: "mcp_env \<Rightarrow> finding \<Rightarrow> operation \<Rightarrow> doc \<Rightarrow> redaction" where
  "agent_redaction env f r agent =
     \<lparr>rd_id = rv_rd_id (me_review env), rd_finding_id = fd_id f, rd_operation_id = op_id r, rd_type = ''mask'',
      rd_policy_version = op_policy_version r, rd_applied_at = rv_now (me_review env), rd_approved_by = None,
      rd_approval_trace_id = None, rd_approved_by_agent_id = Some (me_uuid5 env agent)\<rparr>"

definition tool_approve :: "mcp_env \<Rightarrow> approve_request \<Rightarrow> db \<Rightarrow> db \<times> (uuid \<times> mcp_decision) result" where
  "tool_approve env q d =
     (let rv = me_review env
      in case rbind (scalar_one_or_none (filter (\<lambda>f. fd_id f = aq_finding q) (findings d))) (\<lambda>x.
           case x of
             None \<Rightarrow> Inl (HTTPException 404)
           | Some f \<Rightarrow> (case select_operation (fd_operation_id f) d of
                         None \<Rightarrow> Inl (HTTPException 409)
                       | Some r \<Rightarrow> if op_status r \<noteq> ESCALATED then Inl (HTTPException 409) else Inr (f, r))) of
        Inl e \<Rightarrow> (d, Inl e)
      | Inr (f, r) \<Rightarrow>
          (case in_block (rv_strict rv) (executed (open_session d)) (\<lambda>d0.
               rbind (case aq_decision q of
                        Approve \<Rightarrow> rbind (insert_redaction (agent_redaction env f r (aq_agent q)) d0) (decide rv COMPLETED r)
                      | Reject \<Rightarrow> decide rv REJECTED r d0) (\<lambda>d1. Inr (d1, ()))) of
             (d', Inl e) \<Rightarrow> (d', Inl e)
           | (d', Inr u) \<Rightarrow> (d', Inr (op_trace_id r, aq_decision q))))"

section \<open>Discovery and dispatch\<close>

text \<open>Redis first; whatever it raises, the refusal of the limiter included, leads to the memory limiter.\<close>

record limiters =
  lm_redis :: zsets
  lm_memory :: rate_store

definition mcp_rate_limit :: "nat \<Rightarrow> string \<Rightarrow> unit result \<Rightarrow> instant \<Rightarrow> limiters \<Rightarrow> limiters \<times> unit result" where
  "mcp_rate_limit rpm c exec now s =
     (case check_rate_limit_redis rpm c exec now (lm_redis s) of
        (z, Inr u) \<Rightarrow> (s\<lparr>lm_redis := z\<rparr>, Inr ())
      | (z, Inl e) \<Rightarrow> (case check_rate_limit rpm c now (lm_memory s) of (m, r) \<Rightarrow> (s\<lparr>lm_redis := z, lm_memory := m\<rparr>, r)))"

definition supported_versions :: "string list" where
  "supported_versions = [''1.0.0'', ''1.1.0'']"

definition version_compat :: "(string \<times> string) list" where
  "version_compat =
     concat (map (\<lambda>t. [(t, ''1.0.0''), (t, ''1.1.0'')])
       [''safecontext.scan'', ''safecontext.sanitize'', ''safecontext.classify'', ''safecontext.audit'', ''safecontext.policy.get''])
     @ [(''safecontext.approve'', ''1.1.0'')]"

datatype mcp_input = In_scan mcp_scan_request | In_sanitize sanitize_request | In_classify doc | In_approve approve_request | In_other

datatype mcp_output = Out_scan mcp_scan_result | Out_sanitize sanitize_result | Out_classify uuid section_level "section_level list"
  | Out_approve uuid mcp_decision

text \<open>The handler of a tool on an input that fits its schema; any other input fails validation.\<close>

definition run_tool :: "mcp_env \<Rightarrow> claims \<Rightarrow> string \<Rightarrow> string \<Rightarrow> mcp_input \<Rightarrow> db \<Rightarrow> db \<times> mcp_output result" where
  "run_tool env p tool version inp d =
     (if tool = ''safecontext.scan'' then
        (case inp of In_scan q \<Rightarrow> (case tool_scan env p q d of (d', r) \<Rightarrow> (d', rbind r (\<lambda>x. Inr (Out_scan x))))
         | _ \<Rightarrow> (d, Inl (PyExc ''ValidationError'')))
      else if tool = ''safecontext.sanitize'' then
        (case inp of In_sanitize q \<Rightarrow> (d, rbind (tool_sanitize env q d) (\<lambda>x. Inr (Out_sanitize x)))
         | _ \<Rightarrow> (d, Inl (PyExc ''ValidationError'')))
      else if tool = ''safecontext.classify'' then
        (case inp of In_classify t \<Rightarrow> (case tool_classify env p t d of (d', r) \<Rightarrow>
            (d', rbind r (\<lambda>(u, l, ls). Inr (Out_classify u l ls))))
         | _ \<Rightarrow> (d, Inl (PyExc ''ValidationError'')))
      else if tool = ''safecontext.approve'' then
        (if version = ''1.0.0'' then (d, Inl (HTTPException 400))
         else case inp of In_approve q \<Rightarrow> (case tool_approve env q d of (d', r) \<Rightarrow> (d', rbind r (\<lambda>(u, x). Inr (Out_approve u x))))
              | _ \<Rightarrow> (d, Inl (PyExc ''ValidationError'')))
      else (d, Inl (HTTPException 404)))"

definition dispatch_tool ::
  "mcp_env \<Rightarrow> nat \<Rightarrow> string \<Rightarrow> unit result \<Rightarrow> instant \<Rightarrow> claims \<Rightarrow> string \<Rightarrow> string \<Rightarrow> mcp_input
     \<Rightarrow> limiters \<times> db \<Rightarrow> (limiters \<times> db) \<times> mcp_output result" where
  "dispatch_tool env rpm client exec now p tool version inp s =
     (case mcp_rate_limit rpm client exec now (fst s) of
        (lm, Inl e) \<Rightarrow> ((lm, snd s), Inl e)
      | (lm, Inr u) \<Rightarrow>
          if version \<notin> set supported_versions then ((lm, snd s), Inl (HTTPException 400))
          else if (tool, version) \<notin> set version_compat \<and> (tool, ''1.1.0'') \<notin> set version_compat
          then ((lm, snd s), Inl (HTTPException 404))
          else (case require_tool_scope tool p of
                  Inl e \<Rightarrow> ((lm, snd s), Inl e)
                | Inr v \<Rightarrow> (case run_tool env p tool version inp (snd s) of (d', r) \<Rightarrow> ((lm, d'), r))))"

section \<open>Lemmas\<close>

lemma in_block_open:
  "in_block b (open_session d) body = (case body d of Inl e \<Rightarrow> (d, Inl e) | Inr (d', x) \<Rightarrow> (d', Inr x))"
  by (simp add: in_block_def begin_block_def executed_def open_session_def commit_session_def split: sum.splits prod.splits)

lemma tool_scan_stored:
  assumes "tool_scan env p q d = (d', Inr res)"
  shows "\<exists>t a digest pv. d' = d\<lparr>operations := operations d @ [mcp_operation env t a digest pv PENDING],
      outbox_rows := outbox_rows d @ [mcp_scan_event env q digest]\<rparr> \<and> me_op_id env \<notin> op_ids d"
proof -
  from assms obtain digest t a where g: "rbind (utf8_encode (mq_document q)) (\<lambda>bs. rbind (tenant_of_claims p) (\<lambda>t. rbind (mcp_actor (me_sha env) p)
             (\<lambda>a. Inr (me_sha env bs, t, a)))) = Inr (digest, t, a)"
    unfolding tool_scan_def by (auto split: sum.splits prod.splits)
  define pv where "pv = (case text_given (mq_policy_version q) of Some v \<Rightarrow> v | None \<Rightarrow> ''1.0.0'')"
  from assms obtain d1 where i1: "insert_operation (mcp_operation env t a digest pv PENDING) d = Inr d1"
    and i2: "insert_outbox (mcp_scan_event env q digest) d1 = Inr d'"
    unfolding tool_scan_def g in_block_open
    by (auto simp: pv_def res_simps Let_def split: sum.splits prod.splits)
  have n: "me_op_id env \<notin> op_ids d" and d1: "d1 = d\<lparr>operations := operations d @ [mcp_operation env t a digest pv PENDING]\<rparr>"
    using i1 by (auto simp: insert_operation_def split: if_splits) (simp add: mcp_operation_def)
  have "d' = d1\<lparr>outbox_rows := outbox_rows d1 @ [mcp_scan_event env q digest]\<rparr>"
    using i2 by (auto simp: insert_outbox_def split: if_splits)
  with d1 n show ?thesis by auto
qed

lemma none_is_no_uuid: "uuid_of_str ''None'' = Inl (PyExc ''ValueError'')"
  by (simp add: uuid_of_str_def strip_by_def Let_def)

lemma original_document_of:
  "outbox_for (uuid_str u) d = [ob] \<Longrightarrow> map_of (ob_payload ob) ''document_text'' = Some (JStr t) \<Longrightarrow> t \<noteq> [] \<Longrightarrow>
     original_document u d = Inr t"
  by (simp add: original_document_def scalar_one_or_none_def)

lemma no_findings_yet:
  assumes "wf_db d" and "u \<notin> op_ids d"
  shows "findings_of u d = []"
  using assms by (auto simp: findings_of_def filter_empty_conv wf_db_def finding_ok_def)

lemma mcp_redact_nothing [simp]: "mcp_redact t [] m = t"
  by (simp add: mcp_redact_def mcp_merge_def)

lemma classify_loop_levels: "snd (classify_loop low m ts) = map (paragraph_level low) ts"
  by (induction ts arbitrary: m) (simp_all add: Let_def split_beta)

lemma level_order_inj: "level_order a = level_order b \<Longrightarrow> a = b"
  by (cases a; cases b) auto

lemma classify_loop_max:
  "level_order (fst (classify_loop low m ts)) = Max (insert (level_order m) (level_order ` paragraph_level low ` set ts))"
proof (induction ts arbitrary: m)
  case (Cons t ts)
  have "max (if a < b then b else a) c = max a (max b c)" for a b c :: nat by (simp add: max_def)
  note m = this [of "level_order m" "level_order (paragraph_level low t)"]
  have "level_order (if level_order m < level_order l then l else m) = (if level_order m < level_order l then level_order l else level_order m)" for l
    by simp
  with Cons m show ?case by (cases "ts = []") (simp_all add: Let_def split_beta)
qed simp

section \<open>What the MCP server guarantees\<close>

text \<open>
  C26: a scan through MCP never reaches a detector. The identifier of the operation is read before
  the flush that assigns it, so every successful call stores an outbox row whose operation is the
  word \<open>None\<close>; the relay sends it, and the task that receives it raises, whatever its world, while
  no row for the operation that was stored is ever added.
\<close>
theorem mcp_scan_never_detected:
  assumes "tool_scan env p q d = (d', Inr res)" and "me_assigned env = None"
  shows "\<exists>ob. ob \<in> set (outbox_rows d') \<and> \<not> ob_processed ob \<and> relayable ob \<and> message ob = (''process_scan'', jstr ''None'')
    \<and> (\<forall>wenv w. process_scan wenv ''None'' w = (w, Inl (PyExc ''ValueError'')))
    \<and> outbox_for (uuid_str (me_op_id env)) d' = outbox_for (uuid_str (me_op_id env)) d"
proof -
  from tool_scan_stored [OF assms(1)] obtain t a digest pv where
    d': "d' = d\<lparr>operations := operations d @ [mcp_operation env t a digest pv PENDING],
      outbox_rows := outbox_rows d @ [mcp_scan_event env q digest]\<rparr>" by blast
  let ?ob = "mcp_scan_event env q digest"
  have id: "str_of_id (me_assigned env) = ''None''" using assms(2) by (simp add: str_of_id_def)
  have r: "relayable ?ob" "message ?ob = (''process_scan'', jstr ''None'')"
    by (simp_all add: relayable_def message_def actor_for_def event_arg_def mcp_scan_event_def event_to_queue_def get_actor_def id)
  have "uuid_str (me_op_id env) \<noteq> ''None''" using none_is_no_uuid uuid_of_uuid_str by (metis sum.distinct(1))
  then have "jstr ''None'' \<noteq> jstr (uuid_str (me_op_id env))" by (simp only: jstr_eq) auto
  then have "\<not> payload_is_for (uuid_str (me_op_id env)) ?ob"
    by (simp add: payload_is_for_def mcp_scan_event_def id jstr_def)
  then have o: "outbox_for (uuid_str (me_op_id env)) d' = outbox_for (uuid_str (me_op_id env)) d"
    by (simp add: outbox_for_def d')
  have w: "\<forall>wenv w. process_scan wenv ''None'' w = (w, Inl (PyExc ''ValueError''))"
    by (simp add: process_scan_def none_is_no_uuid)
  have m: "?ob \<in> set (outbox_rows d')" "\<not> ob_processed ?ob" by (simp_all add: d') (simp add: mcp_scan_event_def)
  from m r w o show ?thesis by (intro exI [of _ ?ob] conjI)
qed

text \<open>
  the sanitize tool returns the document as it was submitted until the detector has run. Right
  after a scan request is stored, asking the tool for its trace gives a 'sanitized' document equal
  to the original and an empty redaction map, in every redaction mode.
\<close>
theorem mcp_sanitize_before_detection:
  assumes "store_scan senv (new_operation senv actor atype tenant digest pv) (scan_event senv q digest pv) d = Inr d'"
    and "wf_db d" and "outbox_for (uuid_str (sc_op_id senv)) d = []" and "utf8_encode (sq_document q) = Inr bs"
    and "sq_document q \<noteq> []" and "\<forall>r \<in> set (operations d). op_trace_id r \<noteq> sc_trace senv" and "zq_trace z = sc_trace senv"
  shows "tool_sanitize env z d' = Inr \<lparr>sz_trace = sc_trace senv, sz_document = sq_document q, sz_digest = me_sha env bs, sz_map = []\<rparr>"
proof -
  let ?r = "new_operation senv actor atype tenant digest pv" and ?ev = "scan_event senv q digest pv"
  note st = store_scan_result [OF assms(1)]
  have r: "op_trace_id ?r = sc_trace senv" "op_id ?r = sc_op_id senv" "op_status ?r = PENDING"
    by (simp_all add: new_operation_def)
  have "filter (\<lambda>x. op_trace_id x = sc_trace senv) (operations d) = []" using assms(6) by (simp add: filter_empty_conv)
  then have sel: "filter (\<lambda>x. op_trace_id x = zq_trace z) (operations d') = [?r]" by (simp add: st(1) assms(7) r)
  have "payload_is_for (uuid_str (sc_op_id senv)) ?ev" by (simp add: payload_is_for_def scan_event_def jstr_def)
  then have "outbox_for (uuid_str (sc_op_id senv)) d' = [?ev]" using assms(3) by (simp add: outbox_for_def st(1))
  then have doc: "original_document (sc_op_id senv) d' = Inr (sq_document q)"
    by (rule original_document_of) (simp_all add: scan_event_def assms(5))
  have "findings_of (sc_op_id senv) d = []" using no_findings_yet [OF assms(2)] st(2) r(2) by simp
  then have fs: "findings_of (sc_op_id senv) d' = []" by (simp add: findings_of_def st(1))
  have mp: "mcp_redaction_map [] x y = []" for x y by (simp add: mcp_redaction_map_def mcp_merge_def)
  show ?thesis
    unfolding tool_sanitize_def sel by (simp add: scalar_one_or_none_def r doc fs mp assms(4,7) Let_def)
qed

text \<open>What the dispatcher has checked when a call had an effect.\<close>

lemma dispatch_checks:
  assumes "dispatch_tool env rpm c exec now p tool version inp s = ((lm, d'), r)" and "d' \<noteq> snd s \<or> is_ok r"
  shows "require_tool_scope tool p = Inr () \<and> version \<in> {''1.0.0'', ''1.1.0''}
      \<and> tool \<in> {''safecontext.scan'', ''safecontext.sanitize'', ''safecontext.classify'', ''safecontext.approve''}"
proof -
  obtain l lr where l: "mcp_rate_limit rpm c exec now (fst s) = (l, lr)" by fastforce
  from assms l have lr: "lr = Inr ()" by (cases lr) (auto simp: dispatch_tool_def)
  from assms l lr have v: "version \<in> set supported_versions" by (auto simp: dispatch_tool_def split: if_splits)
  from assms l lr v have k: "\<not> ((tool, version) \<notin> set version_compat \<and> (tool, ''1.1.0'') \<notin> set version_compat)"
    by (auto simp: dispatch_tool_def split: if_splits)
  from assms l lr v k have sc: "require_tool_scope tool p = Inr ()"
    by (cases "require_tool_scope tool p") (auto simp: dispatch_tool_def)
  obtain d1 r1 where run: "run_tool env p tool version inp (snd s) = (d1, r1)" by fastforce
  from assms(1) l lr v k sc run have "d' = d1" "r = r1" unfolding dispatch_tool_def by auto
  then have "tool \<in> {''safecontext.scan'', ''safecontext.sanitize'', ''safecontext.classify'', ''safecontext.approve''}"
    using assms(2) run unfolding run_tool_def by (auto split: if_split_asm)
  with sc v show ?thesis by (simp add: supported_versions_def)
qed

text \<open>
  C14: a call of the dispatcher (\<open>POST /mcp/call\<close>) has an effect only for an agent with the scope of the
  tool. When the call, by a caller whom \<open>require\_mcp\_oauth\<close> let in, changes the tables or succeeds, the tool
  has a scope, the token carries it as a whole word of its \<open>scope\<close> claim, and the token is the static one of a
  development setup or a decoded one that names this API as an audience. The separate routes of the tools
  do not make this check (\<open>tool\_routes\_ignore\_scope\<close>).
\<close>
theorem dispatched_tool_needs_scope:
  assumes "require_mcp_oauth aenv ms cred ca = (ca', Inr p)"
    and "dispatch_tool env rpm c exec now p tool version inp s = ((lm, d'), r)" and "d' \<noteq> snd s \<or> is_ok r"
  shows "\<exists>req sc. map_of tool_scopes tool = Some req
    \<and> claim_or p ''scope'' (JStr []) = JStr sc \<and> lit req \<in> set (split_ws is_space sc)
    \<and> ((ms_env ms = ''dev'' \<and> ms_static_token ms \<noteq> [] \<and> cred = Some (ms_static_token ms))
       \<or> (\<exists>token ks k. cred = Some token \<and> jk_set ca' = Some ks \<and> k \<in> snd ` set ks
            \<and> jw_decode (au_jwt aenv) token k [''RS256''] (au_client aenv) = Inr p
            \<and> (case claim_or p ''aud'' (JArr []) of JStr a \<Rightarrow> a = lit ''safecontext-api''
               | JArr js \<Rightarrow> jstr ''safecontext-api'' \<in> set js | JObj kvs \<Rightarrow> lit ''safecontext-api'' \<in> fst ` set kvs | _ \<Rightarrow> False)))"
proof -
  note ch = dispatch_checks [OF assms(2,3)]
  have "\<exists>req. map_of tool_scopes tool = Some req"
    using conjunct2 [OF conjunct2 [OF ch]] by (auto simp: tool_scopes_def)
  then obtain req where req: "map_of tool_scopes tool = Some req" ..
  have "require_tool_scope tool p = Inr ()" using ch by blast
  from mcp_tool_needs_scope [OF assms(1) this req] req show ?thesis by blast
qed

text \<open>
  the dispatcher checks the scope, the routes of the tools do not. A call through the dispatcher
  changes the tables or succeeds only with a supported version, a known tool and the scope of the
  tool; but what a tool itself does depends on the token only through the agent and the tenant it
  names, and both are read the same with and without any scope.
\<close>
theorem tool_routes_ignore_scope:
  "(dispatch_tool env rpm c exec now p tool version inp s = ((lm, d'), r) \<and> (d' \<noteq> snd s \<or> is_ok r) \<longrightarrow>
      require_tool_scope tool p = Inr () \<and> version \<in> {''1.0.0'', ''1.1.0''}
      \<and> tool \<in> {''safecontext.scan'', ''safecontext.sanitize'', ''safecontext.classify'', ''safecontext.approve''})
   \<and> tool_scan env ((lit ''scope'', x) # p) q d = tool_scan env p q d
   \<and> tool_classify env ((lit ''scope'', x) # p) t d = tool_classify env p t d"
proof -
  have c: "claim_or ((lit ''scope'', x) # p) k y = claim_or p k y" if "k \<noteq> ''scope''" for k y
    using that jstr_eq [of k "''scope''"] by (auto simp: claim_or_def dict_get_def jstr_def)
  have c1: "claim_or ((lit ''scope'', x) # p) ''tenant_id'' y = claim_or p ''tenant_id'' y"
    and c2: "claim_or ((lit ''scope'', x) # p) ''_raw_token'' y = claim_or p ''_raw_token'' y"
    and c3: "claim_or ((lit ''scope'', x) # p) ''sub'' y = claim_or p ''sub'' y" for y
    by (rule c, simp)+
  have "tenant_of_claims ((lit ''scope'', x) # p) = tenant_of_claims p" "mcp_actor sha ((lit ''scope'', x) # p) = mcp_actor sha p" for sha
    by (simp_all only: tenant_of_claims_def mcp_actor_def c1 c2 c3)
  then have "tool_scan env ((lit ''scope'', x) # p) q d = tool_scan env p q d"
    and "tool_classify env ((lit ''scope'', x) # p) t d = tool_classify env p t d"
    by (simp_all only: tool_scan_def tool_classify_def)
  with dispatch_checks show ?thesis by blast
qed

text \<open>
  the limit of the shared store is not enforced. When Redis has counted the limit and refuses,
  the refusal is caught like a failure of Redis and the memory of this replica decides: a client it
  has not seen in the last minute is served.
\<close>
theorem redis_refusal_swallowed:
  assumes "deque_of c (lm_memory s) = []" and "0 < rpm"
    and "rpm \<le> length (filter (\<lambda>t. \<not> (0 \<le> t \<and> t \<le> now - minute)) (lm_redis s (rl_key c)))"
  shows "snd (check_rate_limit_redis rpm c (Inr ()) now (lm_redis s)) = Inl too_many
    \<and> snd (mcp_rate_limit rpm c (Inr ()) now s) = Inr ()"
proof -
  have r: "snd (check_rate_limit_redis rpm c (Inr ()) now (lm_redis s)) = Inl too_many"
    using assms(3) by (simp add: check_rate_limit_redis_def Let_def raise_if_def)
  moreover have "snd (check_rate_limit rpm c now (lm_memory s)) = Inr ()"
    using assms(1,2) by (simp add: check_rate_limit_def)
  ultimately show ?thesis by (auto simp: mcp_rate_limit_def split: prod.splits sum.splits)
qed

text \<open>
  classification. The answer has one level per paragraph, read from its words, and the overall
  level is their maximum; a document without any listed word is public. The operation recorded for
  it is completed and sealed, and the tables keep their constraints.
\<close>
theorem classify_spec:
  assumes "tool_classify env p t d = (d', Inr (trace, l, ls))" and "wf_db d"
  shows "ls = map (paragraph_level (me_lower env)) (paragraphs_of t) \<and> level_order l = Max (level_order ` set ls)
    \<and> trace = me_trace env \<and> wf_db d'
    \<and> (\<exists>r. select_operation (me_op_id env) d' = Some r \<and> op_status r = COMPLETED \<and> op_chain_hash r \<noteq> None
         \<and> op_actor_type r = MCP_AGENT)"
proof -
  let ?rv = "me_review env"
  from assms(1) obtain tn a digest where g: "rbind (tenant_of_claims p) (\<lambda>tn. rbind (mcp_actor (me_sha env) p)
      (\<lambda>a. rbind (utf8_encode t) (\<lambda>bs. Inr (tn, a, me_sha env bs)))) = Inr (tn, a, digest)"
    unfolding tool_classify_def by (auto split: sum.splits prod.splits)
  let ?r = "mcp_operation env tn a digest ''1.0.0'' COMPLETED"
  from assms(1) obtain d1 s where i: "insert_operation ?r d = Inr d1"
    and se: "seal_operation_with_settings (rv_sign ?rv) (rv_seal ?rv) ?r d1 = Inr (d', s)"
    and cl: "trace = me_trace env" "classify_loop (me_lower env) Public (paragraphs_of t) = (l, ls)"
    unfolding tool_classify_def g in_block_open by (auto simp: res_simps Let_def split: sum.splits prod.splits)
  have ne: "paragraphs_of t \<noteq> []" by (simp add: paragraphs_of_def Let_def)
  have ls: "ls = map (paragraph_level (me_lower env)) (paragraphs_of t)"
    using classify_loop_levels [of "me_lower env" Public "paragraphs_of t"] cl(2) by simp
  have "level_order l = Max (insert 0 (level_order ` set ls))"
    using classify_loop_max [of "me_lower env" Public "paragraphs_of t"] cl(2) ls by simp
  then have l: "level_order l = Max (level_order ` set ls)" using ne ls by simp
  have w1: "wf_db d1" using i assms(2) by (rule insert_operation_wf)
  have w: "wf_db d'" using se w1 by (rule seal_with_settings_wf)
  have id: "op_id ?r = me_op_id env" "op_status ?r = COMPLETED" "op_actor_type ?r = MCP_AGENT" by (simp_all add: mcp_operation_def)
  have m: "?r \<in> set (operations d1)" using i by (auto simp: insert_operation_def split: if_splits)
  obtain se' where se': "seal_operation se' ?r d1 = Inr (d', s)" using se by (auto simp: seal_operation_with_settings_def)
  obtain ch sk where ops: "operations d' = map (\<lambda>x. if op_id x = op_id ?r then seal_row se' ch sk x else x) (operations d1)"
    using seal_operation_rows [OF se'] by blast
  have "seal_row se' ch sk ?r \<in> set (operations d')" using m by (auto simp: ops)
  then have "select_operation (me_op_id env) d' = Some (seal_row se' ch sk ?r)"
    using select_operation_in [OF w, of "seal_row se' ch sk ?r"] id by simp
  moreover have "op_actor_type (seal_row se' ch sk ?r) = MCP_AGENT" using id by (simp add: seal_row_def split: option.splits)
  ultimately show ?thesis using ls l cl(1) w id by auto
qed

text \<open>
  C27: no agent decision is ever stored either. The tool reads the finding before it opens its
  transaction, so under SQLAlchemy 2.0 every call ends in an exception and leaves the tables; were
  the transaction accepted, with signing off and a commit that succeeds, one approval would complete an
  operation whatever its other findings.
\<close>
theorem agent_approval:
  assumes "load_escalated_finding (aq_finding q) d = Inr (f, r)" and "aq_decision q = Approve"
  shows "(rv_strict (me_review env) \<longrightarrow> tool_approve env q d = (d, Inl invalid_request))
    \<and> (\<not> rv_strict (me_review env) \<and> \<not> rv_sign (me_review env) \<and> rv_commit (me_review env) = Inr ()
         \<and> rv_rd_id (me_review env) \<notin> rd_id ` set (redactions d) \<longrightarrow>
         (\<exists>d' y. tool_approve env q d = (d', Inr (op_trace_id r, Approve))
            \<and> select_operation (op_id r) d' = Some y \<and> op_status y = COMPLETED
            \<and> findings_of (op_id r) d' = findings_of (op_id r) d
            \<and> length (redactions d') = Suc (length (redactions d))))"
proof -
  let ?rv = "me_review env"
  note l = load_escalatedD [OF assms(1)]
  have g: "rbind (scalar_one_or_none (filter (\<lambda>f. fd_id f = aq_finding q) (findings d))) (\<lambda>x.
           case x of
             None \<Rightarrow> Inl (HTTPException 404)
           | Some f \<Rightarrow> (case select_operation (fd_operation_id f) d of
                         None \<Rightarrow> Inl (HTTPException 409)
                       | Some r \<Rightarrow> if op_status r \<noteq> ESCALATED then Inl (HTTPException 409) else Inr (f, r))) = Inr (f, r)"
    using l(4,6) by (simp add: l(1) scalar_one_or_none_def)
  have strict: "rv_strict ?rv \<Longrightarrow> tool_approve env q d = (d, Inl invalid_request)"
    unfolding tool_approve_def g Let_def by (simp add: in_block_begun)
  have sel: "select_operation (op_id r) d = Some r" using l(4,5) by simp
  have lenient: "\<exists>d' y. tool_approve env q d = (d', Inr (op_trace_id r, Approve))
            \<and> select_operation (op_id r) d' = Some y \<and> op_status y = COMPLETED
            \<and> findings_of (op_id r) d' = findings_of (op_id r) d
            \<and> length (redactions d') = Suc (length (redactions d))"
    if h: "\<not> rv_strict ?rv" "\<not> rv_sign ?rv" "rv_commit ?rv = Inr ()" "rv_rd_id ?rv \<notin> rd_id ` set (redactions d)"
  proof -
    let ?x = "agent_redaction env f r (aq_agent q)"
    let ?d1 = "d\<lparr>redactions := redactions d @ [?x]\<rparr>"
    have "redaction_ok d ?x"
      using select_op_ids [OF sel] l(3) by (simp add: redaction_ok_def agent_redaction_def redaction_types_def fd_ids_def)
    moreover have "rd_id ?x = rv_rd_id ?rv" by (simp add: agent_redaction_def)
    ultimately have ins: "insert_redaction ?x d = Inr ?d1" using h(4) unfolding insert_redaction_def by simp
    note r1 = insert_redaction_reads [OF ins]
    obtain d2 where d2: "decide ?rv COMPLETED r ?d1 = Inr d2" using decide_unsigned [OF h(2,3)] by blast
    have "select_operation (op_id r) ?d1 = Some r" using r1(4) sel by simp
    note fin = decide_spec [OF d2 this]
    obtain y where y: "select_operation (op_id r) d2 = Some y" "op_status y = COMPLETED" using fin(1) by blast
    have run: "tool_approve env q d = (d2, Inr (op_trace_id r, Approve))"
      unfolding tool_approve_def g Let_def by (simp add: h(1) in_block_lenient assms(2) ins d2)
    show ?thesis
      by (rule exI [of _ d2], rule exI [of _ y], intro conjI, rule run, rule y, rule y)
        (simp_all add: fin(3,4) r1(5))
  qed
  from strict lenient show ?thesis by blast
qed

section \<open>Witnesses\<close>

definition sample_mcp :: mcp_env where
  "sample_mcp = \<lparr>me_sha = (\<lambda>b. replicate 64 (CHR ''0'')), me_trace = 81, me_op_id = 82, me_assigned = None, me_doc_id = 83,
     me_ob_id = 84, me_lower = (\<lambda>t. map ascii_lower t), me_uuid5 = (\<lambda>t. 85), me_review = sample_review False\<rparr>"

definition agent_claims :: claims where
  "agent_claims = [(lit ''sub'', jstr ''a''), (lit ''tenant_id'', jstr (uuid_str 7))]"

lemma zero_uuid: "uuid_of_str (replicate 32 (CHR ''0'')) = Inr 0"
proof -
  let ?z = "replicate 32 (CHR ''0'')"
  have d: "digits_us 0 True (replicate n (CHR ''0'')) = Some 0" for n by (induction n) (simp_all add: hexval_def)
  have z: "?z = CHR ''0'' # CHR ''0'' # replicate 30 (CHR ''0'')" by (simp add: numeral_eq_Suc)
  have "py_int16 ?z = Some 0"
    using d [of 30]
    by (simp add: z py_int16_def strip_by_absent blank_def is_space_def starts_with_def hexval_def del: replicate_Suc)
  moreover have "filter (\<lambda>c. c \<noteq> CHR ''-'') (strip_by (\<lambda>c. c = CHR ''{'' \<or> c = CHR ''}'') (py_replace ''uuid:'' [] (py_replace ''urn:'' [] ?z))) = ?z"
    by (simp add: py_replace_absent strip_by_absent)
  ultimately show ?thesis by (simp add: uuid_of_str_def Let_def)
qed

lemma agent_claims_ids [simp]:
  "tenant_of_claims agent_claims = Inr 7" "mcp_actor (me_sha sample_mcp) agent_claims = Inr 0"
proof -
  show "tenant_of_claims agent_claims = Inr 7"
    by (simp add: tenant_of_claims_def agent_claims_def claim_or_def dict_get_def jstr_def uuid_str_nonempty)
  have "take 32 (me_sha sample_mcp b) = replicate 32 (CHR ''0'')" for b by (simp add: sample_mcp_def)
  moreover have "uuid_of_str (replicate 32 (CHR ''0'')) = Inr 0" by (rule zero_uuid)
  ultimately show "mcp_actor (me_sha sample_mcp) agent_claims = Inr 0"
    by (simp add: mcp_actor_def agent_claims_def claim_or_def dict_get_def jstr_def utf8_encode_def utf8_char_def is_surrogate_def)
qed

definition hi_scan :: mcp_scan_request where
  "hi_scan = \<lparr>mq_document = lit ''hi'', mq_policy_name = [], mq_policy_version = None\<rparr>"

lemma mcp_scan_never_detected_witness:
  "\<exists>d' res. tool_scan sample_mcp agent_claims hi_scan (db_with []) = (d', Inr res)
     \<and> (\<exists>ob \<in> set (outbox_rows d'). message ob = (''process_scan'', jstr ''None''))
     \<and> (\<forall>wenv w. process_scan wenv ''None'' w = (w, Inl (PyExc ''ValueError'')))"
proof -
  have e: "utf8_encode (mq_document hi_scan) = Inr [104, 105]"
    by (simp add: hi_scan_def utf8_encode_def utf8_char_def is_surrogate_def)
  have v: "text_given (mq_policy_version hi_scan) = None" by (simp add: hi_scan_def)
  have c: "rv_commit (me_review sample_mcp) = Inr ()" by (simp add: sample_mcp_def sample_review_def)
  let ?op = "mcp_operation sample_mcp 7 0 (me_sha sample_mcp [104, 105]) ''1.0.0'' PENDING"
  have i1: "insert_operation ?op (db_with []) = Inr ((db_with [])\<lparr>operations := [?op]\<rparr>)"
    by (simp add: insert_operation_def op_ids_def db_with_def empty_db_def sample_tenant_def) (simp add: mcp_operation_def)
  have i2: "\<exists>d'. insert_outbox ob ((db_with [])\<lparr>operations := [?op]\<rparr>) = Inr d'" for ob
    by (simp add: insert_outbox_def db_with_def empty_db_def)
  obtain d' where d': "insert_outbox (mcp_scan_event sample_mcp hi_scan (me_sha sample_mcp [104, 105])) ((db_with [])\<lparr>operations := [?op]\<rparr>) = Inr d'"
    using i2 by blast
  have run: "tool_scan sample_mcp agent_claims hi_scan (db_with []) = (d', Inr \<lparr>mr_trace = me_trace sample_mcp,
      mr_digest = me_sha sample_mcp [104, 105], mr_policy_version = ''1.0.0''\<rparr>)"
    unfolding tool_scan_def in_block_open by (simp add: e v i1 d' c Let_def)
  have "me_assigned sample_mcp = None" by (simp add: sample_mcp_def)
  from mcp_scan_never_detected [OF run this] run show ?thesis by blast
qed

lemma mcp_sanitize_before_detection_witness:
  "\<exists>d'. store_scan sample_scan (new_operation sample_scan 1 MCP_AGENT 7 [] ''1'') (scan_event sample_scan sample_request [] ''1'') (db_with []) = Inr d'
     \<and> tool_sanitize env \<lparr>zq_trace = 11, zq_redaction_type = ''mask'', zq_replacement = None\<rparr> d'
         = Inr \<lparr>sz_trace = 11, sz_document = lit ''hi'', sz_digest = me_sha env [104, 105], sz_map = []\<rparr>"
proof -
  have c: "sc_commit sample_scan = Inr ()" "sc_trace sample_scan = 11" by (simp_all add: sample_scan_def)
  have "\<exists>d'. store_scan sample_scan (new_operation sample_scan 1 MCP_AGENT 7 [] ''1'') (scan_event sample_scan sample_request [] ''1'') (db_with []) = Inr d'"
    by (simp add: store_scan_def insert_operation_def insert_outbox_def op_ids_def db_with_def empty_db_def c sample_tenant_def)
      (simp add: new_operation_def)
  then obtain d' where st: "store_scan sample_scan (new_operation sample_scan 1 MCP_AGENT 7 [] ''1'') (scan_event sample_scan sample_request [] ''1'') (db_with []) = Inr d'" ..
  have w: "wf_db (db_with [])" by (rule db_with_wf) simp
  have o: "outbox_for (uuid_str (sc_op_id sample_scan)) (db_with []) = []" by (simp add: outbox_for_def db_with_def empty_db_def)
  have q: "sq_document sample_request = lit ''hi''" by (simp add: sample_request_def)
  have "tool_sanitize env \<lparr>zq_trace = 11, zq_redaction_type = ''mask'', zq_replacement = None\<rparr> d'
      = Inr \<lparr>sz_trace = sc_trace sample_scan, sz_document = sq_document sample_request, sz_digest = me_sha env [104, 105], sz_map = []\<rparr>"
    by (rule mcp_sanitize_before_detection [OF st w o hi_bytes]) (simp_all add: q c)
  with st show ?thesis by (simp add: q c)
qed

definition scoped_claims :: claims where
  "scoped_claims = (lit ''scope'', jstr ''mcp:classify'') # agent_claims"

definition fresh_limiters :: limiters where
  "fresh_limiters = \<lparr>lm_redis = (\<lambda>k. []), lm_memory = \<lparr>rs_clients = [], rs_last_eviction = 0\<rparr>\<rparr>"

definition my_token :: doc where
  "my_token = lit ''ssn''"

lemma classify_runs_for:
  assumes "tenant_of_claims p = Inr t" and "mcp_actor (me_sha sample_mcp) p = Inr 0" and "operations d = []"
    and "t \<in> tn_id ` set (tenants d)"
  shows "\<exists>d' l ls. tool_classify sample_mcp p my_token d = (d', Inr (81, l, ls))"
proof -
  have e: "utf8_encode my_token = Inr my_token"
    by (simp add: utf8_encode_def utf8_char_def is_surrogate_def my_token_def)
  let ?op = "mcp_operation sample_mcp t 0 (me_sha sample_mcp my_token) ''1.0.0'' COMPLETED"
  have "op_tenant_id ?op = t" by (simp add: mcp_operation_def)
  then have i1: "insert_operation ?op d = Inr (d\<lparr>operations := [?op]\<rparr>)"
    using assms(3,4) by (simp add: insert_operation_def op_ids_def)
  have rv: "rv_commit (me_review sample_mcp) = Inr ()" "rv_sign (me_review sample_mcp) = False" "me_trace sample_mcp = 81"
    by (simp_all add: sample_mcp_def sample_review_def)
  obtain d2 s where se: "seal_operation_with_settings False (rv_seal (me_review sample_mcp)) ?op (d\<lparr>operations := [?op]\<rparr>) = Inr (d2, s)"
    using seal_no_vault [of "(rv_seal (me_review sample_mcp))\<lparr>se_cfg := \<lparr>vc_addr = None, vc_token = None, vc_key = None\<rparr>\<rparr>" ?op]
    by (fastforce simp: seal_operation_with_settings_def)
  have "tool_classify sample_mcp p my_token d =
      (d2, Inr (81, classify_loop (me_lower sample_mcp) Public (paragraphs_of my_token)))"
    unfolding tool_classify_def in_block_open e assms(1,2) by (simp add: i1 rv se Let_def)
  then show ?thesis by (metis surj_pair)
qed

lemma classify_runs: "\<exists>d' l ls. tool_classify sample_mcp agent_claims my_token (db_with []) = (d', Inr (81, l, ls))"
  by (rule classify_runs_for) (simp_all add: db_with_def empty_db_def sample_tenant_def)

lemma is_infix_refl: "is_infix s s"
  unfolding is_infix_iff by (metis append_Nil append_Nil2)

lemma keyword_restricts: "k \<in> set credential_keys \<Longrightarrow> is_infix (lit k) (low t) \<Longrightarrow> paragraph_level low t = Restricted"
  by (auto simp: paragraph_level_def Let_def)

lemma classify_spec_witness:
  "\<exists>d' l ls. tool_classify sample_mcp agent_claims my_token (db_with []) = (d', Inr (81, l, ls))
     \<and> l = Restricted \<and> ls = [Restricted] \<and> (\<exists>r. select_operation 82 d' = Some r \<and> op_status r = COMPLETED)"
proof -
  obtain d' l ls where run: "tool_classify sample_mcp agent_claims my_token (db_with []) = (d', Inr (81, l, ls))"
    using classify_runs by blast
  have w: "wf_db (db_with [])" by (rule db_with_wf) simp
  note c = classify_spec [OF run w]
  have ps: "paragraphs_of my_token = [my_token]"
    by (simp add: paragraphs_of_def my_token_def strip_by_def is_space_def)
  have low: "me_lower sample_mcp my_token = lit ''ssn''"
    by (simp add: sample_mcp_def my_token_def ascii_lower_def)
  have "''ssn'' \<in> set credential_keys" by (simp add: credential_keys_def)
  moreover have "is_infix (lit ''ssn'') (me_lower sample_mcp my_token)" unfolding low by (rule is_infix_refl)
  ultimately have "paragraph_level (me_lower sample_mcp) my_token = Restricted" by (rule keyword_restricts)
  then have "map (paragraph_level (me_lower sample_mcp)) (paragraphs_of my_token) = [Restricted]" by (simp add: ps)
  with c have ls: "ls = [Restricted]" by simp
  with c have "level_order l = level_order Restricted" by simp
  then have "l = Restricted" by (rule level_order_inj)
  with c ls run show ?thesis by (auto simp: sample_mcp_def)
qed

lemma dispatched_tool_needs_scope_witness:
  "\<exists>p lm d' r sc. require_mcp_oauth sample_auth \<lparr>ms_env = ''dev'', ms_static_token = [116]\<rparr> (Some [116]) no_keys = (no_keys, Inr p)
     \<and> dispatch_tool sample_mcp 5 ''c'' (Inr ()) 100 p ''safecontext.classify'' ''1.0.0'' (In_classify my_token)
         (fresh_limiters, empty_db\<lparr>tenants := [default_tenant]\<rparr>) = ((lm, d'), Inr r)
     \<and> claim_or p ''scope'' (JStr []) = JStr sc \<and> lit ''mcp:classify'' \<in> set (split_ws is_space sc)"
proof -
  let ?p = "dev_payload [116]" and ?ms = "\<lparr>ms_env = ''dev'', ms_static_token = [116]\<rparr>" and ?d = "empty_db\<lparr>tenants := [default_tenant]\<rparr>"
  have auth: "require_mcp_oauth sample_auth ?ms (Some [116]) no_keys = (no_keys, Inr ?p)"
    by (simp add: require_mcp_oauth_def)
  have t: "tenant_of_claims ?p = Inr 0"
    by (simp add: tenant_of_claims_def dev_payload_def claim_or_def dict_get_def jstr_def default_tenant_id_def)
  have "take 32 (me_sha sample_mcp b) = replicate 32 (CHR ''0'')" for b by (simp add: sample_mcp_def)
  then have a: "mcp_actor (me_sha sample_mcp) ?p = Inr 0"
    using zero_uuid by (simp add: mcp_actor_def dev_payload_def claim_or_def dict_get_def jstr_def utf8_encode_def utf8_char_def is_surrogate_def)
  obtain d' lv lvs where cl: "tool_classify sample_mcp ?p my_token ?d = (d', Inr (81, lv, lvs))"
    using classify_runs_for [OF t a, of ?d] by (auto simp: empty_db_def default_tenant_def)
  obtain l where lim: "mcp_rate_limit 5 ''c'' (Inr ()) 100 fresh_limiters = (l, Inr ())"
    by (simp add: mcp_rate_limit_def check_rate_limit_redis_def fresh_limiters_def Let_def raise_if_def)
  have sc: "require_tool_scope ''safecontext.classify'' ?p = Inr ()"
    by (simp add: require_tool_scope_def tool_scopes_def dev_payload_def claim_or_def jstr_def split_ws_def is_space_def raise_if_def)
  have known: "''1.0.0'' \<in> set supported_versions" "(''safecontext.classify'', ''1.0.0'') \<in> set version_compat"
    by (simp_all add: supported_versions_def version_compat_def)
  have run: "run_tool sample_mcp ?p ''safecontext.classify'' ''1.0.0'' (In_classify my_token) ?d = (d', Inr (Out_classify 81 lv lvs))"
    by (simp add: run_tool_def cl)
  have disp: "dispatch_tool sample_mcp 5 ''c'' (Inr ()) 100 ?p ''safecontext.classify'' ''1.0.0'' (In_classify my_token)
      (fresh_limiters, ?d) = ((l, d'), Inr (Out_classify 81 lv lvs))"
    unfolding dispatch_tool_def by (simp add: lim known sc run)
  have "map_of tool_scopes ''safecontext.classify'' = Some ''mcp:classify''" by (simp add: tool_scopes_def)
  with dispatched_tool_needs_scope [OF auth disp] obtain s where
    "claim_or ?p ''scope'' (JStr []) = JStr s" "lit ''mcp:classify'' \<in> set (split_ws is_space s)" by auto
  with auth disp show ?thesis by blast
qed

lemma tool_routes_ignore_scope_witness:
  "tool_scan sample_mcp scoped_claims hi_scan (db_with []) = tool_scan sample_mcp agent_claims hi_scan (db_with [])
   \<and> (\<exists>lm d' r. dispatch_tool sample_mcp 5 ''c'' (Inr ()) 100 scoped_claims ''safecontext.classify'' ''1.0.0''
        (In_classify my_token) (fresh_limiters, db_with []) = ((lm, d'), Inr r)
      \<and> require_tool_scope ''safecontext.classify'' scoped_claims = Inr ())"
proof -
  have routes: "tool_scan sample_mcp scoped_claims hi_scan (db_with []) = tool_scan sample_mcp agent_claims hi_scan (db_with [])"
    "tool_classify sample_mcp scoped_claims my_token (db_with []) = tool_classify sample_mcp agent_claims my_token (db_with [])"
    using tool_routes_ignore_scope unfolding scoped_claims_def by blast+
  obtain l where lim: "mcp_rate_limit 5 ''c'' (Inr ()) 100 fresh_limiters = (l, Inr ())"
    by (simp add: mcp_rate_limit_def check_rate_limit_redis_def fresh_limiters_def Let_def raise_if_def)
  have sc: "require_tool_scope ''safecontext.classify'' scoped_claims = Inr ()"
    by (simp add: require_tool_scope_def tool_scopes_def scoped_claims_def claim_or_def jstr_def split_ws_def is_space_def raise_if_def)
  obtain d' lv lvs where cl: "tool_classify sample_mcp agent_claims my_token (db_with []) = (d', Inr (81, lv, lvs))"
    using classify_runs by blast
  have known: "''1.0.0'' \<in> set supported_versions" "(''safecontext.classify'', ''1.0.0'') \<in> set version_compat"
    by (simp_all add: supported_versions_def version_compat_def)
  have run: "run_tool sample_mcp scoped_claims ''safecontext.classify'' ''1.0.0'' (In_classify my_token) (db_with [])
      = (d', Inr (Out_classify 81 lv lvs))"
    by (simp add: run_tool_def routes(2) cl)
  have "dispatch_tool sample_mcp 5 ''c'' (Inr ()) 100 scoped_claims ''safecontext.classify'' ''1.0.0''
        (In_classify my_token) (fresh_limiters, db_with []) = ((l, d'), Inr (Out_classify 81 lv lvs))"
    unfolding dispatch_tool_def by (simp add: lim known sc run)
  moreover from this have "require_tool_scope ''safecontext.classify'' scoped_claims = Inr ()"
    using tool_routes_ignore_scope [of sample_mcp 5 "''c''" "Inr ()" 100 scoped_claims] by (meson is_ok.simps(2))
  ultimately show ?thesis using routes(1) by blast
qed

lemma redis_refusal_swallowed_witness:
  "snd (check_rate_limit_redis 1 ''c'' (Inr ()) 100 (lm_redis (fresh_limiters\<lparr>lm_redis := (\<lambda>k. [90])\<rparr>))) = Inl too_many
   \<and> snd (mcp_rate_limit 1 ''c'' (Inr ()) 100 (fresh_limiters\<lparr>lm_redis := (\<lambda>k. [90])\<rparr>)) = Inr ()"
  by (rule redis_refusal_swallowed) (simp_all add: deque_of_def fresh_limiters_def minute_def)

lemma agent_approval_witness:
  "tool_approve (sample_mcp\<lparr>me_review := sample_review True\<rparr>) \<lparr>aq_finding = 20, aq_decision = Approve, aq_agent = []\<rparr> review_db
     = (review_db, Inl invalid_request)
   \<and> (\<exists>d' y. tool_approve sample_mcp \<lparr>aq_finding = 20, aq_decision = Approve, aq_agent = []\<rparr> review_db = (d', Inr (1, Approve))
        \<and> select_operation 1 d' = Some y \<and> op_status y = COMPLETED \<and> length (redactions d') = 1)"
proof -
  let ?q = "\<lparr>aq_finding = 20, aq_decision = Approve, aq_agent = []\<rparr>"
  have l: "load_escalated_finding (aq_finding ?q) review_db = Inr (sample_finding 20 0, sample_escalated)" by (simp add: review_db_load)
  have s: "rv_strict (me_review (sample_mcp\<lparr>me_review := sample_review True\<rparr>))" by (simp add: sample_review_def)
  have n: "\<not> rv_strict (me_review sample_mcp)" "\<not> rv_sign (me_review sample_mcp)" "rv_commit (me_review sample_mcp) = Inr ()"
    "rv_rd_id (me_review sample_mcp) \<notin> rd_id ` set (redactions review_db)"
    by (simp_all add: sample_mcp_def sample_review_def review_db_tables)
  have i: "op_id sample_escalated = 1" "op_trace_id sample_escalated = 1" by (simp_all add: sample_escalated_def)
  have d: "aq_decision ?q = Approve" by simp
  from agent_approval [OF l d, of "sample_mcp\<lparr>me_review := sample_review True\<rparr>"] s
    agent_approval [OF l d, of sample_mcp] n
  show ?thesis unfolding i by (auto simp: review_db_tables)
qed

end
