(* ===== verification/Mcp_Tools.thy ===== *)
theory Mcp_Tools
  imports Mcp_Api
begin

text \<open>
  The tools that \<open>/v1/mcp/tools\<close> advertises (\<open>mcp/tools.py\<close>), with the JSON schemas of their inputs and
  outputs, and how they agree with the request classes of the dispatcher (\<open>mcp/schemas.py\<close>,
  \<open>mcp/router.py\<close>), with its versions and with its scopes. The keywords of JSON Schema that the
  catalogue uses are interpreted; whether a text is a UUID is a parameter.
\<close>

section \<open>The catalogue\<close>

definition scan_input_schema :: json where
  "scan_input_schema =
     JObj [
       (lit ''type'', jstr ''object''),
       (lit ''required'', JArr [jstr ''document'', jstr ''policy_name'']),
       (lit ''properties'', JObj [
         (lit ''document'', JObj [
           (lit ''type'', jstr ''string''),
           (lit ''description'', jstr ''Document content to scan (text or base64 for binary)'')]),
         (lit ''document_encoding'', JObj [
           (lit ''type'', jstr ''string''),
           (lit ''enum'', JArr [jstr ''text'', jstr ''base64'']),
           (lit ''default'', jstr ''text'')]),
         (lit ''policy_name'', JObj [(lit ''type'', jstr ''string''), (lit ''description'', jstr ''Name of the OPA policy to apply'')]),
         (lit ''policy_version'', JObj [
           (lit ''type'', jstr ''string''),
           (lit ''description'', jstr ''Specific policy version (semver). Defaults to latest.'')])])]"

definition scan_output_schema :: json where
  "scan_output_schema =
     JObj [
       (lit ''type'', jstr ''object''),
       (lit ''properties'', JObj [
         (lit ''trace_id'', JObj [(lit ''type'', jstr ''string''), (lit ''format'', jstr ''uuid'')]),
         (lit ''artifact_digest'', JObj [(lit ''type'', jstr ''string'')]),
         (lit ''policy_version'', JObj [(lit ''type'', jstr ''string'')]),
         (lit ''findings'', JObj [
           (lit ''type'', jstr ''array''),
           (lit ''items'', JObj [
             (lit ''type'', jstr ''object''),
             (lit ''properties'', JObj [
               (lit ''id'', JObj [(lit ''type'', jstr ''string''), (lit ''format'', jstr ''uuid'')]),
               (lit ''detector'', JObj [(lit ''type'', jstr ''string'')]),
               (lit ''rule_id'', JObj [(lit ''type'', jstr ''string'')]),
               (lit ''span_start'', JObj [(lit ''type'', jstr ''integer'')]),
               (lit ''span_end'', JObj [(lit ''type'', jstr ''integer'')]),
               (lit ''confidence'', JObj [(lit ''type'', jstr ''number''), (lit ''minimum'', JInt 0), (lit ''maximum'', JInt 1)]),
               (lit ''severity'', JObj [
                 (lit ''type'', jstr ''string''),
                 (lit ''enum'', JArr [jstr ''low'', jstr ''medium'', jstr ''high'', jstr ''critical''])]),
               (lit ''explanation'', JObj [(lit ''type'', jstr ''object'')])])])]),
         (lit ''requires_human_review'', JObj [(lit ''type'', jstr ''boolean'')]),
         (lit ''sanitized_document'', JObj [
           (lit ''type'', jstr ''string''),
           (lit ''description'', jstr ''The document with all PII/secret spans replaced by [REDACTED]. Use this field to safely pass the document to an LLM. Null if the operation is still pending or requires human review.'')])])]"

definition scan_tool :: json where
  "scan_tool =
     JObj [(lit ''name'', jstr ''safecontext.scan''), (lit ''version'', jstr ''1.0.0''),
       (lit ''description'', jstr ''Scan a document for PII, secrets, and sensitive data. Returns findings with full explanation.''),
       (lit ''input_schema'', scan_input_schema), (lit ''output_schema'', scan_output_schema)]"

definition sanitize_input_schema :: json where
  "sanitize_input_schema =
     JObj [
       (lit ''type'', jstr ''object''),
       (lit ''required'', JArr [jstr ''trace_id'', jstr ''redaction_type'']),
       (lit ''properties'', JObj [
         (lit ''trace_id'', JObj [(lit ''type'', jstr ''string''), (lit ''format'', jstr ''uuid'')]),
         (lit ''redaction_type'', JObj [(lit ''type'', jstr ''string''), (lit ''enum'', JArr [jstr ''mask'', jstr ''remove'', jstr ''replace''])]),
         (lit ''replacement_token'', JObj [(lit ''type'', jstr ''string'')])])]"

definition sanitize_output_schema :: json where
  "sanitize_output_schema =
     JObj [
       (lit ''type'', jstr ''object''),
       (lit ''properties'', JObj [
         (lit ''trace_id'', JObj [(lit ''type'', jstr ''string''), (lit ''format'', jstr ''uuid'')]),
         (lit ''sanitized_document'', JObj [(lit ''type'', jstr ''string'')]),
         (lit ''sanitized_artifact_digest'', JObj [(lit ''type'', jstr ''string'')]),
         (lit ''redaction_map'', JObj [
           (lit ''type'', jstr ''array''),
           (lit ''items'', JObj [
             (lit ''type'', jstr ''object''),
             (lit ''properties'', JObj [
               (lit ''finding_id'', JObj [(lit ''type'', jstr ''string''), (lit ''format'', jstr ''uuid'')]),
               (lit ''span_start'', JObj [(lit ''type'', jstr ''integer'')]),
               (lit ''span_end'', JObj [(lit ''type'', jstr ''integer'')]),
               (lit ''redaction_type'', JObj [(lit ''type'', jstr ''string'')]),
               (lit ''policy_version'', JObj [(lit ''type'', jstr ''string'')])])])])])]"

definition sanitize_tool :: json where
  "sanitize_tool =
     JObj [(lit ''name'', jstr ''safecontext.sanitize''), (lit ''version'', jstr ''1.0.0''),
       (lit ''description'', jstr ''Sanitize a document based on scan findings. Returns sanitized document and redaction map.''),
       (lit ''input_schema'', sanitize_input_schema), (lit ''output_schema'', sanitize_output_schema)]"

definition classify_input_schema :: json where
  "classify_input_schema =
     JObj [
       (lit ''type'', jstr ''object''),
       (lit ''required'', JArr [jstr ''document'']),
       (lit ''properties'', JObj [(lit ''document'', JObj [(lit ''type'', jstr ''string'')])])]"

definition classify_output_schema :: json where
  "classify_output_schema =
     JObj [
       (lit ''type'', jstr ''object''),
       (lit ''properties'', JObj [
         (lit ''trace_id'', JObj [(lit ''type'', jstr ''string''), (lit ''format'', jstr ''uuid'')]),
         (lit ''overall_level'', JObj [
           (lit ''type'', jstr ''string''),
           (lit ''enum'', JArr [jstr ''public'', jstr ''internal'', jstr ''confidential'', jstr ''restricted''])]),
         (lit ''sections'', JObj [
           (lit ''type'', jstr ''array''),
           (lit ''items'', JObj [
             (lit ''type'', jstr ''object''),
             (lit ''properties'', JObj [
               (lit ''section_id'', JObj [(lit ''type'', jstr ''integer'')]),
               (lit ''level'', JObj [(lit ''type'', jstr ''string'')]),
               (lit ''justification'', JObj [(lit ''type'', jstr ''string'')])])])])])]"

definition classify_tool :: json where
  "classify_tool =
     JObj [(lit ''name'', jstr ''safecontext.classify''), (lit ''version'', jstr ''1.0.0''),
       (lit ''description'', jstr ''Classify document sensitivity level by section.''),
       (lit ''input_schema'', classify_input_schema), (lit ''output_schema'', classify_output_schema)]"

definition audit_input_schema :: json where
  "audit_input_schema =
     JObj [
       (lit ''type'', jstr ''object''),
       (lit ''required'', JArr [jstr ''trace_id'']),
       (lit ''properties'', JObj [
         (lit ''trace_id'', JObj [
           (lit ''type'', jstr ''string''),
           (lit ''format'', jstr ''uuid''),
           (lit ''description'', jstr ''Trace ID of the operation to audit'')])])]"

definition audit_output_schema :: json where
  "audit_output_schema =
     JObj [
       (lit ''type'', jstr ''object''),
       (lit ''properties'', JObj [
         (lit ''trace_id'', JObj [(lit ''type'', jstr ''string''), (lit ''format'', jstr ''uuid'')]),
         (lit ''exported_at'', JObj [(lit ''type'', jstr ''string''), (lit ''format'', jstr ''date-time'')]),
         (lit ''operation'', JObj [(lit ''type'', jstr ''object'')]),
         (lit ''findings'', JObj [(lit ''type'', jstr ''array''), (lit ''items'', JObj [(lit ''type'', jstr ''object'')])]),
         (lit ''redactions'', JObj [(lit ''type'', jstr ''array''), (lit ''items'', JObj [(lit ''type'', jstr ''object'')])]),
         (lit ''artifacts'', JObj [(lit ''type'', jstr ''array''), (lit ''items'', JObj [(lit ''type'', jstr ''object'')])]),
         (lit ''hmac_signature'', JObj [(lit ''type'', jstr ''string'')])])]"

definition audit_tool :: json where
  "audit_tool =
     JObj [(lit ''name'', jstr ''safecontext.audit''), (lit ''version'', jstr ''1.0.0''),
       (lit ''description'', jstr ''Return complete audit evidence for an operation given its trace_id. Includes operation metadata, findings, redactions, artifacts, and HMAC signature.''),
       (lit ''input_schema'', audit_input_schema), (lit ''output_schema'', audit_output_schema)]"

definition policy_get_input_schema :: json where
  "policy_get_input_schema =
     JObj [
       (lit ''type'', jstr ''object''),
       (lit ''required'', JArr [jstr ''policy_name'']),
       (lit ''properties'', JObj [
         (lit ''policy_name'', JObj [
           (lit ''type'', jstr ''string''),
           (lit ''description'', jstr (''Name of the policy to retrieve (e.g. '' @ [CHR 0x27] @ ''base'' @ [CHR 0x27] @ '')''))]),
         (lit ''policy_version'', JObj [
           (lit ''type'', jstr ''string''),
           (lit ''description'', jstr ''Specific semver version to retrieve. Defaults to active version.'')])])]"

definition policy_get_output_schema :: json where
  "policy_get_output_schema =
     JObj [
       (lit ''type'', jstr ''object''),
       (lit ''properties'', JObj [
         (lit ''policy_name'', JObj [(lit ''type'', jstr ''string'')]),
         (lit ''policy_version'', JObj [(lit ''type'', jstr ''string'')]),
         (lit ''policy'', JObj [(lit ''type'', jstr ''object''), (lit ''description'', jstr ''Raw policy rules from OPA'')])])]"

definition policy_get_tool :: json where
  "policy_get_tool =
     JObj [(lit ''name'', jstr ''safecontext.policy.get''), (lit ''version'', jstr ''1.0.0''),
       (lit ''description'', jstr ''Return the active OPA policy with its version. Optionally filter by policy_name or pin to a specific policy_version.''),
       (lit ''input_schema'', policy_get_input_schema), (lit ''output_schema'', policy_get_output_schema)]"

definition approve_input_schema :: json where
  "approve_input_schema =
     JObj [
       (lit ''type'', jstr ''object''),
       (lit ''required'', JArr [jstr ''finding_id'', jstr ''decision'', jstr ''justification'', jstr ''agent_client_id'']),
       (lit ''properties'', JObj [
         (lit ''finding_id'', JObj [(lit ''type'', jstr ''string''), (lit ''format'', jstr ''uuid'')]),
         (lit ''decision'', JObj [(lit ''type'', jstr ''string''), (lit ''enum'', JArr [jstr ''approve'', jstr ''reject''])]),
         (lit ''justification'', JObj [(lit ''type'', jstr ''string''), (lit ''minLength'', JInt 10)]),
         (lit ''agent_client_id'', JObj [
           (lit ''type'', jstr ''string''),
           (lit ''description'', jstr ''Identity of the delegated agent making the approval'')])])]"

definition approve_output_schema :: json where
  "approve_output_schema =
     JObj [
       (lit ''type'', jstr ''object''),
       (lit ''properties'', JObj [
         (lit ''finding_id'', JObj [(lit ''type'', jstr ''string''), (lit ''format'', jstr ''uuid'')]),
         (lit ''decision'', JObj [(lit ''type'', jstr ''string'')]),
         (lit ''trace_id'', JObj [(lit ''type'', jstr ''string''), (lit ''format'', jstr ''uuid'')]),
         (lit ''recorded_by'', JObj [(lit ''type'', jstr ''string'')])])]"

definition approve_tool :: json where
  "approve_tool =
     JObj [(lit ''name'', jstr ''safecontext.approve''), (lit ''version'', jstr ''1.1.0''),
       (lit ''description'', jstr ''Agent-delegated approval or rejection of an escalated finding. Requires delegated permission. Available from tool_version 1.1.0.''),
       (lit ''input_schema'', approve_input_schema), (lit ''output_schema'', approve_output_schema)]"

definition mcp_tools :: "json list" where
  "mcp_tools = [scan_tool, sanitize_tool, classify_tool, audit_tool, policy_get_tool, approve_tool]"

section \<open>JSON Schema\<close>

text \<open>\<open>type\<close> (the inputs are strings only), \<open>enum\<close>, \<open>format\<close> and \<open>minLength\<close> of a property.\<close>

definition key_of_obj :: "json \<Rightarrow> string \<Rightarrow> json option" where
  "key_of_obj j k = (case j of JObj kvs \<Rightarrow> map_of kvs (lit k) | _ \<Rightarrow> None)"

definition prop_accepts :: "(doc \<Rightarrow> bool) \<Rightarrow> json \<Rightarrow> json \<Rightarrow> bool" where
  "prop_accepts is_uuid p v =
     ((key_of_obj p ''type'' = Some (jstr ''string'') \<longrightarrow> (case v of JStr s \<Rightarrow> True | _ \<Rightarrow> False))
      \<and> (case key_of_obj p ''enum'' of Some (JArr vs) \<Rightarrow> v \<in> set vs | _ \<Rightarrow> True)
      \<and> (key_of_obj p ''format'' = Some (jstr ''uuid'') \<longrightarrow> (case v of JStr s \<Rightarrow> is_uuid s | _ \<Rightarrow> True))
      \<and> (case (key_of_obj p ''minLength'', v) of (Some (JInt n), JStr s) \<Rightarrow> n \<le> int (length s) | _ \<Rightarrow> True))"

definition schema_props :: "json \<Rightarrow> (doc \<times> json) list" where
  "schema_props sch = (case key_of_obj sch ''properties'' of Some (JObj ps) \<Rightarrow> ps | _ \<Rightarrow> [])"

definition schema_required :: "json \<Rightarrow> json list" where
  "schema_required sch = (case key_of_obj sch ''required'' of Some (JArr ks) \<Rightarrow> ks | _ \<Rightarrow> [])"

definition schema_accepts :: "(doc \<Rightarrow> bool) \<Rightarrow> json \<Rightarrow> (doc \<times> json) list \<Rightarrow> bool" where
  "schema_accepts is_uuid sch kvs \<longleftrightarrow>
     list_all (\<lambda>r. case r of JStr k \<Rightarrow> map_of kvs k \<noteq> None | _ \<Rightarrow> True) (schema_required sch)
     \<and> list_all (\<lambda>(k, p). case map_of kvs k of None \<Rightarrow> True | Some v \<Rightarrow> prop_accepts is_uuid p v) (schema_props sch)"

section \<open>The request classes\<close>

text \<open>
  A field of a Pydantic model: its name, its type, and whether it is required. A string field
  takes strings only, a literal one of its values, a UUID a text of one; unknown keys are ignored.
\<close>

datatype field_type = F_Str | F_Opt_Str | F_Uuid | F_Literal "string list"

definition field_accepts :: "(doc \<Rightarrow> bool) \<Rightarrow> field_type \<Rightarrow> json \<Rightarrow> bool" where
  "field_accepts is_uuid t v =
     (case (t, v) of
        (F_Str, JStr s) \<Rightarrow> True
      | (F_Opt_Str, JStr s) \<Rightarrow> True
      | (F_Opt_Str, JNull) \<Rightarrow> True
      | (F_Uuid, JStr s) \<Rightarrow> is_uuid s
      | (F_Literal xs, JStr s) \<Rightarrow> s \<in> set (map lit xs)
      | _ \<Rightarrow> False)"

type_synonym request_model = "(doc \<times> field_type \<times> bool) list"

definition model_accepts :: "(doc \<Rightarrow> bool) \<Rightarrow> request_model \<Rightarrow> (doc \<times> json) list \<Rightarrow> bool" where
  "model_accepts is_uuid m kvs \<longleftrightarrow>
     list_all (\<lambda>(k, t, req). case map_of kvs k of None \<Rightarrow> \<not> req | Some v \<Rightarrow> field_accepts is_uuid t v) m"

definition scan_tool_request :: request_model where
  "scan_tool_request = [(lit ''document'', F_Str, True), (lit ''document_encoding'', F_Literal [''text'', ''base64''], False),
     (lit ''policy_name'', F_Str, True), (lit ''policy_version'', F_Opt_Str, False)]"

definition sanitize_tool_request :: request_model where
  "sanitize_tool_request = [(lit ''trace_id'', F_Uuid, True), (lit ''redaction_type'', F_Literal [''mask'', ''remove'', ''replace''], True),
     (lit ''replacement_token'', F_Opt_Str, False)]"

definition classify_tool_request :: request_model where
  "classify_tool_request = [(lit ''document'', F_Str, True)]"

definition approve_tool_request :: request_model where
  "approve_tool_request = [(lit ''finding_id'', F_Uuid, True), (lit ''decision'', F_Literal [''approve'', ''reject''], True),
     (lit ''justification'', F_Str, True), (lit ''agent_client_id'', F_Str, True)]"

text \<open>The request class that the dispatcher uses for a tool, and the schema it advertises.\<close>

definition dispatched :: "(string \<times> json \<times> request_model) list" where
  "dispatched = [(''safecontext.scan'', scan_input_schema, scan_tool_request),
     (''safecontext.sanitize'', sanitize_input_schema, sanitize_tool_request),
     (''safecontext.classify'', classify_input_schema, classify_tool_request),
     (''safecontext.approve'', approve_input_schema, approve_tool_request)]"

section \<open>Schemas that imply the classes\<close>

text \<open>An executable check under which every input that a schema accepts fits a class.\<close>

definition prop_covers :: "json \<Rightarrow> field_type \<Rightarrow> bool" where
  "prop_covers p t \<longleftrightarrow> key_of_obj p ''type'' = Some (jstr ''string'')
     \<and> (case t of
          F_Uuid \<Rightarrow> key_of_obj p ''format'' = Some (jstr ''uuid'')
        | F_Literal xs \<Rightarrow> (case key_of_obj p ''enum'' of Some (JArr vs) \<Rightarrow> list_all (\<lambda>v. v \<in> set (map jstr xs)) vs | _ \<Rightarrow> False)
        | _ \<Rightarrow> True)"

definition schema_covers :: "json \<Rightarrow> request_model \<Rightarrow> bool" where
  "schema_covers sch m \<longleftrightarrow>
     list_all (\<lambda>(k, t, req). (req \<longrightarrow> JStr k \<in> set (schema_required sch))
        \<and> list_ex (\<lambda>(k', p). k' = k \<and> prop_covers p t) (schema_props sch)) m"

lemma prop_covers_accepts: "prop_covers p t \<Longrightarrow> prop_accepts is_uuid p v \<Longrightarrow> field_accepts is_uuid t v"
  by (cases v; cases t)
    (auto simp: prop_covers_def prop_accepts_def field_accepts_def list_all_iff jstr_def split: option.splits json.splits)

lemma schema_covers_accepts:
  assumes "schema_covers sch m" and "schema_accepts is_uuid sch kvs"
  shows "model_accepts is_uuid m kvs"
  unfolding model_accepts_def list_all_iff
proof (clarify)
  fix k t req
  assume "(k, t, req) \<in> set m"
  with assms(1) obtain p where p: "req \<longrightarrow> JStr k \<in> set (schema_required sch)" "(k, p) \<in> set (schema_props sch)" "prop_covers p t"
    by (auto simp: schema_covers_def list_all_iff list_ex_iff)
  show "case map_of kvs k of None \<Rightarrow> \<not> req | Some v \<Rightarrow> field_accepts is_uuid t v"
  proof (cases "map_of kvs k")
    case None
    with p(1) assms(2) show ?thesis by (force simp: schema_accepts_def list_all_iff)
  next
    case (Some v)
    with p(2) assms(2) have "prop_accepts is_uuid p v" by (force simp: schema_accepts_def list_all_iff)
    with prop_covers_accepts [OF p(3)] Some show ?thesis by simp
  qed
qed

lemma dispatched_cover: "list_all (\<lambda>(tool, sch, m). schema_covers sch m) dispatched"
  by code_simp

text \<open>
  the catalogue is true to the dispatcher. For each of the four tools that it runs, every input
  that the advertised schema accepts is accepted by the request class, so that no conforming client
  is refused for its input.
\<close>
theorem advertised_inputs_accepted:
  assumes "(tool, sch, m) \<in> set dispatched" and "schema_accepts is_uuid sch kvs"
  shows "model_accepts is_uuid m kvs"
  using dispatched_cover assms(1) schema_covers_accepts [OF _ assms(2)] by (force simp: list_all_iff)

lemma advertised_inputs_accepted_witness:
  "model_accepts (\<lambda>s. True) classify_tool_request [(lit ''document'', JStr [104, 105])]"
proof -
  have s: "schema_accepts (\<lambda>s. True) classify_input_schema [(lit ''document'', JStr [104, 105])]" by code_simp
  have "(''safecontext.classify'', classify_input_schema, classify_tool_request) \<in> set dispatched" by (simp add: dispatched_def)
  from advertised_inputs_accepted [OF this s] show ?thesis .
qed

definition advertised :: "(string \<times> string) list" where
  "advertised = [(''safecontext.scan'', ''1.0.0''), (''safecontext.sanitize'', ''1.0.0''), (''safecontext.classify'', ''1.0.0''),
     (''safecontext.audit'', ''1.0.0''), (''safecontext.policy.get'', ''1.0.0''), (''safecontext.approve'', ''1.1.0'')]"

lemma advertised_names:
  "map (\<lambda>j. (key_of_obj j ''name'', key_of_obj j ''version'')) mcp_tools = map (\<lambda>(n, v). (Some (jstr n), Some (jstr v))) advertised"
  by code_simp

lemma advertised_known: "(tool, version) \<in> set advertised \<Longrightarrow> map_of tool_scopes tool \<noteq> None \<and> (tool, version) \<in> set version_compat
    \<and> version \<in> set supported_versions"
proof -
  have "list_all (\<lambda>(tool, version). map_of tool_scopes tool \<noteq> None \<and> (tool, version) \<in> set version_compat
      \<and> version \<in> set supported_versions) advertised" by code_simp
  then show "(tool, version) \<in> set advertised \<Longrightarrow> ?thesis" by (auto simp: list_all_iff)
qed

text \<open>
  two advertised tools cannot be called. Every tool of the catalogue has a scope and a supported version, so
  the checks of the dispatcher let it pass; but for \<open>safecontext.audit\<close> and \<open>safecontext.policy.get\<close> it has no
  handler, and whatever the input is, the answer is 404 and nothing is stored.
\<close>
theorem advertised_tools_missing:
  assumes "j \<in> set mcp_tools"
  shows "\<exists>tool version. key_of_obj j ''name'' = Some (jstr tool) \<and> key_of_obj j ''version'' = Some (jstr version)
    \<and> map_of tool_scopes tool \<noteq> None \<and> (tool, version) \<in> set version_compat \<and> version \<in> set supported_versions
    \<and> (tool \<in> {''safecontext.audit'', ''safecontext.policy.get''} \<longleftrightarrow> tool \<notin> set (map fst dispatched))
    \<and> (tool \<notin> set (map fst dispatched) \<longrightarrow> run_tool env p tool version inp d = (d, Inl (HTTPException 404)))"
proof -
  from assms have "(key_of_obj j ''name'', key_of_obj j ''version'') \<in> set (map (\<lambda>j. (key_of_obj j ''name'', key_of_obj j ''version'')) mcp_tools)" by simp
  then obtain tool version where t: "key_of_obj j ''name'' = Some (jstr tool)" "key_of_obj j ''version'' = Some (jstr version)"
    "(tool, version) \<in> set advertised" unfolding advertised_names by auto
  from t(3) have "tool \<in> {''safecontext.audit'', ''safecontext.policy.get''} \<longleftrightarrow> tool \<notin> set (map fst dispatched)"
    by (auto simp: advertised_def dispatched_def)
  moreover have "tool \<notin> set (map fst dispatched) \<longrightarrow> run_tool env p tool version inp d = (d, Inl (HTTPException 404))"
    by (simp add: run_tool_def dispatched_def)
  ultimately show ?thesis using t(1,2) advertised_known [OF t(3)] by blast
qed

lemma advertised_tools_missing_witness:
  "audit_tool \<in> set mcp_tools \<and> (\<forall>env p inp d. run_tool env p ''safecontext.audit'' ''1.0.0'' inp d = (d, Inl (HTTPException 404)))"
proof -
  have m: "audit_tool \<in> set mcp_tools" by (simp add: mcp_tools_def)
  have n: "key_of_obj audit_tool ''name'' = Some (jstr ''safecontext.audit'')" "key_of_obj audit_tool ''version'' = Some (jstr ''1.0.0'')"
    by code_simp+
  have inj: "jstr a = jstr b \<longleftrightarrow> a = b" for a b by (simp add: jstr_def lit_inj)
  have a: "''safecontext.audit'' \<notin> set (map fst dispatched)" by (simp add: dispatched_def)
  have "run_tool env p ''safecontext.audit'' ''1.0.0'' inp d = (d, Inl (HTTPException 404))" for env p inp d
    using advertised_tools_missing [OF m, of env p inp d] n a by (auto simp only: inj option.inject)
  with m show ?thesis by blast
qed

text \<open>The converse fails: the class of the approval takes justifications that the schema refuses.\<close>

lemma short_justification_accepted:
  "\<exists>kvs. model_accepts (\<lambda>s. True) approve_tool_request kvs \<and> \<not> schema_accepts (\<lambda>s. True) approve_input_schema kvs"
proof -
  let ?kvs = "[(lit ''finding_id'', JStr []), (lit ''decision'', jstr ''approve''), (lit ''justification'', JStr []), (lit ''agent_client_id'', JStr [])]"
  have "model_accepts (\<lambda>s. True) approve_tool_request ?kvs" by code_simp
  moreover have "\<not> schema_accepts (\<lambda>s. True) approve_input_schema ?kvs" by code_simp
  ultimately show ?thesis by blast
qed

end
