(* ===== verification/Analyzer_Init.thy ===== *)
theory Analyzer_Init
  imports Service_Ops
begin

text \<open>
  How the worker threads of a process come to one analyzer (\<open>workers/ml/presidio_detector.py\<close>): the patterns of
  the recognizer for API keys, the construction of the engine, and \<open>_get_analyzer\<close> with its double-checked lock as a step
  relation over any number of threads. spaCy and Presidio are parameters.
\<close>

section \<open>Patterns of API keys\<close>

text \<open>The patterns as \<open>re\<close> reads their text; flags that Presidio adds on its own are not part of them.\<close>

record key_pattern =
  kp_name :: string
  kp_regex :: rx
  kp_score :: rat

definition alnum_char :: "nat \<Rightarrow> bool" where
  "alnum_char c \<longleftrightarrow> in_range_c 65 90 c \<or> in_range_c 97 122 c \<or> in_range_c 48 57 c"

definition upper_alnum :: "nat \<Rightarrow> bool" where
  "upper_alnum c \<longleftrightarrow> in_range_c 65 90 c \<or> in_range_c 48 57 c"

text \<open>\<open>[A-Za-z0-9\-_\.]\<close> ignoring case, with the letters that fold into the ranges.\<close>

definition dotted_char :: "nat \<Rightarrow> bool" where
  "dotted_char c \<longleftrightarrow> base64url_char c \<or> c = 46 \<or> c \<in> {304, 305, 383, 8490}"

text \<open>\<open>\bPREFIX[...]{lo,hi}\b\<close>, the shape of most of them.\<close>

definition keyed :: "string \<Rightarrow> (nat \<Rightarrow> bool) \<Rightarrow> nat \<Rightarrow> nat option \<Rightarrow> rx" where
  "keyed tag cls lo hi = rx_seqs [WordB, rx_word exactly tag, Rep cls lo hi, WordB]"

definition api_key_patterns :: "key_pattern list" where
  "api_key_patterns =
     [\<lparr>kp_name = ''openai_sk_key'', kp_regex = keyed ''sk-'' alnum_char 20 None, kp_score = 9 / 10\<rparr>,
      \<lparr>kp_name = ''openai_proj_key'', kp_regex = keyed ''sk-proj-'' base64url_char 20 None, kp_score = 9 / 10\<rparr>,
      \<lparr>kp_name = ''anthropic_key'', kp_regex = keyed ''sk-ant-'' base64url_char 10 None, kp_score = 9 / 10\<rparr>,
      \<lparr>kp_name = ''github_pat'', kp_regex = keyed ''ghp_'' alnum_char 36 None, kp_score = 9 / 10\<rparr>,
      \<lparr>kp_name = ''huggingface_token'', kp_regex = keyed ''hf_'' alnum_char 20 None, kp_score = 85 / 100\<rparr>,
      \<lparr>kp_name = ''slack_token'',
        kp_regex = rx_seqs [WordB, rx_word exactly ''xoxb-'', Rep (in_range_c 48 57) 1 None, rx_word exactly ''-'',
          Rep (in_range_c 48 57) 1 None, rx_word exactly ''-'', Rep alnum_char 1 None, WordB], kp_score = 9 / 10\<rparr>,
      \<lparr>kp_name = ''stripe_live_key'', kp_regex = keyed ''sk_live_'' alnum_char 24 None, kp_score = 95 / 100\<rparr>,
      \<lparr>kp_name = ''aws_access_key_id'', kp_regex = keyed ''AKIA'' upper_alnum 16 (Some 16), kp_score = 95 / 100\<rparr>,
      \<lparr>kp_name = ''bearer_token'',
        kp_regex = rx_seqs [WordB, rx_word icase ''Bearer'', Rep is_space 1 None, Rep dotted_char 20 None, WordB], kp_score = 8 / 10\<rparr>,
      \<lparr>kp_name = ''uuid_secret'',
        kp_regex = rx_seqs
          [rx_alts [rx_word icase ''secret'', rx_seqs [rx_word icase ''api'', Rep (\<lambda>c. c \<noteq> 10) 0 (Some 1), rx_word icase ''key''],
             rx_word icase ''token''],
           Rep is_space 0 None, Cls (\<lambda>c. c = 61 \<or> c = 58), Rep is_space 0 None,
           hexes 8, rx_word icase ''-'', hexes 4, rx_word icase ''-'', hexes 4, rx_word icase ''-'', hexes 4, rx_word icase ''-'',
           hexes 12], kp_score = 85 / 100\<rparr>]"

text \<open>Keys with a prefix are recognised wholly: greedily up to the boundary.\<close>

lemma rx_word_match:
  "rx_match u s (rx_word exactly w) i e \<longleftrightarrow> e = i + length w \<and> (\<forall>j < length w. i + j < length s \<and> s ! (i + j) = of_char (w ! j))"
proof (induction w arbitrary: i)
  case Nil
  show ?case by (auto intro: rx_eps)
next
  case (Cons c w)
  have "rx_match u s (rx_word exactly (c # w)) i e \<longleftrightarrow>
      i < length s \<and> s ! i = of_char c \<and> rx_match u s (rx_word exactly w) (Suc i) e"
    by (auto simp: exactly_def intro!: rx_seq [OF rx_cls])
  also have "\<dots> \<longleftrightarrow> e = i + length (c # w) \<and> (\<forall>j < length (c # w). i + j < length s \<and> s ! (i + j) = of_char ((c # w) ! j))"
    unfolding Cons.IH by (auto simp: less_Suc_eq_0_disj)
  finally show ?case .
qed

lemma keyed_match:
  assumes "\<forall>c \<in> set body. cls c" and "lo \<le> length body" and "\<forall>h. hi = Some h \<longrightarrow> length body \<le> h"
    and "word_boundary u (pre @ lit tag @ body @ post) (length pre)"
    and "word_boundary u (pre @ lit tag @ body @ post) (length pre + length tag + length body)"
  shows "rx_match u (pre @ lit tag @ body @ post) (keyed tag cls lo hi) (length pre) (length pre + length tag + length body)"
proof -
  let ?s = "pre @ lit tag @ body @ post" and ?i = "length pre" and ?j = "length pre + length tag"
  have w: "rx_match u ?s (rx_word exactly tag) ?i ?j"
    unfolding rx_word_match by (auto simp: nth_append)
  have r: "rx_match u ?s (Rep cls lo hi) ?j (?j + length body)"
  proof (rule rx_rep)
    show "\<forall>j < length body. cls (?s ! (?j + j))" using assms(1) by (auto simp: nth_append)
  qed (use assms(2,3) in auto)
  show ?thesis unfolding keyed_def rx_seqs.simps
    by (rule rx_seq [OF rx_wordb [OF assms(4)] rx_seq [OF w rx_seq [OF r rx_wordb [OF assms(5)]]]])
qed

section \<open>Construction\<close>

text \<open>
  \<open>_build_analyzer\<close>: what is missing is only logged; an exception of the check or of the loading leaves. \<open>engine\<close> stands
  for the construction of Presidio's engine with the model and the recognizers.
\<close>

definition build_analyzer ::
  "model_env \<Rightarrow> (string \<Rightarrow> 'nlp result) \<Rightarrow> unit result \<Rightarrow> ('nlp \<Rightarrow> key_pattern list \<Rightarrow> 'a result) \<Rightarrow> 'a result" where
  "build_analyzer m load analyzer engine =
     rbind (verify_models_available m load analyzer) (\<lambda>availability.
     rbind (load_spacy_nlp m load) (\<lambda>nlp. engine nlp api_key_patterns))"

section \<open>The double-checked lock\<close>

text \<open>
  Where a thread is in \<open>_get_analyzer\<close>: before the first check, at the lock, before the second
  check, building, leaving the \<open>with\<close> block in either way, before the final read, returned, raised.
\<close>

datatype 'a pc = First_Check | Acquire | Second_Check | Building | Leaving | Unwinding exn | Reading | Returned 'a | Raised exn

text \<open>\<open>an_attempts\<close> and \<open>an_built\<close> count the constructions that ended and that succeeded.\<close>

record 'a analyzer_state =
  an_cell :: "'a option"
  an_lock :: "nat option"
  an_pc :: "nat \<Rightarrow> 'a pc"
  an_attempts :: nat
  an_built :: nat

definition goto :: "nat \<Rightarrow> 'a pc \<Rightarrow> 'a analyzer_state \<Rightarrow> 'a analyzer_state" where
  "goto i p s = s\<lparr>an_pc := (an_pc s)(i := p)\<rparr>"

text \<open>One step of thread \<open>i\<close>; \<open>build k\<close> is the outcome of the construction number \<open>k\<close>. The final read takes what the class attribute holds.\<close>

inductive get_step :: "(nat \<Rightarrow> 'a result) \<Rightarrow> nat \<Rightarrow> 'a analyzer_state \<Rightarrow> 'a analyzer_state \<Rightarrow> bool" for build i s where
  first_none: "an_pc s i = First_Check \<Longrightarrow> an_cell s = None \<Longrightarrow> get_step build i s (goto i Acquire s)"
| first_some: "an_pc s i = First_Check \<Longrightarrow> an_cell s = Some a \<Longrightarrow> get_step build i s (goto i Reading s)"
| acquire: "an_pc s i = Acquire \<Longrightarrow> an_lock s = None \<Longrightarrow> get_step build i s (goto i Second_Check (s\<lparr>an_lock := Some i\<rparr>))"
| second_none: "an_pc s i = Second_Check \<Longrightarrow> an_cell s = None \<Longrightarrow> get_step build i s (goto i Building s)"
| second_some: "an_pc s i = Second_Check \<Longrightarrow> an_cell s = Some a \<Longrightarrow> get_step build i s (goto i Leaving s)"
| built: "an_pc s i = Building \<Longrightarrow> build (an_attempts s) = Inr a \<Longrightarrow>
    get_step build i s (goto i Leaving (s\<lparr>an_cell := Some a, an_attempts := Suc (an_attempts s), an_built := Suc (an_built s)\<rparr>))"
| failed: "an_pc s i = Building \<Longrightarrow> build (an_attempts s) = Inl e \<Longrightarrow>
    get_step build i s (goto i (Unwinding e) (s\<lparr>an_attempts := Suc (an_attempts s)\<rparr>))"
| release: "an_pc s i = Leaving \<Longrightarrow> get_step build i s (goto i Reading (s\<lparr>an_lock := None\<rparr>))"
| unwind: "an_pc s i = Unwinding e \<Longrightarrow> get_step build i s (goto i (Raised e) (s\<lparr>an_lock := None\<rparr>))"
| read_cell: "an_pc s i = Reading \<Longrightarrow> an_cell s = Some a \<Longrightarrow> get_step build i s (goto i (Returned a) s)"

inductive_cases get_stepE: "get_step build i s s'"

definition fresh :: "'a analyzer_state" where
  "fresh = \<lparr>an_cell = None, an_lock = None, an_pc = (\<lambda>i. First_Check), an_attempts = 0, an_built = 0\<rparr>"

text \<open>Runs of the threads below \<open>n\<close> in any order, with their number of steps.\<close>

inductive get_run :: "(nat \<Rightarrow> 'a result) \<Rightarrow> nat \<Rightarrow> nat \<Rightarrow> 'a analyzer_state \<Rightarrow> bool" for build n where
  start: "get_run build n 0 fresh"
| step: "get_run build n k s \<Longrightarrow> i < n \<Longrightarrow> get_step build i s s' \<Longrightarrow> get_run build n (Suc k) s'"

section \<open>One analyzer\<close>

definition holds_lock :: "'a pc \<Rightarrow> bool" where
  "holds_lock p = (case p of Second_Check \<Rightarrow> True | Building \<Rightarrow> True | Leaving \<Rightarrow> True | Unwinding e \<Rightarrow> True | _ \<Rightarrow> False)"

text \<open>
  The invariant: the threads inside the block are the owner of the lock; whoever builds does so on an empty cell; whoever
  reads finds the cell filled; what was returned is the cell; the cell was filled once, by a successful construction.
\<close>

definition analyzer_inv :: "(nat \<Rightarrow> 'a result) \<Rightarrow> 'a analyzer_state \<Rightarrow> bool" where
  "analyzer_inv build s \<longleftrightarrow>
     (\<forall>i. holds_lock (an_pc s i) \<longleftrightarrow> an_lock s = Some i)
     \<and> (\<forall>i. an_pc s i = Building \<longrightarrow> an_cell s = None)
     \<and> (\<forall>i. an_pc s i = Leaving \<or> an_pc s i = Reading \<longrightarrow> an_cell s \<noteq> None)
     \<and> (\<forall>i a. an_pc s i = Returned a \<longrightarrow> an_cell s = Some a)
     \<and> an_built s = (if an_cell s = None then 0 else 1)
     \<and> (case an_cell s of None \<Rightarrow> True | Some a \<Rightarrow> \<exists>k < an_attempts s. build k = Inr a)"

lemma analyzer_inv_fresh: "analyzer_inv build fresh"
  by (simp add: analyzer_inv_def fresh_def holds_lock_def)

lemma analyzer_inv_step: "get_step build i s s' \<Longrightarrow> analyzer_inv build s \<Longrightarrow> analyzer_inv build s'"
  by (erule get_stepE) (auto simp: analyzer_inv_def goto_def holds_lock_def split: if_splits pc.splits option.splits
      intro: less_SucI, metis option.inject)

lemma analyzer_inv_run: "get_run build n k s \<Longrightarrow> analyzer_inv build s"
  by (induction rule: get_run.induct) (auto intro: analyzer_inv_fresh analyzer_inv_step)

lemma analyzer_mutex: "analyzer_inv build s \<Longrightarrow> holds_lock (an_pc s i) \<Longrightarrow> holds_lock (an_pc s j) \<Longrightarrow> i = j"
  unfolding analyzer_inv_def by (metis option.inject)

text \<open>
  C39: whatever threads run and however they are interleaved, at most one analyzer is ever constructed, at most one thread
  is inside the locked block, every call that returns returns that same analyzer, and it is what some construction
  gave; a construction that raised leaves the lock free for the next.
\<close>
theorem analyzer_built_once:
  assumes "get_run build n k s"
  shows "an_built s \<le> 1
    \<and> (\<forall>i j. holds_lock (an_pc s i) \<and> holds_lock (an_pc s j) \<longrightarrow> i = j)
    \<and> (\<forall>i j a b. an_pc s i = Returned a \<and> an_pc s j = Returned b \<longrightarrow> a = b)
    \<and> (\<forall>i a. an_pc s i = Returned a \<longrightarrow> (\<exists>m < an_attempts s. build m = Inr a))
    \<and> ((\<forall>i. an_pc s i = First_Check \<or> (\<exists>e. an_pc s i = Raised e)) \<longrightarrow> an_lock s = None)"
proof -
  note inv = analyzer_inv_run [OF assms]
  have cell: "an_cell s = Some a \<and> (\<exists>m < an_attempts s. build m = Inr a)" if "an_pc s i = Returned a" for i a
  proof -
    from inv that have c: "an_cell s = Some a" unfolding analyzer_inv_def by blast
    with inv show ?thesis by (simp add: analyzer_inv_def)
  qed
  have "an_lock s = None" if "\<forall>i. an_pc s i = First_Check \<or> (\<exists>e. an_pc s i = Raised e)"
  proof (cases "an_lock s")
    case (Some i)
    with inv have "holds_lock (an_pc s i)" by (simp add: analyzer_inv_def)
    moreover from that have "an_pc s i = First_Check \<or> (\<exists>e. an_pc s i = Raised e)" by blast
    ultimately show ?thesis by (auto simp: holds_lock_def)
  qed
  moreover have "an_built s \<le> 1" using inv by (simp add: analyzer_inv_def)
  moreover have "a = b" if "an_pc s i = Returned a" "an_pc s j = Returned b" for i j a b
    using cell [OF that(1)] cell [OF that(2)] by simp
  ultimately show ?thesis using cell analyzer_mutex [OF inv] by blast
qed

section \<open>Every call ends\<close>

definition steps_left :: "'a pc \<Rightarrow> nat" where
  "steps_left p = (case p of First_Check \<Rightarrow> 6 | Acquire \<Rightarrow> 5 | Second_Check \<Rightarrow> 4 | Building \<Rightarrow> 3 | Leaving \<Rightarrow> 2 | Unwinding e \<Rightarrow> 1
     | Reading \<Rightarrow> 1 | Returned a \<Rightarrow> 0 | Raised e \<Rightarrow> 0)"

definition finished :: "'a pc \<Rightarrow> bool" where
  "finished p = (case p of Returned a \<Rightarrow> True | Raised e \<Rightarrow> True | _ \<Rightarrow> False)"

lemma get_step_rank:
  "get_step build i s s' \<Longrightarrow> Suc (steps_left (an_pc s' i)) \<le> steps_left (an_pc s i) \<and> (\<forall>j. j \<noteq> i \<longrightarrow> an_pc s' j = an_pc s j)"
  by (erule get_stepE) (simp_all add: goto_def steps_left_def)

lemma get_run_rank:
  "get_run build n k s \<Longrightarrow> k + (\<Sum>i<n. steps_left (an_pc s i)) \<le> 6 * n \<and> (\<forall>i \<ge> n. an_pc s i = First_Check)"
proof (induction rule: get_run.induct)
  case start
  show ?case by (simp add: fresh_def steps_left_def)
next
  case (step k s i s')
  have "(\<Sum>j<n. steps_left (an_pc s' j)) = steps_left (an_pc s' i) + (\<Sum>j \<in> {..<n} - {i}. steps_left (an_pc s' j))"
    and old: "(\<Sum>j<n. steps_left (an_pc s j)) = steps_left (an_pc s i) + (\<Sum>j \<in> {..<n} - {i}. steps_left (an_pc s j))"
    using step.hyps(2) by (simp_all add: sum.remove)
  moreover have "(\<Sum>j \<in> {..<n} - {i}. steps_left (an_pc s' j)) = (\<Sum>j \<in> {..<n} - {i}. steps_left (an_pc s j))"
    using get_step_rank [OF step.hyps(3)] by (intro sum.cong) auto
  moreover have "an_pc s' j = First_Check" if "n \<le> j" for j
    using that step.IH step.hyps(2) get_step_rank [OF step.hyps(3)] by (metis linorder_not_le)
  ultimately show ?case using step.IH get_step_rank [OF step.hyps(3)] by auto
qed

lemma unlocked_moves:
  assumes "analyzer_inv build s" and "\<not> finished (an_pc s i)" and "an_lock s = None \<or> holds_lock (an_pc s i)"
  shows "\<exists>s'. get_step build i s s'"
proof (cases "an_pc s i")
  case First_Check
  then show ?thesis by (cases "an_cell s") (blast intro: get_step.intros)+
next
  case Acquire
  with assms(3) show ?thesis by (auto simp: holds_lock_def intro: get_step.acquire)
next
  case Second_Check
  then show ?thesis by (cases "an_cell s") (blast intro: get_step.intros)+
next
  case Building
  then show ?thesis by (cases "build (an_attempts s)") (blast intro: get_step.intros)+
next
  case Reading
  with assms(1) obtain a where "an_cell s = Some a" unfolding analyzer_inv_def by blast
  with Reading show ?thesis by (blast intro: get_step.intros)
next
  case Leaving
  then show ?thesis by (blast intro: get_step.intros)
next
  case (Unwinding e)
  then show ?thesis by (blast intro: get_step.intros)
qed (use assms(2) in \<open>simp_all add: finished_def\<close>)

text \<open>
  C40: the double-checked lock ends. A run of \<open>n\<close> threads has at most \<open>6 * n\<close> steps, whatever the scheduler does and
  whichever constructions fail, and it never blocks: as long as some call has neither returned nor raised, some thread
  can move. So every run ends with all calls finished.
\<close>
theorem analyzer_init_ends:
  assumes "get_run build n k s"
  shows "k \<le> 6 * n \<and> ((\<exists>i < n. \<not> finished (an_pc s i)) \<longrightarrow> (\<exists>j < n. \<exists>s'. get_step build j s s'))"
proof -
  note inv = analyzer_inv_run [OF assms]
  have "\<exists>j < n. \<exists>s'. get_step build j s s'" if "i < n" "\<not> finished (an_pc s i)" for i
  proof (cases "an_lock s")
    case None
    with unlocked_moves [OF inv that(2)] that(1) show ?thesis by blast
  next
    case (Some j)
    with inv have h: "holds_lock (an_pc s j)" by (simp add: analyzer_inv_def)
    then have "\<not> finished (an_pc s j)" by (auto simp: holds_lock_def finished_def split: pc.splits)
    moreover have "j < n" using h get_run_rank [OF assms] by (cases "j < n") (auto simp: holds_lock_def)
    ultimately show ?thesis using unlocked_moves [OF inv] h by blast
  qed
  with get_run_rank [OF assms] show ?thesis by auto
qed

section \<open>Runs\<close>

text \<open>A construction that fails once; two threads, of which the second builds after the first has raised.\<close>

definition flaky :: "nat \<Rightarrow> string result" where
  "flaky k = (if k = 0 then Inl (PyExc ''OSError'') else Inr ''engine'')"

definition play :: "nat \<Rightarrow> string analyzer_state \<Rightarrow> string analyzer_state" where
  "play i s = (case an_pc s i of
     First_Check \<Rightarrow> goto i (if an_cell s = None then Acquire else Reading) s
   | Acquire \<Rightarrow> goto i Second_Check (s\<lparr>an_lock := Some i\<rparr>)
   | Second_Check \<Rightarrow> goto i (if an_cell s = None then Building else Leaving) s
   | Building \<Rightarrow> (case flaky (an_attempts s) of
        Inl e \<Rightarrow> goto i (Unwinding e) (s\<lparr>an_attempts := Suc (an_attempts s)\<rparr>)
      | Inr a \<Rightarrow> goto i Leaving (s\<lparr>an_cell := Some a, an_attempts := Suc (an_attempts s), an_built := Suc (an_built s)\<rparr>))
   | Leaving \<Rightarrow> goto i Reading (s\<lparr>an_lock := None\<rparr>)
   | Unwinding e \<Rightarrow> goto i (Raised e) (s\<lparr>an_lock := None\<rparr>)
   | Reading \<Rightarrow> (case an_cell s of Some a \<Rightarrow> goto i (Returned a) s | None \<Rightarrow> s)
   | _ \<Rightarrow> s)"

definition can_play :: "nat \<Rightarrow> string analyzer_state \<Rightarrow> bool" where
  "can_play i s \<longleftrightarrow> \<not> finished (an_pc s i) \<and> (an_pc s i = Acquire \<longrightarrow> an_lock s = None) \<and> (an_pc s i = Reading \<longrightarrow> an_cell s \<noteq> None)"

lemma play_step: "can_play i s \<Longrightarrow> get_step flaky i s (play i s)"
  by (cases "an_pc s i"; cases "an_cell s"; cases "flaky (an_attempts s)")
    (auto simp: play_def can_play_def finished_def intro: get_step.intros)

fun plays :: "nat list \<Rightarrow> string analyzer_state \<Rightarrow> bool \<times> string analyzer_state" where
  "plays [] s = (True, s)"
| "plays (i # is) s = (if i < 2 \<and> can_play i s then plays is (play i s) else (False, s))"

lemma plays_run: "plays is s = (True, s') \<Longrightarrow> get_run flaky 2 k s \<Longrightarrow> get_run flaky 2 (k + length is) s'"
proof (induction "is" arbitrary: k s)
  case (Cons i js)
  from Cons.prems(1) have c: "i < 2" "can_play i s" "plays js (play i s) = (True, s')" by (auto split: if_splits)
  from get_run.step [OF Cons.prems(2) c(1) play_step [OF c(2)]] Cons.IH [OF c(3)] show ?case by fastforce
qed simp

lemma two_threads:
  "\<exists>s. get_run flaky 2 11 s \<and> an_pc s 0 = Raised (PyExc ''OSError'') \<and> an_pc s 1 = Returned ''engine''"
proof -
  let ?is = "[0, 1, 0, 0, 0, 0, 1, 1, 1, 1, 1] :: nat list"
  have "fst (plays ?is fresh)" "an_pc (snd (plays ?is fresh)) 0 = Raised (PyExc ''OSError'')" "an_pc (snd (plays ?is fresh)) 1 = Returned ''engine''"
    by (simp_all add: play_def can_play_def finished_def flaky_def goto_def fresh_def)
  note facts = this
  have "plays ?is fresh = (True, snd (plays ?is fresh))" using facts(1) by (cases "plays ?is fresh") (simp only: fst_conv snd_conv)
  from plays_run [OF this get_run.start] have "get_run flaky 2 (0 + length ?is) (snd (plays ?is fresh))" .
  moreover have "0 + length ?is = 11" by simp
  ultimately have "get_run flaky 2 11 (snd (plays ?is fresh))" by (simp only:)
  with facts(2,3) show ?thesis by blast
qed

lemma analyzer_built_once_witness:
  "\<exists>s. get_run flaky 2 11 s \<and> an_pc s 1 = Returned ''engine'' \<and> an_built s \<le> 1"
proof -
  obtain s where s: "get_run flaky 2 11 s" "an_pc s 1 = Returned ''engine''" using two_threads by blast
  from analyzer_built_once [OF s(1)] s show ?thesis by blast
qed

lemma analyzer_init_ends_witness:
  "\<exists>s. get_run flaky 2 11 s \<and> an_pc s 0 = Raised (PyExc ''OSError'') \<and> (11 :: nat) \<le> 6 * 2"
proof -
  obtain s where s: "get_run flaky 2 11 s" "an_pc s 0 = Raised (PyExc ''OSError'')" using two_threads by blast
  from analyzer_init_ends [OF s(1)] s show ?thesis by blast
qed

end
