(* ===== verification/Spec2Isabelle.thy ===== *)
theory Spec2Isabelle
  imports Scan_Props Outbox_Relay Vault_Tsa Verify_Offline Rate_Limits Deployed_Db Compliance Internal_Auth Service_Ops Recall
    Bulk_Users Mcp_Tools Analyzer_Init
begin

text \<open>
  safeContext scans documents for personal data and secrets, redacts them, lets humans and
  agents review the findings, and keeps a signed, hash-chained audit trail. This library models the
  Python code of the API (\<open>apps/api\<close>), the workers (\<open>apps/workers\<close>), the offline verifier (\<open>apps/tools\<close>) and
  the user script (\<open>apps/infra/scripts\<close>) as functions, and proves what they guarantee and where they do not.

  \<^bold>\<open>How the parts interact.\<close> \<open>POST /v1/scan\<close> stores an operation and an outbox row in one transaction. The relay
  sends outbox rows to the Dramatiq actors: the detector stores merged findings and asks OPA
  for the policy, the sanitizer redacts, the re-scan escalates what is left, the auditor archives the document and
  seals the operation (hash, link to the previous hash of the tenant, Vault signature). Escalated
  operations wait for a reviewer or an agent. Exports, anchors and the offline verifier read the sealed
  rows; the purge deletes them. A database is the record \<open>db\<close> of its tables; a request or task is a function from it to
  the next database and a result, where \<open>Inl\<close> is the exception that leaves the code.

  \<^bold>\<open>Foundations.\<close>
  \<^item> \<open>Prelude\<close>, \<open>Py\_Text\<close>, \<open>Codec\<close>, \<open>Sha256\<close>, \<open>Hmac\<close>, \<open>Json\_Read\<close>: what the code uses of Python (strings as code points,
    UTF-8, UUIDs, ISO dates, Base64, hexadecimal, JSON both ways, SHA-256 on 32-bit words, HMAC), with injectivity
    and round-trip lemmas. The locales \<open>digest\_fn\<close> and \<open>json\_format\<close> hold what follows from a digest function and from the
    separators of a printer.
  \<^item> \<open>Data\_Model\<close> (\<open>db/models\<close>, \<open>db/enums.py\<close>): rows, tables, the constraints the models declare, and the invariant \<open>wf\_db\<close>.
    A delete of operations cascades along the foreign keys it is given (\<open>child\_keys\<close>).
  \<^item> \<open>Schema\_Sql\<close>, \<open>Migrations\<close>, \<open>Deployed\_Db\<close>: the DDL of the thirteen migrations run from an empty database, compared
    with the models; the purge under the foreign keys that the migrated schema has, and its row-level security.

  \<^bold>\<open>Detection and redaction.\<close> \<open>Regex\_Detector\<close> (the six rules over a backtracking matcher with a declarative
  semantics), \<open>Presidio\_Detector\<close>, \<open>Analyzer\_Init\<close> (the shared analyzer under its double-checked lock, as a step relation
  of threads), \<open>Merge\_Redact\<close> (merging and both redactors, refined to one left-to-right
  specification), \<open>Opa\_Client\<close>, \<open>Recall\<close> (the recall gauge).

  \<^bold>\<open>Workers.\<close> \<open>Workers\<close>, \<open>Worker\_Props\<close>, \<open>Scan\_Props\<close> (the six tasks; the locale \<open>task\_handler\<close> gives rollback and
  the constraints for all of them), \<open>Outbox\_Relay\<close> (relay and brokers; locale \<open>broker\_port\<close>), \<open>Service\_Ops\<close> (health, gauge,
  model loader, start-up).

  \<^bold>\<open>Evidence.\<close> \<open>Evidence\<close> (sealing and chain verification), \<open>Vault\_Tsa\<close>, \<open>Verify\_Offline\<close>, \<open>Audit\_Api\<close> (exports, anchors,
  SARIF), \<open>Compliance\<close>. Statements about tampering end in an explicit SHA-256 collision, never in an
  assumption that there is none.

  \<^bold>\<open>API.\<close> \<open>Access\<close> (tokens, roles, scopes), \<open>Rate\_Limits\<close> (locale \<open>window\_limiter\<close> on all three limiters), \<open>Api\_Base\<close>, \<open>Scan\_Api\<close>,
  \<open>Review\_Api\<close>, \<open>Listing\_Api\<close>, \<open>Retention\<close>, \<open>Mcp\_Api\<close>, \<open>Mcp\_Tools\<close>, \<open>Siem\<close>, \<open>Tenants\<close>, \<open>Tenant\_Rls\<close>, \<open>Internal\_Auth\<close>, \<open>Bulk\_Users\<close>.

  \<^bold>\<open>What the lemmas show.\<close> Invariants (\<open>wf\_db\<close> under every task and request, deletes with the keys of the models; the tenant table, the schema),
  functional behaviour of the handlers on every branch, refinement of the redactors to the spans the findings cover,
  at-least-once delivery with relay and detector at work, progress of the relay, the way of a scan from request to findings, bounds of the limiters, round trips of tokens, signatures, anchors, CEF lines and downgrades,
  and the divergences that the model exposes, each as a theorem with a concrete witness.

  \<^bold>\<open>Parameters.\<close> Code outside the repository is an argument: HTTP answers of Vault, OPA, Keycloak and the time-stamp
  authority, answers of Redis and the object store, the Presidio analyzer, PyJWT, the \<open>cryptography\<close> package, Unicode
  tables, generated identifiers, the foreign keys of the tables and the clock. Hypotheses about them state documented behaviour and are instantiated in the witnesses.

  \<^bold>\<open>Bounds and fuel.\<close> Loops over lists are structural; \<open>finditer\<close>, numerals and the hash blocks have measures; the
  eviction loop of the limiter is also given as a \<open>while\_option\<close> and proved to end. Endless loops
  (relay, polling, gauges) run over the list of their turns. Only the JSON reader has fuel, one more than
  twice the length of its text, and \<open>json\_loads\_total\<close> shows that it never runs out. Floating-point numbers are
  rationals; instants are microseconds.

  \<^bold>\<open>Not modelled.\<close> Settings declarations, application start and routing, SQLAlchemy engines and the Alembic runner, logging,
  tracing and metric declarations, signal handling and threads of the workers, the web interface (TypeScript),
  the Rego policies and the deployment files: they are configuration, third-party mechanisms or other languages. Log lines,
  durations and sleeping are left out of the modelled functions.
\<close>

end
